(* ===== verification/Prelude.thy ===== *)
theory Prelude
  imports Main "HOL-Library.Sublist" "HOL-Library.Char_ord" "HOL-Library.List_Lexorder"
begin

text \<open>
  Shared vocabulary of the development. A Go \<open>string\<close> is a byte sequence and so is an
  Isabelle \<^typ>\<open>string\<close> (a \<^typ>\<open>char\<close> is eight bits), so lengths, slices and
  comparisons here are Go's. The first part models the functions of the packages
  \<open>strings\<close>, \<open>net/url\<close> and \<open>time\<close> that the sources call. Where such a function needs a table
  that cannot be written down here (Unicode case mapping beyond ASCII, RE2 matching, HTML
  entities, URL parsing) it is a field of the record \<open>golib\<close>, an argument of the definitions
  that use it. The second part holds what the components share: iteration that stops at the
  first error, reachability of a step relation, and the interface of a system with an invariant.
\<close>

named_theorems go_defs \<open>definitions of the modelled Go library functions\<close>
named_theorems trim_facts \<open>facts on trimmed strings\<close>

type_synonym gotime = int
type_synonym duration = int
type_synonym regexp = "string \<Rightarrow> (nat \<times> nat) option"

subsection \<open>Bytes\<close>

definition byte :: "char \<Rightarrow> int" where
  "byte c = of_char c"

definition is_lower :: "char \<Rightarrow> bool" where
  "is_lower c = (97 \<le> byte c \<and> byte c \<le> 122)"

definition is_upper :: "char \<Rightarrow> bool" where
  "is_upper c = (65 \<le> byte c \<and> byte c \<le> 90)"

definition is_digit :: "char \<Rightarrow> bool" where
  "is_digit c = (48 \<le> byte c \<and> byte c \<le> 57)"

subsection \<open>Package strings\<close>

definition HasPrefix :: "string \<Rightarrow> string \<Rightarrow> bool" where
  [go_defs]: "HasPrefix s p = prefix p s"

definition HasSuffix :: "string \<Rightarrow> string \<Rightarrow> bool" where
  [go_defs]: "HasSuffix s p = suffix p s"

definition TrimPrefix :: "string \<Rightarrow> string \<Rightarrow> string" where
  [go_defs]: "TrimPrefix s p = (if HasPrefix s p then drop (length p) s else s)"

definition TrimSuffix :: "string \<Rightarrow> string \<Rightarrow> string" where
  [go_defs]: "TrimSuffix s p = (if HasSuffix s p then take (length s - length p) s else s)"

fun Contains :: "string \<Rightarrow> string \<Rightarrow> bool" where
  "Contains [] sub = (sub = [])"
| "Contains (c # cs) sub = (prefix sub (c # cs) \<or> Contains cs sub)"

definition ContainsAny :: "string \<Rightarrow> char list \<Rightarrow> bool" where
  [go_defs]: "ContainsAny s cs = list_ex (\<lambda>c. c \<in> set cs) s"

text \<open>\<open>strings.Split\<close> with a one-byte separator, \<open>strings.Cut\<close> and \<open>strings.Join\<close>.\<close>

fun Split :: "string \<Rightarrow> char \<Rightarrow> string list" where
  "Split [] sep = [[]]"
| "Split (c # cs) sep =
     (if c = sep then [] # Split cs sep
      else (case Split cs sep of [] \<Rightarrow> [[c]] | w # ws \<Rightarrow> (c # w) # ws))"

fun Cut :: "string \<Rightarrow> char \<Rightarrow> string \<times> string \<times> bool" where
  "Cut [] sep = ([], [], False)"
| "Cut (c # cs) sep =
     (if c = sep then ([], cs, True)
      else (case Cut cs sep of (b, a, found) \<Rightarrow> (c # b, a, found)))"

fun Join :: "string list \<Rightarrow> string \<Rightarrow> string" where
  "Join [] sep = []"
| "Join [w] sep = w"
| "Join (w # ws) sep = w @ sep @ Join ws sep"

text \<open>
  White space of \<open>unicode.IsSpace\<close>, each rune by its UTF-8 bytes. Because no UTF-8 encoding
  occurs inside another, trimming and splitting at these byte strings is trimming and splitting
  at the decoded runes, also in strings that are not valid UTF-8.
\<close>

definition space_runes :: "string list" where
  "space_runes =
     [[CHR 0x09], [CHR 0x0A], [CHR 0x0B], [CHR 0x0C], [CHR 0x0D], [CHR 0x20],
      [CHR 0xC2, CHR 0x85], [CHR 0xC2, CHR 0xA0], [CHR 0xE1, CHR 0x9A, CHR 0x80],
      [CHR 0xE2, CHR 0x80, CHR 0x80], [CHR 0xE2, CHR 0x80, CHR 0x81],
      [CHR 0xE2, CHR 0x80, CHR 0x82], [CHR 0xE2, CHR 0x80, CHR 0x83],
      [CHR 0xE2, CHR 0x80, CHR 0x84], [CHR 0xE2, CHR 0x80, CHR 0x85],
      [CHR 0xE2, CHR 0x80, CHR 0x86], [CHR 0xE2, CHR 0x80, CHR 0x87],
      [CHR 0xE2, CHR 0x80, CHR 0x88], [CHR 0xE2, CHR 0x80, CHR 0x89],
      [CHR 0xE2, CHR 0x80, CHR 0x8A], [CHR 0xE2, CHR 0x80, CHR 0xA8],
      [CHR 0xE2, CHR 0x80, CHR 0xA9], [CHR 0xE2, CHR 0x80, CHR 0xAF],
      [CHR 0xE2, CHR 0x81, CHR 0x9F], [CHR 0xE3, CHR 0x80, CHR 0x80]]"

definition head_rune :: "string list \<Rightarrow> string \<Rightarrow> string option" where
  "head_rune encs s = find (\<lambda>e. e \<noteq> [] \<and> prefix e s) encs"

lemma head_rune_Some:
  "head_rune encs s = Some e \<Longrightarrow> e \<in> set encs \<and> e \<noteq> [] \<and> prefix e s"
  by (auto simp: head_rune_def find_Some_iff)

lemma head_rune_shorter [simp]:
  "head_rune encs s = Some e \<Longrightarrow> length s - length e < length s"
  by (drule head_rune_Some) (auto simp: prefix_def)

function strip :: "string list \<Rightarrow> string \<Rightarrow> string" where
  "strip encs s = (case head_rune encs s of None \<Rightarrow> s | Some e \<Rightarrow> strip encs (drop (length e) s))"
  by pat_completeness auto
termination
  by (relation "measure (\<lambda>(encs, s). length s)") auto

declare strip.simps [simp del]

definition TrimLeftSpace :: "string \<Rightarrow> string" where
  "TrimLeftSpace s = strip space_runes s"

definition TrimRightSpace :: "string \<Rightarrow> string" where
  "TrimRightSpace s = rev (strip (map rev space_runes) (rev s))"

definition TrimSpace :: "string \<Rightarrow> string" where
  "TrimSpace s = TrimRightSpace (TrimLeftSpace s)"

text \<open>Only bytes of white space are removed, so a string that trims to nothing has no others.\<close>

lemma set_strip: "set s \<subseteq> set (strip encs s) \<union> \<Union> (set ` set encs)"
proof (induction encs s rule: strip.induct)
  case (1 encs s)
  show ?case
  proof (cases "head_rune encs s")
    case None
    then show ?thesis by (simp add: strip.simps [of encs s])
  next
    case (Some e)
    then have "e \<in> set encs" and s: "s = e @ drop (length e) s"
      using head_rune_Some [OF Some] by (auto simp: prefix_def)
    then have "set e \<subseteq> \<Union> (set ` set encs)" by blast
    moreover have "set s = set e \<union> set (drop (length e) s)" by (metis s set_append)
    ultimately show ?thesis using "1.IH" [OF Some] Some by (auto simp: strip.simps [of encs s])
  qed
qed

definition space_bytes :: "char set" where
  "space_bytes = \<Union> (set ` set space_runes)"

lemma TrimSpace_empty_bytes:
  assumes "TrimSpace s = []"
  shows "set s \<subseteq> space_bytes"
proof -
  have "set (TrimLeftSpace s) \<subseteq> space_bytes"
    using assms set_strip [of "rev (TrimLeftSpace s)" "map rev space_runes"]
    by (simp add: TrimSpace_def TrimRightSpace_def space_bytes_def image_image)
  then show ?thesis
    using set_strip [of s space_runes] by (auto simp: TrimLeftSpace_def space_bytes_def)
qed

lemma no_separator_in_space [simp]:
  "CHR '','' \<notin> space_bytes" "CHR ''/'' \<notin> space_bytes" "CHR ''.'' \<notin> space_bytes"
  by (simp_all add: space_bytes_def space_runes_def)

text \<open>\<open>strings.Fields\<close>: the maximal runs of non-space bytes.\<close>

function fields_from :: "string \<Rightarrow> string \<Rightarrow> string list" where
  "fields_from acc s =
     (case head_rune space_runes s of
        Some e \<Rightarrow> (if acc = [] then [] else [rev acc]) @ fields_from [] (drop (length e) s)
      | None \<Rightarrow> (case s of
            [] \<Rightarrow> (if acc = [] then [] else [rev acc])
          | c # cs \<Rightarrow> fields_from (c # acc) cs))"
  by pat_completeness auto
termination
  by (relation "measure (\<lambda>(acc, s). length s)") auto

declare fields_from.simps [simp del]

definition Fields :: "string \<Rightarrow> string list" where
  "Fields s = fields_from [] s"

text \<open>\<open>strings.ReplaceAll\<close> of a one-byte string.\<close>

definition replace_byte :: "string \<Rightarrow> char \<Rightarrow> string \<Rightarrow> string" where
  "replace_byte s c r = concat (map (\<lambda>x. if x = c then r else [x]) s)"

lemma replace_byte_gone: "c \<notin> set r \<Longrightarrow> c \<notin> set (replace_byte s c r)"
  by (auto simp: replace_byte_def)

lemma replace_byte_absent: "d \<notin> set s \<Longrightarrow> d \<notin> set r \<Longrightarrow> d \<notin> set (replace_byte s c r)"
  by (auto simp: replace_byte_def)

text \<open>
  \<open>strings.NewReplacer(\<dots>).Replace\<close>: at each position the first listed old string that occurs
  there is replaced, and the text put in is not looked at again.
\<close>

function replacer :: "(string \<times> string) list \<Rightarrow> string \<Rightarrow> string" where
  "replacer rules s =
     (case find (\<lambda>(old, new). old \<noteq> [] \<and> prefix old s) rules of
        Some (old, new) \<Rightarrow> new @ replacer rules (drop (length old) s)
      | None \<Rightarrow> (case s of [] \<Rightarrow> [] | c # cs \<Rightarrow> c # replacer rules cs))"
  by pat_completeness auto
termination
  by (relation "measure (\<lambda>(rules, s). length s)") (auto simp: find_Some_iff prefix_def)

declare replacer.simps [simp del]

text \<open>\<open>path/filepath\<close> on Unix: \<open>Clean\<close>, \<open>Join\<close> of two elements and \<open>IsAbs\<close>.\<close>

definition IsAbs :: "string \<Rightarrow> bool" where
  [go_defs]: "IsAbs p = HasPrefix p ''/''"

definition clean_elem :: "bool \<Rightarrow> string list \<Rightarrow> string \<Rightarrow> string list" where
  "clean_elem rooted out e =
     (if e = [] \<or> e = ''.'' then out
      else if e = ''..'' then
        (if out \<noteq> [] \<and> last out \<noteq> ''..'' then butlast out
         else if rooted then out else out @ [e])
      else out @ [e])"

definition Clean :: "string \<Rightarrow> string" where
  "Clean p =
     (let rooted = IsAbs p;
          body = Join (foldl (clean_elem rooted) [] (Split p CHR ''/'')) ''/'' in
      if rooted then CHR ''/'' # body else if body = [] then ''.'' else body)"

definition JoinPath :: "string \<Rightarrow> string \<Rightarrow> string" where
  "JoinPath a b =
     (if a = [] \<and> b = [] then []
      else if a = [] then Clean b
      else if b = [] then Clean a
      else Clean (a @ ''/'' @ b))"

subsection \<open>Library functions that are parameters\<close>

record gourl =
  u_scheme :: string
  u_user :: bool
  u_host :: string
  u_path :: string
  u_rawpath :: string
  u_rawquery :: string
  u_forceQuery :: bool
  u_fragment :: string

record golib =
  uni_lower :: "string \<Rightarrow> string"
  uni_upper :: "string \<Rightarrow> string"
  rx_compile :: "string \<Rightarrow> regexp option"
  html_unescape :: "string \<Rightarrow> string"
  url_parse :: "string \<Rightarrow> gourl option"
  url_redacted :: "gourl \<Rightarrow> string"
  read_cookies :: "string list \<Rightarrow> (string \<times> string) list"

definition is_ascii :: "char \<Rightarrow> bool" where
  "is_ascii c = (byte c < 128)"

definition ascii_lower :: "char \<Rightarrow> char" where
  "ascii_lower c = (if is_upper c then char_of (byte c + 32) else c)"

definition ascii_upper :: "char \<Rightarrow> char" where
  "ascii_upper c = (if is_lower c then char_of (byte c - 32) else c)"

text \<open>
  \<open>strings.ToLower\<close> and \<open>strings.ToUpper\<close> take a byte-wise path when every byte is ASCII and
  map runes through the Unicode tables otherwise.
\<close>

definition ToLower :: "golib \<Rightarrow> string \<Rightarrow> string" where
  "ToLower L s = (if list_all is_ascii s then map ascii_lower s else uni_lower L s)"

definition ToUpper :: "golib \<Rightarrow> string \<Rightarrow> string" where
  "ToUpper L s = (if list_all is_ascii s then map ascii_upper s else uni_upper L s)"

definition MatchString :: "regexp \<Rightarrow> string \<Rightarrow> bool" where
  "MatchString rx s = (rx s \<noteq> None)"

text \<open>
  A concrete instance of the parameters, used where a witness needs one: a pattern matches where it
  occurs literally and the empty pattern does not compile, entities are left alone, a URL is a
  scheme, a host and a path, and a \<open>Cookie\<close> line holds one cookie.
\<close>

fun find_index :: "string \<Rightarrow> nat \<Rightarrow> string \<Rightarrow> (nat \<times> nat) option" where
  "find_index pat i [] = (if pat = [] then Some (i, i) else None)"
| "find_index pat i (c # cs) =
     (if prefix pat (c # cs) then Some (i, i + length pat) else find_index pat (Suc i) cs)"

definition plain_url :: "string \<Rightarrow> gourl option" where
  "plain_url s =
     (let mk = (\<lambda>scheme rest. Some \<lparr>u_scheme = scheme, u_user = False, u_host = takeWhile (\<lambda>c. c \<noteq> CHR ''/'') rest,
            u_path = dropWhile (\<lambda>c. c \<noteq> CHR ''/'') rest, u_rawpath = [], u_rawquery = [], u_forceQuery = False, u_fragment = []\<rparr>) in
      if HasPrefix s ''http://'' then mk ''http'' (drop 7 s)
      else if HasPrefix s ''https://'' then mk ''https'' (drop 8 s)
      else if HasPrefix s ''//'' then mk [] (drop 2 s)
      else None)"

definition plain_lib :: golib where
  "plain_lib = \<lparr>uni_lower = (\<lambda>s. s), uni_upper = (\<lambda>s. s),
     rx_compile = (\<lambda>p. if p = [] then None else Some (find_index p 0)),
     html_unescape = (\<lambda>s. s), url_parse = plain_url,
     url_redacted = (\<lambda>u. u_scheme u @ ''://'' @ u_host u @ u_path u),
     read_cookies = (\<lambda>lines. map (\<lambda>l. case Cut l CHR ''='' of (n, v, _) \<Rightarrow> (n, v)) lines)\<rparr>"

subsection \<open>Package time\<close>

text \<open>
  A \<open>time.Time\<close> is its number of nanoseconds since the Unix epoch; the zero value is the
  first of January of the year 1. \<open>time.Time.Sub\<close> saturates at the ends of \<open>int64\<close>.
\<close>

definition time_zero :: gotime where
  "time_zero = - 62135596800000000000"

definition time_sub :: "gotime \<Rightarrow> gotime \<Rightarrow> duration" where
  "time_sub a b = max (- (2 ^ 63)) (min (2 ^ 63 - 1) (a - b))"

abbreviation (input) time_before :: "gotime \<Rightarrow> gotime \<Rightarrow> bool" where
  "time_before a b \<equiv> a < b"

definition second :: duration where
  "second = 1000000000"

definition minute :: duration where
  "minute = 60 * second"

lemma time_sub_small [simp]:
  "0 \<le> a - b \<Longrightarrow> a - b < 2 ^ 63 \<Longrightarrow> time_sub a b = a - b"
  by (simp add: time_sub_def)

lemma time_sub_le_diff: "0 \<le> a - b \<Longrightarrow> time_sub a b \<le> a - b"
  by (simp add: time_sub_def)

lemma time_sub_pos_iff: "0 < time_sub a b \<longleftrightarrow> b < a"
  by (auto simp: time_sub_def)

subsection \<open>Errors\<close>

text \<open>
  An error of \<open>fmt.Errorf\<close> or \<open>errors.New\<close> is its format and the values formatted into it;
  \<open>Wrapped\<close> also holds the errors joined behind its \<open>%w\<close>.
\<close>

datatype go_error = Errorf string "string list" | Wrapped string "string list" "go_error list"

definition wrap :: "string \<Rightarrow> string list \<Rightarrow> go_error list \<Rightarrow> go_error list" where
  "wrap fmt args es = (if es = [] then [] else [Wrapped fmt args es])"

lemma wrap_Nil [simp]: "wrap fmt args es = [] \<longleftrightarrow> es = []"
  by (simp add: wrap_def)

subsection \<open>Loops that stop at the first error\<close>

text \<open>
  \<open>fold_err f xs s\<close> runs the body \<open>f\<close> of a loop over \<open>xs\<close>; the first error ends the loop and
  is the result, as a \<open>return\<close> inside a Go loop is.
\<close>

fun fold_err :: "('a \<Rightarrow> 's \<Rightarrow> 'e + 's) \<Rightarrow> 'a list \<Rightarrow> 's \<Rightarrow> 'e + 's" where
  "fold_err f [] s = Inr s"
| "fold_err f (x # xs) s = (case f x s of Inl e \<Rightarrow> Inl e | Inr s' \<Rightarrow> fold_err f xs s')"

lemma fold_err_inv:
  assumes "\<And>x s s'. x \<in> set xs \<Longrightarrow> P s \<Longrightarrow> f x s = Inr s' \<Longrightarrow> P s'"
  shows "fold_err f xs s = Inr t \<Longrightarrow> P s \<Longrightarrow> P t"
  using assms
proof (induction xs arbitrary: s)
  case Nil
  then show ?case by simp
next
  case (Cons x xs)
  from Cons.prems obtain u where u: "f x s = Inr u" "fold_err f xs u = Inr t"
    by (auto split: sum.splits)
  moreover have "P u" using Cons.prems(2,3) u(1) by (meson list.set_intros(1))
  ultimately show ?case using Cons.IH Cons.prems(3) by (meson list.set_intros(2))
qed

lemma fold_err_append:
  "fold_err f (xs @ ys) s =
     (case fold_err f xs s of Inl e \<Rightarrow> Inl e | Inr s' \<Rightarrow> fold_err f ys s')"
  by (induction xs arbitrary: s) (auto split: sum.splits)

text \<open>
  \<open>collect f xs s\<close> is a loop that appends to a list of errors and goes on; \<open>s\<close> is what the
  loop carries, and the elements are returned as the body rewrote them.
\<close>

fun collect :: "('a \<Rightarrow> 's \<Rightarrow> 'a \<times> 's \<times> 'e list) \<Rightarrow> 'a list \<Rightarrow> 's \<Rightarrow> 'a list \<times> 's \<times> 'e list" where
  "collect f [] s = ([], s, [])"
| "collect f (x # xs) s =
     (case f x s of (x', s', es) \<Rightarrow>
        (case collect f xs s' of (xs', s'', es') \<Rightarrow> (x' # xs', s'', es @ es')))"

lemma collect_length: "collect f xs s = (ys, t, es) \<Longrightarrow> length ys = length xs"
  by (induction xs arbitrary: s ys t es) (auto split: prod.splits)

text \<open>The usual way a loop keeps names unique.\<close>

definition note_name :: "bool \<Rightarrow> 'k \<Rightarrow> 'e \<Rightarrow> 'e \<Rightarrow> 'k list \<Rightarrow> 'k list \<times> 'e list" where
  "note_name isempty n e_empty e_dup seen =
     (if isempty then (seen, [e_empty])
      else if n \<in> set seen then (seen, [e_dup])
      else (n # seen, []))"

lemma note_name_clean:
  "note_name isempty n e1 e2 seen = (seen', []) \<longleftrightarrow> \<not> isempty \<and> n \<notin> set seen \<and> seen' = n # seen"
  by (auto simp: note_name_def)

lemma collect_unique:
  assumes "collect f xs s = (ys, t, [])"
    and "\<And>x s x' s'. x \<in> set xs \<Longrightarrow> f x s = (x', s', []) \<Longrightarrow> key x \<notin> set s \<and> s' = key x # s \<and> P x"
  shows "set t = key ` set xs \<union> set s \<and> distinct (map key xs) \<and> key ` set xs \<inter> set s = {} \<and> list_all P xs"
  using assms
proof (induction xs arbitrary: s ys)
  case Nil
  then show ?case by simp
next
  case (Cons x xs)
  from Cons.prems(1) obtain x' s' ys' where f: "f x s = (x', s', [])"
    and c: "collect f xs s' = (ys', t, [])"
    by (auto split: prod.splits)
  have "x \<in> set (x # xs)" by simp
  from Cons.prems(2) [OF this f] have x: "key x \<notin> set s" "s' = key x # s" "P x" by blast+
  have "set t = key ` set xs \<union> set s' \<and> distinct (map key xs) \<and> key ` set xs \<inter> set s' = {} \<and> list_all P xs"
    by (rule Cons.IH [OF c]) (rule Cons.prems(2), rule list.set_intros(2))
  with x show ?case by auto
qed

lemma collect_clean_each:
  "collect f xs s = (ys, t, []) \<Longrightarrow> x \<in> set xs \<Longrightarrow> \<exists>u x' u'. f x u = (x', u', [])"
proof (induction xs arbitrary: s ys)
  case (Cons y xs)
  from Cons.prems(1) obtain y' s' ys' where f: "f y s = (y', s', [])" "collect f xs s' = (ys', t, [])"
    by (auto split: prod.splits)
  then show ?case using Cons.IH [OF f(2)] Cons.prems(2) by (cases "x = y") auto
qed simp

lemma list_all_map_snd: "list_all (\<lambda>x. P (snd x)) (enumerate n xs) = list_all P xs"
  by (induction xs arbitrary: n) auto

lemma map_snd_enumerate' [simp]: "map (\<lambda>x. f (snd x)) (enumerate n xs) = map f xs"
  by (induction xs arbitrary: n) auto

lemma in_enumerate: "x \<in> set xs \<Longrightarrow> \<exists>i. (i, x) \<in> set (enumerate n xs)"
  by (induction xs arbitrary: n) auto

lemma image_snd_enumerate [simp]: "(\<lambda>x. f (snd x)) ` set (enumerate n xs) = f ` set xs"
  by (induction xs arbitrary: n) auto

lemma collect_clean_inv:
  assumes "collect f xs s = (ys, t, [])" "I [] s"
    and "\<And>done x s x' s'. x \<in> set xs \<Longrightarrow> I done s \<Longrightarrow> f x s = (x', s', []) \<Longrightarrow> I (done @ [x']) s'"
  shows "I ys t"
proof -
  have "I (done @ ys) t" if "collect f xs s = (ys, t, [])" "I done s"
      "\<And>done x s x' s'. x \<in> set xs \<Longrightarrow> I done s \<Longrightarrow> f x s = (x', s', []) \<Longrightarrow> I (done @ [x']) s'" for "done" s ys
    using that
  proof (induction xs arbitrary: s ys "done")
    case Nil
    then show ?case by simp
  next
    case (Cons x xs)
    from Cons.prems(1) obtain x' s' ys' where f: "f x s = (x', s', [])"
      and c: "collect f xs s' = (ys', t, [])" and ys: "ys = x' # ys'"
      by (auto split: prod.splits)
    have "I (done @ [x']) s'" by (rule Cons.prems(3) [OF _ Cons.prems(2) f]) simp
    then have "I ((done @ [x']) @ ys') t"
      by (rule Cons.IH [OF c]) (rule Cons.prems(3), auto)
    with ys show ?case by simp
  qed
  from this [OF assms(1), of "[]", OF assms(2) assms(3)] show ?thesis by simp
qed

lemma find_append:
  "find P (xs @ ys) = (case find P xs of Some x \<Rightarrow> Some x | None \<Rightarrow> find P ys)"
  by (induction xs) auto

lemma find_SomeD:
  "find P xs = Some x \<Longrightarrow> \<exists>us vs. xs = us @ x # vs \<and> P x \<and> (\<forall>u\<in>set us. \<not> P u)"
proof (induction xs)
  case (Cons y ys)
  show ?case
  proof (cases "P y")
    case True
    with Cons.prems show ?thesis by (intro exI [of _ "[]"] exI [of _ ys]) auto
  next
    case False
    with Cons obtain us vs where "ys = us @ x # vs" "P x" "\<forall>u\<in>set us. \<not> P u" by auto
    with False show ?thesis by (intro exI [of _ "y # us"] exI [of _ vs]) auto
  qed
qed simp

lemma Split_ne [simp]: "Split s sep \<noteq> []"
  by (induction s) (auto split: list.splits)

lemma Split_append: "Split (xs @ sep # ys) sep = Split xs sep @ Split ys sep"
  by (induction xs) (auto split: list.splits)

lemma Split_no_sep: "sep \<notin> set s \<Longrightarrow> Split s sep = [s]"
  by (induction s) auto

subsection \<open>Reachable states and invariants\<close>

inductive reach :: "('s \<Rightarrow> bool) \<Rightarrow> ('s \<Rightarrow> 's \<Rightarrow> bool) \<Rightarrow> 's \<Rightarrow> bool"
  for init :: "'s \<Rightarrow> bool" and step :: "'s \<Rightarrow> 's \<Rightarrow> bool"
where
  reach_init: "init s \<Longrightarrow> reach init step s"
| reach_step: "reach init step s \<Longrightarrow> step s t \<Longrightarrow> reach init step t"

locale invariant_system =
  fixes init :: "'s \<Rightarrow> bool" and step :: "'s \<Rightarrow> 's \<Rightarrow> bool" and inv :: "'s \<Rightarrow> bool"
  assumes inv_init: "init s \<Longrightarrow> inv s"
    and inv_step: "inv s \<Longrightarrow> step s t \<Longrightarrow> inv t"
begin

lemma inv_reach: "reach init step s \<Longrightarrow> inv s"
  by (induction rule: reach.induct) (auto intro: inv_init inv_step)

lemma inv_steps: "step\<^sup>*\<^sup>* s t \<Longrightarrow> inv s \<Longrightarrow> inv t"
  by (induction rule: rtranclp_induct) (auto intro: inv_step)

end

end
