(* ===== verification/GoNet.thy ===== *)
theory GoNet
  imports Prelude "HOL-Library.Word"
begin

unbundle bit_operations_syntax

text \<open>
  The parts of Go's \<open>net\<close>, \<open>net/netip\<close> and \<open>strconv\<close> that the sources use: decimal printing,
  host-port splitting, IPv4 and IPv6 text, prefixes and their membership tests. A \<open>netip.Addr\<close>
  is an IPv4 address or an IPv6 address with a zone; a \<open>net.IP\<close> that came from \<open>net.ParseIP\<close> is
  always its 16-byte form.
\<close>

subsection \<open>Decimal and hexadecimal text\<close>

function nat_str :: "int \<Rightarrow> string" where
  "nat_str n = (if n < 10 then [char_of (48 + n)] else nat_str (n div 10) @ [char_of (48 + n mod 10)])"
  by pat_completeness auto
termination
  by (relation "measure nat") auto

declare nat_str.simps [simp del]

definition Itoa :: "int \<Rightarrow> string" where
  "Itoa i = (if i < 0 then CHR ''-'' # nat_str (- i) else nat_str i)"

definition dec_val :: "string \<Rightarrow> int" where
  "dec_val s = foldl (\<lambda>n c. 10 * n + (byte c - 48)) 0 s"

definition hex_digit :: "char \<Rightarrow> int option" where
  "hex_digit c =
     (if is_digit c then Some (byte c - 48)
      else if 97 \<le> byte c \<and> byte c \<le> 102 then Some (byte c - 87)
      else if 65 \<le> byte c \<and> byte c \<le> 70 then Some (byte c - 55)
      else None)"

definition is_hex :: "char \<Rightarrow> bool" where
  "is_hex c = (hex_digit c \<noteq> None)"

definition hex_val :: "string \<Rightarrow> int" where
  "hex_val s = foldl (\<lambda>n c. 16 * n + (case hex_digit c of None \<Rightarrow> 0 | Some d \<Rightarrow> d)) 0 s"

definition hex_char :: "int \<Rightarrow> char" where
  "hex_char k = (if k < 10 then char_of (48 + k) else char_of (87 + k))"

function hex_str :: "int \<Rightarrow> string" where
  "hex_str n = (if n < 16 then [hex_char n] else hex_str (n div 16) @ [hex_char (n mod 16)])"
  by pat_completeness auto
termination
  by (relation "measure nat") auto

declare hex_str.simps [simp del]

text \<open>\<open>strconv.Atoi\<close>: an optional sign, then digits, within \<open>int64\<close>.\<close>

definition Atoi :: "string \<Rightarrow> int option" where
  "Atoi s =
     (let (neg, ds) = (case s of [] \<Rightarrow> (False, [])
          | c # cs \<Rightarrow> if c = CHR ''-'' then (True, cs) else if c = CHR ''+'' then (False, cs) else (False, s));
          v = (if neg then - dec_val ds else dec_val ds) in
      if ds = [] \<or> \<not> list_all is_digit ds then None
      else if - (2 ^ 63) \<le> v \<and> v < 2 ^ 63 then Some v else None)"

subsection \<open>Addresses\<close>

datatype addr = V4 "32 word" | V6 "128 word" string

definition octet :: "string \<Rightarrow> int option" where
  "octet s =
     (if s \<noteq> [] \<and> list_all is_digit s \<and> length s \<le> 3 \<and> (hd s = CHR ''0'' \<longrightarrow> length s = 1)
         \<and> dec_val s \<le> 255
      then Some (dec_val s) else None)"

definition parse_octets :: "string \<Rightarrow> (int \<times> int \<times> int \<times> int) option" where
  "parse_octets s =
     (case map octet (Split s CHR ''.'') of
        [Some a, Some b, Some c, Some d] \<Rightarrow> Some (a, b, c, d)
      | _ \<Rightarrow> None)"

definition parseIPv4 :: "string \<Rightarrow> addr option" where
  "parseIPv4 s = map_option
     (\<lambda>(a, b, c, d). V4 (word_of_int (((a * 256 + b) * 256 + c) * 256 + d))) (parse_octets s)"

lemma dropWhile_shorter:
  assumes "dropWhile P s = c # r"
  shows "length r < length s" "length r - Suc 0 < length s"
proof -
  have "length (dropWhile P s) \<le> length s" by (rule length_dropWhile_le)
  with assms show "length r < length s" "length r - Suc 0 < length s" by auto
qed

lemma dropWhile_shorter_sym:
  assumes "c # r = dropWhile P s"
  shows "length r < length s" "length r - Suc 0 < length s"
  using dropWhile_shorter [OF assms [symmetric]] by auto

text \<open>The loop of \<open>netip.parseIPv6\<close>: the groups read so far and where the ellipsis stood.\<close>

function parse_groups :: "int list \<Rightarrow> nat option \<Rightarrow> string \<Rightarrow> (int list \<times> nat option) option" where
  "parse_groups gs ell s =
     (if 8 \<le> length gs then (if s = [] then Some (gs, ell) else None)
      else let h = takeWhile is_hex s; r = dropWhile is_hex s in
        if h = [] \<or> 4 < length h then None
        else if r \<noteq> [] \<and> hd r = CHR ''.'' then
          (if ell = None \<and> length gs \<noteq> 6 then None
           else if 6 < length gs then None
           else map_option (\<lambda>(a, b, c, d). (gs @ [a * 256 + b, c * 256 + d], ell)) (parse_octets s))
        else let gs' = gs @ [hex_val h] in
          (case r of
             [] \<Rightarrow> Some (gs', ell)
           | c # r1 \<Rightarrow>
               if c \<noteq> CHR '':'' \<or> r1 = [] then None
               else if hd r1 = CHR '':'' then
                 (if ell \<noteq> None then None
                  else if tl r1 = [] then Some (gs', Some (length gs'))
                  else parse_groups gs' (Some (length gs')) (tl r1))
               else parse_groups gs' ell r1))"
  by pat_completeness auto
termination
  by (relation "measure (\<lambda>(gs, ell, s). length s)") (auto simp: dropWhile_shorter dropWhile_shorter_sym)

declare parse_groups.simps [simp del]

definition expand_groups :: "int list \<times> nat option \<Rightarrow> int list option" where
  "expand_groups = (\<lambda>(gs, ell).
     if length gs < 8
     then map_option (\<lambda>e. take e gs @ replicate (8 - length gs) 0 @ drop e gs) ell
     else if ell \<noteq> None then None else Some gs)"

definition groups_word :: "int list \<Rightarrow> 128 word" where
  "groups_word gs = word_of_int (foldl (\<lambda>n g. n * 65536 + g) 0 gs)"

definition parseIPv6 :: "string \<Rightarrow> addr option" where
  "parseIPv6 inp =
     (let (s, zone, found) = Cut inp CHR ''%'' in
      if found \<and> zone = [] then None
      else if HasPrefix s ''::'' then
        (if length s = 2 then Some (V6 0 zone)
         else map_option (\<lambda>gs. V6 (groups_word gs) zone)
           (Option.bind (parse_groups [] (Some 0) (drop 2 s)) expand_groups))
      else map_option (\<lambda>gs. V6 (groups_word gs) zone)
           (Option.bind (parse_groups [] None s) expand_groups))"

definition ParseAddr :: "string \<Rightarrow> addr option" where
  "ParseAddr s =
     (case find (\<lambda>c. c = CHR ''.'' \<or> c = CHR '':'' \<or> c = CHR ''%'') s of
        None \<Rightarrow> None
      | Some c \<Rightarrow> if c = CHR ''.'' then parseIPv4 s
                  else if c = CHR '':'' then parseIPv6 s else None)"

fun has_zone :: "addr \<Rightarrow> bool" where
  "has_zone (V4 a) = False"
| "has_zone (V6 a z) = (z \<noteq> [])"

fun bit_len :: "addr \<Rightarrow> nat" where
  "bit_len (V4 a) = 32"
| "bit_len (V6 a z) = 128"

definition to4 :: "128 word \<Rightarrow> 32 word option" where
  "to4 a = (if drop_bit 32 a = 65535 then Some (ucast a) else None)"

fun Unmap :: "addr \<Rightarrow> addr" where
  "Unmap (V4 a) = V4 a"
| "Unmap (V6 a z) = (case to4 a of Some b \<Rightarrow> V4 b | None \<Rightarrow> V6 a z)"

definition As16 :: "32 word \<Rightarrow> 128 word" where
  "As16 a = push_bit 32 65535 OR ucast a"

subsection \<open>Printing\<close>

definition v4_str :: "32 word \<Rightarrow> string" where
  "v4_str a = (let n = uint a in
     nat_str (n div 16777216) @ ''.'' @ nat_str (n div 65536 mod 256) @ ''.''
     @ nat_str (n div 256 mod 256) @ ''.'' @ nat_str (n mod 256))"

definition word_groups :: "128 word \<Rightarrow> int list" where
  "word_groups a = map (\<lambda>i. uint a div 65536 ^ i mod 65536) [7, 6, 5, 4, 3, 2, 1, 0]"

text \<open>The first longest run of at least two zero groups, as a start and a length.\<close>

definition zero_run :: "int list \<Rightarrow> nat \<Rightarrow> nat" where
  "zero_run gs i = length (takeWhile (\<lambda>g. g = 0) (drop i gs))"

definition best_run :: "int list \<Rightarrow> (nat \<times> nat) option" where
  "best_run gs = foldl (\<lambda>best i.
      let n = zero_run gs i in
      if n \<ge> 2 \<and> (case best of None \<Rightarrow> True | Some (_, m) \<Rightarrow> m < n) then Some (i, n) else best)
    None [0..<8]"

definition v6_str :: "128 word \<Rightarrow> string" where
  "v6_str a = (let gs = word_groups a in
     case best_run gs of
       None \<Rightarrow> Join (map hex_str gs) '':''
     | Some (i, n) \<Rightarrow> Join (map hex_str (take i gs)) '':'' @ ''::'' @ Join (map hex_str (drop (i + n) gs)) '':'')"

fun addr_str :: "addr \<Rightarrow> string" where
  "addr_str (V4 a) = v4_str a"
| "addr_str (V6 a z) =
     (case to4 a of Some b \<Rightarrow> ''::ffff:'' @ v4_str b | None \<Rightarrow> v6_str a)
     @ (if z = [] then [] else CHR ''%'' # z)"

subsection \<open>Prefixes (net/netip)\<close>

datatype netprefix = Pfx addr nat

fun prefix_bits :: "netprefix \<Rightarrow> nat" where
  "prefix_bits (Pfx a n) = n"

fun without_zone :: "addr \<Rightarrow> addr" where
  "without_zone (V4 a) = V4 a"
| "without_zone (V6 a z) = V6 a []"

definition PrefixFrom :: "addr \<Rightarrow> nat \<Rightarrow> netprefix" where
  "PrefixFrom a n = Pfx (without_zone a) n"

definition last_cut :: "string \<Rightarrow> char \<Rightarrow> (string \<times> string) option" where
  "last_cut s c =
     (case Cut (rev s) c of (b, a, found) \<Rightarrow> if found then Some (rev a, rev b) else None)"

definition ParsePrefix :: "string \<Rightarrow> netprefix option" where
  "ParsePrefix s =
     (case last_cut s CHR ''/'' of
        None \<Rightarrow> None
      | Some (ip, bs) \<Rightarrow>
          (case ParseAddr ip of
             None \<Rightarrow> None
           | Some a \<Rightarrow>
               if has_zone a then None
               else if 1 < length bs \<and> (byte (hd bs) < 49 \<or> 57 < byte (hd bs)) then None
               else (case Atoi bs of
                  None \<Rightarrow> None
                | Some n \<Rightarrow> if n < 0 \<or> int (bit_len a) < n then None else Some (PrefixFrom a (nat n)))))"

fun Masked :: "netprefix \<Rightarrow> netprefix" where
  "Masked (Pfx (V4 a) n) = Pfx (V4 (push_bit (32 - n) (drop_bit (32 - n) a))) n"
| "Masked (Pfx (V6 a z) n) = Pfx (V6 (push_bit (128 - n) (drop_bit (128 - n) a)) z) n"

fun prefix_contains :: "netprefix \<Rightarrow> addr \<Rightarrow> bool" where
  "prefix_contains (Pfx (V4 p) n) (V4 a) = (drop_bit (32 - n) (a XOR p) = 0)"
| "prefix_contains (Pfx (V6 p z) n) (V6 a za) = (za = [] \<and> drop_bit (128 - n) (a XOR p) = 0)"
| "prefix_contains _ _ = False"

fun prefix_str :: "netprefix \<Rightarrow> string" where
  "prefix_str (Pfx a n) = addr_str a @ ''/'' @ nat_str (int n)"

subsection \<open>net.IP and net.IPNet\<close>

definition ParseIP :: "string \<Rightarrow> 128 word option" where
  "ParseIP s = (case ParseAddr s of
      Some (V4 a) \<Rightarrow> Some (As16 a)
    | Some (V6 a z) \<Rightarrow> if z = [] then Some a else None
    | None \<Rightarrow> None)"

definition IP_str :: "128 word \<Rightarrow> string" where
  "IP_str ip = (case to4 ip of Some a \<Rightarrow> v4_str a | None \<Rightarrow> v6_str ip)"

definition IsLoopback :: "128 word \<Rightarrow> bool" where
  "IsLoopback ip = (case to4 ip of Some a \<Rightarrow> drop_bit 24 a = 127 | None \<Rightarrow> ip = 1)"

datatype ipnet = Net4 "32 word" nat | Net6 "128 word" nat

text \<open>\<open>net.dtoi\<close> reads decimal digits and fails at the value \<open>0xFFFFFF\<close>.\<close>

definition ParseCIDR :: "string \<Rightarrow> (128 word \<times> ipnet) option" where
  "ParseCIDR s =
     (case Cut s CHR ''/'' of (ip, mk, found) \<Rightarrow>
        if \<not> found \<or> mk = [] \<or> \<not> list_all is_digit mk then None
        else (case ParseAddr ip of
            Some (V4 a) \<Rightarrow> if dec_val mk \<le> 32
              then (let n = nat (dec_val mk) in
                    Some (As16 a, Net4 (push_bit (32 - n) (drop_bit (32 - n) a)) n))
              else None
          | Some (V6 a z) \<Rightarrow> if z = [] \<and> dec_val mk \<le> 128
              then (let n = nat (dec_val mk) in
                    Some (a, Net6 (push_bit (128 - n) (drop_bit (128 - n) a)) n))
              else None
          | None \<Rightarrow> None))"

fun ipnet_contains :: "ipnet \<Rightarrow> 128 word \<Rightarrow> bool" where
  "ipnet_contains (Net4 p n) ip =
     (case to4 ip of Some a \<Rightarrow> drop_bit (32 - n) (a XOR p) = 0 | None \<Rightarrow> False)"
| "ipnet_contains (Net6 p n) ip =
     (case to4 p of
        Some p4 \<Rightarrow> (case to4 ip of Some a \<Rightarrow> drop_bit (32 - (n - 96)) (a XOR p4) = 0 | None \<Rightarrow> False)
      | None \<Rightarrow> (case to4 ip of Some _ \<Rightarrow> False | None \<Rightarrow> drop_bit (128 - n) (ip XOR p) = 0))"

subsection \<open>net.SplitHostPort and net.JoinHostPort\<close>

definition index_of :: "char \<Rightarrow> string \<Rightarrow> nat option" where
  "index_of c s = (if c \<in> set s then Some (length (takeWhile (\<lambda>x. x \<noteq> c) s)) else None)"

definition SplitHostPort :: "string \<Rightarrow> (string \<times> string) option" where
  "SplitHostPort hp =
     (case last_cut hp CHR '':'' of
        None \<Rightarrow> None
      | Some (host, port) \<Rightarrow>
          if hd hp = CHR ''['' then
            (case index_of CHR '']'' hp of
               None \<Rightarrow> None
             | Some e \<Rightarrow>
                 if e + 1 \<noteq> length host then None
                 else if CHR ''['' \<in> set (drop 1 hp) \<or> CHR '']'' \<in> set (drop (e + 1) hp) then None
                 else Some (drop 1 (take e hp), port))
          else if CHR '':'' \<in> set host \<or> CHR ''['' \<in> set hp \<or> CHR '']'' \<in> set hp then None
          else Some (host, port))"

definition JoinHostPort :: "string \<Rightarrow> string \<Rightarrow> string" where
  "JoinHostPort host port =
     (if CHR '':'' \<in> set host then ''['' @ host @ '']:'' @ port else host @ '':'' @ port)"

subsection \<open>Facts on prefixes\<close>

lemma xor_shift_zero_iff:
  fixes a p :: "'w::len word"
  shows "drop_bit n (a XOR p) = 0 \<longleftrightarrow> drop_bit n a = drop_bit n p"
proof -
  have "x XOR y = 0 \<longleftrightarrow> x = y" for x y :: "'w word"
    by (metis xor.assoc xor.left_neutral xor_self_eq)
  then show ?thesis by simp
qed

lemma drop_push_drop [simp]:
  fixes a :: "'w::len word"
  shows "drop_bit n (push_bit n (drop_bit n a)) = drop_bit n a"
  by (rule bit_eqI) (auto simp: bit_simps dest: bit_imp_le_length)

lemma prefix_contains_full_v4 [simp]: "prefix_contains (Pfx (V4 p) 32) (V4 a) \<longleftrightarrow> a = p"
  using xor_shift_zero_iff [of 0 a p] by simp

lemma prefix_contains_Masked:
  "(case q of Pfx a n \<Rightarrow> n \<le> bit_len a) \<Longrightarrow> prefix_contains (Masked q) x = prefix_contains q x"
  by (cases "(q, x)" rule: prefix_contains.cases)
     (auto simp: xor_shift_zero_iff)

end
