(* ===== verification/Config.thy ===== *)
theory Config
  imports Prelude GoNet Complex_Main
begin

text \<open>
  The configuration of \<open>internal/config/config.go\<close>: its data, the defaults, and the validation
  that a configuration passes before anything is built from it. JSON decoding is not modelled;
  a value of \<open>config\<close> is what the decoder produced. Go maps are association lists, since only the
  set of their entries matters. Every error of the source is a constructor of \<open>go_error\<close>, and the
  value of \<open>errors.Join\<close> is the list of errors, empty for \<open>nil\<close>. \<open>Validate\<close> rewrites names and
  domains in place, so the model returns the configuration it leaves behind.
\<close>

subsection \<open>Data\<close>

record http_config =
  h_enabled :: bool
  h_listen :: string
  h_redirect :: bool

record https_config =
  hs_enabled :: bool
  hs_listen :: string
  hs_minTLS :: string

record admin_config =
  ad_enabled :: bool
  ad_listen :: string
  ad_tokenEnv :: string
  ad_allowPublic :: bool

record rate_limit_config =
  rl_enabled :: bool
  rl_rps :: rat
  rl_burst :: int
  rl_ttlSeconds :: int

record reputation_config =
  rep_enabled :: bool
  rep_mode :: string
  rep_entries :: "string list"
  rep_files :: "string list"

record security_config =
  sec_mode :: string
  sec_threshold :: int
  sec_maxBody :: int
  sec_maxHeader :: int
  sec_trusted :: "string list"
  sec_fwdHeader :: string
  sec_rateLimit :: rate_limit_config
  sec_reputation :: reputation_config

record rules_config =
  rules_builtins :: bool
  rules_files :: "string list"

record logging_config =
  log_access :: string
  log_security :: string

record origin_tls =
  ot_serverName :: string
  ot_caFile :: string
  ot_insecure :: bool

record pool_member =
  pm_id :: string
  pm_url :: string
  pm_enabled :: bool
  pm_weight :: int
  pm_priority :: int
  pm_backup :: bool
  pm_tls :: origin_tls

record health_config =
  hc_enabled :: bool
  hc_type :: string
  hc_interval :: int
  hc_timeout :: int
  hc_healthy :: int
  hc_unhealthy :: int
  hc_method :: string
  hc_path :: string
  hc_host :: string
  hc_statusMin :: int
  hc_statusMax :: int

record server_pool =
  sp_name :: string
  sp_enabled :: bool
  sp_algorithm :: string
  sp_failureMode :: string
  sp_members :: "pool_member list"
  sp_health :: health_config

record redirect_config =
  rd_url :: string
  rd_status :: int

record persistence_config =
  ps_mode :: string
  ps_cookie :: string
  ps_ttl :: int

record waf_policy =
  wp_mode :: string
  wp_threshold :: int
  wp_maxBody :: int
  wp_builtins :: "bool option"
  wp_ruleFiles :: "string list"
  wp_rateLimit :: "rate_limit_config option"
  wp_failMode :: string
  wp_allow :: "string list"
  wp_deny :: "string list"

record bot_policy =
  bp_enabled :: bool
  bp_mode :: string
  bp_rpm :: rat
  bp_burst :: int
  bp_bad :: "string list"
  bp_allow :: "string list"

record content_route =
  cr_name :: string
  cr_enabled :: bool
  cr_pool :: string
  cr_methods :: "string list"
  cr_pathPrefix :: string
  cr_pathPattern :: string
  cr_headerName :: string
  cr_headerPattern :: string
  cr_queryName :: string
  cr_queryPattern :: string

record frontend_tls =
  ft_cert :: string
  ft_key :: string

record virtual_host =
  vh_name :: string
  vh_enabled :: bool
  vh_domains :: "string list"
  vh_action :: string
  vh_upstream :: string
  vh_pool :: string
  vh_redirect :: redirect_config
  vh_discard :: int
  vh_preserveHost :: bool
  vh_frontTLS :: frontend_tls
  vh_originTLS :: origin_tls
  vh_persistence :: persistence_config
  vh_waf :: waf_policy
  vh_bot :: bot_policy
  vh_routes :: "content_route list"
  vh_reqHeaders :: "(string \<times> string) list"
  vh_respHeaders :: "(string \<times> string) list"

record config =
  c_version :: int
  c_http :: http_config
  c_https :: https_config
  c_admin :: admin_config
  c_security :: security_config
  c_rules :: rules_config
  c_logging :: logging_config
  c_pools :: "server_pool list"
  c_vhosts :: "virtual_host list"
  c_baseDir :: string

definition CurrentVersion :: int where
  "CurrentVersion = 1"

subsection \<open>Defaults\<close>

definition dflt :: "'a \<Rightarrow> 'a \<Rightarrow> 'a \<Rightarrow> 'a" where
  "dflt zero d v = (if v = zero then d else v)"

definition default_member :: "nat \<Rightarrow> pool_member \<Rightarrow> pool_member" where
  "default_member i m =
     (let trimmed = TrimSpace (pm_id m) in
      m\<lparr>pm_id := dflt [] (''member-'' @ Itoa (int i + 1)) trimmed,
        pm_weight := dflt 0 1 (pm_weight m), pm_priority := dflt 0 100 (pm_priority m)\<rparr>)"

definition default_health :: "health_config \<Rightarrow> health_config" where
  "default_health h =
     h\<lparr>hc_type := dflt [] ''http'' (hc_type h), hc_interval := dflt 0 10 (hc_interval h),
       hc_timeout := dflt 0 3 (hc_timeout h), hc_healthy := dflt 0 2 (hc_healthy h),
       hc_unhealthy := dflt 0 3 (hc_unhealthy h), hc_method := dflt [] ''GET'' (hc_method h),
       hc_path := dflt [] ''/'' (hc_path h), hc_statusMin := dflt 0 200 (hc_statusMin h),
       hc_statusMax := dflt 0 399 (hc_statusMax h)\<rparr>"

definition default_pool :: "server_pool \<Rightarrow> server_pool" where
  "default_pool p =
     p\<lparr>sp_name := TrimSpace (sp_name p), sp_algorithm := dflt [] ''round_robin'' (sp_algorithm p),
       sp_failureMode := dflt [] ''reject'' (sp_failureMode p), sp_health := default_health (sp_health p),
       sp_members := map (\<lambda>(i, m). default_member i m) (enumerate 0 (sp_members p))\<rparr>"

definition default_bot :: "bot_policy \<Rightarrow> bot_policy" where
  "default_bot b =
     b\<lparr>bp_mode := dflt [] ''monitor'' (bp_mode b),
       bp_rpm := (if bp_enabled b then dflt 0 300 (bp_rpm b) else bp_rpm b),
       bp_burst := (if bp_enabled b then dflt 0 60 (bp_burst b) else bp_burst b)\<rparr>"

definition default_vhost :: "virtual_host \<Rightarrow> virtual_host" where
  "default_vhost v =
     v\<lparr>vh_name := TrimSpace (vh_name v), vh_action := dflt [] ''group'' (vh_action v),
       vh_redirect := (vh_redirect v)\<lparr>rd_status := dflt 0 302 (rd_status (vh_redirect v))\<rparr>,
       vh_discard := dflt 0 403 (vh_discard v),
       vh_persistence := (vh_persistence v)\<lparr>ps_mode := dflt [] ''none'' (ps_mode (vh_persistence v)),
         ps_cookie := dflt [] ''CWAF_ROUTE'' (ps_cookie (vh_persistence v)),
         ps_ttl := dflt 0 3600 (ps_ttl (vh_persistence v))\<rparr>,
       vh_waf := (vh_waf v)\<lparr>wp_mode := dflt [] ''inherit'' (wp_mode (vh_waf v)),
         wp_failMode := dflt [] ''closed'' (wp_failMode (vh_waf v))\<rparr>,
       vh_bot := default_bot (vh_bot v)\<rparr>"

definition default_security :: "security_config \<Rightarrow> security_config" where
  "default_security s =
     s\<lparr>sec_mode := dflt [] ''blocking'' (sec_mode s), sec_threshold := dflt 0 10 (sec_threshold s),
       sec_maxBody := dflt 0 (2 ^ 20) (sec_maxBody s), sec_maxHeader := dflt 0 (2 ^ 20) (sec_maxHeader s),
       sec_fwdHeader := dflt [] ''X-Forwarded-For'' (sec_fwdHeader s),
       sec_rateLimit := (sec_rateLimit s)\<lparr>rl_rps := dflt 0 50 (rl_rps (sec_rateLimit s)),
         rl_burst := dflt 0 100 (rl_burst (sec_rateLimit s)),
         rl_ttlSeconds := dflt 0 600 (rl_ttlSeconds (sec_rateLimit s))\<rparr>,
       sec_reputation := (sec_reputation s)\<lparr>rep_mode := dflt [] ''monitor'' (rep_mode (sec_reputation s))\<rparr>\<rparr>"

definition applyDefaults :: "config \<Rightarrow> config" where
  "applyDefaults c =
     c\<lparr>c_version := dflt 0 CurrentVersion (c_version c),
       c_http := (c_http c)\<lparr>h_listen := dflt [] '':80'' (h_listen (c_http c))\<rparr>,
       c_https := (c_https c)\<lparr>hs_listen := dflt [] '':443'' (hs_listen (c_https c)),
         hs_minTLS := dflt [] ''1.2'' (hs_minTLS (c_https c))\<rparr>,
       c_admin := (c_admin c)\<lparr>ad_listen := dflt [] ''127.0.0.1:9090'' (ad_listen (c_admin c)),
         ad_tokenEnv := dflt [] ''CHERRYWAF_ADMIN_TOKEN'' (ad_tokenEnv (c_admin c))\<rparr>,
       c_security := default_security (c_security c),
       c_logging := (c_logging c)\<lparr>log_access := dflt [] ''-'' (log_access (c_logging c)),
         log_security := dflt [] ''-'' (log_security (c_logging c))\<rparr>,
       c_pools := map default_pool (c_pools c), c_vhosts := map default_vhost (c_vhosts c)\<rparr>"

subsection \<open>Errors\<close>

abbreviation UnsupportedVersion :: "int \<Rightarrow> go_error" where
  "UnsupportedVersion v \<equiv> Errorf ''unsupported config version %d; expected %d'' [Itoa v, Itoa CurrentVersion]"

abbreviation NoListener :: "go_error" where
  "NoListener \<equiv> Errorf ''at least one of http.enabled or https.enabled must be true'' []"

abbreviation BadListen :: "string \<Rightarrow> go_error" where
  "BadListen x \<equiv> Errorf ''%s.listen: %w'' [x]"

abbreviation BadTLSVersion :: "go_error" where
  "BadTLSVersion \<equiv> Errorf ''https.min_tls_version must be 1.2 or 1.3'' []"

abbreviation RedirectNeedsHTTPS :: "go_error" where
  "RedirectNeedsHTTPS \<equiv> Errorf ''http.redirect_to_https requires https.enabled=true'' []"

abbreviation AdminNotLoopback :: "go_error" where
  "AdminNotLoopback \<equiv> Errorf ''admin.listen must use a loopback address unless admin.allow_public=true'' []"

abbreviation AdminTokenEnv :: "go_error" where
  "AdminTokenEnv \<equiv> Errorf ''admin.token_env must not be empty'' []"

abbreviation BadMode :: "go_error" where
  "BadMode \<equiv> Errorf ''security.mode must be blocking or detect'' []"

abbreviation BadThreshold :: "go_error" where
  "BadThreshold \<equiv> Errorf ''security.block_threshold must be between 1 and 1000'' []"

abbreviation BadMaxBody :: "go_error" where
  "BadMaxBody \<equiv> Errorf ''security.max_body_bytes must be between 1024 and 134217728'' []"

abbreviation BadMaxHeader :: "go_error" where
  "BadMaxHeader \<equiv> Errorf ''security.max_header_bytes must be between 8192 and 16777216'' []"

abbreviation BadRate :: "string \<Rightarrow> go_error" where
  "BadRate x \<equiv> Errorf ''%s.requests_per_second must be greater than zero'' [x]"

abbreviation BadBurst :: "string \<Rightarrow> go_error" where
  "BadBurst x \<equiv> Errorf ''%s.burst must be at least one'' [x]"

abbreviation BadTTL :: "string \<Rightarrow> go_error" where
  "BadTTL x \<equiv> Errorf ''%s.entry_ttl_seconds must be at least 30'' [x]"

abbreviation BadForwardHeader :: "go_error" where
  "BadForwardHeader \<equiv> Errorf ''security.forwarded_for_header must be a valid HTTP header name'' []"

abbreviation BadTrustedCIDR :: "string \<Rightarrow> go_error" where
  "BadTrustedCIDR x \<equiv> Errorf ''security.trusted_proxies contains invalid CIDR %q'' [x]"

abbreviation BadReputationMode :: "go_error" where
  "BadReputationMode \<equiv> Errorf ''security.reputation.mode must be monitor or block'' []"

abbreviation BadReputationEntry :: "string \<Rightarrow> go_error" where
  "BadReputationEntry x \<equiv> Errorf ''security.reputation entry %q: %w'' [x]"

abbreviation EmptyReputationFile :: "go_error" where
  "EmptyReputationFile \<equiv> Errorf ''security.reputation.files must not contain empty paths'' []"

abbreviation PoolNameEmpty :: "nat \<Rightarrow> go_error" where
  "PoolNameEmpty i \<equiv> Errorf ''server_pools[%d].name must not be empty'' [Itoa (int i)]"

abbreviation PoolDuplicate :: "string \<Rightarrow> go_error" where
  "PoolDuplicate x \<equiv> Errorf ''duplicate server pool name %q'' [x]"

abbreviation PoolAlgorithm :: "string \<Rightarrow> string \<Rightarrow> go_error" where
  "PoolAlgorithm x y \<equiv> Errorf ''server pool %q uses unsupported algorithm %q'' [x, y]"

abbreviation PoolFailureMode :: "string \<Rightarrow> go_error" where
  "PoolFailureMode x \<equiv> Errorf ''server pool %q failure_mode must be reject or last_resort'' [x]"

abbreviation PoolNoMember :: "string \<Rightarrow> go_error" where
  "PoolNoMember x \<equiv> Errorf ''server pool %q must contain at least one member'' [x]"

abbreviation MemberIDEmpty :: "string \<Rightarrow> nat \<Rightarrow> go_error" where
  "MemberIDEmpty x i \<equiv> Errorf ''server pool %q member %d ID must not be empty'' [x, Itoa (int i)]"

abbreviation MemberDuplicate :: "string \<Rightarrow> string \<Rightarrow> go_error" where
  "MemberDuplicate x y \<equiv> Errorf ''server pool %q contains duplicate member ID %q'' [x, y]"

abbreviation MemberURL :: "string \<Rightarrow> string \<Rightarrow> go_error" where
  "MemberURL x y \<equiv> Errorf ''server pool %q member %q: %w'' [x, y]"

abbreviation MemberTLSPlain :: "string \<Rightarrow> string \<Rightarrow> go_error" where
  "MemberTLSPlain x y \<equiv> Errorf ''server pool %q member %q defines origin_tls for a plain HTTP URL'' [x, y]"

abbreviation MemberWeight :: "string \<Rightarrow> string \<Rightarrow> go_error" where
  "MemberWeight x y \<equiv> Errorf ''server pool %q member %q weight must be between 1 and 1000'' [x, y]"

abbreviation MemberPriority :: "string \<Rightarrow> string \<Rightarrow> go_error" where
  "MemberPriority x y \<equiv> Errorf ''server pool %q member %q priority must be between 1 and 1000'' [x, y]"

abbreviation PoolNoEnabled :: "string \<Rightarrow> go_error" where
  "PoolNoEnabled x \<equiv> Errorf ''server pool %q must contain at least one enabled member'' [x]"

abbreviation HealthType :: "go_error" where
  "HealthType \<equiv> Errorf ''type must be http or tcp'' []"

abbreviation HealthInterval :: "go_error" where
  "HealthInterval \<equiv> Errorf ''interval_seconds must be between 2 and 3600'' []"

abbreviation HealthTimeout :: "go_error" where
  "HealthTimeout \<equiv> Errorf ''timeout_seconds must be between 1 and 60'' []"

abbreviation HealthUp :: "go_error" where
  "HealthUp \<equiv> Errorf ''healthy_threshold must be between 1 and 20'' []"

abbreviation HealthDown :: "go_error" where
  "HealthDown \<equiv> Errorf ''unhealthy_threshold must be between 1 and 20'' []"

abbreviation HealthPath :: "go_error" where
  "HealthPath \<equiv> Errorf ''path must begin with / for HTTP health checks'' []"

abbreviation HealthMethod :: "go_error" where
  "HealthMethod \<equiv> Errorf ''method must be GET or HEAD'' []"

abbreviation HealthStatus :: "go_error" where
  "HealthStatus \<equiv> Errorf ''expected status range must be within 100..599'' []"

abbreviation VHostNameEmpty :: "nat \<Rightarrow> go_error" where
  "VHostNameEmpty i \<equiv> Errorf ''virtual_hosts[%d].name must not be empty'' [Itoa (int i)]"

abbreviation VHostDuplicate :: "string \<Rightarrow> go_error" where
  "VHostDuplicate x \<equiv> Errorf ''duplicate virtual host name %q'' [x]"

abbreviation VHostNoDomain :: "string \<Rightarrow> go_error" where
  "VHostNoDomain x \<equiv> Errorf ''virtual host %q must contain at least one domain'' [x]"

abbreviation BadDomain :: "string \<Rightarrow> string \<Rightarrow> go_error" where
  "BadDomain x y \<equiv> Errorf ''virtual host %q domain %q: %w'' [x, y]"

abbreviation DomainTwice :: "string \<Rightarrow> string \<Rightarrow> string \<Rightarrow> go_error" where
  "DomainTwice x y z \<equiv> Errorf ''domain %q is assigned to both %q and %q'' [x, y, z]"

abbreviation PoolAndUpstream :: "string \<Rightarrow> go_error" where
  "PoolAndUpstream x \<equiv> Errorf ''virtual host %q must use either server_pool or upstream, not both'' [x]"

abbreviation UnknownPool :: "string \<Rightarrow> string \<Rightarrow> go_error" where
  "UnknownPool x y \<equiv> Errorf ''virtual host %q references unknown server pool %q'' [x, y]"

abbreviation DisabledPool :: "string \<Rightarrow> string \<Rightarrow> go_error" where
  "DisabledPool x y \<equiv> Errorf ''virtual host %q references disabled server pool %q'' [x, y]"

abbreviation BadUpstream :: "string \<Rightarrow> go_error" where
  "BadUpstream x \<equiv> Errorf ''virtual host %q upstream: %w'' [x]"

abbreviation PlainUpstreamTLS :: "string \<Rightarrow> go_error" where
  "PlainUpstreamTLS x \<equiv> Errorf ''virtual host %q defines origin_tls options for a plain HTTP upstream'' [x]"

abbreviation BadRedirect :: "string \<Rightarrow> go_error" where
  "BadRedirect x \<equiv> Errorf ''virtual host %q redirect: %w'' [x]"

abbreviation BadDiscard :: "string \<Rightarrow> go_error" where
  "BadDiscard x \<equiv> Errorf ''virtual host %q discard_status must be between 400 and 599'' [x]"

abbreviation BadAction :: "string \<Rightarrow> go_error" where
  "BadAction x \<equiv> Errorf ''virtual host %q action must be group, redirect, or discard'' [x]"

abbreviation MissingCertificate :: "string \<Rightarrow> go_error" where
  "MissingCertificate x \<equiv> Errorf ''virtual host %q requires frontend_tls certificate and private key while HTTPS is enabled'' [x]"

abbreviation BadPersistence :: "string \<Rightarrow> go_error" where
  "BadPersistence x \<equiv> Errorf ''virtual host %q persistence: %w'' [x]"

abbreviation PolicyMode :: "go_error" where
  "PolicyMode \<equiv> Errorf ''mode must be inherit, detect, blocking, or disabled'' []"

abbreviation PolicyThreshold :: "go_error" where
  "PolicyThreshold \<equiv> Errorf ''block_threshold must be zero or between 1 and 1000'' []"

abbreviation PolicyMaxBody :: "go_error" where
  "PolicyMaxBody \<equiv> Errorf ''max_body_bytes must be zero or between 1024 and 134217728'' []"

abbreviation PolicyFailMode :: "go_error" where
  "PolicyFailMode \<equiv> Errorf ''fail_mode must be closed or open'' []"

abbreviation PolicyCIDR :: "string \<Rightarrow> go_error" where
  "PolicyCIDR x \<equiv> Errorf ''invalid access CIDR %q: %w'' [x]"

abbreviation PolicyRuleFile :: "go_error" where
  "PolicyRuleFile \<equiv> Errorf ''rule_files must not contain empty paths'' []"

abbreviation BotMode :: "go_error" where
  "BotMode \<equiv> Errorf ''mode must be monitor or block'' []"

abbreviation BotRate :: "go_error" where
  "BotRate \<equiv> Errorf ''requests_per_minute must be greater than zero and at most 1000000'' []"

abbreviation BotBurst :: "go_error" where
  "BotBurst \<equiv> Errorf ''burst must be between 1 and 1000000'' []"

abbreviation BotPatternLength :: "go_error" where
  "BotPatternLength \<equiv> Errorf ''user-agent patterns must be between 1 and 4096 bytes'' []"

abbreviation BotPattern :: "string \<Rightarrow> go_error" where
  "BotPattern x \<equiv> Errorf ''compile user-agent pattern %q: %w'' [x]"

abbreviation RoutesNeedGroup :: "string \<Rightarrow> go_error" where
  "RoutesNeedGroup x \<equiv> Errorf ''virtual host %q content_routes require action=group'' [x]"

abbreviation RouteNameEmpty :: "string \<Rightarrow> nat \<Rightarrow> go_error" where
  "RouteNameEmpty x i \<equiv> Errorf ''virtual host %q content route %d name must not be empty'' [x, Itoa (int i)]"

abbreviation RouteDuplicate :: "string \<Rightarrow> string \<Rightarrow> go_error" where
  "RouteDuplicate x y \<equiv> Errorf ''virtual host %q contains duplicate content route name %q'' [x, y]"

abbreviation RoutePoolUnknown :: "string \<Rightarrow> string \<Rightarrow> string \<Rightarrow> go_error" where
  "RoutePoolUnknown x y z \<equiv> Errorf ''virtual host %q content route %q references unknown pool %q'' [x, y, z]"

abbreviation RoutePoolDisabled :: "string \<Rightarrow> string \<Rightarrow> string \<Rightarrow> go_error" where
  "RoutePoolDisabled x y z \<equiv> Errorf ''virtual host %q content route %q references disabled pool %q'' [x, y, z]"

abbreviation RouteMethod :: "string \<Rightarrow> string \<Rightarrow> string \<Rightarrow> go_error" where
  "RouteMethod x y z \<equiv> Errorf ''virtual host %q content route %q has invalid method %q'' [x, y, z]"

abbreviation RoutePrefix :: "string \<Rightarrow> string \<Rightarrow> go_error" where
  "RoutePrefix x y \<equiv> Errorf ''virtual host %q content route %q path_prefix must begin with /'' [x, y]"

abbreviation RoutePathPattern :: "string \<Rightarrow> string \<Rightarrow> go_error" where
  "RoutePathPattern x y \<equiv> Errorf ''virtual host %q content route %q path_pattern: %w'' [x, y]"

abbreviation RouteHeader :: "string \<Rightarrow> string \<Rightarrow> go_error" where
  "RouteHeader x y \<equiv> Errorf ''virtual host %q content route %q requires a valid header_name and header_pattern'' [x, y]"

abbreviation RouteHeaderPattern :: "string \<Rightarrow> string \<Rightarrow> go_error" where
  "RouteHeaderPattern x y \<equiv> Errorf ''virtual host %q content route %q header_pattern: %w'' [x, y]"

abbreviation RouteQuery :: "string \<Rightarrow> string \<Rightarrow> go_error" where
  "RouteQuery x y \<equiv> Errorf ''virtual host %q content route %q requires query_name and query_pattern'' [x, y]"

abbreviation RouteQueryPattern :: "string \<Rightarrow> string \<Rightarrow> go_error" where
  "RouteQueryPattern x y \<equiv> Errorf ''virtual host %q content route %q query_pattern: %w'' [x, y]"

abbreviation RouteNoCondition :: "string \<Rightarrow> string \<Rightarrow> go_error" where
  "RouteNoCondition x y \<equiv> Errorf ''virtual host %q content route %q must define at least one match condition'' [x, y]"

abbreviation HeaderName :: "string \<Rightarrow> string \<Rightarrow> string \<Rightarrow> go_error" where
  "HeaderName x y z \<equiv> Errorf ''virtual host %q %s header %q is not a valid HTTP header name'' [x, y, z]"

abbreviation HeaderForbidden :: "string \<Rightarrow> string \<Rightarrow> string \<Rightarrow> go_error" where
  "HeaderForbidden x y z \<equiv> Errorf ''virtual host %q %s header %q is managed by the HTTP transport and cannot be overridden'' [x, y, z]"

abbreviation HeaderValue :: "string \<Rightarrow> string \<Rightarrow> string \<Rightarrow> go_error" where
  "HeaderValue x y z \<equiv> Errorf ''virtual host %q %s header %q contains an invalid value'' [x, y, z]"

abbreviation HTTPSNeedsVHost :: "go_error" where
  "HTTPSNeedsVHost \<equiv> Errorf ''https.enabled requires at least one enabled virtual host with a certificate'' []"

definition err_if :: "bool \<Rightarrow> 'e \<Rightarrow> 'e list" where
  "err_if b e = (if b then [e] else [])"

lemma err_if_Nil [simp]: "err_if b e = [] \<longleftrightarrow> \<not> b"
  by (simp add: err_if_def)

subsection \<open>Lexical checks\<close>

definition token_char :: "char \<Rightarrow> bool" where
  "token_char c = (is_upper c \<or> is_lower c \<or> is_digit c
     \<or> c \<in> set ''!#$%&*+-.^_|~'' \<or> c = CHR 0x27 \<or> c = CHR 0x60)"

definition validMethod :: "string \<Rightarrow> bool" where
  "validMethod value = (let v = TrimSpace value in v \<noteq> [] \<and> list_all token_char v)"

definition validCookieName :: "string \<Rightarrow> bool" where
  "validCookieName value = validMethod value"

definition validHeaderName :: "string \<Rightarrow> bool" where
  "validHeaderName value = validMethod value"

definition validHeaderValue :: "string \<Rightarrow> bool" where
  "validHeaderValue value =
     (length value \<le> 8192 \<and> \<not> ContainsAny value [CHR 0x0D, CHR 0x0A]
      \<and> list_all (\<lambda>c. c = CHR 0x09 \<or> 32 \<le> byte c) value)"

definition forbiddenRequestHeader :: "golib \<Rightarrow> string \<Rightarrow> bool" where
  "forbiddenRequestHeader L value = (ToLower L value \<in> set
     [''connection'', ''content-length'', ''cookie'', ''forwarded'', ''host'', ''keep-alive'',
      ''proxy-authorization'', ''proxy-connection'', ''te'', ''trailer'', ''transfer-encoding'', ''upgrade'',
      ''x-forwarded-for'', ''x-forwarded-host'', ''x-forwarded-proto''])"

definition forbiddenResponseHeader :: "golib \<Rightarrow> string \<Rightarrow> bool" where
  "forbiddenResponseHeader L value = (ToLower L value \<in> set
     [''connection'', ''content-length'', ''keep-alive'', ''proxy-authenticate'', ''proxy-authorization'',
      ''proxy-connection'', ''te'', ''trailer'', ''transfer-encoding'', ''upgrade''])"

definition NormalizeDomain :: "golib \<Rightarrow> string \<Rightarrow> string" where
  "NormalizeDomain L value = TrimSuffix (ToLower L (TrimSpace value)) ''.''"

datatype domain_error = DomEmpty | DomLong | DomWildcard | DomNoDot | DomLabel | DomHyphen | DomChars

definition domain_char :: "char \<Rightarrow> bool" where
  "domain_char c = (is_lower c \<or> is_digit c \<or> c = CHR ''-'')"

definition check_label :: "string \<Rightarrow> domain_error option" where
  "check_label label =
     (if label = [] \<or> 63 < length label then Some DomLabel
      else if hd label = CHR ''-'' \<or> last label = CHR ''-'' then Some DomHyphen
      else if \<not> list_all domain_char label then Some DomChars else None)"

fun first_error :: "('a \<Rightarrow> 'e option) \<Rightarrow> 'a list \<Rightarrow> 'e option" where
  "first_error f [] = None"
| "first_error f (x # xs) = (case f x of Some e \<Rightarrow> Some e | None \<Rightarrow> first_error f xs)"

definition ValidateDomainPattern :: "golib \<Rightarrow> string \<Rightarrow> domain_error option" where
  "ValidateDomainPattern L pattern =
     (let value = NormalizeDomain L pattern in
      if value = [] then Some DomEmpty
      else if 253 < length value then Some DomLong
      else if value = ''localhost'' \<or> ParseIP value \<noteq> None then None
      else
        let wild = HasPrefix value ''*.''; body = (if wild then TrimPrefix value ''*.'' else value) in
        if CHR ''*'' \<in> set body then Some DomWildcard
        else if CHR ''.'' \<notin> set body then Some DomNoDot
        else first_error check_label (Split body CHR ''.''))"

definition validateListen :: "string \<Rightarrow> bool" where
  "validateListen value =
     (TrimSpace value \<noteq> [] \<and>
      (case SplitHostPort value of None \<Rightarrow> False | Some (host, port) \<Rightarrow> port \<noteq> []))"

definition isLoopbackListen :: "string \<Rightarrow> bool" where
  "isLoopbackListen value =
     (case SplitHostPort value of
        None \<Rightarrow> False
      | Some (host, port) \<Rightarrow> host = ''localhost'' \<or>
          (case ParseIP host of None \<Rightarrow> False | Some ip \<Rightarrow> IsLoopback ip))"

definition validateIPOrCIDR :: "string \<Rightarrow> bool" where
  "validateIPOrCIDR v =
     (let value = TrimSpace v in
      if value = [] then False
      else if CHR ''/'' \<in> set value then ParseCIDR value \<noteq> None
      else ParseIP value \<noteq> None)"

definition entry_fields :: "string \<Rightarrow> string list" where
  "entry_fields v =
     (let value = TrimSpace v in
      Fields (case Cut value CHR ''#'' of (front, _, found) \<Rightarrow> if found then TrimSpace front else value))"

definition validateReputationEntry :: "string \<Rightarrow> bool" where
  "validateReputationEntry v =
     (case entry_fields v of [] \<Rightarrow> False | f # _ \<Rightarrow> validateIPOrCIDR f)"

definition hasOriginTLS :: "origin_tls \<Rightarrow> bool" where
  "hasOriginTLS t = (ot_caFile t \<noteq> [] \<or> ot_serverName t \<noteq> [] \<or> ot_insecure t)"

definition validateUpstreamURL :: "golib \<Rightarrow> string \<Rightarrow> gourl option" where
  "validateUpstreamURL L value =
     (case url_parse L (TrimSpace value) of
        None \<Rightarrow> None
      | Some u \<Rightarrow>
          if u_host u = [] \<or> (u_scheme u \<noteq> ''http'' \<and> u_scheme u \<noteq> ''https'') then None
          else if u_user u then None
          else if u_fragment u \<noteq> [] then None
          else Some u)"

definition validateRedirect :: "golib \<Rightarrow> redirect_config \<Rightarrow> bool" where
  "validateRedirect L r =
     (if ContainsAny (rd_url r) [CHR 0x0D, CHR 0x0A] then False
      else if TrimSpace (rd_url r) = [] then False
      else
        let candidate = replacer [(''{host}'', ''example.test''), (''{request_uri}'', ''/request/path?query=1''),
              (''{path}'', ''/request/path''), (''{query}'', ''query=1'')] (rd_url r) in
        if \<not> HasPrefix candidate ''/'' \<and>
           (case url_parse L candidate of
              None \<Rightarrow> True
            | Some u \<Rightarrow> u_scheme u = [] \<or> u_host u = [] \<or> (u_scheme u \<noteq> ''http'' \<and> u_scheme u \<noteq> ''https''))
        then False
        else rd_status r \<in> {301, 302, 303, 307, 308})"

definition ResolvePath :: "config \<Rightarrow> string \<Rightarrow> string" where
  "ResolvePath c path =
     (if path = [] \<or> path = ''-'' \<or> IsAbs path then path else JoinPath (c_baseDir c) path)"

definition EnabledVirtualHosts :: "config \<Rightarrow> virtual_host list" where
  "EnabledVirtualHosts c = filter vh_enabled (c_vhosts c)"

definition DomainNames :: "config \<Rightarrow> string list" where
  "DomainNames c = sort (concat (map vh_domains (filter vh_enabled (c_vhosts c))))"

definition ServerPoolByName :: "config \<Rightarrow> string \<Rightarrow> server_pool option" where
  "ServerPoolByName c name = find (\<lambda>p. sp_name p = name) (c_pools c)"

subsection \<open>A sample configuration\<close>

text \<open>A small configuration that validates; witnesses evaluate the definitions on it.\<close>

definition sample_member :: "string \<Rightarrow> pool_member" where
  "sample_member i = \<lparr>pm_id = i, pm_url = ''http://'' @ i, pm_enabled = True, pm_weight = 1, pm_priority = 100,
     pm_backup = False, pm_tls = \<lparr>ot_serverName = [], ot_caFile = [], ot_insecure = False\<rparr>\<rparr>"

definition sample_health :: health_config where
  "sample_health = \<lparr>hc_enabled = True, hc_type = ''http'', hc_interval = 10, hc_timeout = 3, hc_healthy = 2,
     hc_unhealthy = 3, hc_method = ''GET'', hc_path = ''/'', hc_host = [], hc_statusMin = 200, hc_statusMax = 399\<rparr>"

definition sample_pool :: server_pool where
  "sample_pool = \<lparr>sp_name = ''web'', sp_enabled = True, sp_algorithm = ''round_robin'', sp_failureMode = ''reject'',
     sp_members = [sample_member ''a'', sample_member ''b''], sp_health = sample_health\<rparr>"

definition sample_vhost :: virtual_host where
  "sample_vhost = \<lparr>vh_name = ''app'', vh_enabled = True, vh_domains = [''app.test'', ''*.app.test''],
     vh_action = ''group'', vh_upstream = [], vh_pool = ''web'',
     vh_redirect = \<lparr>rd_url = [], rd_status = 302\<rparr>, vh_discard = 403, vh_preserveHost = False,
     vh_frontTLS = \<lparr>ft_cert = [], ft_key = []\<rparr>,
     vh_originTLS = \<lparr>ot_serverName = [], ot_caFile = [], ot_insecure = False\<rparr>,
     vh_persistence = \<lparr>ps_mode = ''none'', ps_cookie = ''CWAF_ROUTE'', ps_ttl = 3600\<rparr>,
     vh_waf = \<lparr>wp_mode = ''inherit'', wp_threshold = 0, wp_maxBody = 0, wp_builtins = None, wp_ruleFiles = [],
       wp_rateLimit = None, wp_failMode = ''closed'', wp_allow = [], wp_deny = []\<rparr>,
     vh_bot = \<lparr>bp_enabled = False, bp_mode = ''monitor'', bp_rpm = 0, bp_burst = 0, bp_bad = [], bp_allow = []\<rparr>,
     vh_routes = [], vh_reqHeaders = [], vh_respHeaders = []\<rparr>"

definition sample_config :: config where
  "sample_config = \<lparr>c_version = 1, c_http = \<lparr>h_enabled = True, h_listen = '':80'', h_redirect = False\<rparr>,
     c_https = \<lparr>hs_enabled = False, hs_listen = '':443'', hs_minTLS = ''1.2''\<rparr>,
     c_admin = \<lparr>ad_enabled = True, ad_listen = ''127.0.0.1:9090'', ad_tokenEnv = ''TOKEN'', ad_allowPublic = False\<rparr>,
     c_security = \<lparr>sec_mode = ''blocking'', sec_threshold = 10, sec_maxBody = 1048576, sec_maxHeader = 1048576,
       sec_trusted = [''10.0.0.0/8''], sec_fwdHeader = ''X-Forwarded-For'',
       sec_rateLimit = \<lparr>rl_enabled = True, rl_rps = 50, rl_burst = 100, rl_ttlSeconds = 600\<rparr>,
       sec_reputation = \<lparr>rep_enabled = False, rep_mode = ''monitor'', rep_entries = [], rep_files = []\<rparr>\<rparr>,
     c_rules = \<lparr>rules_builtins = True, rules_files = []\<rparr>,
     c_logging = \<lparr>log_access = ''-'', log_security = ''-''\<rparr>,
     c_pools = [sample_pool], c_vhosts = [sample_vhost], c_baseDir = ''/etc/cherrywaf''\<rparr>"

definition sample_tls_config :: config where
  "sample_tls_config = sample_config\<lparr>c_https := (c_https sample_config)\<lparr>hs_enabled := True\<rparr>,
     c_rules := \<lparr>rules_builtins = False, rules_files = []\<rparr>,
     c_vhosts := [sample_vhost\<lparr>vh_frontTLS := \<lparr>ft_cert = ''app.crt'', ft_key = ''app.key''\<rparr>\<rparr>]\<rparr>"

end
