(* ===== verification/Access.thy ===== *)
theory Access
  imports Config
begin

text \<open>
  Address lists: the allow and deny lists of a virtual host (\<open>internal/core/policy.go\<close>) and the
  reputation store (\<open>internal/reputation/store.go\<close>). Both parse an entry the same way (a prefix is
  masked, a bare address is a prefix of full length) and test the client address with IPv4-mapped
  IPv6 addresses unmapped. The content of a file is what the parameter \<open>fs\<close> gives for its path.
\<close>

subsection \<open>Entries\<close>

definition parsePrefix :: "string \<Rightarrow> netprefix option" where
  "parsePrefix value =
     (if Contains value ''/'' then map_option Masked (ParsePrefix value)
      else map_option (\<lambda>a. let a' = Unmap a in PrefixFrom a' (bit_len a')) (ParseAddr value))"

definition parse_list_entry :: "string \<Rightarrow> netprefix list \<Rightarrow> go_error + netprefix list" where
  "parse_list_entry raw acc =
     (let value = TrimSpace raw in
      if value = [] then Inr acc
      else (case parsePrefix value of
          None \<Rightarrow> Inl (Errorf ''%w'' [value])
        | Some p \<Rightarrow> Inr (acc @ [p])))"

definition parsePrefixes :: "string list \<Rightarrow> go_error + netprefix list" where
  "parsePrefixes values = fold_err parse_list_entry values []"

subsection \<open>Access policy of a virtual host\<close>

record access_policy =
  ap_allow :: "netprefix list"
  ap_deny :: "netprefix list"

definition newAccessPolicy :: "string list \<Rightarrow> string list \<Rightarrow> go_error + access_policy option" where
  "newAccessPolicy allowValues denyValues =
     (case parsePrefixes allowValues of
        Inl e \<Rightarrow> Inl (Wrapped ''allow CIDRs: %w'' [] [e])
      | Inr allow \<Rightarrow>
          (case parsePrefixes denyValues of
             Inl e \<Rightarrow> Inl (Wrapped ''deny CIDRs: %w'' [] [e])
           | Inr deny \<Rightarrow>
               if allow = [] \<and> deny = [] then Inr None
               else Inr (Some \<lparr>ap_allow = allow, ap_deny = deny\<rparr>)))"

definition Allowed :: "access_policy option \<Rightarrow> string \<Rightarrow> bool \<times> string" where
  "Allowed pol value =
     (case pol of
        None \<Rightarrow> (True, [])
      | Some p \<Rightarrow>
          (case ParseAddr (TrimSpace value) of
             None \<Rightarrow> (ap_allow p = [], ''client IP is invalid'')
           | Some a \<Rightarrow>
               let address = Unmap a in
               if list_ex (\<lambda>q. prefix_contains q address) (ap_deny p)
               then (False, ''client IP matched application deny list'')
               else if ap_allow p = [] then (True, [])
               else if list_ex (\<lambda>q. prefix_contains q address) (ap_allow p) then (True, [])
               else (False, ''client IP is not present in application allow list'')))"

subsection \<open>Reputation store\<close>

record rep_entry =
  re_prefix :: netprefix
  re_reason :: string

record rep_store =
  rs_mode :: string
  rs_entries :: "rep_entry list"

record rep_match =
  rm_prefix :: string
  rm_reason :: string
  rm_mode :: string

definition rep_add :: "string \<Rightarrow> string \<Rightarrow> rep_store \<Rightarrow> go_error + rep_store" where
  "rep_add raw source s =
     (let value0 = TrimSpace raw;
          value = (case Cut value0 CHR ''#'' of (b, _, found) \<Rightarrow> if found then TrimSpace b else value0) in
      (case Fields value of
         [] \<Rightarrow> Inr s
       | f # rest \<Rightarrow>
           (case parsePrefix f of
              None \<Rightarrow> Inl (Errorf ''parse reputation entry %q from %s: %w'' [value, source])
            | Some p \<Rightarrow>
                Inr (s\<lparr>rs_entries := rs_entries s
                  @ [\<lparr>re_prefix = p, re_reason = (if rest = [] then source else Join rest '' '')\<rparr>]\<rparr>))))"

text \<open>
  \<open>bufio.Scanner\<close> over the lines of a file: the last line may lack its newline, a carriage return
  before the newline is dropped, and a line that fills the buffer of \<open>1 << 20\<close> bytes ends the scan
  with an error after the lines before it were handled.
\<close>

definition scan_lines :: "string \<Rightarrow> string list" where
  "scan_lines content =
     (let ls = Split content CHR 0x0A in if last ls = [] then butlast ls else ls)"

definition rep_line :: "string \<Rightarrow> nat \<times> string \<Rightarrow> rep_store \<Rightarrow> go_error + rep_store" where
  "rep_line path = (\<lambda>(i, raw) s.
     if 1048576 \<le> int (length raw) then Inl (Errorf ''read reputation file %s: %w'' [path])
     else let value = TrimSpace (TrimSuffix raw [CHR 0x0D]) in
       if value = [] \<or> HasPrefix value ''#'' then Inr s
       else rep_add value (path @ '':'' @ Itoa (int i + 1)) s)"

definition loadFile :: "(string \<Rightarrow> string option) \<Rightarrow> string \<Rightarrow> rep_store \<Rightarrow> go_error + rep_store" where
  "loadFile fs path s =
     (case fs path of
        None \<Rightarrow> Inl (Errorf ''open reputation file %s: %w'' [path])
      | Some content \<Rightarrow> fold_err (rep_line path) (enumerate 0 (scan_lines content)) s)"

definition rep_read :: "(string \<Rightarrow> string option) \<Rightarrow> config \<Rightarrow> go_error + rep_store" where
  "rep_read fs c =
     (let r = sec_reputation (c_security c) in
      case fold_err (\<lambda>v. rep_add v ''inline reputation entry'') (rep_entries r)
          \<lparr>rs_mode = rep_mode r, rs_entries = []\<rparr> of
        Inl e \<Rightarrow> Inl e
      | Inr s \<Rightarrow> fold_err (\<lambda>f. loadFile fs (ResolvePath c f)) (rep_files r) s)"

definition by_bits :: "rep_entry \<Rightarrow> int" where
  "by_bits e = - int (prefix_bits (re_prefix e))"

definition rep_Load :: "(string \<Rightarrow> string option) \<Rightarrow> config option \<Rightarrow> go_error + rep_store option" where
  "rep_Load fs cfg =
     (case cfg of
        None \<Rightarrow> Inr None
      | Some c \<Rightarrow>
          if \<not> rep_enabled (sec_reputation (c_security c)) then Inr None
          else
            (case rep_read fs c of
               Inl e \<Rightarrow> Inl e
             | Inr t \<Rightarrow> Inr (Some (t\<lparr>rs_entries := sort_key by_bits (rs_entries t)\<rparr>))))"

definition rep_Mode :: "rep_store option \<Rightarrow> string" where
  "rep_Mode s = (case s of None \<Rightarrow> ''monitor'' | Some st \<Rightarrow> rs_mode st)"

definition rep_Count :: "rep_store option \<Rightarrow> nat" where
  "rep_Count s = (case s of None \<Rightarrow> 0 | Some st \<Rightarrow> length (rs_entries st))"

definition Lookup :: "rep_store option \<Rightarrow> string \<Rightarrow> rep_match option" where
  "Lookup s value =
     (case s of
        None \<Rightarrow> None
      | Some st \<Rightarrow>
          (case ParseAddr (TrimSpace value) of
             None \<Rightarrow> None
           | Some a \<Rightarrow>
               map_option
                 (\<lambda>e. \<lparr>rm_prefix = prefix_str (re_prefix e), rm_reason = re_reason e, rm_mode = rs_mode st\<rparr>)
                 (find (\<lambda>e. prefix_contains (re_prefix e) (Unmap a)) (rs_entries st))))"

subsection \<open>Parsed lists\<close>

definition listed :: "string list \<Rightarrow> addr \<Rightarrow> bool" where
  "listed values a =
     list_ex (\<lambda>v. case parsePrefix (TrimSpace v) of Some p \<Rightarrow> prefix_contains p a | None \<Rightarrow> False) values"

definition blank_list :: "string list \<Rightarrow> bool" where
  "blank_list values = list_all (\<lambda>v. TrimSpace v = []) values"

lemma parsePrefix_Nil [simp]: "parsePrefix [] = None"
  by (simp add: parsePrefix_def ParseAddr_def)

lemma parsePrefixes_from:
  "fold_err parse_list_entry values acc = Inr ps \<Longrightarrow>
     list_ex (\<lambda>p. prefix_contains p a) ps = (list_ex (\<lambda>p. prefix_contains p a) acc \<or> listed values a)
     \<and> (ps = [] \<longleftrightarrow> acc = [] \<and> blank_list values)"
proof (induction "values" arbitrary: acc)
  case Nil
  then show ?case by (simp add: listed_def blank_list_def)
next
  case (Cons v vs)
  then show ?case
    by (auto simp: parse_list_entry_def listed_def blank_list_def Let_def split: if_splits option.splits)
qed

lemma parsePrefixes_listed:
  assumes "parsePrefixes values = Inr ps"
  shows "list_ex (\<lambda>p. prefix_contains p a) ps = listed values a" "ps = [] \<longleftrightarrow> blank_list values"
  using parsePrefixes_from [OF assms [unfolded parsePrefixes_def]] by simp_all

lemma blank_not_listed: "blank_list values \<Longrightarrow> \<not> listed values a"
  by (induction "values") (auto simp: blank_list_def listed_def)

lemma newAccessPolicy_cases:
  assumes "newAccessPolicy allow deny = Inr pol"
  obtains (inert) "pol = None" "blank_list allow" "blank_list deny"
  | (lists) p where "pol = Some p" "parsePrefixes allow = Inr (ap_allow p)" "parsePrefixes deny = Inr (ap_deny p)"
  using assms parsePrefixes_listed(2)
  by (fastforce simp: newAccessPolicy_def split: sum.splits if_splits)

subsection \<open>Longest match\<close>

lemma find_sorted_least:
  assumes "sorted (map f xs)" "find P xs = Some x"
  shows "\<forall>y\<in>set xs. P y \<longrightarrow> f x \<le> f y" "find (\<lambda>y. P y \<and> f y = f x) xs = Some x"
  using assms by (induction xs) (auto split: if_splits)

lemma find_filter: "find (\<lambda>y. P y \<and> Q y) xs = find P (filter Q xs)"
  by (induction xs) auto

lemma find_sort_key:
  assumes "find P (sort_key f xs) = Some x"
  shows "find (\<lambda>y. P y \<and> f y = f x) xs = Some x \<and> (\<forall>y\<in>set xs. P y \<longrightarrow> f x \<le> f y)"
proof -
  note least = find_sorted_least [OF sorted_sort_key assms]
  have "find P (filter (\<lambda>y. f y = f x) (sort_key f xs)) = Some x"
    using least(2) by (simp add: find_filter)
  then have "find (\<lambda>y. P y \<and> f y = f x) xs = Some x" by (simp add: sort_key_stable find_filter)
  with least(1) show ?thesis by simp
qed

definition covers :: "addr \<Rightarrow> rep_entry \<Rightarrow> bool" where
  "covers a e = prefix_contains (re_prefix e) (Unmap a)"

definition as_match :: "string \<Rightarrow> rep_entry \<Rightarrow> rep_match" where
  "as_match mode e = \<lparr>rm_prefix = prefix_str (re_prefix e), rm_reason = re_reason e, rm_mode = mode\<rparr>"

text \<open>A small store, read from one inline entry and a file of two lines.\<close>

definition sample_fs :: "string \<Rightarrow> string option" where
  "sample_fs path = (if path = ''/etc/cherrywaf/bad.txt''
     then Some (''# known bad'' @ [CHR 0x0D, CHR 0x0A] @ ''10.1.0.0/16 scanner net'' @ [CHR 0x0A]) else None)"

definition sample_reputation :: config where
  "sample_reputation = sample_config\<lparr>c_security := (c_security sample_config)\<lparr>sec_reputation :=
     \<lparr>rep_enabled = True, rep_mode = ''block'', rep_entries = [''10.0.0.0/8''], rep_files = [''bad.txt'']\<rparr>\<rparr>\<rparr>"

definition sample_store :: rep_store where
  "sample_store = \<lparr>rs_mode = ''block'', rs_entries =
     [\<lparr>re_prefix = Pfx (V4 167837696) 16, re_reason = ''scanner net''\<rparr>,
      \<lparr>re_prefix = Pfx (V4 167772160) 8, re_reason = ''inline reputation entry''\<rparr>]\<rparr>"

subsection \<open>Properties\<close>

text \<open>
  For a client address that parses, the decision of a virtual host's lists is the one their text
  prescribes: no entry of the deny list covers the address, and the allow list is blank or has an
  entry that covers it. Deny wins over allow.
\<close>

theorem Allowed_spec:
  assumes "newAccessPolicy allow deny = Inr pol" "ParseAddr (TrimSpace ip) = Some a"
  shows "fst (Allowed pol ip) \<longleftrightarrow>
    \<not> listed deny (Unmap a) \<and> (blank_list allow \<or> listed allow (Unmap a))"
  using assms(1)
proof (cases rule: newAccessPolicy_cases)
  case inert
  then show ?thesis using blank_not_listed by (simp add: Allowed_def)
next
  case (lists p)
  note facts = parsePrefixes_listed [OF lists(2)] parsePrefixes_listed [OF lists(3)]
  from lists(1) assms(2) show ?thesis by (auto simp: Allowed_def Let_def facts)
qed

theorem Allowed_spec_witness:
  "fst (Allowed (Some \<lparr>ap_allow = [Pfx (V4 167772160) 8], ap_deny = [Pfx (V4 167772161) 32]\<rparr>) '' 10.0.0.1'')
     = False"
proof -
  have pol: "newAccessPolicy [''10.2.3.4/8''] [''::ffff:10.0.0.1'', '' '']
      = Inr (Some \<lparr>ap_allow = [Pfx (V4 167772160) 8], ap_deny = [Pfx (V4 167772161) 32]\<rparr>)" by code_simp
  have ip: "ParseAddr (TrimSpace '' 10.0.0.1'') = Some (V4 167772161)" by code_simp
  have "listed [''::ffff:10.0.0.1'', '' ''] (Unmap (V4 167772161))" by code_simp
  with Allowed_spec [OF pol ip] show ?thesis by blast
qed

text \<open>
  A client address that does not parse passes exactly when the allow list is blank: a deny list
  alone does not stop it.
\<close>

theorem Allowed_unparsable:
  assumes "newAccessPolicy allow deny = Inr pol" "ParseAddr (TrimSpace ip) = None"
  shows "fst (Allowed pol ip) \<longleftrightarrow> blank_list allow"
  using assms(1)
proof (cases rule: newAccessPolicy_cases)
  case (lists p)
  from lists(1) assms(2) show ?thesis by (simp add: Allowed_def parsePrefixes_listed(2) [OF lists(2)])
qed (simp add: Allowed_def)

theorem Allowed_unparsable_witness:
  "fst (Allowed (Some \<lparr>ap_allow = [], ap_deny = [Pfx (V4 0) 0]\<rparr>) ''unknown'')"
proof -
  have "newAccessPolicy [] [''0.0.0.0/0''] = Inr (Some \<lparr>ap_allow = [], ap_deny = [Pfx (V4 0) 0]\<rparr>)"
    by code_simp
  moreover have "ParseAddr (TrimSpace ''unknown'') = None" by code_simp
  ultimately show ?thesis using Allowed_unparsable by (fastforce simp: blank_list_def)
qed

text \<open>
  Reputation lookup is longest-prefix match over the entries as they were read (inline ones first,
  then the files in order): nothing is found when no entry covers the address, and otherwise the
  match is the first listed among the covering entries of greatest prefix length.
\<close>

theorem Lookup_longest_match:
  assumes "rep_Load fs (Some c) = Inr (Some st)" "ParseAddr (TrimSpace ip) = Some a"
  shows "\<exists>t. rep_read fs c = Inr t \<and>
    (case Lookup (Some st) ip of
       None \<Rightarrow> list_all (\<lambda>e. \<not> covers a e) (rs_entries t)
     | Some m \<Rightarrow> \<exists>e. m = as_match (rs_mode t) e
         \<and> find (\<lambda>x. covers a x \<and> prefix_bits (re_prefix x) = prefix_bits (re_prefix e)) (rs_entries t) = Some e
         \<and> list_all (\<lambda>x. covers a x \<longrightarrow> prefix_bits (re_prefix x) \<le> prefix_bits (re_prefix e)) (rs_entries t))"
proof -
  from assms(1) obtain t where t: "rep_read fs c = Inr t"
    and st: "st = t\<lparr>rs_entries := sort_key by_bits (rs_entries t)\<rparr>"
    by (auto simp: rep_Load_def split: if_splits sum.splits)
  have look: "Lookup (Some st) ip = map_option (as_match (rs_mode t)) (find (covers a) (sort_key by_bits (rs_entries t)))"
    using assms(2) by (simp add: Lookup_def st as_match_def [abs_def] covers_def [abs_def])
  have bits: "(by_bits x = by_bits y) = (prefix_bits (re_prefix x) = prefix_bits (re_prefix y))"
    "(by_bits y \<le> by_bits x) = (prefix_bits (re_prefix x) \<le> prefix_bits (re_prefix y))" for x y
    by (auto simp: by_bits_def)
  show ?thesis
  proof (cases "find (covers a) (sort_key by_bits (rs_entries t))")
    case None
    then have "list_all (\<lambda>e. \<not> covers a e) (rs_entries t)" by (simp add: find_None_iff list_all_iff)
    with t look None show ?thesis by simp
  next
    case (Some e)
    with t look find_sort_key [OF Some] show ?thesis by (auto simp: bits list_all_iff)
  qed
qed

theorem Lookup_longest_match_witness:
  "\<exists>t. rep_read sample_fs sample_reputation = Inr t \<and>
    (case Lookup (Some sample_store) ''10.1.2.3'' of
       None \<Rightarrow> list_all (\<lambda>e. \<not> covers (V4 167838211) e) (rs_entries t)
     | Some m \<Rightarrow> \<exists>e. m = as_match (rs_mode t) e
         \<and> find (\<lambda>x. covers (V4 167838211) x
              \<and> prefix_bits (re_prefix x) = prefix_bits (re_prefix e)) (rs_entries t) = Some e
         \<and> list_all (\<lambda>x. covers (V4 167838211) x
              \<longrightarrow> prefix_bits (re_prefix x) \<le> prefix_bits (re_prefix e)) (rs_entries t))"
proof (rule Lookup_longest_match)
  show "rep_Load sample_fs (Some sample_reputation) = Inr (Some sample_store)" by code_simp
  show "ParseAddr (TrimSpace ''10.1.2.3'') = Some (V4 167838211)" by code_simp
qed

text \<open>
  Client addresses are unmapped before the test, so an IPv6 prefix inside \<open>::ffff:0:0/96\<close> (an entry
  such as \<open>::ffff:10.0.0.0/104\<close>) is accepted by the parser and never covers any client.
\<close>

theorem mapped_prefix_never_covers:
  assumes "ParsePrefix value = Some (Pfx (V6 p []) n)" "to4 p \<noteq> None" "96 \<le> n"
  shows "\<not> prefix_contains (Masked (Pfx (V6 p []) n)) (Unmap a)"
proof (cases "Unmap a")
  case (V6 x z)
  then have x: "drop_bit 32 x \<noteq> 65535"
    by (cases a) (auto simp: to4_def split: option.splits if_splits)
  have "n \<le> 128"
    using assms(1) by (auto simp: ParsePrefix_def PrefixFrom_def split: option.splits if_splits prod.splits elim: without_zone.elims)
  moreover have "drop_bit (128 - n) x \<noteq> drop_bit (128 - n) p"
  proof
    assume "drop_bit (128 - n) x = drop_bit (128 - n) p"
    then have "drop_bit (n - 96) (drop_bit (128 - n) x) = drop_bit (n - 96) (drop_bit (128 - n) p)" by simp
    then have "drop_bit 32 x = drop_bit 32 p" using assms(3) \<open>n \<le> 128\<close> by simp
    with x assms(2) show False by (simp add: to4_def split: if_splits)
  qed
  ultimately show ?thesis using V6 by (simp add: xor_shift_zero_iff del: drop_bit_xor)
qed simp

theorem mapped_prefix_never_covers_witness:
  "\<not> prefix_contains (Masked (Pfx (V6 281470849515520 []) 104)) (Unmap (V4 167838211))"
proof (rule mapped_prefix_never_covers)
  show "ParsePrefix ''::ffff:10.0.0.0/104'' = Some (Pfx (V6 281470849515520 []) 104)" by code_simp
  show "to4 281470849515520 \<noteq> None" by code_simp
qed simp

end
