(* ===== verification/GoHTTP.thy ===== *)
theory GoHTTP
  imports GoNet
begin

text \<open>
  The parts of Go's \<open>net/http\<close>, \<open>net/url\<close>, \<open>net/textproto\<close> and \<open>unicode/utf8\<close> that the request path
  uses: header maps with canonical keys, percent-decoding, \<open>URL.EscapedPath\<close> and UTF-8 repair. A
  header map is an association list from a canonical key to its values; a request holds the fields
  the sources read.
\<close>

type_synonym header = "(string \<times> string list) list"

record request =
  rq_method :: string
  rq_url :: gourl
  rq_requestURI :: string
  rq_host :: string
  rq_remoteAddr :: string
  rq_header :: header
  rq_contentLength :: int
  rq_transferEncoding :: "string list"
  rq_tls :: bool
  rq_body :: string
  rq_getBody :: "(string + string) option"

subsection \<open>Headers\<close>

definition token_punct :: string where
  "token_punct = map char_of [33, 35, 36, 37, 38, 39, 42, 43, 45, 46, 94, 95, 96, 124, 126 :: int]"

definition is_token :: "char \<Rightarrow> bool" where
  "is_token c = (is_lower c \<or> is_upper c \<or> is_digit c \<or> c \<in> set token_punct)"

fun canonical_from :: "bool \<Rightarrow> string \<Rightarrow> string" where
  "canonical_from up [] = []"
| "canonical_from up (c # cs) =
     (if up then ascii_upper c else ascii_lower c) # canonical_from (c = CHR ''-'') cs"

definition CanonicalHeaderKey :: "string \<Rightarrow> string" where
  "CanonicalHeaderKey k = (if list_all is_token k then canonical_from True k else k)"

definition header_values :: "header \<Rightarrow> string \<Rightarrow> string list" where
  "header_values h k = (case map_of h (CanonicalHeaderKey k) of None \<Rightarrow> [] | Some vs \<Rightarrow> vs)"

definition header_get :: "header \<Rightarrow> string \<Rightarrow> string" where
  "header_get h k = (case header_values h k of [] \<Rightarrow> [] | v # _ \<Rightarrow> v)"

definition header_del :: "header \<Rightarrow> string \<Rightarrow> header" where
  "header_del h k = filter (\<lambda>(k', _). k' \<noteq> CanonicalHeaderKey k) h"

definition header_set :: "header \<Rightarrow> string \<Rightarrow> string \<Rightarrow> header" where
  "header_set h k v = (CanonicalHeaderKey k, [v]) # header_del h k"

definition header_add :: "header \<Rightarrow> string \<Rightarrow> string \<Rightarrow> header" where
  "header_add h k v = (CanonicalHeaderKey k, header_values h k @ [v]) # header_del h k"

lemma map_of_header_del:
  "map_of (header_del h k) k' = (if k' = CanonicalHeaderKey k then None else map_of h k')"
  by (induction h) (auto simp: header_del_def)

lemma header_get_set [simp]: "header_get (header_set h k v) k = v"
  by (simp add: header_get_def header_values_def header_set_def)

lemma header_get_del [simp]: "header_get (header_del h k) k = []"
  by (simp add: header_get_def header_values_def map_of_header_del)

lemma header_get_set_other:
  "CanonicalHeaderKey k' \<noteq> CanonicalHeaderKey k \<Longrightarrow> header_get (header_set h k v) k' = header_get h k'"
  by (simp add: header_get_def header_values_def header_set_def map_of_header_del)

lemma header_get_del_other:
  "CanonicalHeaderKey k' \<noteq> CanonicalHeaderKey k \<Longrightarrow> header_get (header_del h k) k' = header_get h k'"
  by (simp add: header_get_def header_values_def map_of_header_del)

text \<open>\<open>Request.Cookies\<close> reads the \<open>Cookie\<close> lines.\<close>

definition Cookies :: "golib \<Rightarrow> request \<Rightarrow> (string \<times> string) list" where
  "Cookies L r = read_cookies L (header_values (rq_header r) ''Cookie'')"

text \<open>\<open>Request.Cookie\<close> is the first cookie with the name; the empty name has none.\<close>

definition request_cookie :: "golib \<Rightarrow> request \<Rightarrow> string \<Rightarrow> string option" where
  "request_cookie L r name = (if name = [] then None else map_of (Cookies L r) name)"

subsection \<open>Percent-decoding\<close>

definition hex_pair :: "char \<Rightarrow> char \<Rightarrow> char option" where
  "hex_pair a b =
     (case (hex_digit a, hex_digit b) of (Some x, Some y) \<Rightarrow> Some (char_of (16 * x + y)) | _ \<Rightarrow> None)"

text \<open>\<open>url.unescape\<close>; in the query mode a plus sign is a space. One bad escape fails the whole string.\<close>

fun url_unescape :: "bool \<Rightarrow> string \<Rightarrow> string option" where
  "url_unescape query [] = Some []"
| "url_unescape query (c # cs) =
     (if c = CHR ''%'' then
        (case cs of
           a # b # rest \<Rightarrow>
             (case hex_pair a b of
                None \<Rightarrow> None
              | Some d \<Rightarrow> map_option (\<lambda>r. d # r) (url_unescape query rest))
         | _ \<Rightarrow> None)
      else map_option (\<lambda>r. (if query \<and> c = CHR ''+'' then CHR '' '' else c) # r) (url_unescape query cs))"

definition PathUnescape :: "string \<Rightarrow> string option" where
  "PathUnescape s = url_unescape False s"

definition QueryUnescape :: "string \<Rightarrow> string option" where
  "QueryUnescape s = url_unescape True s"

definition escape_char :: "char \<Rightarrow> string" where
  "escape_char c =
     (let up = (\<lambda>k. if k < 10 then char_of (48 + k) else char_of (55 + k)) in
      [CHR ''%'', up (byte c div 16), up (byte c mod 16)])"

definition path_plain :: "char \<Rightarrow> bool" where
  "path_plain c = (is_lower c \<or> is_upper c \<or> is_digit c \<or> c \<in> set ''-_.~$&+,/:;=@'')"

definition path_escape :: "string \<Rightarrow> string" where
  "path_escape s = concat (map (\<lambda>c. if path_plain c then [c] else escape_char c) s)"

definition valid_encoded_path :: "string \<Rightarrow> bool" where
  "valid_encoded_path s = list_all (\<lambda>c. path_plain c \<or> c \<in> set (CHR 0x27 # ''!()*[]%'')) s"

definition EscapedPath :: "gourl \<Rightarrow> string" where
  "EscapedPath u =
     (if u_rawpath u \<noteq> [] \<and> valid_encoded_path (u_rawpath u) \<and> PathUnescape (u_rawpath u) = Some (u_path u)
      then u_rawpath u
      else if u_path u = ''*'' then ''*''
      else path_escape (u_path u))"

text \<open>
  \<open>url.ParseQuery\<close> keeps the pairs that decode and skips the others; \<open>Values.Get\<close> is the first value.
\<close>

definition query_pair :: "string \<Rightarrow> (string \<times> string) option" where
  "query_pair kv =
     (if CHR '';'' \<in> set kv \<or> kv = [] then None
      else (case Cut kv CHR ''='' of (k, v, _) \<Rightarrow>
        (case (QueryUnescape k, QueryUnescape v) of (Some k', Some v') \<Rightarrow> Some (k', v') | _ \<Rightarrow> None)))"

definition ParseQuery :: "string \<Rightarrow> (string \<times> string) list" where
  "ParseQuery q = List.map_filter query_pair (Split q CHR ''&'')"

definition query_get :: "gourl \<Rightarrow> string \<Rightarrow> string" where
  "query_get u name = (case map_of (ParseQuery (u_rawquery u)) name of None \<Rightarrow> [] | Some v \<Rightarrow> v)"

text \<open>\<open>URL.Hostname\<close>: the host without a numeric port and without brackets.\<close>

definition url_hostname :: "string \<Rightarrow> string" where
  "url_hostname hostPort =
     (let host = (case last_cut hostPort CHR '':'' of
            Some (h, port) \<Rightarrow> if list_all is_digit port then h else hostPort
          | None \<Rightarrow> hostPort) in
      if HasPrefix host ''['' \<and> HasSuffix host '']'' then drop 1 (butlast host) else host)"

definition TrimLeftByte :: "char \<Rightarrow> string \<Rightarrow> string" where
  "TrimLeftByte c s = dropWhile (\<lambda>x. x = c) s"

definition TrimRightByte :: "char \<Rightarrow> string \<Rightarrow> string" where
  "TrimRightByte c s = rev (dropWhile (\<lambda>x. x = c) (rev s))"

subsection \<open>UTF-8\<close>

definition in_range :: "int \<Rightarrow> int \<Rightarrow> char \<Rightarrow> bool" where
  "in_range lo hi c = (lo \<le> byte c \<and> byte c \<le> hi)"

definition cont_bytes :: "string \<Rightarrow> bool" where
  "cont_bytes cs = list_all (in_range 128 191) cs"

text \<open>The number of bytes of the rune at the head, 0 when the bytes there are not valid UTF-8.\<close>

definition rune_len :: "string \<Rightarrow> nat" where
  "rune_len s =
     (case s of
        [] \<Rightarrow> 0
      | a # cs \<Rightarrow>
          if byte a < 128 then 1
          else if in_range 194 223 a then (if length cs \<ge> 1 \<and> cont_bytes (take 1 cs) then 2 else 0)
          else if in_range 224 239 a then
            (if length cs \<ge> 2 \<and> cont_bytes (take 2 cs)
                \<and> (byte a = 224 \<longrightarrow> in_range 160 191 (hd cs)) \<and> (byte a = 237 \<longrightarrow> in_range 128 159 (hd cs))
             then 3 else 0)
          else if in_range 240 244 a then
            (if length cs \<ge> 3 \<and> cont_bytes (take 3 cs)
                \<and> (byte a = 240 \<longrightarrow> in_range 144 191 (hd cs)) \<and> (byte a = 244 \<longrightarrow> in_range 128 143 (hd cs))
             then 4 else 0)
          else 0)"

definition RuneError :: string where
  "RuneError = [CHR 0xEF, CHR 0xBF, CHR 0xBD]"

text \<open>\<open>strings.ToValidUTF8\<close>: each maximal run of invalid bytes becomes one replacement.\<close>

function to_valid :: "string \<Rightarrow> bool \<Rightarrow> string \<Rightarrow> string" where
  "to_valid rep bad s =
     (if s = [] then []
      else if rune_len s = 0 then (if bad then [] else rep) @ to_valid rep True (tl s)
      else take (rune_len s) s @ to_valid rep False (drop (rune_len s) s))"
  by pat_completeness auto
termination
  by (relation "measure (\<lambda>(rep, bad, s). length s)") auto

declare to_valid.simps [simp del]

definition ToValidUTF8 :: "string \<Rightarrow> string \<Rightarrow> string" where
  "ToValidUTF8 s rep = to_valid rep False s"

text \<open>\<open>strings.Map\<close>, the mapping given on the bytes of a rune; an invalid byte is the error rune.\<close>

function map_runes :: "(string \<Rightarrow> string) \<Rightarrow> string \<Rightarrow> string" where
  "map_runes f s =
     (if s = [] then []
      else if rune_len s = 0 then f RuneError @ map_runes f (tl s)
      else f (take (rune_len s) s) @ map_runes f (drop (rune_len s) s))"
  by pat_completeness auto
termination
  by (relation "measure (\<lambda>(f, s). length s)") auto

declare map_runes.simps [simp del]

definition IsControl :: "string \<Rightarrow> bool" where
  "IsControl r = (case r of
      [a] \<Rightarrow> byte a < 32 \<or> byte a = 127
    | [a, b] \<Rightarrow> byte a = 194 \<and> byte b < 160
    | _ \<Rightarrow> False)"

end
