(* ===== verification/WAF.thy ===== *)
theory WAF
  imports GoHTTP "HOL-Library.Multiset"
begin

text \<open>
  The inspection engine of \<open>internal/waf\<close>: rules and their validation, the normalization of the six
  targets of a request, and the anomaly score with its blocking decision. The regular expression
  of a rule is what \<open>rx_compile\<close> returns for its pattern, a function from a text to the bounds of the
  left-most match. Reading and JSON-decoding a rule file is the parameter \<open>rules_io\<close>. Scores are at
  most 1000 per rule, so Go's \<open>int\<close> sum of them is the integer sum.
\<close>

subsection \<open>Rules\<close>

record rule =
  ru_id :: string
  ru_name :: string
  ru_description :: string
  ru_enabled :: bool
  ru_targets :: "string list"
  ru_pattern :: string
  ru_score :: int
  ru_action :: string
  ru_severity :: string

record rule_file =
  rf_version :: int
  rf_rules :: "rule list"

definition RuleFileVersion :: int where
  "RuleFileVersion = 1"

text \<open>
  The patterns are written with \<open>~\<close> for a backslash and \<open>@\<close> for a single quote, bytes that do not
  occur in them otherwise.
\<close>

definition pat :: "string \<Rightarrow> string" where
  "pat s = map (\<lambda>c. if c = CHR ''~'' then CHR 0x5C else if c = CHR ''@'' then CHR 0x27 else c) s"

definition builtin_rule :: "string \<Rightarrow> string \<Rightarrow> string list \<Rightarrow> string \<Rightarrow> int \<Rightarrow> string \<Rightarrow> rule" where
  "builtin_rule i n ts p sc sev = \<lparr>ru_id = i, ru_name = n, ru_description = [], ru_enabled = True,
     ru_targets = ts, ru_pattern = p, ru_score = sc, ru_action = ''score'', ru_severity = sev\<rparr>"

definition BuiltinRules :: "rule list" where
  \<open>BuiltinRules =
    [builtin_rule ''CWAF-100001'' ''SQL injection keywords'' [''path'', ''query'', ''body'', ''cookies'']
       (pat ''(?i)(?:~bunion~s+(?:all~s+)?select~b|~bselect~b.{0,80}~bfrom~b|~binformation_schema~b|~bsleep~s*~(|~bbenchmark~s*~(|~bwaitfor~s+delay~b)'')
       10 ''critical'',
     builtin_rule ''CWAF-100002'' ''SQL injection boolean or comment sequence'' [''query'', ''body'', ''cookies'']
       (pat ''(?i)(?:[@~"]~s*(?:or|and)~s+[@~"]?[0-9a-z_]+[@~"]?~s*=~s*[@~"]?[0-9a-z_]+|(?:--|#|/~*)~s*$)'')
       8 ''high'',
     builtin_rule ''CWAF-100010'' ''Cross-site scripting payload'' [''path'', ''query'', ''body'', ''headers'']
       (pat ''(?i)(?:<~s*script~b|javascript~s*:|data~s*:~s*text/html|on(?:error|load|click|mouseover|focus)~s*=|<~s*(?:iframe|object|embed|svg)~b)'')
       10 ''critical'',
     builtin_rule ''CWAF-100020'' ''Path traversal'' [''path'', ''query'', ''body'', ''cookies'']
       (pat ''(?:~.~.[/~~]){1,}|(?i)(?:/etc/passwd|/proc/self/environ|windows[/~~]win~.ini)'')
       10 ''critical'',
     builtin_rule ''CWAF-100030'' ''Command injection'' [''query'', ''body'', ''cookies'']
       (pat ''(?i)(?:;|~|~||&&|~$~(|`)~s*(?:/bin/)?(?:sh|bash|dash|zsh|cmd(?:~.exe)?|powershell|curl|wget|nc|netcat|python|perl|ruby)~b'')
       10 ''critical'',
     builtin_rule ''CWAF-100040'' ''Server-side template injection'' [''query'', ''body'']
       (pat ''(?s)(?:~{~{.{0,120}(?:config|class|mro|subclasses|system|popen).{0,120}~}~}|~$~{.{0,120}(?:jndi|runtime|exec).{0,120}~})'')
       9 ''high'',
     builtin_rule ''CWAF-100050'' ''Known vulnerability scanner user agent'' [''headers'']
       (pat ''(?i)~b(?:sqlmap|nikto|acunetix|nessus|nuclei|masscan|gobuster|dirbuster|wpscan|zgrab)~b'')
       6 ''medium'',
     builtin_rule ''CWAF-100060'' ''Sensitive file probe'' [''path'', ''query'']
       (pat ''(?i)(?:^|/)(?:~.env|~.git/config|wp-config~.php|id_rsa|shadow|passwd|web~.config)(?:$|[/?])'')
       10 ''high'']\<close>

definition allowed_targets :: "string list" where
  "allowed_targets = [''method'', ''path'', ''query'', ''headers'', ''cookies'', ''body'']"

definition validateRule :: "rule \<Rightarrow> go_error option" where
  "validateRule r =
     (if TrimSpace (ru_id r) = [] then Some (Errorf ''ID must not be empty'' [])
      else if TrimSpace (ru_name r) = [] then Some (Errorf ''rule %s name must not be empty'' [ru_id r])
      else if ru_targets r = [] then Some (Errorf ''rule %s must define at least one target'' [ru_id r])
      else (case find (\<lambda>t. t \<notin> set allowed_targets) (ru_targets r) of
          Some t \<Rightarrow> Some (Errorf ''rule %s uses unsupported target %q'' [ru_id r, t])
        | None \<Rightarrow>
            if ru_pattern r = [] \<or> 8192 < int (length (ru_pattern r))
            then Some (Errorf ''rule %s pattern length must be between 1 and 8192 bytes'' [ru_id r])
            else if ru_score r < 0 \<or> 1000 < ru_score r
            then Some (Errorf ''rule %s score must be between 0 and 1000'' [ru_id r])
            else if ru_action r \<noteq> ''score'' \<and> ru_action r \<noteq> ''block'' \<and> ru_action r \<noteq> ''log''
            then Some (Errorf ''rule %s action must be score, block, or log'' [ru_id r])
            else if ru_severity r = [] then Some (Errorf ''rule %s severity must not be empty'' [ru_id r])
            else None))"

type_synonym rules_io = "string \<Rightarrow> go_error + rule_file"

definition loadRuleFile :: "rules_io \<Rightarrow> string \<Rightarrow> go_error + rule list" where
  "loadRuleFile rio path =
     (case rio path of
        Inl e \<Rightarrow> Inl e
      | Inr f \<Rightarrow>
          if rf_version f \<noteq> RuleFileVersion
          then Inl (Errorf ''rule file %s uses unsupported version %d'' [path, Itoa (rf_version f)])
          else Inr (rf_rules f))"

subsection \<open>Engine\<close>

record compiled_rule =
  cr_rule :: rule
  cr_rx :: regexp

record waf_engine =
  e_mode :: string
  e_threshold :: int
  e_rules :: "compiled_rule list"

definition load_rules :: "rules_io \<Rightarrow> bool \<Rightarrow> string list \<Rightarrow> go_error + rule list" where
  "load_rules rio builtins ruleFiles =
     fold_err (\<lambda>file rules. case loadRuleFile rio file of Inl e \<Rightarrow> Inl e | Inr loaded \<Rightarrow> Inr (rules @ loaded))
       ruleFiles (if builtins then BuiltinRules else [])"

definition add_rule :: "golib \<Rightarrow> nat \<times> rule \<Rightarrow> string list \<times> compiled_rule list
    \<Rightarrow> go_error + (string list \<times> compiled_rule list)" where
  "add_rule L = (\<lambda>(i, r) (seen, compiled).
     if \<not> ru_enabled r then Inr (seen, compiled)
     else (case validateRule r of
         Some e \<Rightarrow> Inl (Wrapped ''rule %d: %w'' [Itoa (int i)] [e])
       | None \<Rightarrow>
           if ru_id r \<in> set seen then Inl (Errorf ''duplicate rule ID %q'' [ru_id r])
           else (case rx_compile L (ru_pattern r) of
               None \<Rightarrow> Inl (Errorf ''compile rule %s: %w'' [ru_id r])
             | Some rx \<Rightarrow> Inr (ru_id r # seen, compiled @ [\<lparr>cr_rule = r, cr_rx = rx\<rparr>]))))"

definition rule_key :: "compiled_rule \<Rightarrow> string" where
  "rule_key c = ru_id (cr_rule c)"

definition waf_New :: "golib \<Rightarrow> rules_io \<Rightarrow> string \<Rightarrow> int \<Rightarrow> bool \<Rightarrow> string list \<Rightarrow> go_error + waf_engine" where
  "waf_New L rio mode blockThreshold builtins ruleFiles =
     (if mode \<noteq> ''blocking'' \<and> mode \<noteq> ''detect'' then Inl (Errorf ''invalid WAF mode %q'' [mode])
      else if blockThreshold < 1 then Inl (Errorf ''block threshold must be greater than zero'' [])
      else (case load_rules rio builtins ruleFiles of
          Inl e \<Rightarrow> Inl e
        | Inr rules \<Rightarrow>
            (case fold_err (add_rule L) (enumerate 0 rules) ([], []) of
               Inl e \<Rightarrow> Inl e
             | Inr (seen, compiled) \<Rightarrow>
                 Inr \<lparr>e_mode = mode, e_threshold = blockThreshold, e_rules = sort_key rule_key compiled\<rparr>)))"

definition RuleCount :: "waf_engine \<Rightarrow> nat" where
  "RuleCount e = length (e_rules e)"

subsection \<open>Normalization\<close>

fun decode_rounds :: "(string \<Rightarrow> string option) \<Rightarrow> nat \<Rightarrow> string \<Rightarrow> string" where
  "decode_rounds unesc 0 v = v"
| "decode_rounds unesc (Suc n) v =
     (case unesc v of None \<Rightarrow> v | Some d \<Rightarrow> if d = v then v else decode_rounds unesc n d)"

definition decodePath :: "string \<Rightarrow> nat \<Rightarrow> string" where
  "decodePath v rounds = decode_rounds PathUnescape rounds v"

definition decodeQuery :: "string \<Rightarrow> nat \<Rightarrow> string" where
  "decodeQuery v rounds = decode_rounds QueryUnescape rounds v"

definition blank_control :: "string \<Rightarrow> string" where
  "blank_control r = (if IsControl r \<and> r \<noteq> [CHR 0x0A] \<and> r \<noteq> [CHR 0x0D] \<and> r \<noteq> [CHR 0x09] then '' '' else r)"

definition normalizeText :: "golib \<Rightarrow> string \<Rightarrow> bool \<Rightarrow> string" where
  "normalizeText L v queryDecode =
     (let v1 = ToValidUTF8 v RuneError;
          v2 = (if queryDecode then decodeQuery v1 2 else v1);
          v3 = html_unescape L v2;
          v4 = replace_byte v3 CHR 0x00 [];
          v5 = map_runes blank_control v4 in
      ToLower L v5)"

definition normalizePath :: "golib \<Rightarrow> string \<Rightarrow> string" where
  "normalizePath L v = normalizeText L (decodePath v 3) False"

definition normalizeQuery :: "golib \<Rightarrow> string \<Rightarrow> string" where
  "normalizeQuery L v = normalizeText L (decodeQuery v 3) False"

definition normalizeHeaders :: "golib \<Rightarrow> header \<Rightarrow> string" where
  "normalizeHeaders L h =
     concat (map (\<lambda>k. ToLower L k @ '':'' @
         concat (map (\<lambda>v. normalizeText L v True @ '' '') (header_values h k)) @ [CHR 0x0A])
       (sort (map fst h)))"

definition normalizeCookies :: "golib \<Rightarrow> (string \<times> string) list \<Rightarrow> string" where
  "normalizeCookies L cs = concat (map (\<lambda>(n, v). ToLower L n @ ''='' @ normalizeText L v True @ '';'') cs)"

text \<open>A target that is not a key of the map reads as the empty string.\<close>

definition requestTargets :: "golib \<Rightarrow> request \<Rightarrow> string \<Rightarrow> string \<Rightarrow> string" where
  "requestTargets L r body target =
     (if target = ''method'' then ToUpper L (rq_method r)
      else if target = ''path'' then normalizePath L (EscapedPath (rq_url r))
      else if target = ''query'' then normalizeQuery L (u_rawquery (rq_url r))
      else if target = ''headers'' then normalizeHeaders L (rq_header r)
      else if target = ''cookies'' then normalizeCookies L (Cookies L r)
      else if target = ''body'' then normalizeText L body True
      else [])"

subsection \<open>Inspection\<close>

record rule_match =
  m_ruleID :: string
  m_ruleName :: string
  m_target :: string
  m_severity :: string
  m_score :: int
  m_action :: string
  m_excerpt :: string

record decision =
  d_blocked :: bool
  d_score :: int
  d_reason :: string
  d_matches :: "rule_match list"

definition no_decision :: decision where
  "no_decision = \<lparr>d_blocked = False, d_score = 0, d_reason = [], d_matches = []\<rparr>"

definition safeExcerpt :: "string \<Rightarrow> nat \<Rightarrow> nat \<Rightarrow> string" where
  "safeExcerpt v start stop =
     (let s = (if 40 < start then start - 40 else 0);
          e = (if stop + 40 < length v then stop + 40 else length v);
          out = TrimSpace (drop s (take e v)) in
      take 160 (replace_byte (replace_byte out CHR 0x0A '' '') CHR 0x0D '' ''))"

definition framing_match :: rule_match where
  "framing_match = \<lparr>m_ruleID = ''CWAF-000001'', m_ruleName = ''Ambiguous request framing'',
     m_target = ''protocol'', m_severity = ''critical'', m_score = 20, m_action = ''block'', m_excerpt = []\<rparr>"

definition ambiguous_framing :: "request \<Rightarrow> bool" where
  "ambiguous_framing r = (0 \<le> rq_contentLength r \<and> rq_transferEncoding r \<noteq> [])"

text \<open>The inner loop: the first target of a rule in which its expression matches.\<close>

fun first_target :: "(string \<Rightarrow> string) \<Rightarrow> regexp \<Rightarrow> string list \<Rightarrow> (string \<times> nat \<times> nat) option" where
  "first_target targets rx [] = None"
| "first_target targets rx (t # ts) =
     (case rx (targets t) of None \<Rightarrow> first_target targets rx ts | Some (i, j) \<Rightarrow> Some (t, i, j))"

definition inspect_rule :: "(string \<Rightarrow> string) \<Rightarrow> decision \<Rightarrow> compiled_rule \<Rightarrow> decision" where
  "inspect_rule targets d c =
     (let r = cr_rule c in
      case first_target targets (cr_rx c) (ru_targets r) of
        None \<Rightarrow> d
      | Some (t, i, j) \<Rightarrow>
          d\<lparr>d_score := (if ru_action r \<noteq> ''log'' then d_score d + ru_score r else d_score d),
            d_matches := d_matches d @ [\<lparr>m_ruleID = ru_id r, m_ruleName = ru_name r, m_target = t,
              m_severity = ru_severity r, m_score = ru_score r, m_action = ru_action r,
              m_excerpt = safeExcerpt (targets t) i j\<rparr>]\<rparr>)"

definition conclude :: "waf_engine \<Rightarrow> decision \<Rightarrow> decision" where
  "conclude e d =
     (let shouldBlock = (e_threshold e \<le> d_score d \<or> list_ex (\<lambda>m. m_action m = ''block'') (d_matches d)) in
      if shouldBlock \<and> e_mode e = ''blocking''
      then d\<lparr>d_blocked := True,
             d_reason := (case d_matches d of m # _ \<Rightarrow> m_ruleName m | [] \<Rightarrow> ''WAF policy'')\<rparr>
      else d)"

definition waf_Inspect :: "golib \<Rightarrow> waf_engine \<Rightarrow> request option \<Rightarrow> string \<Rightarrow> decision" where
  "waf_Inspect L e req body =
     (case req of
        None \<Rightarrow> no_decision
      | Some r \<Rightarrow>
          let d0 = (if ambiguous_framing r
                    then no_decision\<lparr>d_score := 20, d_matches := [framing_match]\<rparr> else no_decision) in
          conclude e (foldl (inspect_rule (requestTargets L r body)) d0 (e_rules e)))"

subsection \<open>What the engine was built from\<close>

definition valid_rule :: "rule \<Rightarrow> bool" where
  "valid_rule r \<longleftrightarrow> TrimSpace (ru_id r) \<noteq> [] \<and> ru_targets r \<noteq> [] \<and> set (ru_targets r) \<subseteq> set allowed_targets
     \<and> ru_pattern r \<noteq> [] \<and> 0 \<le> ru_score r \<and> ru_score r \<le> 1000
     \<and> ru_action r \<in> {''score'', ''block'', ''log''}"

lemma validateRule_None: "validateRule r = None \<Longrightarrow> valid_rule r"
  by (auto simp: validateRule_def valid_rule_def find_None_iff split: if_splits option.splits)

text \<open>The state of the compilation loop after the rules \<open>done\<close>.\<close>

definition compiled_inv :: "golib \<Rightarrow> rule list \<Rightarrow> string list \<times> compiled_rule list \<Rightarrow> bool" where
  "compiled_inv L rs = (\<lambda>(seen, cs). map cr_rule cs = filter ru_enabled rs
     \<and> distinct (map rule_key cs) \<and> set seen = rule_key ` set cs
     \<and> list_all (\<lambda>c. valid_rule (cr_rule c) \<and> rx_compile L (ru_pattern (cr_rule c)) = Some (cr_rx c)) cs)"

lemma add_rule_inv:
  assumes "compiled_inv L rs st" "add_rule L (i, r) st = Inr st'"
  shows "compiled_inv L (rs @ [r]) st'"
proof -
  obtain seen cs where st: "st = (seen, cs)" by fastforce
  show ?thesis
  proof (cases "ru_enabled r")
    case False
    with assms st show ?thesis by (auto simp: add_rule_def compiled_inv_def)
  next
    case True
    with assms(2) st obtain rx where fresh: "validateRule r = None" "ru_id r \<notin> set seen"
      and rx: "rx_compile L (ru_pattern r) = Some rx"
      and st': "st' = (ru_id r # seen, cs @ [\<lparr>cr_rule = r, cr_rx = rx\<rparr>])"
      by (auto simp: add_rule_def split: option.splits if_splits)
    from assms(1) st fresh have "ru_id r \<notin> set (map rule_key cs)" by (simp add: compiled_inv_def)
    with assms(1) st st' True rx validateRule_None [OF fresh(1)] show ?thesis
      by (simp add: compiled_inv_def rule_key_def)
  qed
qed

lemma compile_loop_inv:
  assumes "fold_err (add_rule L) (enumerate n rs) st = Inr st'" "compiled_inv L done st"
  shows "compiled_inv L (done @ rs) st'"
  using assms
proof (induction rs arbitrary: n st "done")
  case Nil
  then show ?case by simp
next
  case (Cons r rs)
  from Cons.prems(1) obtain st1 where s1: "add_rule L (n, r) st = Inr st1"
    and rest: "fold_err (add_rule L) (enumerate (Suc n) rs) st1 = Inr st'"
    by (auto split: sum.splits)
  from Cons.IH [OF rest add_rule_inv [OF Cons.prems(2) s1]] show ?case by simp
qed

lemma waf_New_built:
  assumes "waf_New L rio mode th builtins files = Inr e"
  obtains rules cs where "load_rules rio builtins files = Inr rules"
    "e = \<lparr>e_mode = mode, e_threshold = th, e_rules = sort_key rule_key cs\<rparr>"
    "map cr_rule cs = filter ru_enabled rules" "distinct (map rule_key cs)"
    "list_all (\<lambda>c. valid_rule (cr_rule c) \<and> rx_compile L (ru_pattern (cr_rule c)) = Some (cr_rx c)) cs"
    "mode = ''blocking'' \<or> mode = ''detect''" "1 \<le> th"
proof -
  from assms obtain rules seen cs where l: "load_rules rio builtins files = Inr rules"
    and f: "fold_err (add_rule L) (enumerate 0 rules) ([], []) = Inr (seen, cs)"
    and e: "e = \<lparr>e_mode = mode, e_threshold = th, e_rules = sort_key rule_key cs\<rparr>"
    and m: "mode = ''blocking'' \<or> mode = ''detect''" "1 \<le> th"
    by (auto simp: waf_New_def split: if_splits sum.splits)
  have "compiled_inv L [] ([], [])" by (simp add: compiled_inv_def)
  from compile_loop_inv [OF f this] have inv: "compiled_inv L rules (seen, cs)" by simp
  show thesis
    by (rule that [OF l e _ _ _ m]) (use inv in \<open>simp_all add: compiled_inv_def\<close>)
qed

lemma load_rules_append:
  assumes "load_rules rio b files = Inr rules" "load_rules rio b (files @ files2) = Inr rules'"
  shows "\<exists>extra. rules' = rules @ extra"
proof -
  let ?step = "\<lambda>file rules. case loadRuleFile rio file of Inl e \<Rightarrow> Inl e | Inr loaded \<Rightarrow> Inr (rules @ loaded)"
  from assms have "fold_err ?step files2 rules = Inr rules'" by (simp add: load_rules_def fold_err_append)
  then show ?thesis
    by (rule fold_err_inv [where P = "\<lambda>rs. \<exists>extra. rs = rules @ extra", rotated]) (auto split: sum.splits)
qed

text \<open>Compilation is a function of the rule, so more rules extend the compiled list.\<close>

lemma compiled_determined:
  fixes cs cs' :: "compiled_rule list"
  assumes "map cr_rule cs = map cr_rule cs'"
    and "list_all (\<lambda>c. Q c \<and> rx_compile L (ru_pattern (cr_rule c)) = Some (cr_rx c)) cs"
    and "list_all (\<lambda>c. Q c \<and> rx_compile L (ru_pattern (cr_rule c)) = Some (cr_rx c)) cs'"
  shows "cs = cs'"
  using assms
proof (induction cs arbitrary: cs')
  case (Cons c cs)
  then obtain c' ds where c': "cs' = c' # ds" "cr_rule c = cr_rule c'" "map cr_rule cs = map cr_rule ds"
    by (cases cs') auto
  with Cons.prems(2,3) have "cr_rx c = cr_rx c'" by simp
  with c'(2) have "c = c'" by (simp add: compiled_rule.equality)
  moreover have "cs = ds" using Cons.IH [OF c'(3)] Cons.prems(2,3) c'(1) by simp
  ultimately show ?case using c'(1) by simp
qed simp

lemma compiled_prefix:
  fixes cs cs' :: "compiled_rule list"
  assumes "map cr_rule cs = filter ru_enabled rules"
    and ok: "list_all (\<lambda>c. Q c \<and> rx_compile L (ru_pattern (cr_rule c)) = Some (cr_rx c)) cs"
    and "map cr_rule cs' = filter ru_enabled rules'"
    and ok': "list_all (\<lambda>c. Q c \<and> rx_compile L (ru_pattern (cr_rule c)) = Some (cr_rx c)) cs'"
    and "rules' = rules @ extra"
  shows "\<exists>ds. cs' = cs @ ds"
proof -
  let ?n = "length cs"
  from assms(1,3,5) have m: "map cr_rule cs' = map cr_rule cs @ filter ru_enabled extra" by simp
  then have "map cr_rule (take ?n cs') = map cr_rule cs" by (simp flip: take_map)
  moreover have "list_all (\<lambda>c. Q c \<and> rx_compile L (ru_pattern (cr_rule c)) = Some (cr_rx c)) (take ?n cs')"
    using ok' by (auto simp: list_all_iff dest: in_set_takeD)
  ultimately have "take ?n cs' = cs" using compiled_determined ok by blast
  then show ?thesis by (metis append_take_drop_id)
qed

lemma sum_list_sort_key: "sum_list (map f (sort_key k xs)) = sum_list (map f xs)"
  for f :: "'a \<Rightarrow> int"
  by (metis mset_map mset_sort sum_mset_sum_list)

subsection \<open>What a request adds up to\<close>

definition hits :: "(string \<Rightarrow> string) \<Rightarrow> compiled_rule \<Rightarrow> bool" where
  "hits targets c = list_ex (\<lambda>t. MatchString (cr_rx c) (targets t)) (ru_targets (cr_rule c))"

definition rule_score :: "(string \<Rightarrow> string) \<Rightarrow> compiled_rule \<Rightarrow> int" where
  "rule_score targets c = (if hits targets c \<and> ru_action (cr_rule c) \<noteq> ''log'' then ru_score (cr_rule c) else 0)"

definition anomaly_score :: "golib \<Rightarrow> waf_engine \<Rightarrow> request \<Rightarrow> string \<Rightarrow> int" where
  "anomaly_score L e r body =
     (if ambiguous_framing r then 20 else 0) + sum_list (map (rule_score (requestTargets L r body)) (e_rules e))"

lemma first_target_None_iff:
  "first_target targets rx ts = None \<longleftrightarrow> \<not> list_ex (\<lambda>t. MatchString rx (targets t)) ts"
  by (induction ts) (auto simp: MatchString_def split: option.splits)

lemma inspect_rule_effect:
  "d_score (inspect_rule T d c) = d_score d + rule_score T c"
  "map (\<lambda>m. (m_ruleID m, m_action m)) (d_matches (inspect_rule T d c)) =
     map (\<lambda>m. (m_ruleID m, m_action m)) (d_matches d)
     @ (if hits T c then [(rule_key c, ru_action (cr_rule c))] else [])"
  "d_blocked (inspect_rule T d c) = d_blocked d"
  using first_target_None_iff [of T "cr_rx c" "ru_targets (cr_rule c)"]
  by (auto simp: inspect_rule_def rule_score_def hits_def rule_key_def Let_def split: option.splits)

lemma inspect_rules_effect:
  "d_score (foldl (inspect_rule T) d cs) = d_score d + sum_list (map (rule_score T) cs)"
  "map (\<lambda>m. (m_ruleID m, m_action m)) (d_matches (foldl (inspect_rule T) d cs)) =
     map (\<lambda>m. (m_ruleID m, m_action m)) (d_matches d)
     @ map (\<lambda>c. (rule_key c, ru_action (cr_rule c))) (filter (hits T) cs)"
  "d_blocked (foldl (inspect_rule T) d cs) = d_blocked d"
  by (induction cs arbitrary: d) (simp_all add: inspect_rule_effect)

lemma conclude_simps [simp]:
  "d_score (conclude e d) = d_score d" "d_matches (conclude e d) = d_matches d"
  "d_blocked (conclude e d) \<longleftrightarrow> d_blocked d \<or> e_mode e = ''blocking'' \<and>
     (e_threshold e \<le> d_score d \<or> list_ex (\<lambda>m. m_action m = ''block'') (d_matches d))"
  by (auto simp: conclude_def Let_def)

lemma Inspect_score_matches:
  "d_score (waf_Inspect L e (Some r) body) = anomaly_score L e r body"
  "map (\<lambda>m. (m_ruleID m, m_action m)) (d_matches (waf_Inspect L e (Some r) body)) =
     (if ambiguous_framing r then [(''CWAF-000001'', ''block'')] else [])
     @ map (\<lambda>c. (rule_key c, ru_action (cr_rule c))) (filter (hits (requestTargets L r body)) (e_rules e))"
  by (simp_all add: waf_Inspect_def anomaly_score_def Let_def inspect_rules_effect no_decision_def framing_match_def)

lemma block_action_iff:
  "list_ex (\<lambda>m. m_action m = a) ms = list_ex (\<lambda>p. snd p = a) (map (\<lambda>m. (m_ruleID m, m_action m)) ms)"
  by (induction ms) auto

lemma list_ex_filtered:
  "list_ex (\<lambda>p. snd p = a) (map (\<lambda>c. (k c, f c)) (filter P xs)) \<longleftrightarrow> (\<exists>c\<in>set xs. P c \<and> f c = a)"
  by (induction xs) auto

lemma Inspect_blocked:
  "d_blocked (waf_Inspect L e (Some r) body) \<longleftrightarrow> e_mode e = ''blocking'' \<and>
     (e_threshold e \<le> anomaly_score L e r body \<or> ambiguous_framing r
      \<or> (\<exists>c\<in>set (e_rules e). hits (requestTargets L r body) c \<and> ru_action (cr_rule c) = ''block''))"
proof -
  let ?d = "waf_Inspect L e (Some r) body"
  have "d_blocked ?d \<longleftrightarrow> e_mode e = ''blocking'' \<and>
      (e_threshold e \<le> d_score ?d \<or> list_ex (\<lambda>m. m_action m = ''block'') (d_matches ?d))"
    by (simp add: waf_Inspect_def Let_def inspect_rules_effect no_decision_def)
  also have "list_ex (\<lambda>m. m_action m = ''block'') (d_matches ?d) \<longleftrightarrow> ambiguous_framing r
      \<or> (\<exists>c\<in>set (e_rules e). hits (requestTargets L r body) c \<and> ru_action (cr_rule c) = ''block'')"
    unfolding block_action_iff Inspect_score_matches(2) by (simp add: list_ex_filtered)
  finally show ?thesis unfolding Inspect_score_matches(1) .
qed

subsection \<open>Decoding in rounds\<close>

text \<open>
  What both decoders share: an unescaping function that leaves some texts as they are. \<open>peel\<close> undoes
  exactly \<open>n\<close> layers.
\<close>

fun peel :: "(string \<Rightarrow> string option) \<Rightarrow> nat \<Rightarrow> string \<Rightarrow> string option" where
  "peel unesc 0 v = Some v"
| "peel unesc (Suc n) v = (case unesc v of None \<Rightarrow> None | Some d \<Rightarrow> peel unesc n d)"

locale percent_decoder =
  fixes unesc :: "string \<Rightarrow> string option" and plain :: "string \<Rightarrow> bool"
  assumes plain_fixed: "plain s \<Longrightarrow> unesc s = Some s"
    and shrinks: "unesc v = Some d \<Longrightarrow> length d \<le> length v"
begin

lemma decode_plain: "plain s \<Longrightarrow> decode_rounds unesc n s = s"
  by (cases n) (simp_all add: plain_fixed)

lemma peel_fixed: "unesc v = Some v \<Longrightarrow> peel unesc n v = Some v"
  by (induction n) auto

lemma decode_peels:
  "peel unesc n v = Some s \<Longrightarrow> plain s \<Longrightarrow> n \<le> m \<Longrightarrow> decode_rounds unesc m v = s"
proof (induction n arbitrary: m v)
  case 0
  then show ?case by (simp add: decode_plain)
next
  case (Suc n)
  then obtain k where m: "m = Suc k" "n \<le> k" by (cases m) auto
  from Suc.prems(1) obtain d where d: "unesc v = Some d" "peel unesc n d = Some s"
    by (auto split: option.splits)
  show ?case
  proof (cases "d = v")
    case True
    with d peel_fixed [of v n] m show ?thesis by simp
  next
    case False
    with d m Suc.IH [OF d(2) Suc.prems(2) m(2)] show ?thesis by simp
  qed
qed

lemma decode_shrinks: "length (decode_rounds unesc n v) \<le> length v"
  by (induction n arbitrary: v) (auto split: option.splits intro: le_trans shrinks)

end

lemma url_unescape_plain:
  "CHR ''%'' \<notin> set s \<Longrightarrow> \<not> q \<or> CHR ''+'' \<notin> set s \<Longrightarrow> url_unescape q s = Some s"
  by (induction s) auto

lemma url_unescape_shrinks: "url_unescape q v = Some d \<Longrightarrow> length d \<le> length v"
proof (induction q v arbitrary: d rule: url_unescape.induct)
  case (2 q c cs)
  show ?case
  proof (cases "c = CHR ''%''")
    case True
    with "2.prems" obtain a b rest e where cs: "cs = a # b # rest" and "hex_pair a b \<noteq> None"
      and e: "url_unescape q rest = Some e" "length d = Suc (length e)"
      by (auto split: list.splits option.splits)
    then obtain x where "hex_pair a b = Some x" by blast
    from "2.IH"(1) [OF True cs refl this e(1)] e(2) cs show ?thesis by simp
  next
    case False
    with "2.prems" obtain e where "url_unescape q cs = Some e" "length d = Suc (length e)" by auto
    with "2.IH"(2) [OF False] show ?thesis by simp
  qed
qed simp

interpretation path_decoder: percent_decoder PathUnescape "\<lambda>s. CHR ''%'' \<notin> set s"
  by unfold_locales (simp_all add: PathUnescape_def url_unescape_plain url_unescape_shrinks)

interpretation query_decoder: percent_decoder QueryUnescape "\<lambda>s. CHR ''%'' \<notin> set s \<and> CHR ''+'' \<notin> set s"
  by unfold_locales (simp_all add: QueryUnescape_def url_unescape_plain url_unescape_shrinks)

text \<open>A rule file with one rule and a request with a given query, for evaluation.\<close>

definition traversal_rule :: rule where
  "traversal_rule = \<lparr>ru_id = ''T-1'', ru_name = ''Traversal'', ru_description = [], ru_enabled = True,
     ru_targets = [''path'', ''query''], ru_pattern = ''../'', ru_score = 10, ru_action = ''score'',
     ru_severity = ''high''\<rparr>"

definition union_rule :: rule where
  "union_rule = \<lparr>ru_id = ''S-1'', ru_name = ''Union'', ru_description = [], ru_enabled = True,
     ru_targets = [''query''], ru_pattern = ''union'', ru_score = 10, ru_action = ''log'',
     ru_severity = ''high''\<rparr>"

definition sample_rules :: rules_io where
  "sample_rules path =
     (if path = ''a.json'' then Inr \<lparr>rf_version = 1, rf_rules = [traversal_rule]\<rparr>
      else if path = ''b.json'' then Inr \<lparr>rf_version = 1, rf_rules =
        [union_rule, traversal_rule\<lparr>ru_enabled := False\<rparr>]\<rparr>
      else Inl (Errorf ''read rule file %s: %w'' [path]))"

definition traversal_engine :: waf_engine where
  "traversal_engine = \<lparr>e_mode = ''blocking'', e_threshold = 10,
     e_rules = [\<lparr>cr_rule = traversal_rule, cr_rx = find_index ''../'' 0\<rparr>]\<rparr>"

definition wider_engine :: waf_engine where
  "wider_engine = traversal_engine\<lparr>e_rules :=
     \<lparr>cr_rule = union_rule, cr_rx = find_index ''union'' 0\<rparr> # e_rules traversal_engine\<rparr>"

definition query_request :: "string \<Rightarrow> request" where
  "query_request q = \<lparr>rq_method = ''GET'',
     rq_url = \<lparr>u_scheme = [], u_user = False, u_host = [], u_path = ''/'', u_rawpath = [], u_rawquery = q, u_forceQuery = False, u_fragment = []\<rparr>,
     rq_requestURI = ''/?'' @ q, rq_host = ''example.com'', rq_remoteAddr = ''192.0.2.1:4711'',
     rq_header = [], rq_contentLength = 0, rq_transferEncoding = [], rq_tls = False, rq_body = [], rq_getBody = None\<rparr>"

lemma sample_rules_valid:
  "validateRule traversal_rule = None" "validateRule union_rule = None"
  by code_simp+

lemma sample_rules_sel [simp]:
  "ru_id traversal_rule = ''T-1''" "ru_enabled traversal_rule" "ru_pattern traversal_rule = ''../''"
  "ru_id union_rule = ''S-1''" "ru_enabled union_rule" "ru_pattern union_rule = ''union''"
  by (simp_all add: traversal_rule_def union_rule_def)

lemma sample_order: "\<not> ''T-1'' \<le> ''S-1''" "''S-1'' \<le> ''T-1''"
  by code_simp+

lemma sample_engines:
  "waf_New plain_lib sample_rules ''blocking'' 10 False [''a.json''] = Inr traversal_engine"
  "waf_New plain_lib sample_rules ''blocking'' 10 False ([''a.json''] @ [''b.json'']) = Inr wider_engine"
  by (simp_all add: waf_New_def load_rules_def loadRuleFile_def sample_rules_def RuleFileVersion_def add_rule_def
      sample_rules_valid plain_lib_def traversal_engine_def wider_engine_def rule_key_def sample_order)

subsection \<open>Properties\<close>

text \<open>
  C4. A request is blocked exactly when the engine is in blocking mode and the sum of the scores of the
  matching rules (log-only ones left out, 20 for ambiguous framing) reaches the threshold, or some
  matching rule has the action block. In detect mode nothing is ever blocked.
\<close>

theorem Inspect_blocked_iff:
  "d_score (waf_Inspect L e (Some r) body) = anomaly_score L e r body \<and>
   (d_blocked (waf_Inspect L e (Some r) body) \<longleftrightarrow> e_mode e = ''blocking'' \<and>
     (e_threshold e \<le> anomaly_score L e r body \<or> ambiguous_framing r
      \<or> (\<exists>c. c \<in> set (e_rules e) \<and> hits (requestTargets L r body) c \<and> ru_action (cr_rule c) = ''block'')))"
  using Inspect_score_matches(1) Inspect_blocked by blast

text \<open>
  C33. An engine that was built holds every enabled rule of the built-in set and of the files, each once
  under its own identifier, in the order of the identifiers, each one valid and compiled from its
  own pattern.
\<close>

theorem waf_New_complete:
  assumes "waf_New L rio mode th builtins files = Inr e"
  shows "\<exists>rules. load_rules rio builtins files = Inr rules
    \<and> mset (map cr_rule (e_rules e)) = mset (filter ru_enabled rules)
    \<and> distinct (map rule_key (e_rules e)) \<and> sorted (map rule_key (e_rules e))
    \<and> list_all (\<lambda>c. valid_rule (cr_rule c) \<and> rx_compile L (ru_pattern (cr_rule c)) = Some (cr_rx c)) (e_rules e)"
  using assms
proof (rule waf_New_built)
  fix rules cs
  assume e: "e = \<lparr>e_mode = mode, e_threshold = th, e_rules = sort_key rule_key cs\<rparr>"
    and m: "map cr_rule cs = filter ru_enabled rules" and d: "distinct (map rule_key cs)"
    and load: "load_rules rio builtins files = Inr rules"
    and all: "list_all (\<lambda>c. valid_rule (cr_rule c) \<and> rx_compile L (ru_pattern (cr_rule c)) = Some (cr_rx c)) cs"
  have "distinct (map rule_key (sort_key rule_key cs))"
    using d by (metis distinct_map distinct_sort set_sort)
  moreover have "mset (map cr_rule (sort_key rule_key cs)) = mset (filter ru_enabled rules)"
    using m by (metis mset_map mset_sort)
  ultimately show ?thesis using e load all by (simp add: list_all_iff)
qed

theorem waf_New_complete_witness:
  "\<exists>rules. load_rules sample_rules False ([''a.json''] @ [''b.json'']) = Inr rules
    \<and> mset (map cr_rule (e_rules wider_engine)) = mset (filter ru_enabled rules)
    \<and> distinct (map rule_key (e_rules wider_engine)) \<and> sorted (map rule_key (e_rules wider_engine))
    \<and> list_all (\<lambda>c. valid_rule (cr_rule c) \<and> rx_compile plain_lib (ru_pattern (cr_rule c)) = Some (cr_rx c))
        (e_rules wider_engine)"
  by (rule waf_New_complete [OF sample_engines(2)])

text \<open>
  Adding rule files never lets through what was blocked: when an engine with the same mode and
  threshold is built from more rule files, it blocks every request the smaller one blocks.
\<close>

theorem more_rules_block_more:
  assumes small: "waf_New L rio mode th builtins files = Inr e"
    and large: "waf_New L rio mode th builtins (files @ files2) = Inr e'"
    and blocked: "d_blocked (waf_Inspect L e (Some r) body)"
  shows "d_blocked (waf_Inspect L e' (Some r) body)"
proof -
  let ?T = "requestTargets L r body"
  obtain rules cs where s: "load_rules rio builtins files = Inr rules"
    "e = \<lparr>e_mode = mode, e_threshold = th, e_rules = sort_key rule_key cs\<rparr>"
    "map cr_rule cs = filter ru_enabled rules"
    "list_all (\<lambda>c. valid_rule (cr_rule c) \<and> rx_compile L (ru_pattern (cr_rule c)) = Some (cr_rx c)) cs"
    by (rule waf_New_built [OF small])
  obtain rules' cs' where l: "load_rules rio builtins (files @ files2) = Inr rules'"
    "e' = \<lparr>e_mode = mode, e_threshold = th, e_rules = sort_key rule_key cs'\<rparr>"
    "map cr_rule cs' = filter ru_enabled rules'"
    "list_all (\<lambda>c. valid_rule (cr_rule c) \<and> rx_compile L (ru_pattern (cr_rule c)) = Some (cr_rx c)) cs'"
    by (rule waf_New_built [OF large])
  obtain extra where "rules' = rules @ extra"
    using load_rules_append [OF s(1) l(1)] by blast
  then obtain ds where cs': "cs' = cs @ ds"
    using compiled_prefix [OF s(3,4) l(3,4)] by blast
  have "0 \<le> sum_list (map (rule_score ?T) ds)"
    by (rule sum_list_nonneg) (use l(4) cs' in \<open>auto simp: rule_score_def valid_rule_def list_all_iff\<close>)
  then have "anomaly_score L e r body \<le> anomaly_score L e' r body"
    by (simp add: anomaly_score_def s(2) l(2) sum_list_sort_key cs')
  moreover have "set (e_rules e) \<subseteq> set (e_rules e')" by (simp add: s(2) l(2) cs')
  ultimately show ?thesis using blocked unfolding Inspect_blocked s(2) l(2) by auto
qed

theorem more_rules_block_more_witness:
  "d_blocked (waf_Inspect plain_lib wider_engine (Some (query_request ''f=%252e%252e%252f'')) [])"
  by (rule more_rules_block_more [OF sample_engines]) code_simp



text \<open>
  Decoding is all or nothing: one malformed escape anywhere in a query leaves the whole query
  undecoded. An engine whose rule blocks the query \<open>f=%2e%2e%2f\<close> lets \<open>f=%2e%2e%2f&x=%\<close> through.
\<close>

theorem malformed_escape_disables_decoding:
  "waf_New plain_lib sample_rules ''blocking'' 10 False [''a.json''] = Inr traversal_engine
   \<and> d_blocked (waf_Inspect plain_lib traversal_engine (Some (query_request ''f=%2e%2e%2f'')) [])
   \<and> \<not> d_blocked (waf_Inspect plain_lib traversal_engine (Some (query_request ''f=%2e%2e%2f&x=%'')) [])"
proof (intro conjI)
  show "waf_New plain_lib sample_rules ''blocking'' 10 False [''a.json''] = Inr traversal_engine"
    by (rule sample_engines(1))
  show "d_blocked (waf_Inspect plain_lib traversal_engine (Some (query_request ''f=%2e%2e%2f'')) [])"
    by code_simp
  show "\<not> d_blocked (waf_Inspect plain_lib traversal_engine (Some (query_request ''f=%2e%2e%2f&x=%'')) [])"
    by code_simp
qed

text \<open>
  Excerpts that go to the security log are at most 160 bytes and hold no line break, whatever the
  inspected text was, so a request cannot forge log lines through them.
\<close>

theorem safeExcerpt_safe:
  "length (safeExcerpt v i j) \<le> 160 \<and> CHR 0x0A \<notin> set (safeExcerpt v i j) \<and> CHR 0x0D \<notin> set (safeExcerpt v i j)"
  unfolding safeExcerpt_def Let_def by (auto dest!: in_set_takeD simp: replace_byte_gone replace_byte_absent)

end
