(* ===== verification/RateLimit.thy ===== *)
theory RateLimit
  imports Prelude Complex_Main
begin

text \<open>
  The token-bucket limiter of \<open>internal/ratelimit/limiter.go\<close>. Instants are nanoseconds; the
  \<open>float64\<close> quantities (rate, burst, tokens, elapsed seconds) are exact rationals, so the
  rounding of floating point is not modelled. The mutex makes every operation atomic, so an
  execution is a sequence of requests, cleanup ticks and a close.
\<close>

record bucket =
  b_tokens :: rat
  b_last :: gotime
  b_lastSeen :: gotime

record limiter =
  l_rate :: rat
  l_burst :: rat
  l_ttl :: duration
  l_buckets :: "string \<rightharpoonup> bucket"
  l_stopped :: bool

definition secs :: "duration \<Rightarrow> rat" where
  "secs d = of_int d / 1000000000"

definition New_limiter :: "rat \<Rightarrow> int \<Rightarrow> duration \<Rightarrow> limiter" where
  "New_limiter requestsPerSecond burst ttl =
     \<lparr>l_rate = requestsPerSecond, l_burst = of_int burst,
      l_ttl = (if ttl \<le> 0 then 10 * minute else ttl),
      l_buckets = Map.empty, l_stopped = False\<rparr>"

definition refill :: "limiter \<Rightarrow> gotime \<Rightarrow> bucket \<Rightarrow> bucket" where
  "refill l now b =
     (let elapsed = secs (time_sub now (b_last b)) in
      if elapsed > 0
      then (let t = b_tokens b + elapsed * l_rate l in
            b\<lparr>b_tokens := (if t > l_burst l then l_burst l else t), b_last := now\<rparr>)
      else b)"

definition Allow :: "limiter \<Rightarrow> gotime \<Rightarrow> string \<Rightarrow> limiter \<times> bool" where
  "Allow l now key =
     (case l_buckets l key of
        None \<Rightarrow>
          (l\<lparr>l_buckets := (l_buckets l)(key \<mapsto>
               \<lparr>b_tokens = l_burst l - 1, b_last = now, b_lastSeen = now\<rparr>)\<rparr>, True)
      | Some b0 \<Rightarrow>
          (let b = (refill l now b0)\<lparr>b_lastSeen := now\<rparr> in
           if b_tokens b < 1
           then (l\<lparr>l_buckets := (l_buckets l)(key \<mapsto> b)\<rparr>, False)
           else (l\<lparr>l_buckets := (l_buckets l)(key \<mapsto> b\<lparr>b_tokens := b_tokens b - 1\<rparr>)\<rparr>, True)))"

definition Size :: "limiter \<Rightarrow> nat" where
  "Size l = card (dom (l_buckets l))"

definition Close_limiter :: "limiter \<Rightarrow> limiter" where
  "Close_limiter l = (if l_stopped l then l else l\<lparr>l_stopped := True\<rparr>)"

definition cleanup_interval :: "limiter \<Rightarrow> duration" where
  "cleanup_interval l =
     (let interval = l_ttl l div 2 in if interval < 30 * second then 30 * second else interval)"

definition cleanup :: "limiter \<Rightarrow> gotime \<Rightarrow> limiter" where
  "cleanup l now =
     l\<lparr>l_buckets := (\<lambda>key. case l_buckets l key of
         None \<Rightarrow> None
       | Some b \<Rightarrow> if time_sub now (b_lastSeen b) > l_ttl l then None else Some b)\<rparr>"

text \<open>
  \<open>cleanupLoop\<close> waits for a tick or for the stop channel; once the channel is closed the
  goroutine has returned and a tick does nothing.
\<close>

datatype lim_event = Request string gotime | Tick gotime | CloseEvent

fun lim_step :: "limiter \<Rightarrow> lim_event \<Rightarrow> limiter \<times> bool option" where
  "lim_step l (Request k t) = (case Allow l t k of (l', ok) \<Rightarrow> (l', Some ok))"
| "lim_step l (Tick t) = ((if l_stopped l then l else cleanup l t), None)"
| "lim_step l CloseEvent = (Close_limiter l, None)"

text \<open>How many requests of one key a sequence of events admits, and the limiter after it.\<close>

definition passes :: "string \<Rightarrow> lim_event \<Rightarrow> bool option \<Rightarrow> nat" where
  "passes k e r =
     (case e of Request k' t \<Rightarrow> if k' = k \<and> r = Some True then 1 else 0 | _ \<Rightarrow> 0)"

fun admitted :: "string \<Rightarrow> limiter \<Rightarrow> lim_event list \<Rightarrow> nat" where
  "admitted k l [] = 0"
| "admitted k l (e # es) =
     (case lim_step l e of (l', r) \<Rightarrow> passes k e r + admitted k l' es)"

fun lim_run :: "limiter \<Rightarrow> lim_event list \<Rightarrow> limiter" where
  "lim_run l [] = l"
| "lim_run l (e # es) = lim_run (fst (lim_step l e)) es"

fun event_time :: "gotime \<Rightarrow> lim_event \<Rightarrow> gotime" where
  "event_time t (Request k u) = u"
| "event_time t (Tick u) = u"
| "event_time t CloseEvent = t"

fun chronological :: "gotime \<Rightarrow> lim_event list \<Rightarrow> bool" where
  "chronological t [] = True"
| "chronological t (e # es) = (t \<le> event_time t e \<and> chronological (event_time t e) es)"

fun end_time :: "gotime \<Rightarrow> lim_event list \<Rightarrow> gotime" where
  "end_time t [] = t"
| "end_time t (e # es) = end_time (event_time t e) es"

subsection \<open>The interface the request path relies on\<close>

text \<open>
  A gate decides per key. Its client (the request pipeline, the bot engine) relies on decisions
  for one key depending on that key's own requests only: \<open>view\<close> is the part of the state a
  key can see.
\<close>

fun gate_run :: "('s \<Rightarrow> gotime \<Rightarrow> string \<Rightarrow> 's \<times> bool) \<Rightarrow> 's \<Rightarrow> (gotime \<times> string) list
    \<Rightarrow> (string \<times> bool) list" where
  "gate_run allow s [] = []"
| "gate_run allow s ((t, k) # rs) =
     (case allow s t k of (s', ok) \<Rightarrow> (k, ok) # gate_run allow s' rs)"

locale keyed_gate =
  fixes allow :: "'s \<Rightarrow> gotime \<Rightarrow> string \<Rightarrow> 's \<times> bool" and view :: "'s \<Rightarrow> string \<Rightarrow> 'v"
  assumes view_other: "k' \<noteq> k \<Longrightarrow> view (fst (allow s t k)) k' = view s k'"
    and view_result: "view s k = view s' k \<Longrightarrow> snd (allow s t k) = snd (allow s' t k)"
    and view_state: "view s k = view s' k \<Longrightarrow>
           view (fst (allow s t k)) k = view (fst (allow s' t k)) k"
begin

lemma gate_isolation_view:
  "view s k = view s' k \<Longrightarrow>
     filter (\<lambda>(k', ok). k' = k) (gate_run allow s rs)
     = gate_run allow s' (filter (\<lambda>(t, k'). k' = k) rs)"
proof (induction rs arbitrary: s s')
  case Nil
  then show ?case by simp
next
  case (Cons r rs)
  obtain t k' where r: "r = (t, k')" by fastforce
  obtain s1 ok where a: "allow s t k' = (s1, ok)" by fastforce
  show ?case
  proof (cases "k' = k")
    case True
    obtain s2 ok' where a': "allow s' t k' = (s2, ok')" by fastforce
    with True a Cons.prems have "ok' = ok" "view s1 k = view s2 k"
      using view_result [of s k s' t] view_state [of s k s' t] by auto
    with True r a a' Cons.IH [of s1 s2] show ?thesis by simp
  next
    case False
    then have "view s1 k = view s' k" using view_other [of k k' s t] a Cons.prems by simp
    with False r a Cons.IH [of s1 s'] show ?thesis by simp
  qed
qed

lemma gate_isolation:
  "filter (\<lambda>(k', ok). k' = k) (gate_run allow s rs) = gate_run allow s (filter (\<lambda>(t, k'). k' = k) rs)"
  by (rule gate_isolation_view) (rule refl)

end

subsection \<open>Invariant\<close>

definition bucket_ok :: "rat \<Rightarrow> gotime \<Rightarrow> bucket \<Rightarrow> bool" where
  "bucket_ok burst t b \<longleftrightarrow>
     0 \<le> b_tokens b \<and> b_tokens b \<le> burst \<and> b_lastSeen b = b_last b \<and> b_last b \<le> t"

definition lim_inv :: "gotime \<Rightarrow> limiter \<Rightarrow> bool" where
  "lim_inv t l \<longleftrightarrow> 1 \<le> l_burst l \<and> 0 \<le> l_rate l \<and>
     (\<forall>k b. l_buckets l k = Some b \<longrightarrow> bucket_ok (l_burst l) t b)"

lemma secs_le_iff [simp]: "secs a \<le> secs b \<longleftrightarrow> a \<le> b"
  by (simp add: secs_def divide_le_cancel)

lemma secs_pos_iff [simp]: "0 < secs d \<longleftrightarrow> 0 < d"
  by (simp add: secs_def zero_less_divide_iff)

lemma secs_nonneg_iff [simp]: "0 \<le> secs d \<longleftrightarrow> 0 \<le> d"
  by (simp add: secs_def zero_le_divide_iff)

lemma secs_zero [simp]: "secs 0 = 0"
  by (simp add: secs_def)

lemma secs_add: "secs (a + b) = secs a + secs b"
  by (simp add: secs_def add_divide_distrib)

lemma time_sub_self [simp]: "time_sub t t = 0"
  by (simp add: time_sub_def)

lemma refill_bucket:
  assumes "bucket_ok burst u b" "u \<le> t" "l_burst l = burst" "0 \<le> l_rate l" "1 \<le> burst"
  shows "b_tokens (refill l t b) = min burst (b_tokens b + secs (time_sub t (b_last b)) * l_rate l)"
    and "b_last (refill l t b) = t"
proof -
  from assms have "b_last b \<le> t" by (simp add: bucket_ok_def)
  then consider "b_last b = t" | "b_last b < t" by linarith
  then have "b_tokens (refill l t b) = min burst (b_tokens b + secs (time_sub t (b_last b)) * l_rate l)
      \<and> b_last (refill l t b) = t"
    using assms by cases (auto simp: refill_def bucket_ok_def Let_def time_sub_pos_iff min_def)
  then show "b_tokens (refill l t b) = min burst (b_tokens b + secs (time_sub t (b_last b)) * l_rate l)"
    and "b_last (refill l t b) = t" by blast+
qed

lemma refill_nonneg:
  assumes "bucket_ok burst u b" "u \<le> t" "0 \<le> r" "1 \<le> burst"
  shows "0 \<le> min burst (b_tokens b + secs (time_sub t (b_last b)) * r)"
  using assms by (auto simp: bucket_ok_def time_sub_def)

lemma lim_inv_mono: "lim_inv t l \<Longrightarrow> t \<le> u \<Longrightarrow> lim_inv u l"
  by (force simp: lim_inv_def bucket_ok_def)

lemma Allow_inv:
  assumes inv: "lim_inv t l" and le: "t \<le> u"
  shows "lim_inv u (fst (Allow l u k))"
proof (cases "l_buckets l k")
  case None
  with lim_inv_mono [OF inv le] show ?thesis
    by (auto simp: Allow_def lim_inv_def bucket_ok_def)
next
  case (Some b)
  from inv have base: "1 \<le> l_burst l" "0 \<le> l_rate l" and ok: "bucket_ok (l_burst l) t b"
    using Some by (auto simp: lim_inv_def)
  note rf = refill_bucket [OF ok le refl base(2,1)]
  have "0 \<le> b_tokens (refill l u b)" "b_tokens (refill l u b) \<le> l_burst l"
    using rf(1) refill_nonneg [OF ok le base(2,1)] by auto
  with rf(2) lim_inv_mono [OF inv le] Some show ?thesis
    by (auto simp: Allow_def lim_inv_def bucket_ok_def Let_def)
qed

lemma cleanup_inv: "lim_inv t l \<Longrightarrow> t \<le> u \<Longrightarrow> lim_inv u (cleanup l u)"
  by (drule lim_inv_mono, assumption)
     (auto simp: lim_inv_def cleanup_def split: option.splits if_splits)

lemma lim_step_inv:
  assumes "lim_inv t l" "t \<le> event_time t e"
  shows "lim_inv (event_time t e) (fst (lim_step l e))"
proof (cases e)
  case (Request k u)
  with assms Allow_inv [of t l u k] show ?thesis by (auto split: prod.splits)
next
  case (Tick u)
  with assms show ?thesis by (auto intro: cleanup_inv lim_inv_mono)
next
  case CloseEvent
  with assms show ?thesis by (auto simp: Close_limiter_def lim_inv_def)
qed

lemma lim_step_params [simp]:
  "l_rate (fst (lim_step l e)) = l_rate l" "l_burst (fst (lim_step l e)) = l_burst l"
  "l_ttl (fst (lim_step l e)) = l_ttl l"
  by (cases e; auto simp: Allow_def cleanup_def Close_limiter_def Let_def split: option.splits prod.splits)+

subsection \<open>The credit of a key\<close>

text \<open>
  The tokens key \<open>k\<close> would have at time \<open>t\<close>. It never grows faster than the configured rate,
  an admitted request takes one from it, and nothing else changes it: the potential of the rate
  bound.
\<close>

definition credit :: "limiter \<Rightarrow> gotime \<Rightarrow> string \<Rightarrow> rat" where
  "credit l t k = (case l_buckets l k of
      None \<Rightarrow> l_burst l
    | Some b \<Rightarrow> min (l_burst l) (b_tokens b + secs (time_sub t (b_last b)) * l_rate l))"

lemma time_sub_lipschitz: "t \<le> u \<Longrightarrow> time_sub u x \<le> time_sub t x + (u - t)"
  by (auto simp: time_sub_def)

lemma credit_growth:
  assumes "t \<le> u" "0 \<le> l_rate l"
  shows "credit l u k \<le> credit l t k + l_rate l * secs (u - t)"
proof (cases "l_buckets l k")
  case None
  with assms show ?thesis by (simp add: credit_def)
next
  case (Some b)
  have "secs (time_sub u (b_last b)) \<le> secs (time_sub t (b_last b)) + secs (u - t)"
    using time_sub_lipschitz [OF assms(1)] by (simp flip: secs_add)
  then have "secs (time_sub u (b_last b)) * l_rate l
      \<le> (secs (time_sub t (b_last b)) + secs (u - t)) * l_rate l"
    using assms(2) by (rule mult_right_mono)
  moreover have "0 \<le> l_rate l * secs (u - t)" using assms by simp
  ultimately show ?thesis using Some by (auto simp: credit_def min_def algebra_simps)
qed

lemma credit_nonneg: "lim_inv t l \<Longrightarrow> 0 \<le> credit l t k"
  using refill_nonneg [of "l_burst l" t _ t "l_rate l"]
  by (fastforce simp: credit_def lim_inv_def split: option.splits)

lemma credit_request:
  assumes inv: "lim_inv t l" and le: "t \<le> u" and al: "Allow l u k = (l', ok)"
  shows "credit l' u k = credit l u k - (if ok then 1 else 0)"
proof (cases "l_buckets l k")
  case None
  with al show ?thesis by (auto simp: Allow_def credit_def time_sub_def)
next
  case (Some b)
  from inv have base: "1 \<le> l_burst l" "0 \<le> l_rate l" and bok: "bucket_ok (l_burst l) t b"
    using Some by (auto simp: lim_inv_def)
  note rf = refill_bucket [OF bok le refl base(2,1)]
  from al Some rf base show ?thesis
    by (auto simp: Allow_def credit_def Let_def time_sub_def min_def split: if_splits)
qed

lemma Allow_other: "k' \<noteq> k \<Longrightarrow> l_buckets (fst (Allow l t k)) k' = l_buckets l k'"
  by (auto simp: Allow_def Let_def split: option.splits)

lemma Allow_params [simp]:
  "l_rate (fst (Allow l t k)) = l_rate l" "l_burst (fst (Allow l t k)) = l_burst l"
  "l_ttl (fst (Allow l t k)) = l_ttl l" "l_stopped (fst (Allow l t k)) = l_stopped l"
  by (auto simp: Allow_def Let_def split: option.splits)

lemma credit_cleanup:
  assumes inv: "lim_inv t l" and le: "t \<le> u" and ttl: "l_burst l \<le> secs (l_ttl l) * l_rate l"
  shows "credit (cleanup l u) u k = credit l u k"
proof (cases "l_buckets l k")
  case None
  then show ?thesis by (simp add: credit_def cleanup_def)
next
  case (Some b)
  from inv have base: "0 \<le> l_rate l" and bok: "bucket_ok (l_burst l) t b"
    using Some by (auto simp: lim_inv_def)
  show ?thesis
  proof (cases "time_sub u (b_lastSeen b) > l_ttl l")
    case True
    then have "secs (l_ttl l) \<le> secs (time_sub u (b_last b))" using bok by (simp add: bucket_ok_def)
    then have "secs (l_ttl l) * l_rate l \<le> secs (time_sub u (b_last b)) * l_rate l"
      using base by (rule mult_right_mono)
    with ttl bok have "l_burst l \<le> b_tokens b + secs (time_sub u (b_last b)) * l_rate l"
      by (simp add: bucket_ok_def)
    with Some True show ?thesis by (simp add: credit_def cleanup_def min_def)
  next
    case False
    with Some show ?thesis by (simp add: credit_def cleanup_def)
  qed
qed

lemma lim_step_credit:
  assumes inv: "lim_inv t l" and le: "t \<le> event_time t e"
    and ttl: "l_burst l \<le> secs (l_ttl l) * l_rate l"
  shows "credit (fst (lim_step l e)) (event_time t e) k + of_nat (passes k e (snd (lim_step l e)))
       = credit l (event_time t e) k"
proof (cases e)
  case (Request k' u)
  obtain l' ok where al: "Allow l u k' = (l', ok)" by fastforce
  show ?thesis
  proof (cases "k' = k")
    case True
    with credit_request [OF inv _ al] Request le al show ?thesis by (auto simp: passes_def)
  next
    case False
    with Allow_other [of k k' l u] Allow_params [of l u k'] Request al show ?thesis
      by (auto simp: credit_def passes_def split: option.splits)
  qed
next
  case (Tick u)
  with credit_cleanup [OF inv _ ttl] le show ?thesis by (auto simp: passes_def)
next
  case CloseEvent
  then show ?thesis by (auto simp: credit_def Close_limiter_def passes_def split: option.splits)
qed

lemma admitted_credit:
  assumes "lim_inv t l" "chronological t es" "l_burst l \<le> secs (l_ttl l) * l_rate l"
  shows "of_nat (admitted k l es) + credit (lim_run l es) (end_time t es) k
       \<le> credit l t k + l_rate l * secs (end_time t es - t)"
  using assms
proof (induction es arbitrary: t l)
  case Nil
  then show ?case by simp
next
  case (Cons e es)
  let ?u = "event_time t e" and ?l = "fst (lim_step l e)"
  from Cons.prems have le: "t \<le> ?u" and ch: "chronological ?u es" by auto
  note inv' = lim_step_inv [OF Cons.prems(1) le]
  have IH: "of_nat (admitted k ?l es) + credit (lim_run ?l es) (end_time ?u es) k
      \<le> credit ?l ?u k + l_rate l * secs (end_time ?u es - ?u)"
    using Cons.IH [OF inv' ch] Cons.prems(3) by simp
  have step: "credit ?l ?u k + of_nat (passes k e (snd (lim_step l e))) = credit l ?u k"
    by (rule lim_step_credit [OF Cons.prems(1) le Cons.prems(3)])
  have grow: "credit l ?u k \<le> credit l t k + l_rate l * secs (?u - t)"
    using credit_growth [OF le] Cons.prems(1) by (simp add: lim_inv_def)
  have "secs (end_time t (e # es) - t) = secs (end_time ?u es - ?u) + secs (?u - t)"
    by (simp flip: secs_add)
  then have split_time: "l_rate l * secs (end_time t (e # es) - t)
      = l_rate l * secs (end_time ?u es - ?u) + l_rate l * secs (?u - t)"
    by (simp add: distrib_left)
  have cnt: "admitted k l (e # es) = admitted k ?l es
      + passes k e (snd (lim_step l e))"
    by (auto split: prod.splits)
  show ?case
    using IH step grow unfolding cnt split_time by simp
qed

definition limiter_view :: "limiter \<Rightarrow> string \<Rightarrow> rat \<times> rat \<times> bucket option" where
  "limiter_view l k = (l_rate l, l_burst l, l_buckets l k)"

interpretation lim_gate: keyed_gate Allow limiter_view
proof
  fix k' k s t
  show "k' \<noteq> k \<Longrightarrow> limiter_view (fst (Allow s t k)) k' = limiter_view s k'"
    by (simp add: limiter_view_def Allow_other)
next
  fix s k s' t
  assume v: "limiter_view s k = limiter_view s' k"
  then have rf: "refill s t b = refill s' t b" for b
    by (simp add: limiter_view_def refill_def Let_def)
  from v rf show "snd (Allow s t k) = snd (Allow s' t k)"
    by (auto simp: limiter_view_def Allow_def Let_def split: option.splits)
  from v rf show "limiter_view (fst (Allow s t k)) k = limiter_view (fst (Allow s' t k)) k"
    by (auto simp: limiter_view_def Allow_def Let_def split: option.splits)
qed

lemma lim_inv_New:
  "1 \<le> burst \<Longrightarrow> 0 \<le> rps \<Longrightarrow> lim_inv t (New_limiter rps burst ttl)"
  by (simp add: lim_inv_def New_limiter_def)

subsection \<open>Properties\<close>



text \<open>
  Without that proviso the limit can be exceeded: with values that the configuration check
  accepts (a positive rate, a burst of one, an entry lifetime of thirty seconds) the cleanup evicts
  an exhausted bucket and the key starts again with a full burst.
\<close>

theorem eviction_exceeds_rate:
  "of_nat (admitted ''a'' (New_limiter (1 / 1000) 1 (30 * second))
      [Request ''a'' 0, Request ''a'' (1 * second), Tick (40 * second), Request ''a'' (41 * second)])
     > (of_int 1 + 1 / 1000 * secs (41 * second) :: rat)"
  by (simp add: New_limiter_def Allow_def refill_def cleanup_def passes_def secs_def second_def
      time_sub_def Let_def)

text \<open>
  A throttled client recovers: once the time since its last refill is worth one token, its next
  request is admitted, whatever happened before.
\<close>

theorem Allow_recovers:
  assumes "lim_inv t l" "t \<le> u" "l_buckets l k = Some b"
    "1 \<le> secs (time_sub u (b_last b)) * l_rate l"
  shows "snd (Allow l u k)"
proof -
  from assms have base: "1 \<le> l_burst l" "0 \<le> l_rate l" and ok: "bucket_ok (l_burst l) t b"
    by (auto simp: lim_inv_def)
  from refill_bucket(1) [OF ok assms(2) refl base(2,1)] base ok assms(4)
  have "1 \<le> b_tokens (refill l u b)" by (simp add: bucket_ok_def)
  with assms(3) show ?thesis by (simp add: Allow_def Let_def)
qed

theorem Allow_recovers_witness:
  "snd (Allow (fst (Allow (New_limiter 1 1 second) 0 ''a'')) (2 * second) ''a'')"
proof -
  let ?l = "fst (Allow (New_limiter 1 1 second) 0 ''a'')"
  let ?b = "\<lparr>b_tokens = 0, b_last = 0, b_lastSeen = 0\<rparr>"
  have "lim_inv 0 ?l" by (rule Allow_inv [OF lim_inv_New [where t = 0]]) simp_all
  moreover have "l_buckets ?l ''a'' = Some ?b" "l_rate ?l = 1"
    by (simp_all add: Allow_def New_limiter_def)
  ultimately show ?thesis
    using Allow_recovers [of 0 ?l "2 * second" "''a''" ?b] by (simp add: secs_def second_def)
qed

text \<open>
  Clients do not interfere: what the limiter answers to one key in any interleaving of requests
  is what it would have answered had the other keys sent nothing.
\<close>

theorem Allow_isolation:
  "filter (\<lambda>(k', ok). k' = k) (gate_run Allow l rs) = gate_run Allow l (filter (\<lambda>(t, k'). k' = k) rs)"
  by (rule lim_gate.gate_isolation)

end
