(* ===== verification/Bot.thy ===== *)
theory Bot
  imports RateLimit Config
begin

text \<open>
  The bot engine of \<open>internal/bot/engine.go\<close>. Inspection returns the engine, because the request-rate
  policy takes a token. A nil engine is \<open>None\<close>.
\<close>

record bot_engine =
  be_mode :: string
  be_bad :: "regexp list"
  be_allowed :: "regexp list"
  be_limiter :: "limiter option"

record bot_decision =
  bd_matched :: bool
  bd_blocked :: bool
  bd_kind :: string
  bd_reason :: string

definition no_bot :: bot_decision where
  "no_bot = \<lparr>bd_matched = False, bd_blocked = False, bd_kind = [], bd_reason = []\<rparr>"

definition bot_compile :: "golib \<Rightarrow> string list \<Rightarrow> go_error + regexp list" where
  "bot_compile L patterns =
     fold_err (\<lambda>p acc. case rx_compile L p of
         None \<Rightarrow> Inl (Errorf ''%w'' [p])
       | Some rx \<Rightarrow> Inr (acc @ [rx])) patterns []"

definition bot_New :: "golib \<Rightarrow> bot_policy \<Rightarrow> go_error + bot_engine option" where
  "bot_New L b =
     (if \<not> bp_enabled b then Inr None
      else (case bot_compile L (bp_bad b) of
          Inl e \<Rightarrow> Inl (Wrapped ''compile bad user-agent policy: %w'' [] [e])
        | Inr bad \<Rightarrow>
            (case bot_compile L (bp_allow b) of
               Inl e \<Rightarrow> Inl (Wrapped ''compile allowed user-agent policy: %w'' [] [e])
             | Inr allowed \<Rightarrow>
                 Inr (Some \<lparr>be_mode = bp_mode b, be_bad = bad, be_allowed = allowed,
                   be_limiter = (if 0 < bp_rpm b then Some (New_limiter (bp_rpm b / 60) (bp_burst b) (10 * minute)) else None)\<rparr>))))"

definition bot_verdict :: "bot_engine \<Rightarrow> string \<Rightarrow> string \<Rightarrow> bot_decision" where
  "bot_verdict e kind reason =
     \<lparr>bd_matched = True, bd_blocked = (be_mode e = ''block''), bd_kind = kind, bd_reason = reason\<rparr>"

definition bot_Inspect :: "bot_engine option \<Rightarrow> gotime \<Rightarrow> string \<Rightarrow> string \<Rightarrow> bot_engine option \<times> bot_decision" where
  "bot_Inspect eng now clientIP userAgent =
     (case eng of
        None \<Rightarrow> (None, no_bot)
      | Some e \<Rightarrow>
          if list_ex (\<lambda>rx. MatchString rx userAgent) (be_allowed e) then (Some e, no_bot)
          else if list_ex (\<lambda>rx. MatchString rx userAgent) (be_bad e)
          then (Some e, bot_verdict e ''user_agent'' ''bot user-agent policy matched'')
          else
            (case be_limiter e of
               None \<Rightarrow> (Some e, no_bot)
             | Some l \<Rightarrow>
                 (case Allow l now (TrimSpace clientIP) of (l', ok) \<Rightarrow>
                    (Some (e\<lparr>be_limiter := Some l'\<rparr>),
                     if ok then no_bot else bot_verdict e ''rate'' ''bot request-rate policy exceeded''))))"

definition bot_Close :: "bot_engine option \<Rightarrow> bot_engine option" where
  "bot_Close eng = map_option (\<lambda>e. e\<lparr>be_limiter := map_option Close_limiter (be_limiter e)\<rparr>) eng"

subsection \<open>The rate policy is a gate per client\<close>

text \<open>For a fixed user agent the engine decides per client address, as the limiter does per key.\<close>

definition bot_gate :: "string \<Rightarrow> bot_engine option \<Rightarrow> gotime \<Rightarrow> string \<Rightarrow> bot_engine option \<times> bool" where
  "bot_gate ua eng now ip = (case bot_Inspect eng now ip ua of (e, d) \<Rightarrow> (e, \<not> bd_blocked d))"

text \<open>
  Addresses as the client-address extraction prints them have no surrounding space; among those,
  different clients have different keys.
\<close>

definition key_gate :: "string \<Rightarrow> bot_engine option \<Rightarrow> gotime \<Rightarrow> string \<Rightarrow> bot_engine option \<times> bool" where
  "key_gate ua eng now k = (if TrimSpace k = k then bot_gate ua eng now k else (eng, True))"

definition bot_view :: "bot_engine option \<Rightarrow> string \<Rightarrow> (string \<times> regexp list \<times> regexp list
    \<times> (rat \<times> rat \<times> bucket option) option) option" where
  "bot_view eng k = map_option (\<lambda>e. (be_mode e, be_bad e, be_allowed e,
     if TrimSpace k = k then map_option (\<lambda>l. limiter_view l k) (be_limiter e) else None)) eng"

lemma key_gate_cases:
  "key_gate ua eng now k = (eng, True)
   \<or> key_gate ua eng now k = (eng, False)
   \<or> (\<exists>e l. eng = Some e \<and> be_limiter e = Some l \<and> TrimSpace k = k \<and>
        key_gate ua eng now k = (Some (e\<lparr>be_limiter := Some (fst (Allow l now k))\<rparr>), snd (Allow l now k) \<or> be_mode e \<noteq> ''block''))"
  by (auto simp: key_gate_def bot_gate_def bot_Inspect_def bot_verdict_def no_bot_def split: option.splits prod.splits)

interpretation bot_gate: keyed_gate "key_gate ua" bot_view
proof
  fix k' k :: string and s t
  assume ne: "k' \<noteq> k"
  show "bot_view (fst (key_gate ua s t k)) k' = bot_view s k'"
    using key_gate_cases [of ua s t k] lim_gate.view_other [OF ne]
    by (auto simp: bot_view_def)
next
  fix s s' :: "bot_engine option" and k t
  assume v: "bot_view s k = bot_view s' k"
  have "snd (key_gate ua s t k) = snd (key_gate ua s' t k)
      \<and> bot_view (fst (key_gate ua s t k)) k = bot_view (fst (key_gate ua s' t k)) k"
  proof (cases "TrimSpace k = k \<and> s \<noteq> None")
    case False
    with v show ?thesis by (auto simp: key_gate_def bot_gate_def bot_view_def bot_Inspect_def)
  next
    case True
    then obtain e where e: "s = Some e" "TrimSpace k = k" by auto
    from v e obtain e' where e': "s' = Some e'" by (cases s') (auto simp: bot_view_def)
    from v e e' have same: "be_mode e = be_mode e'" "be_bad e = be_bad e'" "be_allowed e = be_allowed e'"
      and lim: "map_option (\<lambda>l. limiter_view l k) (be_limiter e) = map_option (\<lambda>l. limiter_view l k) (be_limiter e')"
      by (auto simp: bot_view_def)
    show ?thesis
    proof (cases "be_limiter e")
      case None
      with lim have "be_limiter e' = None" by simp
      with None same e e' show ?thesis
        by (simp add: key_gate_def bot_gate_def bot_Inspect_def bot_view_def bot_verdict_def)
    next
      case (Some l)
      with lim obtain l' where l': "be_limiter e' = Some l'" "limiter_view l k = limiter_view l' k"
        by (cases "be_limiter e'") auto
      from lim_gate.view_result [OF l'(2), of t] lim_gate.view_state [OF l'(2), of t] l' Some same e e'
      show ?thesis
        by (auto simp: key_gate_def bot_gate_def bot_Inspect_def bot_view_def bot_verdict_def no_bot_def split: prod.splits)
    qed
  qed
  then show "snd (key_gate ua s t k) = snd (key_gate ua s' t k)"
    and "bot_view (fst (key_gate ua s t k)) k = bot_view (fst (key_gate ua s' t k)) k" by blast+
qed

subsection \<open>Properties\<close>

text \<open>
  Order of the bot policy: an allowed user agent is never touched and takes no token; otherwise a bad
  one is reported without taking a token; otherwise the client's request rate decides. A report
  blocks exactly when the policy's mode is block.
\<close>

theorem bot_Inspect_order:
  "bot_Inspect (Some e) now ip ua = (e', d) \<Longrightarrow>
     (if list_ex (\<lambda>rx. MatchString rx ua) (be_allowed e) then e' = Some e \<and> \<not> bd_matched d
      else if list_ex (\<lambda>rx. MatchString rx ua) (be_bad e) then e' = Some e \<and> bd_matched d \<and> bd_kind d = ''user_agent''
      else bd_matched d = (\<exists>l. be_limiter e = Some l \<and> \<not> snd (Allow l now (TrimSpace ip))))
     \<and> (bd_blocked d \<longleftrightarrow> bd_matched d \<and> be_mode e = ''block'')"
  by (auto simp: bot_Inspect_def bot_verdict_def no_bot_def split: if_splits option.splits prod.splits)

definition sample_bot :: bot_engine where
  "sample_bot = \<lparr>be_mode = ''block'', be_bad = [find_index ''bot'' 0], be_allowed = [find_index ''goodbot'' 0],
     be_limiter = None\<rparr>"

theorem bot_Inspect_order_witness:
  "bd_blocked (snd (bot_Inspect (Some sample_bot) 0 ''192.0.2.1'' ''evilbot''))"
proof -
  obtain e' d where run: "bot_Inspect (Some sample_bot) 0 ''192.0.2.1'' ''evilbot'' = (e', d)" by fastforce
  have "\<not> list_ex (\<lambda>rx. MatchString rx ''evilbot'') (be_allowed sample_bot)"
    "list_ex (\<lambda>rx. MatchString rx ''evilbot'') (be_bad sample_bot)" "be_mode sample_bot = ''block''"
    by code_simp+
  with bot_Inspect_order [OF run] run show ?thesis by simp
qed

text \<open>
  For any fixed user agent one client's traffic never affects what the bot policy decides about
  another: in any interleaving each client gets the answers it would get alone.
\<close>

theorem bot_isolation:
  "filter (\<lambda>(k', ok). k' = k) (gate_run (key_gate ua) e rs) = gate_run (key_gate ua) e (filter (\<lambda>(t, k'). k' = k) rs)"
  by (rule bot_gate.gate_isolation)

end
