(* ===== verification/Pool.thy ===== *)
theory Pool
  imports Config
begin

unbundle bit_operations_syntax

text \<open>
  Server pools at run time and the choice of a member, \<open>internal/proxy/proxy.go\<close>. A
  \<open>*memberRuntime\<close> is its index in the pool's list of members, so that the lists of eligible members
  alias the pool as the Go slices of pointers do. The request counters and the round-robin counter
  wrap at 64 bits and the health counters at 32. \<open>leastConnections\<close> compares quotients of a
  connection count and a weight; with weights up to 1000 (the validated range) and fewer than \<open>2 ^ 40\<close>
  connections, distinct quotients are also distinct as \<open>float64\<close>, so the model compares rationals.
\<close>

subsection \<open>State\<close>

record tls_client =
  tc_minTLS12 :: bool
  tc_serverName :: string
  tc_insecure :: bool
  tc_ca :: "string option"

record transport =
  tr_proxy :: bool
  tr_maxIdle :: int
  tr_maxIdlePerHost :: int
  tr_maxPerHost :: int
  tr_idleTimeout :: duration
  tr_headerTimeout :: duration
  tr_continueTimeout :: duration
  tr_handshakeTimeout :: duration
  tr_http2 :: bool
  tr_tls :: "tls_client option"

record member =
  mb_config :: pool_member
  mb_target :: gourl
  mb_transport :: transport
  mb_health :: health_config
  mb_healthy :: bool
  mb_active :: int
  mb_requests :: "64 word"
  mb_failures :: "64 word"
  mb_succ :: "32 word"
  mb_fail :: "32 word"
  mb_lastCheck :: int
  mb_lastError :: string
  mb_currentWeight :: int
  mb_checking :: bool

record pool =
  po_config :: server_pool
  po_members :: "member list"
  po_rr :: "64 word"

definition member_id :: "pool \<Rightarrow> nat \<Rightarrow> string" where
  "member_id p i = pm_id (mb_config (po_members p ! i))"

definition upd_member :: "(member \<Rightarrow> member) \<Rightarrow> nat \<Rightarrow> pool \<Rightarrow> pool" where
  "upd_member f i p = p\<lparr>po_members := (po_members p)[i := f (po_members p ! i)]\<rparr>"

text \<open>A member as \<open>newPoolRuntime\<close> creates it.\<close>

definition new_member :: "pool_member \<Rightarrow> gourl \<Rightarrow> transport \<Rightarrow> health_config \<Rightarrow> member" where
  "new_member m target tr health = \<lparr>mb_config = m, mb_target = target, mb_transport = tr, mb_health = health, mb_healthy = True,
     mb_active = 0, mb_requests = 0, mb_failures = 0, mb_succ = 0, mb_fail = 0, mb_lastCheck = 0,
     mb_lastError = [], mb_currentWeight = 0, mb_checking = False\<rparr>"

subsection \<open>Eligible members\<close>

definition candidates :: "pool \<Rightarrow> string list \<Rightarrow> bool \<Rightarrow> nat list" where
  "candidates p excluded includeUnhealthy =
     filter (\<lambda>i. member_id p i \<notin> set excluded \<and> (includeUnhealthy \<or> mb_healthy (po_members p ! i)))
       [0..<length (po_members p)]"

definition eligible :: "pool \<Rightarrow> string list \<Rightarrow> bool \<Rightarrow> nat list" where
  "eligible p excluded includeUnhealthy =
     (let cands = candidates p excluded includeUnhealthy;
          isBackup = (\<lambda>i. pm_backup (mb_config (po_members p ! i)));
          primary = filter (\<lambda>i. \<not> isBackup i) cands;
          backup = filter isBackup cands in
      if primary \<noteq> [] then primary else backup)"

subsection \<open>Algorithms\<close>

definition conn_ratio :: "member \<Rightarrow> rat" where
  "conn_ratio m = of_int (mb_active m) / of_int (max (pm_weight (mb_config m)) 1)"

definition less_loaded :: "member \<Rightarrow> member \<Rightarrow> bool" where
  "less_loaded m s = (conn_ratio m < conn_ratio s \<or> conn_ratio m = conn_ratio s \<and> mb_requests m < mb_requests s)"

definition better_priority :: "member \<Rightarrow> member \<Rightarrow> bool" where
  "better_priority m s =
     (pm_priority (mb_config m) < pm_priority (mb_config s)
      \<or> pm_priority (mb_config m) = pm_priority (mb_config s) \<and> mb_active m < mb_active s)"

text \<open>The loops that keep the best member so far.\<close>

definition select_best :: "(member \<Rightarrow> member \<Rightarrow> bool) \<Rightarrow> pool \<Rightarrow> nat list \<Rightarrow> nat" where
  "select_best better p el =
     foldl (\<lambda>s i. if better (po_members p ! i) (po_members p ! s) then i else s) (hd el) (tl el)"

definition leastConnections :: "pool \<Rightarrow> nat list \<Rightarrow> nat" where
  "leastConnections p el = select_best less_loaded p el"

definition primaryBackup :: "pool \<Rightarrow> nat list \<Rightarrow> nat" where
  "primaryBackup p el = select_best better_priority p el"

definition weight_of :: "pool \<Rightarrow> nat \<Rightarrow> int" where
  "weight_of p i = max (pm_weight (mb_config (po_members p ! i))) 1"

definition cur_weight :: "pool \<Rightarrow> nat \<Rightarrow> int" where
  "cur_weight p i = mb_currentWeight (po_members p ! i)"

definition add_weight :: "int \<Rightarrow> nat \<Rightarrow> pool \<Rightarrow> pool" where
  "add_weight d = upd_member (\<lambda>m. m\<lparr>mb_currentWeight := mb_currentWeight m + d\<rparr>)"

fun wrr_loop :: "pool \<Rightarrow> int \<Rightarrow> nat option \<Rightarrow> nat list \<Rightarrow> pool \<times> int \<times> nat option" where
  "wrr_loop p tot sel [] = (p, tot, sel)"
| "wrr_loop p tot sel (i # is) =
     (let w = weight_of p i; p' = add_weight w i p;
          sel' = (case sel of None \<Rightarrow> Some i
                  | Some s \<Rightarrow> if cur_weight p' i > cur_weight p' s then Some i else Some s) in
      wrr_loop p' (tot + w) sel' is)"

definition weightedRoundRobin :: "pool \<Rightarrow> nat list \<Rightarrow> pool \<times> nat option" where
  "weightedRoundRobin p el =
     (case wrr_loop p 0 None el of
        (p', tot, None) \<Rightarrow> (p', None)
      | (p', tot, Some s) \<Rightarrow> (add_weight (- tot) s p', Some s))"

definition nth_mod :: "nat list \<Rightarrow> 64 word \<Rightarrow> nat" where
  "nth_mod el w = el ! nat (uint w mod int (length el))"

definition golden :: "64 word" where
  "golden = 0x9e3779b97f4a7c15"

definition random_pick :: "pool \<Rightarrow> nat list \<Rightarrow> pool \<times> nat" where
  "random_pick p el = (let position = po_rr p + golden in (p\<lparr>po_rr := position\<rparr>, nth_mod el position))"

definition rr_pick :: "pool \<Rightarrow> nat list \<Rightarrow> pool \<times> nat" where
  "rr_pick p el = (let position = po_rr p in (p\<lparr>po_rr := position + 1\<rparr>, nth_mod el position))"

definition choose_member :: "pool \<Rightarrow> nat list \<Rightarrow> pool \<times> nat option" where
  "choose_member p el =
     (if el = [] then (p, None)
      else let alg = sp_algorithm (po_config p) in
        if alg = ''least_connections'' then (p, Some (leastConnections p el))
        else if alg = ''weighted_round_robin'' then weightedRoundRobin p el
        else if alg = ''primary_backup'' then (p, Some (primaryBackup p el))
        else if alg = ''random'' then (case random_pick p el of (p', i) \<Rightarrow> (p', Some i))
        else (case rr_pick p el of (p', i) \<Rightarrow> (p', Some i)))"

text \<open>\<open>hash/fnv\<close>, 64-bit FNV-1a.\<close>

definition fnv64a :: "string \<Rightarrow> 64 word" where
  "fnv64a s = foldl (\<lambda>h c. (h XOR word_of_int (byte c)) * 1099511628211) 14695981039346656037 s"

definition hashMember :: "nat list \<Rightarrow> string \<Rightarrow> nat" where
  "hashMember el value = nth_mod el (fnv64a value)"

text \<open>
  \<open>memberToken\<close> is a truncated HMAC over pool name and member identifier; the keyed function is the
  parameter \<open>token\<close>. \<open>cookie\<close> is the value of the persistence cookie of the request, if there is one.
\<close>

definition memberForCookie :: "(string \<Rightarrow> string \<Rightarrow> string) \<Rightarrow> pool \<Rightarrow> string \<Rightarrow> nat list \<Rightarrow> nat option" where
  "memberForCookie token p value el = find (\<lambda>i. value = token (sp_name (po_config p)) (member_id p i)) el"

definition pick_balanced :: "string \<Rightarrow> pool \<Rightarrow> string \<Rightarrow> nat list \<Rightarrow> pool \<times> nat option" where
  "pick_balanced mode p clientIP el =
     (if mode = ''source_ip'' \<or> sp_algorithm (po_config p) = ''source_ip_hash''
      then (p, Some (hashMember el clientIP)) else choose_member p el)"

definition available :: "pool \<Rightarrow> string list \<Rightarrow> nat list" where
  "available p excluded =
     (let el = eligible p excluded False in
      if el = [] \<and> sp_failureMode (po_config p) = ''last_resort'' then eligible p excluded True else el)"

definition selectMember :: "(string \<Rightarrow> string \<Rightarrow> string) \<Rightarrow> persistence_config \<Rightarrow> pool \<Rightarrow> string option
    \<Rightarrow> string \<Rightarrow> string list \<Rightarrow> pool \<times> nat option" where
  "selectMember token ps p cookie clientIP excluded =
     (let el = available p excluded in
      if el = [] then (p, None)
      else
        (case (if ps_mode ps = ''cookie'' then Option.bind cookie (\<lambda>v. memberForCookie token p v el) else None) of
           Some i \<Rightarrow> (p, Some i)
         | None \<Rightarrow> pick_balanced (ps_mode ps) p clientIP el))"

subsection \<open>The contract of a balancer\<close>

text \<open>
  Nothing but the scheduling state (the weights of the smooth algorithm and the counter) changes when
  a member is picked.
\<close>

definition same_members :: "pool \<Rightarrow> pool \<Rightarrow> bool" where
  "same_members p q \<longleftrightarrow> po_config p = po_config q \<and>
     map (mb_currentWeight_update (\<lambda>_. 0)) (po_members p) = map (mb_currentWeight_update (\<lambda>_. 0)) (po_members q)"

lemma same_members_refl [simp]: "same_members p p"
  by (simp add: same_members_def)

lemma same_members_trans: "same_members p q \<Longrightarrow> same_members q r \<Longrightarrow> same_members p r"
  by (simp add: same_members_def)

lemma same_members_rr [simp]: "same_members (p\<lparr>po_rr := x\<rparr>) p"
  by (simp add: same_members_def)

lemma same_members_nth:
  assumes "same_members p q"
  shows "length (po_members p) = length (po_members q)"
    and "i < length (po_members q) \<Longrightarrow>
      mb_currentWeight_update (\<lambda>_. 0) (po_members p ! i) = mb_currentWeight_update (\<lambda>_. 0) (po_members q ! i)"
proof -
  from assms show len: "length (po_members p) = length (po_members q)"
    unfolding same_members_def by (metis length_map)
  assume "i < length (po_members q)"
  with assms len show "mb_currentWeight_update (\<lambda>_. 0) (po_members p ! i) = mb_currentWeight_update (\<lambda>_. 0) (po_members q ! i)"
    unfolding same_members_def by (metis nth_map)
qed

lemma same_members_add_weight [simp]: "same_members (add_weight d i p) p"
  by (cases "i < length (po_members p)")
     (simp_all add: same_members_def add_weight_def upd_member_def map_update list_update_same_conv list_update_beyond)

text \<open>The members a balancer picks in a row from one list.\<close>

fun picks :: "(pool \<Rightarrow> nat list \<Rightarrow> pool \<times> nat option) \<Rightarrow> nat \<Rightarrow> pool \<Rightarrow> nat list \<Rightarrow> nat list" where
  "picks pick 0 p el = []"
| "picks pick (Suc n) p el =
     (case pick p el of (p', None) \<Rightarrow> [] | (p', Some i) \<Rightarrow> i # picks pick n p' el)"

fun pool_after :: "(pool \<Rightarrow> nat list \<Rightarrow> pool \<times> nat option) \<Rightarrow> nat \<Rightarrow> pool \<Rightarrow> nat list \<Rightarrow> pool" where
  "pool_after pick 0 p el = p"
| "pool_after pick (Suc n) p el = pool_after pick n (fst (pick p el)) el"

lemma candidates_iff:
  "i \<in> set (candidates p ex b) \<longleftrightarrow> i < length (po_members p) \<and> member_id p i \<notin> set ex
     \<and> (b \<or> mb_healthy (po_members p ! i))"
  by (auto simp: candidates_def)

lemma candidates_none:
  "candidates p ex b = [] \<longleftrightarrow> (\<forall>i<length (po_members p). member_id p i \<in> set ex \<or> \<not> b \<and> \<not> mb_healthy (po_members p ! i))"
  by (auto simp: candidates_def filter_empty_conv)

lemma eligible_candidates: "set (eligible p ex b) \<subseteq> set (candidates p ex b)"
  by (auto simp: eligible_def Let_def)

lemma eligible_empty_iff: "eligible p ex b = [] \<longleftrightarrow> candidates p ex b = []"
proof
  assume e: "eligible p ex b = []"
  have "\<not> i \<in> set (candidates p ex b)" for i
    using e by (cases "pm_backup (mb_config (po_members p ! i))")
      (auto simp: eligible_def Let_def filter_empty_conv split: if_splits)
  then show "candidates p ex b = []" by (metis last_in_set)
qed (simp add: eligible_def)

lemma eligible_backup:
  "i \<in> set (eligible p ex b) \<Longrightarrow> pm_backup (mb_config (po_members p ! i)) \<Longrightarrow>
     j \<in> set (candidates p ex b) \<Longrightarrow> pm_backup (mb_config (po_members p ! j))"
  by (auto simp: eligible_def Let_def filter_empty_conv split: if_splits)

lemma distinct_eligible [simp]: "distinct (eligible p ex b)"
  by (simp add: eligible_def candidates_def Let_def)

locale balancer =
  fixes pick :: "pool \<Rightarrow> nat list \<Rightarrow> pool \<times> nat option"
  assumes pick_member: "el \<noteq> [] \<Longrightarrow> \<exists>i\<in>set el. snd (pick p el) = Some i"
    and pick_none: "snd (pick p []) = None"
    and pick_frame: "same_members (fst (pick p el)) p"
begin

lemma pick_iff: "snd (pick p el) = None \<longleftrightarrow> el = []"
  using pick_member [of el p] pick_none [of p] by (cases "el = []") auto

lemma picks_in: "set (picks pick n p el) \<subseteq> set el"
proof (induction n arbitrary: p)
  case (Suc n)
  show ?case
    using pick_member [of el p] pick_none [of p] Suc
    by (cases "pick p el"; cases "el = []") (auto split: option.splits)
qed simp

lemma picks_length: "el \<noteq> [] \<Longrightarrow> length (picks pick n p el) = n"
proof (induction n arbitrary: p)
  case (Suc n)
  then show ?case using pick_member [of el p] by (auto split: prod.splits option.splits)
qed simp

lemma picks_eligible:
  "snd (pick p (eligible p ex b)) = Some i \<Longrightarrow> i \<in> set (candidates p ex b)"
  using pick_member [of "eligible p ex b" p] pick_none [of p] eligible_candidates
  by (cases "eligible p ex b = []") auto

lemma pool_after_same: "same_members (pool_after pick n p el) p"
  by (induction n arbitrary: p) (auto intro: same_members_trans pick_frame)

end

text \<open>A choice that only looks at the pool is a balancer that leaves it unchanged.\<close>

locale stateless_choice =
  fixes sel :: "pool \<Rightarrow> nat list \<Rightarrow> nat"
  assumes sel_member: "el \<noteq> [] \<Longrightarrow> sel p el \<in> set el"

definition stateless :: "(pool \<Rightarrow> nat list \<Rightarrow> nat) \<Rightarrow> pool \<Rightarrow> nat list \<Rightarrow> pool \<times> nat option" where
  "stateless sel p el = (p, if el = [] then None else Some (sel p el))"

sublocale stateless_choice \<subseteq> balancer "stateless sel"
  by unfold_locales (auto simp: stateless_def sel_member)

subsection \<open>Each algorithm is a balancer\<close>

lemma select_best_in: "el \<noteq> [] \<Longrightarrow> select_best better p el \<in> set el"
proof -
  have "foldl (\<lambda>s i. if better (po_members p ! i) (po_members p ! s) then i else s) s is \<in> insert s (set is)" for s "is"
    by (induction "is" arbitrary: s) auto
  from this [of "hd el" "tl el"] show "el \<noteq> [] \<Longrightarrow> ?thesis"
    by (cases el) (simp_all add: select_best_def)
qed

lemma nth_mod_in: "el \<noteq> [] \<Longrightarrow> nth_mod el w \<in> set el"
  by (simp add: nth_mod_def nat_less_iff)

interpretation least_conn: stateless_choice leastConnections
  by unfold_locales (simp add: leastConnections_def select_best_in)

interpretation prim_backup: stateless_choice primaryBackup
  by unfold_locales (simp add: primaryBackup_def select_best_in)

interpretation source_hash: stateless_choice "\<lambda>p el. hashMember el clientIP"
  by unfold_locales (simp add: hashMember_def nth_mod_in)

definition some_pick :: "(pool \<Rightarrow> nat list \<Rightarrow> pool \<times> nat) \<Rightarrow> pool \<Rightarrow> nat list \<Rightarrow> pool \<times> nat option" where
  "some_pick f p el = (if el = [] then (p, None) else (case f p el of (p', i) \<Rightarrow> (p', Some i)))"

interpretation round_robin: balancer "some_pick rr_pick"
  by unfold_locales (auto simp: some_pick_def rr_pick_def nth_mod_in Let_def)

interpretation random_rr: balancer "some_pick random_pick"
  by unfold_locales (auto simp: some_pick_def random_pick_def nth_mod_in Let_def)

subsection \<open>Smooth weighted round robin\<close>

lemma add_weight_simps [simp]:
  "length (po_members (add_weight d i p)) = length (po_members p)"
  "po_config (add_weight d i p) = po_config p" "po_rr (add_weight d i p) = po_rr p"
  "weight_of (add_weight d i p) j = weight_of p j"
  by (simp_all add: add_weight_def upd_member_def weight_of_def nth_list_update_neq nth_list_update)
     (cases "i < length (po_members p)"; cases "i = j"; simp add: nth_list_update list_update_beyond)+

lemma cur_weight_add [simp]:
  "i < length (po_members p) \<Longrightarrow>
     cur_weight (add_weight d i p) j = cur_weight p j + (if i = j then d else 0)"
  by (simp add: cur_weight_def add_weight_def upd_member_def nth_list_update)

text \<open>The best of the members seen so far.\<close>

definition best_of :: "pool \<Rightarrow> nat set \<Rightarrow> nat \<Rightarrow> bool" where
  "best_of p S s \<longleftrightarrow> s \<in> S \<and> (\<forall>j\<in>S. cur_weight p j \<le> cur_weight p s)"

lemma wrr_loop_frame:
  "wrr_loop p tot sel el = (p', tot', sel') \<Longrightarrow>
     same_members p' p \<and> po_rr p' = po_rr p \<and> (\<forall>j. weight_of p' j = weight_of p j)
     \<and> length (po_members p') = length (po_members p)
     \<and> tot' = tot + sum_list (map (weight_of p) el)
     \<and> (sel' = None \<longleftrightarrow> sel = None \<and> el = []) \<and> set_option sel' \<subseteq> set_option sel \<union> set el"
proof (induction el arbitrary: p tot sel)
  case (Cons i el)
  let ?p = "add_weight (weight_of p i) i p"
  let ?sel = "case sel of None \<Rightarrow> Some i | Some s \<Rightarrow> if cur_weight ?p i > cur_weight ?p s then Some i else Some s"
  have run: "wrr_loop ?p (tot + weight_of p i) ?sel el = (p', tot', sel')"
    using Cons.prems by (simp add: Let_def)
  have w: "map (weight_of ?p) el = map (weight_of p) el" by simp
  show ?case
    using Cons.IH [OF run] same_members_trans [of p' ?p p] unfolding w
    by (auto split: option.splits if_splits)
qed simp

lemma wrr_loop_best:
  assumes "wrr_loop p tot sel el = (p', tot', sel')" "distinct el" "set el \<subseteq> {..<length (po_members p)}"
    and "S \<inter> set el = {}" "case sel of None \<Rightarrow> S = {} | Some s \<Rightarrow> best_of p S s"
  shows "(\<forall>j. cur_weight p' j = cur_weight p j + (if j \<in> set el then weight_of p j else 0))
    \<and> (case sel' of None \<Rightarrow> S \<union> set el = {} | Some s \<Rightarrow> best_of p' (S \<union> set el) s)"
  using assms
proof (induction el arbitrary: p tot sel S)
  case Nil
  then show ?case by (auto split: option.splits)
next
  case (Cons i el)
  let ?p = "add_weight (weight_of p i) i p"
  let ?sel = "case sel of None \<Rightarrow> Some i | Some s \<Rightarrow> if cur_weight ?p i > cur_weight ?p s then Some i else Some s"
  have run: "wrr_loop ?p (tot + weight_of p i) ?sel el = (p', tot', sel')"
    using Cons.prems(1) by (simp add: Let_def)
  have i: "i < length (po_members p)" "i \<notin> S" using Cons.prems(3,4) by auto
  have best: "case ?sel of None \<Rightarrow> insert i S = {} | Some s \<Rightarrow> best_of ?p (insert i S) s"
    using Cons.prems(5) i by (force simp: best_of_def split: option.splits)
  have "insert i S \<inter> set el = {}" "set el \<subseteq> {..<length (po_members ?p)}" "distinct el"
    using Cons.prems(2-4) by auto
  moreover have "S \<union> set (i # el) = insert i S \<union> set el" by auto
  ultimately show ?case
    using Cons.IH [OF run _ _ _ best] i Cons.prems(2)
    by (auto simp del: Un_insert_left Un_insert_right split: option.splits)
qed

definition total_weight :: "pool \<Rightarrow> nat list \<Rightarrow> int" where
  "total_weight p el = sum_list (map (weight_of p) el)"

lemma wrr_step:
  assumes "el \<noteq> []" "distinct el" "set el \<subseteq> {..<length (po_members p)}"
  obtains s where "weightedRoundRobin p el = (fst (weightedRoundRobin p el), Some s)" "s \<in> set el"
    "\<And>j. cur_weight (fst (weightedRoundRobin p el)) j =
       cur_weight p j + (if j \<in> set el then weight_of p j else 0) - (if j = s then total_weight p el else 0)"
    "\<And>j. j \<in> set el \<Longrightarrow> cur_weight p j + weight_of p j \<le> cur_weight p s + weight_of p s"
proof -
  obtain p' tot sel where run: "wrr_loop p 0 None el = (p', tot, sel)" by (metis prod_cases3)
  note frame = wrr_loop_frame [OF run]
  from wrr_loop_best [OF run assms(2,3), of "{}"]
  have cw: "\<And>j. cur_weight p' j = cur_weight p j + (if j \<in> set el then weight_of p j else 0)"
    and best: "case sel of None \<Rightarrow> set el = {} | Some s \<Rightarrow> best_of p' (set el) s"
    by (auto split: option.splits)
  from frame assms(1) obtain s where s: "sel = Some s" by auto
  with best have "best_of p' (set el) s" by simp
  then have "s \<in> set el" and le: "\<And>j. j \<in> set el \<Longrightarrow> cur_weight p j + weight_of p j \<le> cur_weight p s + weight_of p s"
    unfolding best_of_def by (auto simp: cw)
  have w: "weightedRoundRobin p el = (add_weight (- tot) s p', Some s)"
    by (simp add: weightedRoundRobin_def run s)
  have "cur_weight (add_weight (- tot) s p') j =
      cur_weight p j + (if j \<in> set el then weight_of p j else 0) - (if j = s then total_weight p el else 0)" for j
    using frame assms(3) \<open>s \<in> set el\<close> by (auto simp: cw total_weight_def)
  with w \<open>s \<in> set el\<close> le show thesis by (intro that) auto
qed

lemma wrr_frame: "same_members (fst (weightedRoundRobin p el)) p"
proof -
  obtain p' tot sel where run: "wrr_loop p 0 None el = (p', tot, sel)" by (metis prod_cases3)
  from wrr_loop_frame [OF run] show ?thesis
    by (auto simp: weightedRoundRobin_def run split: option.splits intro: same_members_trans same_members_add_weight)
qed

lemma wrr_member:
  "el \<noteq> [] \<Longrightarrow> \<exists>i\<in>set el. snd (weightedRoundRobin p el) = Some i"
proof -
  obtain p' tot sel where run: "wrr_loop p 0 None el = (p', tot, sel)" by (metis prod_cases3)
  assume "el \<noteq> []"
  with wrr_loop_frame [OF run] show ?thesis
    by (auto simp: weightedRoundRobin_def run split: option.splits)
qed

interpretation smooth_wrr: balancer weightedRoundRobin
  by unfold_locales (rule wrr_member, assumption, simp add: weightedRoundRobin_def, rule wrr_frame)

interpretation chooser: balancer choose_member
proof
  fix el :: "nat list" and p
  show "el \<noteq> [] \<Longrightarrow> \<exists>i\<in>set el. snd (choose_member p el) = Some i"
    using smooth_wrr.pick_member [of el p] least_conn.sel_member [of el p] prim_backup.sel_member [of el p]
      round_robin.pick_member [of el p] random_rr.pick_member [of el p]
    by (auto simp: choose_member_def some_pick_def Let_def)
  show "snd (choose_member p []) = None" by (simp add: choose_member_def)
  show "same_members (fst (choose_member p el)) p"
    using smooth_wrr.pick_frame [of p el] by (auto simp: choose_member_def random_pick_def rr_pick_def Let_def)
qed

lemma balanced_pick:
  assumes "el \<noteq> []"
  shows "\<exists>i\<in>set el. snd (pick_balanced mode p clientIP el) = Some i"
    and "same_members (fst (pick_balanced mode p clientIP el)) p"
  using assms chooser.pick_member [OF assms, of p] chooser.pick_frame [of p el] source_hash.sel_member [OF assms]
  by (auto simp: pick_balanced_def)

lemma available_cases:
  obtains b where "available p excluded = eligible p excluded b"
    "b \<longleftrightarrow> candidates p excluded False = [] \<and> sp_failureMode (po_config p) = ''last_resort''"
proof (cases "candidates p excluded False = [] \<and> sp_failureMode (po_config p) = ''last_resort''")
  case True
  then show thesis by (intro that [of True]) (auto simp: available_def Let_def eligible_empty_iff)
next
  case False
  then show thesis by (intro that [of False]) (auto simp: available_def Let_def eligible_empty_iff)
qed

lemma selectMember_available:
  assumes "available p excluded \<noteq> []"
  shows "same_members (fst (selectMember token ps p cookie clientIP excluded)) p
    \<and> (\<exists>i\<in>set (available p excluded). snd (selectMember token ps p cookie clientIP excluded) = Some i)"
  using balanced_pick [OF assms, of "ps_mode ps" p clientIP] assms
  by (auto simp: selectMember_def memberForCookie_def Let_def bind_eq_Some_conv dest!: find_SomeD split: option.splits)

text \<open>
  Facts on a fixed list of members: their weights do not change, the sum of the current weights stays,
  and none falls to minus the total.
\<close>

lemma same_members_weight: "same_members p q \<Longrightarrow> i < length (po_members q) \<Longrightarrow> weight_of p i = weight_of q i"
  using same_members_nth(2) [of p q i] by (auto simp: weight_of_def dest!: arg_cong [of _ _ mb_config])

lemma weight_pos: "1 \<le> weight_of p i"
  by (simp add: weight_of_def)

lemma total_weight_pos: "el \<noteq> [] \<Longrightarrow> 0 < total_weight p el"
proof (induction el)
  case (Cons i el)
  then show ?case using weight_pos [of p i] by (cases "el = []") (auto simp: total_weight_def)
qed simp

lemma total_weight_same:
  "same_members p q \<Longrightarrow> set el \<subseteq> {..<length (po_members q)} \<Longrightarrow> total_weight p el = total_weight q el"
  unfolding total_weight_def by (auto intro!: arg_cong [of _ _ sum_list] same_members_weight)

text \<open>Some member is at least at the average, so the best one is above zero when the sum is.\<close>

lemma best_positive:
  fixes f :: "nat \<Rightarrow> int"
  assumes "0 < sum_list (map f el)" "\<And>j. j \<in> set el \<Longrightarrow> f j \<le> f s"
  shows "0 < f s"
proof (rule ccontr)
  assume "\<not> 0 < f s"
  with assms(2) have "\<And>j. j \<in> set el \<Longrightarrow> f j \<le> 0" by fastforce
  then have "sum_list (map f el) \<le> 0" by (induction el) (auto intro: add_nonpos_nonpos)
  with assms(1) show False by simp
qed

definition balanced :: "pool \<Rightarrow> nat list \<Rightarrow> bool" where
  "balanced p el \<longleftrightarrow> sum_list (map (cur_weight p) el) = 0
     \<and> (\<forall>i\<in>set el. - total_weight p el < cur_weight p i)"

lemma sum_list_select:
  "distinct el \<Longrightarrow> sum_list (map (\<lambda>j. if j = s then c else 0) el) = (if s \<in> set el then c else 0 :: int)"
  by (induction el) auto

lemma wrr_balanced:
  assumes "el \<noteq> []" "distinct el" "set el \<subseteq> {..<length (po_members p)}" "balanced p el"
  shows "balanced (fst (weightedRoundRobin p el)) el"
proof -
  let ?p' = "fst (weightedRoundRobin p el)" and ?W = "total_weight p el"
  obtain s where s: "s \<in> set el"
    and cw: "\<And>j. cur_weight ?p' j =
       cur_weight p j + (if j \<in> set el then weight_of p j else 0) - (if j = s then ?W else 0)"
    and best: "\<And>j. j \<in> set el \<Longrightarrow> cur_weight p j + weight_of p j \<le> cur_weight p s + weight_of p s"
    using wrr_step [OF assms(1-3)] by metis
  have same: "total_weight ?p' el = ?W" by (rule total_weight_same [OF wrr_frame assms(3)])
  have lifted: "sum_list (map (\<lambda>j. cur_weight p j + weight_of p j) el) = ?W"
    using assms(4) by (simp add: balanced_def total_weight_def sum_list_addf)
  have "map (cur_weight ?p') el = map (\<lambda>j. (cur_weight p j + weight_of p j) - (if j = s then ?W else 0)) el"
    by (simp add: cw)
  then have "sum_list (map (cur_weight ?p') el) = 0"
    using lifted s sum_list_select [OF assms(2), of s ?W] by (simp only: sum_list_subtractf) simp
  moreover have "0 < cur_weight p s + weight_of p s"
    by (rule best_positive [of "\<lambda>j. cur_weight p j + weight_of p j" el])
       (use lifted total_weight_pos [OF assms(1)] best in auto)
  then have "- ?W < cur_weight ?p' i" if "i \<in> set el" for i
    using that assms(4) cw [of i] weight_pos [of p i] by (auto simp: balanced_def split: if_splits)
  ultimately show ?thesis by (simp add: balanced_def same)
qed

lemma wrr_runs:
  assumes "el \<noteq> []" "distinct el" "set el \<subseteq> {..<length (po_members p)}" "balanced p el"
  shows "balanced (pool_after weightedRoundRobin n p el) el \<and> (\<forall>i\<in>set el.
    cur_weight (pool_after weightedRoundRobin n p el) i =
      cur_weight p i + int n * weight_of p i - total_weight p el * int (count_list (picks weightedRoundRobin n p el) i))"
  using assms(3,4)
proof (induction n arbitrary: p)
  case 0
  then show ?case by simp
next
  case (Suc n)
  let ?p' = "fst (weightedRoundRobin p el)"
  obtain s where s: "weightedRoundRobin p el = (?p', Some s)" "s \<in> set el"
    and cw: "\<And>j. cur_weight ?p' j =
       cur_weight p j + (if j \<in> set el then weight_of p j else 0) - (if j = s then total_weight p el else 0)"
    using wrr_step [OF assms(1,2) Suc.prems(1)] by metis
  have len: "length (po_members ?p') = length (po_members p)" by (rule same_members_nth(1) [OF wrr_frame])
  have W: "total_weight ?p' el = total_weight p el" by (rule total_weight_same [OF wrr_frame Suc.prems(1)])
  have w: "weight_of ?p' i = weight_of p i" if "i \<in> set el" for i
    using same_members_weight [OF wrr_frame] that Suc.prems(1) by auto
  have IH: "balanced (pool_after weightedRoundRobin n ?p' el) el \<and> (\<forall>i\<in>set el.
      cur_weight (pool_after weightedRoundRobin n ?p' el) i = cur_weight ?p' i + int n * weight_of ?p' i
        - total_weight ?p' el * int (count_list (picks weightedRoundRobin n ?p' el) i))"
    using Suc.IH [of ?p'] Suc.prems len wrr_balanced [OF assms(1,2) Suc.prems] by simp
  have "picks weightedRoundRobin (Suc n) p el = s # picks weightedRoundRobin n ?p' el"
    by (subst s(1) [THEN arg_cong [where f = "\<lambda>x. case x of (p', None) \<Rightarrow> [] | (p', Some i) \<Rightarrow> i # picks weightedRoundRobin n p' el"], folded picks.simps(2)]) simp
  with IH show ?case by (auto simp: cw W w algebra_simps)
qed

lemma sum_list_eq_pointwise:
  fixes f g :: "nat \<Rightarrow> int"
  assumes "\<And>i. i \<in> set el \<Longrightarrow> f i \<le> g i" "sum_list (map f el) = sum_list (map g el)" "i \<in> set el"
  shows "f i = g i"
  using assms
proof (induction el)
  case (Cons j el)
  have "sum_list (map f el) \<le> sum_list (map g el)" using Cons.prems(1) by (intro sum_list_mono) auto
  with Cons.prems(1) [of j] Cons.prems(2) have "f j = g j" "sum_list (map f el) = sum_list (map g el)" by auto
  with Cons show ?case by auto
qed simp

lemma picks_total:
  assumes "distinct el" "set xs \<subseteq> set el"
  shows "sum_list (map (\<lambda>i. int (count_list xs i)) el) = int (length xs)"
  using assms(2)
proof (induction xs)
  case (Cons x xs)
  have "map (\<lambda>i. int (count_list (x # xs) i)) el = map (\<lambda>i. int (count_list xs i) + (if i = x then 1 else 0)) el" by simp
  with Cons sum_list_select [OF assms(1), of x 1] show ?case by (simp only: sum_list_addf) simp
qed (simp add: sum_list_0)

lemma rr_positions:
  assumes "el \<noteq> []"
  shows "picks (some_pick rr_pick) n p el = map (\<lambda>k. nth_mod el (po_rr p + of_nat k)) [0..<n]"
proof (induction n arbitrary: p)
  case (Suc n)
  have "[0..<Suc n] = 0 # map Suc [0..<n]" by (simp add: upt_conv_Cons map_Suc_upt del: upt_Suc)
  moreover have "nth_mod el (po_rr p + 1 + of_nat k) = nth_mod el (po_rr p + of_nat (Suc k))" for k
    by (simp add: algebra_simps)
  ultimately show ?case using assms
    by (simp add: some_pick_def rr_pick_def Let_def comp_def Suc [unfolded some_pick_def rr_pick_def Let_def]
        del: upt_Suc of_nat_Suc)
qed simp

lemma uint_no_wrap:
  fixes w :: "64 word"
  assumes "uint w + int k < 2 ^ 64"
  shows "uint (w + of_nat k) = uint w + int k"
proof -
  have "int k < 2 ^ 64" using assms uint_ge_0 [of w] by linarith
  then have "uint (of_nat k :: 64 word) = int k" by (simp add: unsigned_of_nat take_bit_nat_eq_self_iff)
  with assms uint_add_lem [of w "of_nat k"] show ?thesis by simp
qed

lemma rotation:
  assumes "el \<noteq> []" "uint r + int (length el) \<le> 2 ^ 64"
  shows "map (\<lambda>k. nth_mod el (r + of_nat k)) [0..<length el] = rotate (nat (uint r)) el"
proof (rule nth_equalityI)
  fix k
  assume "k < length (map (\<lambda>k. nth_mod el (r + of_nat k)) [0..<length el])"
  then have k: "k < length el" by simp
  have "uint (r + of_nat k) = uint r + int k" by (rule uint_no_wrap) (use assms k in simp)
  moreover obtain u where u: "uint r = int u" by (rule nonneg_int_cases [OF uint_ge_0 [of r]])
  ultimately have "uint (r + of_nat k) mod int (length el) = int ((u + k) mod length el)"
    by (simp only: zmod_int of_nat_add)
  then have "nat (uint (r + of_nat k) mod int (length el)) = (nat (uint r) + k) mod length el"
    by (simp only: u nat_int)
  with k show "map (\<lambda>k. nth_mod el (r + of_nat k)) [0..<length el] ! k = rotate (nat (uint r)) el ! k"
    by (simp add: nth_mod_def nth_rotate)
qed simp

lemma golden_step: "nat (uint (w + golden) mod 4) = (nat (uint w mod 4) + 1) mod 4"
proof -
  have "uint (w + golden) = (uint w + uint golden) mod 2 ^ 64" by (simp add: uint_word_ariths)
  then have "uint (w + golden) mod 4 = (uint w + uint golden) mod 4" by (simp add: mod_mod_cancel)
  also have "\<dots> = (uint w mod 4 + uint golden mod 4) mod 4" by (simp add: mod_simps)
  also have "uint golden mod 4 = 1" by (simp add: golden_def)
  finally show ?thesis by (simp add: nat_mod_distrib nat_add_distrib)
qed

text \<open>A pool of four members with weights 3, 1, 1 and 1.\<close>

definition sample_url :: gourl where
  "sample_url = \<lparr>u_scheme = ''http'', u_user = False, u_host = ''10.0.0.5:8080'', u_path = [], u_rawpath = [],
     u_rawquery = [], u_forceQuery = False, u_fragment = []\<rparr>"

definition plain_transport :: transport where
  "plain_transport = \<lparr>tr_proxy = False, tr_maxIdle = 1024, tr_maxIdlePerHost = 256, tr_maxPerHost = 0,
     tr_idleTimeout = 90 * second, tr_headerTimeout = 30 * second, tr_continueTimeout = second,
     tr_handshakeTimeout = 10 * second, tr_http2 = True, tr_tls = None\<rparr>"

definition sample_runtime :: "string \<Rightarrow> pool" where
  "sample_runtime alg = \<lparr>po_config = sample_pool\<lparr>sp_algorithm := alg\<rparr>,
     po_members = map (\<lambda>(i, w). new_member ((sample_member i)\<lparr>pm_weight := w\<rparr>) sample_url plain_transport sample_health)
       [(''a'', 3), (''b'', 1), (''c'', 1), (''d'', 1)], po_rr = 5\<rparr>"

subsection \<open>Properties\<close>

text \<open>
  C17. Smooth weighted round robin is exact: from balanced zero weights, a run of as many picks as the
  weights add up to picks every member exactly as often as its weight says, and leaves all weights
  at zero again, so the schedule repeats.
\<close>

theorem wrr_exact_share:
  assumes "el \<noteq> []" "distinct el" "set el \<subseteq> {..<length (po_members p)}" "\<forall>i\<in>set el. cur_weight p i = 0"
  shows "\<forall>i\<in>set el. int (count_list (picks weightedRoundRobin (nat (total_weight p el)) p el) i) = weight_of p i
    \<and> cur_weight (pool_after weightedRoundRobin (nat (total_weight p el)) p el) i = 0"
proof -
  let ?W = "total_weight p el" and ?c = "\<lambda>i. int (count_list (picks weightedRoundRobin (nat (total_weight p el)) p el) i)"
  let ?q = "pool_after weightedRoundRobin (nat (total_weight p el)) p el"
  have W: "0 < ?W" by (rule total_weight_pos [OF assms(1)])
  have "map (cur_weight p) el = map (\<lambda>_. 0) el" using assms(4) by simp
  then have "sum_list (map (cur_weight p) el) = 0" by (simp only: sum_list_0)
  then have "balanced p el" using assms(4) W by (simp add: balanced_def)
  note run = wrr_runs [OF assms(1-3) this, of "nat ?W"]
  have same: "total_weight ?q el = ?W" by (rule total_weight_same [OF smooth_wrr.pool_after_same assms(3)])
  have cw: "cur_weight ?q i = ?W * (weight_of p i - ?c i)" if "i \<in> set el" for i
    using run that assms(4) W by (simp add: algebra_simps)
  have le: "?c i \<le> weight_of p i" if "i \<in> set el" for i
  proof -
    have "- ?W < cur_weight ?q i" using run that same unfolding balanced_def by metis
    then have "- ?W < ?W * (weight_of p i - ?c i)" unfolding cw [OF that] .
    then have "?W * (- 1) < ?W * (weight_of p i - ?c i)" by simp
    then have "- 1 < weight_of p i - ?c i" using W mult_less_cancel_left_pos by blast
    then show ?thesis by simp
  qed
  have "sum_list (map ?c el) = ?W"
    using picks_total [OF assms(2) smooth_wrr.picks_in, of "nat ?W" p] W smooth_wrr.picks_length [OF assms(1)]
    by simp
  then have "?c i = weight_of p i" if "i \<in> set el" for i
    using sum_list_eq_pointwise [of el ?c "weight_of p"] le that by (simp add: total_weight_def)
  with cw show ?thesis by simp
qed

theorem wrr_exact_share_witness:
  "int (count_list (picks weightedRoundRobin
      (nat (total_weight (sample_runtime ''weighted_round_robin'') [0, 1, 2]))
      (sample_runtime ''weighted_round_robin'') [0, 1, 2]) 1) = weight_of (sample_runtime ''weighted_round_robin'') 1"
proof -
  have "\<forall>i\<in>set [0, 1, 2]. cur_weight (sample_runtime ''weighted_round_robin'') i = 0"
    and "set [0, 1, 2] \<subseteq> {..<length (po_members (sample_runtime ''weighted_round_robin''))}"
    by (simp_all add: sample_runtime_def cur_weight_def new_member_def)
  then show ?thesis using wrr_exact_share [of "[0, 1, 2]" "sample_runtime ''weighted_round_robin''"] by simp
qed

text \<open>
  At every moment of such a run no member is a whole turn ahead of its share: after \<open>n\<close> picks a
  member of weight \<open>w\<close> out of \<open>W\<close> was picked fewer than \<open>n * w / W + 1\<close> times.
\<close>

theorem wrr_never_ahead:
  assumes "el \<noteq> []" "distinct el" "set el \<subseteq> {..<length (po_members p)}" "\<forall>i\<in>set el. cur_weight p i = 0" "i \<in> set el"
  shows "total_weight p el * int (count_list (picks weightedRoundRobin n p el) i)
    < int n * weight_of p i + total_weight p el"
proof -
  have "map (cur_weight p) el = map (\<lambda>_. 0) el" using assms(4) by simp
  then have "sum_list (map (cur_weight p) el) = 0" by (simp only: sum_list_0)
  then have "balanced p el" using assms(4) total_weight_pos [OF assms(1)] by (simp add: balanced_def)
  from wrr_runs [OF assms(1-3) this, of n] assms(4,5)
    total_weight_same [OF smooth_wrr.pool_after_same assms(3)]
  show ?thesis by (fastforce simp: balanced_def)
qed

theorem wrr_never_ahead_witness:
  "total_weight (sample_runtime ''weighted_round_robin'') [0, 1, 2] * int (count_list
     (picks weightedRoundRobin 2 (sample_runtime ''weighted_round_robin'') [0, 1, 2]) 0)
   < int 2 * weight_of (sample_runtime ''weighted_round_robin'') 0
     + total_weight (sample_runtime ''weighted_round_robin'') [0, 1, 2]"
  by (rule wrr_never_ahead) (simp_all add: sample_runtime_def cur_weight_def new_member_def)

text \<open>
  Round robin is fair: while the 64-bit counter does not wrap, any run of as many picks as there are
  eligible members goes once through all of them, starting where the counter points.
\<close>

theorem rr_rotates:
  assumes "sp_algorithm (po_config p) = ''round_robin''" "el \<noteq> []" "uint (po_rr p) + int (length el) \<le> 2 ^ 64"
  shows "picks choose_member (length el) p el = rotate (nat (uint (po_rr p))) el"
proof -
  have "picks choose_member n q el = picks (some_pick rr_pick) n q el"
    if "sp_algorithm (po_config q) = ''round_robin''" for n q
    using that
  proof (induction n arbitrary: q)
    case (Suc n)
    have "choose_member q el = some_pick rr_pick q el" and "po_config (fst (some_pick rr_pick q el)) = po_config q"
      using Suc.prems assms(2) by (simp_all add: choose_member_def some_pick_def rr_pick_def Let_def)
    with Suc show ?case by (auto split: prod.splits option.splits)
  qed simp
  with assms(1) rr_positions [OF assms(2)] rotation [OF assms(2,3)] show ?thesis by simp
qed

theorem rr_rotates_witness:
  "picks choose_member 3 (sample_runtime ''round_robin'') [0, 1, 3] = [3, 0, 1]"
proof -
  let ?p = "sample_runtime ''round_robin''" and ?el = "[0, 1, 3 :: nat]"
  have "picks choose_member (length ?el) ?p ?el = rotate (nat (uint (po_rr ?p))) ?el"
    by (rule rr_rotates) (simp_all add: sample_runtime_def)
  moreover have "length ?el = 3" "nat (uint (po_rr ?p)) = 5" by (simp_all add: sample_runtime_def)
  moreover have "rotate 5 ?el = [3, 0, 1]" by code_simp
  ultimately show ?thesis by (simp only:)
qed

text \<open>
  The algorithm called \<open>random\<close> adds an odd constant to the counter and takes the remainder, so with
  four eligible members it goes through them in a fixed cyclic order for ever, whatever the counter is.
\<close>

theorem random_rotates_four:
  assumes "sp_algorithm (po_config p) = ''random''" "length el = 4"
  shows "\<exists>k. \<forall>i<n. picks choose_member n p el ! i = el ! ((k + i) mod 4)"
proof (intro exI allI impI)
  fix i
  assume "i < n"
  then show "picks choose_member n p el ! i = el ! ((nat (uint (po_rr p) mod 4) + 1 + i) mod 4)"
    using assms(1)
  proof (induction n arbitrary: p i)
    case (Suc n)
    let ?p = "p\<lparr>po_rr := po_rr p + golden\<rparr>"
    have "choose_member p el = (?p, Some (nth_mod el (po_rr p + golden)))"
      using Suc.prems assms(2) by (auto simp: choose_member_def random_pick_def Let_def)
    then have run: "picks choose_member (Suc n) p el = nth_mod el (po_rr p + golden) # picks choose_member n ?p el"
      by simp
    show ?case
    proof (cases i)
      case 0
      then show ?thesis using run assms(2) golden_step [of "po_rr p"] by (simp add: nth_mod_def)
    next
      case (Suc j)
      with Suc.IH [of j ?p] Suc.prems have "picks choose_member n ?p el ! j = el ! ((nat (uint (po_rr p + golden) mod 4) + 1 + j) mod 4)"
        by simp
      moreover have "((a + 1) mod 4 + 1 + j) mod 4 = (a + 1 + Suc j) mod 4" for a :: nat
        using mod_add_left_eq [of "a + 1" 4 "Suc j"] by simp
      ultimately show ?thesis by (simp only: run Suc golden_step nth_Cons_Suc)
    qed
  qed simp
qed

theorem random_rotates_four_witness:
  "\<exists>k. \<forall>i<8. picks choose_member 8 (sample_runtime ''random'') [0, 1, 2, 3] ! i = [0, 1, 2, 3] ! ((k + i) mod 4)"
proof -
  have alg: "sp_algorithm (po_config (sample_runtime ''random'')) = ''random''" by (simp add: sample_runtime_def)
  have len: "length [0, 1, 2, 3 :: nat] = 4" by simp
  show ?thesis by (fact random_rotates_four [OF alg len])
qed

text \<open>
  C18. Whatever algorithm and persistence mode are configured, the selected member exists, was not
  excluded, and is healthy; a backup is selected only when no primary is available. An unhealthy
  member is selected only when the pool's failure mode is \<open>last_resort\<close> and no healthy one is left.
  No member is selected only when none is left to select.
\<close>

theorem selectMember_sound:
  assumes "selectMember token ps p cookie clientIP excluded = (p', r)"
  shows "same_members p' p \<and>
    (case r of
       None \<Rightarrow> \<forall>j<length (po_members p). member_id p j \<in> set excluded
         \<or> sp_failureMode (po_config p) \<noteq> ''last_resort'' \<and> \<not> mb_healthy (po_members p ! j)
     | Some i \<Rightarrow> i < length (po_members p) \<and> member_id p i \<notin> set excluded
         \<and> (\<not> mb_healthy (po_members p ! i) \<longrightarrow> sp_failureMode (po_config p) = ''last_resort''
              \<and> (\<forall>j<length (po_members p). mb_healthy (po_members p ! j) \<longrightarrow> member_id p j \<in> set excluded))
         \<and> (pm_backup (mb_config (po_members p ! i)) \<longrightarrow>
              (\<forall>j<length (po_members p). \<not> pm_backup (mb_config (po_members p ! j)) \<longrightarrow>
                 member_id p j \<in> set excluded \<or> mb_healthy (po_members p ! i) \<and> \<not> mb_healthy (po_members p ! j))))"
proof -
  obtain b where el: "available p excluded = eligible p excluded b"
    and b: "b \<longleftrightarrow> candidates p excluded False = [] \<and> sp_failureMode (po_config p) = ''last_resort''"
    by (rule available_cases)
  note none = candidates_none [of p excluded]
  show ?thesis
  proof (cases "available p excluded = []")
    case True
    then show ?thesis using assms el b by (cases b) (auto simp: selectMember_def eligible_empty_iff none)
  next
    case False
    have "same_members p' p \<and> (\<exists>i\<in>set (available p excluded). r = Some i)"
      using selectMember_available [OF False, of token ps cookie clientIP] assms by simp
    then obtain i where i: "r = Some i" "i \<in> set (eligible p excluded b)" "same_members p' p"
      unfolding el by blast
    have "i \<in> set (candidates p excluded b)" using eligible_candidates i(2) by blast
    then show ?thesis using i b eligible_backup [OF i(2)] by (auto simp: candidates_iff none)
  qed
qed

theorem selectMember_sound_witness:
  "\<exists>p' i. selectMember (\<lambda>_ i. i) \<lparr>ps_mode = ''cookie'', ps_cookie = ''C'', ps_ttl = 60\<rparr> (sample_runtime ''primary_backup'')
      (Some ''a'') ''192.0.2.1'' [''a''] = (p', Some i) \<and> same_members p' (sample_runtime ''primary_backup'')
    \<and> i < length (po_members (sample_runtime ''primary_backup'')) \<and> member_id (sample_runtime ''primary_backup'') i \<noteq> ''a''"
proof -
  have "selectMember (\<lambda>_ i. i) \<lparr>ps_mode = ''cookie'', ps_cookie = ''C'', ps_ttl = 60\<rparr> (sample_runtime ''primary_backup'')
      (Some ''a'') ''192.0.2.1'' [''a''] = (sample_runtime ''primary_backup'', Some 1)" by code_simp
  from selectMember_sound [OF this] this show ?thesis by auto
qed

end
