(* ===== verification/Proxy.thy ===== *)
theory Proxy
  imports Pool GoHTTP
begin

text \<open>
  The reverse proxy of \<open>internal/proxy\<close> around the pools: content routes, construction of a backend,
  rewriting of the outgoing request, the round trip with its single retry, and the health of members.
  The network is a parameter: \<open>send\<close> gives what a member's transport returns for a request, an error
  text or a response. \<open>httputil.ReverseProxy\<close> runs the hooks in the order of \<open>ServeHTTP\<close> below; what it
  does to the headers before the hooks (hop-by-hop and forwarding headers removed) is the parameter
  \<open>prepare\<close>. Loading a CA file is the parameter \<open>load_ca\<close>, an error text or nothing.
\<close>

record response =
  rs_status :: int
  rs_header :: header

type_synonym sender = "member \<Rightarrow> request \<Rightarrow> string + response"

subsection \<open>Content routes\<close>

record compiled_route =
  cc_config :: content_route
  cc_methods :: "string list"
  cc_path :: "regexp option"
  cc_header :: "regexp option"
  cc_query :: "regexp option"

definition compile_optional :: "golib \<Rightarrow> string \<Rightarrow> string \<Rightarrow> string \<Rightarrow> go_error + regexp option" where
  "compile_optional L what name pattern =
     (if pattern = [] then Inr None
      else (case rx_compile L pattern of
          None \<Rightarrow> Inl (Errorf (''content route %q '' @ what @ '' pattern: %w'') [name])
        | Some rx \<Rightarrow> Inr (Some rx)))"

definition compile_route :: "golib \<Rightarrow> content_route \<Rightarrow> go_error + compiled_route" where
  "compile_route L r =
     (case compile_optional L ''path'' (cr_name r) (cr_pathPattern r) of
        Inl e \<Rightarrow> Inl e
      | Inr p \<Rightarrow>
          (case compile_optional L ''header'' (cr_name r) (cr_headerPattern r) of
             Inl e \<Rightarrow> Inl e
           | Inr h \<Rightarrow>
               (case compile_optional L ''query'' (cr_name r) (cr_queryPattern r) of
                  Inl e \<Rightarrow> Inl e
                | Inr q \<Rightarrow> Inr \<lparr>cc_config = r, cc_methods = map (\<lambda>m. ToUpper L (TrimSpace m)) (cr_methods r),
                    cc_path = p, cc_header = h, cc_query = q\<rparr>)))"

definition compileContentRoutes :: "golib \<Rightarrow> content_route list \<Rightarrow> go_error + compiled_route list" where
  "compileContentRoutes L routes =
     fold_err (\<lambda>r acc. if \<not> cr_enabled r then Inr acc
         else (case compile_route L r of Inl e \<Rightarrow> Inl e | Inr c \<Rightarrow> Inr (acc @ [c])))
       routes []"

definition rx_ok :: "regexp option \<Rightarrow> string \<Rightarrow> bool" where
  "rx_ok rx s = (case rx of None \<Rightarrow> True | Some f \<Rightarrow> MatchString f s)"

definition route_matches :: "golib \<Rightarrow> compiled_route \<Rightarrow> request \<Rightarrow> bool" where
  "route_matches L c r =
     (if cc_methods c \<noteq> [] \<and> ToUpper L (rq_method r) \<notin> set (cc_methods c) then False
      else if cr_pathPrefix (cc_config c) \<noteq> []
           \<and> \<not> HasPrefix (u_path (rq_url r)) (cr_pathPrefix (cc_config c)) then False
      else if \<not> rx_ok (cc_path c) (u_path (rq_url r)) then False
      else if \<not> rx_ok (cc_header c) (header_get (rq_header r) (cr_headerName (cc_config c))) then False
      else if \<not> rx_ok (cc_query c) (query_get (rq_url r) (cr_queryName (cc_config c))) then False
      else True)"

subsection \<open>Building a backend\<close>

record backend =
  bk_vhost :: virtual_host
  bk_pools :: "(string \<times> pool) list"
  bk_default :: string
  bk_routes :: "compiled_route list"
  bk_stopped :: bool

type_synonym ca_loader = "string \<Rightarrow> string option"

definition newTransport :: "ca_loader \<Rightarrow> gourl \<Rightarrow> origin_tls \<Rightarrow> config \<Rightarrow> string + transport" where
  "newTransport load_ca target ot cfg =
     (let base = \<lparr>tr_proxy = False, tr_maxIdle = 1024, tr_maxIdlePerHost = 256, tr_maxPerHost = 0,
            tr_idleTimeout = 90 * second, tr_headerTimeout = 30 * second, tr_continueTimeout = second,
            tr_handshakeTimeout = 10 * second, tr_http2 = True, tr_tls = None\<rparr> in
      if u_scheme target = ''https'' then
        (let tls = \<lparr>tc_minTLS12 = True, tc_serverName = ot_serverName ot, tc_insecure = ot_insecure ot, tc_ca = None\<rparr> in
         if ot_caFile ot \<noteq> [] then
           (let path = ResolvePath cfg (ot_caFile ot) in
            case load_ca path of
              Some err \<Rightarrow> Inl err
            | None \<Rightarrow> Inr (base\<lparr>tr_tls := Some (tls\<lparr>tc_ca := Some path\<rparr>)\<rparr>))
         else Inr (base\<lparr>tr_tls := Some tls\<rparr>))
      else Inr base)"

definition build_member :: "golib \<Rightarrow> ca_loader \<Rightarrow> virtual_host \<Rightarrow> config \<Rightarrow> health_config \<Rightarrow> pool_member
    \<Rightarrow> member list \<Rightarrow> go_error + member list" where
  "build_member L load_ca v cfg health m acc =
     (if \<not> pm_enabled m then Inr acc
      else (case url_parse L (pm_url m) of
          None \<Rightarrow> Inl (Errorf ''member %q URL: %w'' [pm_id m])
        | Some target \<Rightarrow>
            (case newTransport load_ca target (if hasOriginTLS (pm_tls m) then pm_tls m else vh_originTLS v) cfg of
               Inl err \<Rightarrow> Inl (Errorf ''member %q transport: %w'' [pm_id m, err])
             | Inr tr \<Rightarrow> Inr (acc @ [new_member m target tr health]))))"

definition newPoolRuntime :: "golib \<Rightarrow> ca_loader \<Rightarrow> server_pool \<Rightarrow> virtual_host \<Rightarrow> config \<Rightarrow> go_error + pool" where
  "newPoolRuntime L load_ca sp v cfg =
     (case fold_err (build_member L load_ca v cfg (sp_health sp)) (sp_members sp) [] of
        Inl e \<Rightarrow> Inl e
      | Inr members \<Rightarrow>
          if members = [] then Inl (Errorf ''pool contains no enabled members'' [])
          else Inr \<lparr>po_config = sp, po_members = members, po_rr = 0\<rparr>)"

definition no_health :: health_config where
  "no_health = \<lparr>hc_enabled = False, hc_type = [], hc_interval = 0, hc_timeout = 0, hc_healthy = 0,
     hc_unhealthy = 0, hc_method = [], hc_path = [], hc_host = [], hc_statusMin = 0, hc_statusMax = 0\<rparr>"

definition direct_pool :: "virtual_host \<Rightarrow> string \<Rightarrow> server_pool" where
  "direct_pool v name = \<lparr>sp_name = name, sp_enabled = True, sp_algorithm = ''round_robin'',
     sp_failureMode = ''last_resort'',
     sp_members = [\<lparr>pm_id = ''origin'', pm_url = vh_upstream v, pm_enabled = True, pm_weight = 1,
       pm_priority = 100, pm_backup = False, pm_tls = vh_originTLS v\<rparr>],
     sp_health = no_health\<rparr>"

definition default_pool_name :: "virtual_host \<Rightarrow> string" where
  "default_pool_name v = (if vh_pool v \<noteq> [] then vh_pool v else ''__direct__'' @ vh_name v)"

definition pool_names :: "virtual_host \<Rightarrow> string list" where
  "pool_names v = remdups (default_pool_name v # map cr_pool (filter cr_enabled (vh_routes v)))"

definition configured_pool :: "virtual_host \<Rightarrow> config \<Rightarrow> string \<Rightarrow> go_error + server_pool" where
  "configured_pool v cfg name =
     (if HasPrefix name ''__direct__'' then Inr (direct_pool v name)
      else (case ServerPoolByName cfg name of
          None \<Rightarrow> Inl (Errorf ''server pool %q does not exist'' [name])
        | Some p \<Rightarrow> Inr p))"

definition build_pool :: "golib \<Rightarrow> ca_loader \<Rightarrow> virtual_host \<Rightarrow> config \<Rightarrow> string \<Rightarrow> (string \<times> pool) list
    \<Rightarrow> go_error + (string \<times> pool) list" where
  "build_pool L load_ca v cfg name pools =
     (case configured_pool v cfg name of
        Inl e \<Rightarrow> Inl e
      | Inr sp \<Rightarrow>
          (case newPoolRuntime L load_ca sp v cfg of
             Inl e \<Rightarrow> Inl (Wrapped ''server pool %q: %w'' [name] [e])
           | Inr p \<Rightarrow> Inr (pools @ [(name, p)])))"

text \<open>
  The names are a Go map, visited in any order; the order decides which error is reported first and
  nothing else. The persistence key comes from the system's random source and is the parameter of
  \<open>memberToken\<close>.
\<close>

definition proxy_New :: "golib \<Rightarrow> ca_loader \<Rightarrow> virtual_host \<Rightarrow> config \<Rightarrow> go_error + backend" where
  "proxy_New L load_ca v cfg =
     (case fold_err (build_pool L load_ca v cfg) (pool_names v) [] of
        Inl e \<Rightarrow> Inl e
      | Inr pools \<Rightarrow>
          (case compileContentRoutes L (vh_routes v) of
             Inl e \<Rightarrow> Inl e
           | Inr routes \<Rightarrow> Inr \<lparr>bk_vhost = v, bk_pools = pools, bk_default = default_pool_name v,
               bk_routes = routes, bk_stopped = False\<rparr>))"

definition CloseIdleConnections :: "backend option \<Rightarrow> backend option" where
  "CloseIdleConnections b = map_option (\<lambda>x. x\<lparr>bk_stopped := True\<rparr>) b"

subsection \<open>Choosing a pool\<close>

fun route_pool :: "golib \<Rightarrow> (string \<times> pool) list \<Rightarrow> request \<Rightarrow> compiled_route list \<Rightarrow> string option" where
  "route_pool L pools r [] = None"
| "route_pool L pools r (c # cs) =
     (if route_matches L c r \<and> map_of pools (cr_pool (cc_config c)) \<noteq> None
      then Some (cr_pool (cc_config c)) else route_pool L pools r cs)"

text \<open>The pool is returned by its key in the map.\<close>

definition selectPool :: "golib \<Rightarrow> backend \<Rightarrow> request \<Rightarrow> string option" where
  "selectPool L b r =
     (case route_pool L (bk_pools b) r (bk_routes b) of
        Some n \<Rightarrow> Some n
      | None \<Rightarrow> if map_of (bk_pools b) (bk_default b) \<noteq> None then Some (bk_default b) else None)"

definition Upstream :: "golib \<Rightarrow> backend \<Rightarrow> string" where
  "Upstream L b =
     (case map_of (bk_pools b) (bk_default b) of
        None \<Rightarrow> []
      | Some p \<Rightarrow>
          if HasPrefix (sp_name (po_config p)) ''__direct__'' \<and> length (po_members p) = 1
          then url_redacted L (mb_target (po_members p ! 0))
          else ''pool:'' @ sp_name (po_config p))"

subsection \<open>Health of a member\<close>

definition limitError :: "string \<Rightarrow> string" where
  "limitError v = take 256 (TrimSpace v)"

definition recordSuccess :: "member \<Rightarrow> member" where
  "recordSuccess m0 =
     (let m = m0\<lparr>mb_fail := 0\<rparr> in
      if \<not> hc_enabled (mb_health m) then m\<lparr>mb_healthy := True\<rparr>
      else let n = mb_succ m + 1 in
        m\<lparr>mb_succ := n,
          mb_healthy := (if sint (word_of_int (hc_healthy (mb_health m)) :: 32 word) \<le> sint n then True else mb_healthy m),
          mb_lastError := []\<rparr>)"

definition recordFailure :: "string \<Rightarrow> member \<Rightarrow> member" where
  "recordFailure err m0 =
     (let m = m0\<lparr>mb_failures := mb_failures m0 + 1, mb_succ := 0, mb_lastError := limitError err\<rparr> in
      if hc_enabled (mb_health m) then
        (let n = mb_fail m + 1 in
         m\<lparr>mb_fail := n,
           mb_healthy := (if sint (word_of_int (hc_unhealthy (mb_health m)) :: 32 word) \<le> sint n then False else mb_healthy m)\<rparr>)
      else m)"

text \<open>Active checks: \<open>probe\<close> is the outcome of the network part, \<open>None\<close> for success.\<close>

definition checkMember :: "(member \<Rightarrow> string option) \<Rightarrow> gotime \<Rightarrow> member \<Rightarrow> member" where
  "checkMember probe now m =
     (if mb_checking m then m
      else let m1 = m\<lparr>mb_checking := True\<rparr>; m2 = m1\<lparr>mb_lastCheck := now\<rparr>;
               m3 = (case probe m1 of
                       Some err \<Rightarrow> recordFailure (''active health check: '' @ err) m2
                     | None \<Rightarrow> recordSuccess m2) in
        m3\<lparr>mb_checking := False\<rparr>)"

definition tcp_address :: "gourl \<Rightarrow> string" where
  "tcp_address target =
     (if SplitHostPort (u_host target) \<noteq> None then u_host target
      else JoinHostPort (url_hostname (u_host target)) (if u_scheme target = ''https'' then ''443'' else ''80''))"

definition joinHealthPath :: "string \<Rightarrow> string \<Rightarrow> string" where
  "joinHealthPath base health =
     (if base = [] \<or> base = ''/'' then (if health = [] then ''/'' else health)
      else if health = [] \<or> health = ''/'' then base
      else TrimRightByte CHR ''/'' base @ ''/'' @ TrimLeftByte CHR ''/'' health)"

text \<open>
  The URL and the host header of an HTTP check, and the verdict on its answer: \<open>dial\<close> and \<open>fetch\<close>
  are the network.
\<close>

definition http_check_url :: "member \<Rightarrow> health_config \<Rightarrow> gourl" where
  "http_check_url m check =
     (mb_target m)\<lparr>u_rawquery := [], u_fragment := [],
       u_path := joinHealthPath (u_path (mb_target m)) (hc_path check), u_rawpath := []\<rparr>"

definition httpCheck :: "golib \<Rightarrow> (string \<Rightarrow> gourl \<Rightarrow> string \<Rightarrow> string + int) \<Rightarrow> health_config \<Rightarrow> member \<Rightarrow> string option" where
  "httpCheck L fetch check m =
     (let target = http_check_url m check in
      case fetch (ToUpper L (hc_method check)) target (if hc_host check \<noteq> [] then hc_host check else u_host target) of
        Inl err \<Rightarrow> Some err
      | Inr status \<Rightarrow>
          if status < hc_statusMin check \<or> hc_statusMax check < status
          then Some (''HTTP '' @ Itoa status @ '' outside expected range '' @ Itoa (hc_statusMin check) @ ''-'' @ Itoa (hc_statusMax check))
          else None)"

definition probe_member :: "golib \<Rightarrow> (string \<Rightarrow> string option) \<Rightarrow> (string \<Rightarrow> gourl \<Rightarrow> string \<Rightarrow> string + int)
    \<Rightarrow> health_config \<Rightarrow> member \<Rightarrow> string option" where
  "probe_member L dial fetch check m =
     (if hc_type check = ''tcp'' then dial (tcp_address (mb_target m)) else httpCheck L fetch check m)"

text \<open>One tick of \<open>runHealthChecks\<close>: every member of a pool with health checks is checked.\<close>

definition check_pool :: "golib \<Rightarrow> (string \<Rightarrow> string option) \<Rightarrow> (string \<Rightarrow> gourl \<Rightarrow> string \<Rightarrow> string + int)
    \<Rightarrow> gotime \<Rightarrow> pool \<Rightarrow> pool" where
  "check_pool L dial fetch now p =
     (if \<not> hc_enabled (sp_health (po_config p)) then p
      else p\<lparr>po_members := map (checkMember (probe_member L dial fetch (sp_health (po_config p))) now) (po_members p)\<rparr>)"

subsection \<open>Rewriting\<close>

definition join_slash :: "string \<Rightarrow> string \<Rightarrow> string \<Rightarrow> string \<Rightarrow> string" where
  "join_slash ka kb a b =
     (let aslash = HasSuffix ka ''/''; bslash = HasPrefix kb ''/'' in
      if aslash \<and> bslash then a @ drop 1 b
      else if \<not> aslash \<and> \<not> bslash then a @ ''/'' @ b
      else a @ b)"

definition joinURLPath :: "gourl \<Rightarrow> gourl \<Rightarrow> string \<times> string" where
  "joinURLPath a b =
     (if u_rawpath a = [] \<and> u_rawpath b = [] then (join_slash (u_path a) (u_path b) (u_path a) (u_path b), [])
      else let ap = EscapedPath a; bp = EscapedPath b in
        (join_slash ap bp (u_path a) (u_path b), join_slash ap bp ap bp))"

definition rewriteURL :: "gourl \<Rightarrow> gourl \<Rightarrow> gourl \<Rightarrow> gourl" where
  "rewriteURL out target original =
     (let (path, rawPath) = joinURLPath target original in
      out\<lparr>u_scheme := u_scheme target, u_host := u_host target, u_path := path, u_rawpath := rawPath,
        u_rawquery := (if u_rawquery target = [] \<or> u_rawquery original = [] then u_rawquery target @ u_rawquery original
                       else u_rawquery target @ ''&'' @ u_rawquery original)\<rparr>)"

text \<open>\<open>ProxyRequest.SetXForwarded\<close>.\<close>

definition SetXForwarded :: "request \<Rightarrow> header \<Rightarrow> header" where
  "SetXForwarded r h =
     (let h1 = (case SplitHostPort (rq_remoteAddr r) of
            Some (ip, _) \<Rightarrow> header_set h ''X-Forwarded-For''
              (Join (header_values h ''X-Forwarded-For'' @ [ip]) '', '')
          | None \<Rightarrow> header_del h ''X-Forwarded-For'');
          h2 = header_set h1 ''X-Forwarded-Host'' (rq_host r) in
      header_set h2 ''X-Forwarded-Proto'' (if rq_tls r then ''https'' else ''http''))"

definition set_all :: "(string \<times> string) list \<Rightarrow> header \<Rightarrow> header" where
  "set_all kvs h = foldl (\<lambda>h (k, v). header_set h k v) h kvs"

text \<open>
  \<open>rewrite\<close>: \<open>inr\<close> is the request as received, \<open>out\<close> the outgoing copy. \<open>fresh\<close> is the identifier
  \<open>NewRequestID\<close> would generate.
\<close>

definition proxy_rewrite :: "virtual_host \<Rightarrow> string \<Rightarrow> member \<Rightarrow> string \<Rightarrow> request \<Rightarrow> request \<Rightarrow> request" where
  "proxy_rewrite v poolName m fresh inr out =
     (let h1 = SetXForwarded inr (rq_header out);
          h2 = header_set h1 ''X-CherryWAF'' ''1'';
          h3 = header_set h2 ''X-CherryWAF-Pool'' poolName;
          h4 = header_set h3 ''X-CherryWAF-Member'' (pm_id (mb_config m));
          h5 = (if header_get h4 ''X-Request-ID'' = [] then header_set h4 ''X-Request-ID'' fresh else h4) in
      out\<lparr>rq_url := rewriteURL (rq_url out) (mb_target m) (rq_url out),
          rq_host := (if vh_preserveHost v then rq_host inr else u_host (mb_target m)),
          rq_header := set_all (vh_reqHeaders v) h5\<rparr>)"

subsection \<open>The round trip\<close>

record selection =
  ss_member :: nat
  ss_clientIP :: string
  ss_secure :: bool
  ss_original :: gourl
  ss_attempted :: "string list"

definition roundTripMember :: "sender \<Rightarrow> nat \<Rightarrow> request \<Rightarrow> pool \<Rightarrow> pool \<times> (string + response)" where
  "roundTripMember send i r p =
     (let p1 = upd_member (\<lambda>m. m\<lparr>mb_active := mb_active m + 1, mb_requests := mb_requests m + 1\<rparr>) i p;
          res = send (po_members p1 ! i) r in
      (upd_member (\<lambda>m. m\<lparr>mb_active := mb_active m - 1\<rparr>) i p1, res))"

definition retryable :: "request \<Rightarrow> bool" where
  "retryable r = (rq_method r \<in> set [''GET'', ''HEAD'', ''OPTIONS'', ''TRACE''] \<or> rq_getBody r \<noteq> None)"

text \<open>
  The reverse proxy drops the body of an outgoing request whose content length is zero, so a body is
  there exactly when the length is not zero.
\<close>

definition replay_body :: "request \<Rightarrow> string + request" where
  "replay_body r =
     (if rq_contentLength r = 0 then Inr r
      else (case rq_getBody r of
          None \<Rightarrow> Inl ''request body cannot be replayed''
        | Some (Inl err) \<Rightarrow> Inl err
        | Some (Inr body) \<Rightarrow> Inr (r\<lparr>rq_body := body\<rparr>)))"

definition cloneForRetry :: "request \<Rightarrow> selection \<Rightarrow> string \<Rightarrow> member \<Rightarrow> string + request" where
  "cloneForRetry r st poolName m =
     (case replay_body r of
        Inl e \<Rightarrow> Inl e
      | Inr r' \<Rightarrow> Inr (r'\<lparr>rq_url := rewriteURL (rq_url r') (mb_target m) (ss_original st),
          rq_header := header_set (header_set (rq_header r') ''X-CherryWAF-Pool'' poolName)
            ''X-CherryWAF-Member'' (pm_id (mb_config m))\<rparr>))"

definition setMember :: "pool \<Rightarrow> nat \<Rightarrow> selection \<Rightarrow> selection" where
  "setMember p i st = st\<lparr>ss_member := i, ss_attempted := member_id p i # ss_attempted st\<rparr>"

text \<open>
  The result is the pool, the selection state, the answer (the errors joined), and the members that
  were contacted, in order.
\<close>

definition RoundTrip :: "golib \<Rightarrow> (string \<Rightarrow> string \<Rightarrow> string) \<Rightarrow> persistence_config \<Rightarrow> sender \<Rightarrow> request
    \<Rightarrow> pool \<Rightarrow> selection \<Rightarrow> pool \<times> selection \<times> (string list + response) \<times> nat list" where
  "RoundTrip L token ps send r p st =
     (let i = ss_member st in
      case roundTripMember send i r p of
        (p1, Inr resp) \<Rightarrow> (p1, st, Inr resp, [i])
      | (p1, Inl err) \<Rightarrow>
          let p2 = upd_member (recordFailure err) i p1 in
          if \<not> retryable r then (p2, st, Inl [err], [i])
          else
            (case selectMember token ps p2 (request_cookie L r (ps_cookie ps)) (ss_clientIP st) (ss_attempted st) of
               (p3, None) \<Rightarrow> (p3, st, Inl [err], [i])
             | (p3, Some j) \<Rightarrow>
                 let st' = setMember p3 j st in
                 (case cloneForRetry r st' (sp_name (po_config p3)) (po_members p3 ! j) of
                    Inl cerr \<Rightarrow> (p3, st', Inl [err, cerr], [i])
                  | Inr r' \<Rightarrow>
                      (case roundTripMember send j r' p3 of
                         (p4, Inr resp) \<Rightarrow> (p4, st', Inr resp, [i, j])
                       | (p4, Inl rerr) \<Rightarrow> (upd_member (recordFailure rerr) j p4, st', Inl [err, rerr], [i, j])))))"

subsection \<open>Serving a request\<close>

text \<open>
  \<open>persistenceCookie\<close> and \<open>Cookie.String\<close> on it (the name is a validated cookie name, the token is
  base64url text).
\<close>

definition persistenceCookie :: "(string \<Rightarrow> string \<Rightarrow> string) \<Rightarrow> persistence_config \<Rightarrow> pool \<Rightarrow> nat \<Rightarrow> bool \<Rightarrow> string" where
  "persistenceCookie token ps p i secure =
     ps_cookie ps @ ''='' @ token (sp_name (po_config p)) (member_id p i) @ ''; Path=/''
     @ (if 0 < ps_ttl ps then ''; Max-Age='' @ Itoa (ps_ttl ps) else if ps_ttl ps < 0 then ''; Max-Age=0'' else [])
     @ ''; HttpOnly'' @ (if secure then ''; Secure'' else []) @ ''; SameSite=Lax''"

definition modifyResponse :: "(string \<Rightarrow> string \<Rightarrow> string) \<Rightarrow> virtual_host \<Rightarrow> pool \<Rightarrow> selection \<Rightarrow> response
    \<Rightarrow> pool \<times> response" where
  "modifyResponse token v p st resp =
     (let i = ss_member st;
          p' = upd_member recordSuccess i p;
          h1 = (if ps_mode (vh_persistence v) = ''cookie''
                then header_add (rs_header resp) ''Set-Cookie'' (persistenceCookie token (vh_persistence v) p' i (ss_secure st))
                else rs_header resp) in
      (p', resp\<lparr>rs_header := header_set (set_all (vh_respHeaders v) h1) ''Via'' ''CherryWAF''\<rparr>))"

datatype served = Unavailable string | BadGateway "string list" | Served response

definition set_pool :: "string \<Rightarrow> pool \<Rightarrow> backend \<Rightarrow> backend" where
  "set_pool name p b = b\<lparr>bk_pools := map (\<lambda>(n, q). if n = name then (n, p) else (n, q)) (bk_pools b)\<rparr>"

definition client_addr :: "request \<Rightarrow> string \<Rightarrow> request" where
  "client_addr r clientIP =
     (case ParseIP clientIP of Some ip \<Rightarrow> r\<lparr>rq_remoteAddr := JoinHostPort (IP_str ip) ''0''\<rparr> | None \<Rightarrow> r)"

definition proxy_ServeHTTP :: "golib \<Rightarrow> (string \<Rightarrow> string \<Rightarrow> string) \<Rightarrow> sender \<Rightarrow> (request \<Rightarrow> request) \<Rightarrow> string
    \<Rightarrow> backend \<Rightarrow> request \<Rightarrow> string \<Rightarrow> backend \<times> served \<times> string" where
  "proxy_ServeHTTP L token send prepare fresh b r clientIP =
     (case selectPool L b r of
        None \<Rightarrow> (b, Unavailable ''server pool unavailable'', [])
      | Some name \<Rightarrow>
          let p = the (map_of (bk_pools b) name); v = bk_vhost b; ps = vh_persistence v in
          (case selectMember token ps p (request_cookie L r (ps_cookie ps)) clientIP [] of
             (p1, None) \<Rightarrow> (set_pool name p1 b, Unavailable ''no healthy upstream member'', ''pool:'' @ sp_name (po_config p))
           | (p1, Some i) \<Rightarrow>
               let st = \<lparr>ss_member = i, ss_clientIP = clientIP, ss_secure = rq_tls r, ss_original = rq_url r,
                     ss_attempted = [member_id p1 i]\<rparr>;
                   inr = client_addr r clientIP;
                   out = proxy_rewrite v (sp_name (po_config p1)) (po_members p1 ! i) fresh inr (prepare inr) in
               (case RoundTrip L token ps send out p1 st of
                  (p2, st', Inl errs, _) \<Rightarrow>
                    (set_pool name p2 b, BadGateway errs, url_redacted L (mb_target (po_members p2 ! ss_member st')))
                | (p2, st', Inr resp, _) \<Rightarrow>
                    (case modifyResponse token v p2 st' resp of (p3, resp') \<Rightarrow>
                       (set_pool name p3 b, Served resp', url_redacted L (mb_target (po_members p3 ! ss_member st')))))))"

subsection \<open>Status\<close>

record member_status =
  ms_id :: string
  ms_url :: string
  ms_enabled :: bool
  ms_backup :: bool
  ms_weight :: int
  ms_priority :: int
  ms_healthy :: bool
  ms_active :: int
  ms_requests :: "64 word"
  ms_failures :: "64 word"
  ms_lastChecked :: "gotime option"
  ms_lastError :: string

record pool_status =
  pst_name :: string
  pst_algorithm :: string
  pst_failureMode :: string
  pst_healthy :: nat
  pst_total :: nat
  pst_members :: "member_status list"

definition member_status_of :: "golib \<Rightarrow> member \<Rightarrow> member_status" where
  "member_status_of L m = \<lparr>ms_id = pm_id (mb_config m), ms_url = url_redacted L (mb_target m),
     ms_enabled = pm_enabled (mb_config m), ms_backup = pm_backup (mb_config m), ms_weight = pm_weight (mb_config m),
     ms_priority = pm_priority (mb_config m), ms_healthy = mb_healthy m, ms_active = mb_active m,
     ms_requests = mb_requests m, ms_failures = mb_failures m,
     ms_lastChecked = (if 0 < mb_lastCheck m then Some (mb_lastCheck m) else None), ms_lastError = mb_lastError m\<rparr>"

definition pool_status_of :: "golib \<Rightarrow> string \<Rightarrow> pool \<Rightarrow> pool_status" where
  "pool_status_of L name p = \<lparr>pst_name = name, pst_algorithm = sp_algorithm (po_config p),
     pst_failureMode = sp_failureMode (po_config p), pst_healthy = length (filter mb_healthy (po_members p)),
     pst_total = length (po_members p), pst_members = map (member_status_of L) (po_members p)\<rparr>"

definition proxy_Status :: "golib \<Rightarrow> backend option \<Rightarrow> pool_status list" where
  "proxy_Status L b =
     (case b of
        None \<Rightarrow> []
      | Some x \<Rightarrow> map (\<lambda>n. pool_status_of L n (the (map_of (bk_pools x) n))) (sort (map fst (bk_pools x))))"

subsection \<open>Health as a verdict on the sequence of outcomes\<close>

text \<open>
  The specification: outcomes newest first. A success makes the member healthy when it completes a
  run of \<open>h\<close> successes, a failure makes it unhealthy when it completes a run of \<open>u\<close> failures, and
  otherwise the verdict stays.
\<close>

definition streak :: "bool \<Rightarrow> bool list \<Rightarrow> nat" where
  "streak b os = length (takeWhile (\<lambda>x. x = b) os)"

fun verdict :: "nat \<Rightarrow> nat \<Rightarrow> bool list \<Rightarrow> bool" where
  "verdict h u [] = True"
| "verdict h u (ok # os) =
     (if ok then h \<le> streak True (ok # os) \<or> verdict h u os
      else \<not> (u \<le> streak False (ok # os)) \<and> verdict h u os)"

fun outcomes :: "member \<Rightarrow> bool list \<Rightarrow> member" where
  "outcomes m [] = m"
| "outcomes m (ok # os) = (let m' = outcomes m os in if ok then recordSuccess m' else recordFailure ''down'' m')"

lemma streak_le: "streak b os \<le> length os"
  by (simp add: streak_def length_takeWhile_le)

lemma sint_small: "int n < 2 ^ 31 \<Longrightarrow> sint (of_nat n :: 32 word) = int n"
  by (simp add: sint_uint unsigned_of_nat signed_take_bit_int_eq_self take_bit_nat_eq_self)

lemma outcomes_counts:
  assumes "mb_succ m = 0" "mb_fail m = 0" "mb_healthy m" "hc_enabled (mb_health m)"
    and "hc_healthy (mb_health m) = int h" "int h < 2 ^ 31"
    and "hc_unhealthy (mb_health m) = int u" "int u < 2 ^ 31"
    and "int (length os) < 2 ^ 31"
  shows "mb_succ (outcomes m os) = of_nat (streak True os) \<and> mb_fail (outcomes m os) = of_nat (streak False os)
    \<and> mb_healthy (outcomes m os) = verdict h u os \<and> mb_health (outcomes m os) = mb_health m"
  using assms(9)
proof (induction os)
  case Nil
  then show ?case using assms by (simp add: streak_def)
next
  case (Cons ok os)
  let ?m = "outcomes m os"
  have IH: "mb_succ ?m = of_nat (streak True os)" "mb_fail ?m = of_nat (streak False os)"
    "mb_healthy ?m = verdict h u os" "mb_health ?m = mb_health m"
    using Cons by auto
  have s: "sint (of_nat (streak b os) + 1 :: 32 word) = int (streak b os) + 1" for b
    using Cons.prems streak_le [of b os] sint_small [of "Suc (streak b os)"] by (simp add: add.commute)
  have th: "sint (word_of_int (int h) :: 32 word) = int h" "sint (word_of_int (int u) :: 32 word) = int u"
    using sint_small [OF assms(6)] sint_small [OF assms(8)] by simp_all
  show ?case
  proof (cases ok)
    case True
    have "streak True (ok # os) = Suc (streak True os)" "streak False (ok # os) = 0"
      using True by (simp_all add: streak_def)
    then show ?thesis
      using True IH assms(4,5) s [of True] th(1) by (simp add: recordSuccess_def Let_def)
  next
    case False
    have "streak False (ok # os) = Suc (streak False os)" "streak True (ok # os) = 0"
      using False by (simp_all add: streak_def)
    then show ?thesis
      using False IH assms(4,7) s [of False] th(2) by (simp add: recordFailure_def Let_def)
  qed
qed

subsection \<open>Counters over a round trip\<close>

lemma upd_member_simps [simp]:
  "length (po_members (upd_member f i p)) = length (po_members p)"
  "po_config (upd_member f i p) = po_config p"
  "k < length (po_members p) \<Longrightarrow>
     po_members (upd_member f i p) ! k = (if k = i then f (po_members p ! k) else po_members p ! k)"
  by (simp_all add: upd_member_def nth_list_update)

text \<open>What the counters of a pool say about a member: connections in flight and requests so far.\<close>

definition load_of :: "pool \<Rightarrow> nat \<Rightarrow> int \<times> 64 word" where
  "load_of p k = (mb_active (po_members p ! k), mb_requests (po_members p ! k))"

lemma recordFailure_load [simp]:
  "mb_active (recordFailure e m) = mb_active m" "mb_requests (recordFailure e m) = mb_requests m"
  "mb_config (recordFailure e m) = mb_config m"
  by (simp_all add: recordFailure_def Let_def)

lemma load_of_failure [simp]:
  "k < length (po_members p) \<Longrightarrow> load_of (upd_member (recordFailure e) i p) k = load_of p k"
  by (simp add: load_of_def)

lemma load_of_same:
  assumes "same_members p q" "k < length (po_members q)"
  shows "load_of p k = load_of q k"
proof -
  note eq = same_members_nth(2) [OF assms]
  from arg_cong [OF eq, of mb_active] arg_cong [OF eq, of mb_requests] show ?thesis by (simp add: load_of_def)
qed

lemma member_id_same:
  assumes "same_members p q" "k < length (po_members q)"
  shows "member_id p k = member_id q k"
  using arg_cong [OF same_members_nth(2) [OF assms], of mb_config] by (simp add: member_id_def)

lemma roundTripMember_effect:
  assumes "roundTripMember send i r p = (p', res)" "i < length (po_members p)"
  shows "length (po_members p') = length (po_members p)"
    and "k < length (po_members p) \<Longrightarrow> member_id p' k = member_id p k"
    and "k < length (po_members p) \<Longrightarrow>
      load_of p' k = (fst (load_of p k), snd (load_of p k) + (if k = i then 1 else 0))"
  using assms by (auto simp: roundTripMember_def Let_def load_of_def member_id_def)

lemma member_id_failure [simp]:
  "k < length (po_members p) \<Longrightarrow> member_id (upd_member (recordFailure e) i p) k = member_id p k"
  by (simp add: member_id_def)

lemma selectMember_effect:
  assumes "selectMember token ps p cookie ip ex = (p', res)"
  shows "same_members p' p" "res = Some j \<Longrightarrow> j < length (po_members p) \<and> member_id p j \<notin> set ex"
proof -
  obtain b where el: "available p ex = eligible p ex b" by (rule available_cases)
  have empty: "available p ex = [] \<Longrightarrow> p' = p \<and> res = None"
    using assms by (auto simp: selectMember_def)
  note avail = selectMember_available [of p ex token ps cookie ip]
  show "same_members p' p" using empty avail assms by (cases "available p ex = []") auto
  assume "res = Some j"
  with empty avail assms have "j \<in> set (available p ex)" by (cases "available p ex = []") auto
  then show "j < length (po_members p) \<and> member_id p j \<notin> set ex"
    using eligible_candidates [of p ex b] unfolding el by (auto simp: candidates_iff)
qed

lemmas trip_cases = prod.splits sum.splits option.splits if_splits

text \<open>The pool after an exchange whose failure is recorded.\<close>

definition judged :: "nat \<Rightarrow> string + response \<Rightarrow> pool \<Rightarrow> pool" where
  "judged i res p = (case res of Inr _ \<Rightarrow> p | Inl e \<Rightarrow> upd_member (recordFailure e) i p)"

lemma judged_effect:
  assumes "roundTripMember send i r p = (p', res)" "i < length (po_members p)"
  shows "length (po_members (judged i res p')) = length (po_members p)"
    and "k < length (po_members p) \<Longrightarrow> member_id (judged i res p') k = member_id p k"
    and "k < length (po_members p) \<Longrightarrow> load_of (judged i res p') k = (fst (load_of p k), snd (load_of p k) + (if k = i then 1 else 0))"
  using roundTripMember_effect [OF assms] by (simp_all add: judged_def split: sum.splits)

text \<open>What the selected member answers, with its counters raised for the exchange.\<close>

definition first_answer :: "sender \<Rightarrow> request \<Rightarrow> pool \<Rightarrow> selection \<Rightarrow> string + response" where
  "first_answer send r p st = (let m = po_members p ! ss_member st in send (m\<lparr>mb_active := mb_active m + 1, mb_requests := mb_requests m + 1\<rparr>) r)"

lemma RoundTrip_effect:
  assumes run: "RoundTrip L token ps send r p st = (p', st', res, cs)"
    and i: "ss_member st < length (po_members p)" "member_id p (ss_member st) \<in> set (ss_attempted st)"
  shows "length (po_members p') = length (po_members p) \<and>
    (\<forall>k<length (po_members p). load_of p' k = (fst (load_of p k), snd (load_of p k) + of_nat (count_list cs k))) \<and>
    (cs = [ss_member st] \<or> (\<exists>j e. cs = [ss_member st, j] \<and> first_answer send r p st = Inl e \<and> retryable r
       \<and> j < length (po_members p) \<and> member_id p j \<notin> set (ss_attempted st)))
    \<and> (\<forall>resp. first_answer send r p st = Inr resp \<longrightarrow> res = Inr resp)"
proof -
  let ?i = "ss_member st"
  obtain p1 r1 where t1: "roundTripMember send ?i r p = (p1, r1)" by fastforce
  have f: "first_answer send r p st = r1" using t1 i(1) by (simp add: first_answer_def roundTripMember_def upd_member_def)
  define p2 where "p2 = judged ?i r1 p1"
  note e1 = judged_effect [OF t1 i(1), folded p2_def]
  show ?thesis
  proof (cases "\<exists>err. r1 = Inl err \<and> retryable r")
    case False
    then have "p' = p2" "cs = [?i]" "\<And>resp. r1 = Inr resp \<Longrightarrow> res = Inr resp"
      using run t1 by (auto simp: RoundTrip_def Let_def p2_def judged_def split: sum.splits)
    then show ?thesis using e1(1,3) f by auto
  next
    case True
    then obtain err where err: "r1 = Inl err" "retryable r" by blast
    obtain p3 sel where s: "selectMember token ps p2 (request_cookie L r (ps_cookie ps)) (ss_clientIP st) (ss_attempted st) = (p3, sel)"
      by fastforce
    note same = selectMember_effect(1) [OF s]
    have len3: "length (po_members p3) = length (po_members p)" using same_members_nth(1) [OF same] e1(1) by simp
    have l3: "load_of p3 k = (fst (load_of p k), snd (load_of p k) + (if k = ?i then 1 else 0))"
      if "k < length (po_members p)" for k using that e1(1,3) load_of_same [OF same] by simp
    consider (one) "p' = p3" "cs = [?i]"
      | (two) j r' p4 r4 where "sel = Some j" "roundTripMember send j r' p3 = (p4, r4)" "p' = judged j r4 p4" "cs = [?i, j]"
      using run t1 err s by (auto simp: RoundTrip_def Let_def p2_def judged_def split: option.splits sum.splits prod.splits)
    then show ?thesis
    proof cases
      case one
      then show ?thesis using l3 len3 f err(1) by auto
    next
      case two
      have j: "j < length (po_members p)" "member_id p j \<notin> set (ss_attempted st)" using selectMember_effect(2) [OF s two(1)] e1(1,2) by auto
      then have "j \<noteq> ?i" using i(2) by auto
      from this judged_effect [OF two(2) j(1) [folded len3]] two(3,4) l3 len3 j err i(1) f show ?thesis by auto
    qed
  qed
qed

subsection \<open>Built pools\<close>

definition member_built :: "virtual_host \<Rightarrow> member \<Rightarrow> bool" where
  "member_built v m \<longleftrightarrow> mb_healthy m \<and> mb_active m = 0 \<and> mb_currentWeight m = 0 \<and> \<not> tr_proxy (mb_transport m)
     \<and> (u_scheme (mb_target m) = ''https'' \<longrightarrow> tr_tls (mb_transport m) \<noteq> None)
     \<and> (case tr_tls (mb_transport m) of None \<Rightarrow> True
        | Some t \<Rightarrow> tc_minTLS12 t
            \<and> tc_insecure t = ot_insecure (if hasOriginTLS (pm_tls (mb_config m)) then pm_tls (mb_config m) else vh_originTLS v))"

lemma newTransport_ok:
  assumes "newTransport load_ca target ot cfg = Inr tr"
  shows "\<not> tr_proxy tr" "u_scheme target = ''https'' \<longrightarrow> tr_tls tr \<noteq> None"
    "case tr_tls tr of None \<Rightarrow> True | Some t \<Rightarrow> tc_minTLS12 t \<and> tc_insecure t = ot_insecure ot"
  using assms by (auto simp: newTransport_def Let_def split: if_splits option.splits)

lemma build_member_loop:
  assumes "fold_err (build_member L load_ca v cfg health) ms acc = Inr out"
  shows "map mb_config out = map mb_config acc @ filter pm_enabled ms"
    and "list_all (member_built v) acc \<Longrightarrow> list_all (member_built v) out"
proof -
  have "map mb_config out = map mb_config acc @ filter pm_enabled ms
    \<and> (list_all (member_built v) acc \<longrightarrow> list_all (member_built v) out)"
    using assms
  proof (induction ms arbitrary: acc)
    case (Cons m ms)
    then obtain acc1 where b: "build_member L load_ca v cfg health m acc = Inr acc1"
      and rest: "fold_err (build_member L load_ca v cfg health) ms acc1 = Inr out"
      by (auto split: sum.splits)
    note IH = Cons.IH [OF rest]
    show ?case
    proof (cases "pm_enabled m")
      case False
      with b IH show ?thesis by (auto simp: build_member_def)
    next
      case True
      with b obtain target tr where tr: "newTransport load_ca target
            (if hasOriginTLS (pm_tls m) then pm_tls m else vh_originTLS v) cfg = Inr tr"
        and acc1: "acc1 = acc @ [new_member m target tr health]"
        by (auto simp: build_member_def split: option.splits sum.splits)
      have "member_built v (new_member m target tr health)"
        using newTransport_ok [OF tr] by (auto simp: member_built_def new_member_def split: option.splits)
      with IH acc1 True show ?thesis by (simp add: new_member_def)
    qed
  qed simp
  then show "map mb_config out = map mb_config acc @ filter pm_enabled ms"
    and "list_all (member_built v) acc \<Longrightarrow> list_all (member_built v) out" by blast+
qed

subsection \<open>Properties\<close>

text \<open>
  C20. The health of a member, kept in two 32-bit counters and a flag, is the verdict on the sequence of
  its outcomes: it turns unhealthy exactly when a failure completes a run of \<open>u\<close> failures, healthy again
  exactly when a success completes a run of \<open>h\<close> successes, and stays as it is otherwise (for fewer than
  \<open>2 ^ 31\<close> outcomes).
\<close>

theorem health_verdict:
  assumes "hc_enabled health" "hc_healthy health = int h" "int h < 2 ^ 31"
    and "hc_unhealthy health = int u" "int u < 2 ^ 31" "int (length os) < 2 ^ 31"
  shows "mb_healthy (outcomes (new_member m target tr health) os) = verdict h u os"
  using outcomes_counts [of "new_member m target tr health" h u os] assms by (simp add: new_member_def)

theorem health_verdict_witness:
  "mb_healthy (outcomes (new_member (sample_member ''a'') sample_url plain_transport sample_health)
     [True, False, False, False, True]) = False"
proof -
  have "mb_healthy (outcomes (new_member (sample_member ''a'') sample_url plain_transport sample_health)
     [True, False, False, False, True]) = verdict 2 3 [True, False, False, False, True]"
    by (rule health_verdict) (simp_all add: sample_health_def)
  then show ?thesis by (simp add: streak_def)
qed

text \<open>
  C19. One request contacts at most two members of a pool: the selected one, and only if that failed and
  the request may be retried, one other that was not attempted before; an answer of the first is the result. Afterwards the
  connections in flight are what they were and each contacted member counts one request more.
\<close>

theorem RoundTrip_contacts:
  assumes "RoundTrip L token ps send r p st = (p', st', res, contacted)"
    and "ss_member st < length (po_members p)" "member_id p (ss_member st) \<in> set (ss_attempted st)"
  shows "(contacted = [ss_member st] \<or> (\<exists>j e. contacted = [ss_member st, j] \<and> first_answer send r p st = Inl e \<and> retryable r
       \<and> j < length (po_members p) \<and> member_id p j \<notin> set (ss_attempted st)))
    \<and> (\<forall>resp. first_answer send r p st = Inr resp \<longrightarrow> res = Inr resp)
    \<and> (\<forall>k<length (po_members p). load_of p' k = (fst (load_of p k), snd (load_of p k) + of_nat (count_list contacted k)))"
  using RoundTrip_effect [OF assms] by blast

definition sample_send :: sender where
  "sample_send m r = (if pm_id (mb_config m) = ''a'' then Inl ''connection refused''
     else Inr \<lparr>rs_status = 200, rs_header = []\<rparr>)"

definition get_request :: request where
  "get_request = \<lparr>rq_method = ''GET'', rq_url = sample_url, rq_requestURI = ''/'', rq_host = ''app.test'',
     rq_remoteAddr = ''192.0.2.1:4711'', rq_header = [], rq_contentLength = 0, rq_transferEncoding = [],
     rq_tls = False, rq_body = [], rq_getBody = None\<rparr>"

definition sample_selection :: selection where
  "sample_selection = \<lparr>ss_member = 0, ss_clientIP = ''192.0.2.1'', ss_secure = False, ss_original = sample_url,
     ss_attempted = [''a'']\<rparr>"

theorem RoundTrip_contacts_witness:
  "\<exists>p' st' res contacted. RoundTrip plain_lib (\<lambda>_ i. i) \<lparr>ps_mode = ''none'', ps_cookie = ''C'', ps_ttl = 60\<rparr>
      sample_send get_request (sample_runtime ''round_robin'') sample_selection = (p', st', res, contacted)
    \<and> (contacted = [0] \<or> (\<exists>j. contacted = [0, j] \<and> j < 4 \<and> member_id (sample_runtime ''round_robin'') j \<notin> {''a''} \<and> retryable get_request))"
proof -
  let ?p = "sample_runtime ''round_robin''"
  obtain p' st' res cs where run: "RoundTrip plain_lib (\<lambda>_ i. i) \<lparr>ps_mode = ''none'', ps_cookie = ''C'', ps_ttl = 60\<rparr>
      sample_send get_request ?p sample_selection = (p', st', res, cs)" by (metis prod_cases4)
  have "ss_member sample_selection < length (po_members ?p)" "length (po_members ?p) = 4" "ss_member sample_selection = 0" "ss_attempted sample_selection = [''a'']"
    "member_id ?p (ss_member sample_selection) \<in> set (ss_attempted sample_selection)"
    by code_simp+
  with RoundTrip_contacts [OF run] run show ?thesis by auto
qed

text \<open>
  A member whose pool has no health checks never leaves rotation, whatever fails.
\<close>

theorem unchecked_member_stays:
  assumes "\<not> hc_enabled health"
  shows "mb_healthy (outcomes (new_member m target tr health) os)"
proof -
  have "mb_healthy (outcomes (new_member m target tr health) os)
      \<and> mb_health (outcomes (new_member m target tr health) os) = health"
    using assms by (induction os) (auto simp: new_member_def recordSuccess_def recordFailure_def Let_def)
  then show ?thesis ..
qed

theorem unchecked_member_stays_witness:
  "mb_healthy (outcomes (new_member (sample_member ''a'') sample_url plain_transport no_health) [False, False, False])"
  by (rule unchecked_member_stays) (simp add: no_health_def)

text \<open>
  A pool that was built holds exactly the enabled members of its configuration, in order, each healthy
  and idle; none uses a proxy from the environment, an https origin always has a TLS configuration of
  version 1.2 or later, and certificate verification is off only where the member, or for a member
  without TLS settings its virtual host, says so.
\<close>

theorem newPoolRuntime_members:
  assumes "newPoolRuntime L load_ca sp v cfg = Inr p"
  shows "map mb_config (po_members p) = filter pm_enabled (sp_members sp) \<and> po_members p \<noteq> []
    \<and> po_config p = sp \<and> list_all (member_built v) (po_members p)"
proof -
  from assms obtain ms where "fold_err (build_member L load_ca v cfg (sp_health sp)) (sp_members sp) [] = Inr ms"
    and p: "p = \<lparr>po_config = sp, po_members = ms, po_rr = 0\<rparr>" "ms \<noteq> []"
    by (auto simp: newPoolRuntime_def split: sum.splits if_splits)
  from build_member_loop [OF this(1)] p show ?thesis by simp
qed

theorem newPoolRuntime_members_witness:
  "\<exists>p :: pool. map mb_config (po_members p) = [sample_member ''a'', sample_member ''b''] \<and> list_all (member_built sample_vhost) (po_members p)"
proof -
  have "isl (newPoolRuntime plain_lib (\<lambda>_. None) sample_pool sample_vhost sample_config) = False" by code_simp
  then obtain p where "newPoolRuntime plain_lib (\<lambda>_. None) sample_pool sample_vhost sample_config = Inr p"
    by (cases "newPoolRuntime plain_lib (\<lambda>_. None) sample_pool sample_vhost sample_config") auto
  from newPoolRuntime_members [OF this]
  have all: "list_all (member_built sample_vhost) (po_members p)"
    and members: "map mb_config (po_members p) = filter pm_enabled (sp_members sample_pool)" by blast+
  have "filter pm_enabled (sp_members sample_pool) = [sample_member ''a'', sample_member ''b'']"
    by (simp add: sample_pool_def sample_member_def)
  note members' = members [unfolded this]
  show ?thesis by (rule exI [of _ p], rule conjI, rule members', rule all)
qed

text \<open>
  The path sent to the origin is the base path of the member and the path of the request joined by
  exactly one slash.
\<close>

theorem joinURLPath_one_slash:
  assumes "u_rawpath a = []" "u_rawpath b = []"
  shows "joinURLPath a b = (TrimSuffix (u_path a) ''/'' @ ''/'' @ TrimPrefix (u_path b) ''/'', [])"
  using assms by (auto simp: joinURLPath_def join_slash_def Let_def go_defs prefix_def suffix_def)

theorem joinURLPath_one_slash_witness:
  "joinURLPath (sample_url\<lparr>u_path := ''/base/''\<rparr>) (sample_url\<lparr>u_path := ''/x''\<rparr>) = (''/base/x'', [])"
proof -
  let ?a = "sample_url\<lparr>u_path := ''/base/''\<rparr>" and ?b = "sample_url\<lparr>u_path := ''/x''\<rparr>"
  have "joinURLPath ?a ?b = (TrimSuffix (u_path ?a) ''/'' @ ''/'' @ TrimPrefix (u_path ?b) ''/'', [])"
    by (rule joinURLPath_one_slash) (simp_all add: sample_url_def)
  moreover have "TrimSuffix (u_path ?a) ''/'' @ ''/'' @ TrimPrefix (u_path ?b) ''/'' = ''/base/x''" by code_simp
  ultimately show ?thesis by (simp only:)
qed

end
