(* ===== verification/Hosts.thy ===== *)
theory Hosts
  imports Config GoHTTP
begin

text \<open>
  Host names and one-label wildcards, shared by the routing table (\<open>Runtime.Route\<close> of
  \<open>internal/core/runtime.go\<close>) and the certificate store (\<open>internal/certstore/store.go\<close>). A Go map is an
  association list with distinct keys whose order stands for the order of iteration, which Go leaves
  open; the lemmas of the locale show that the order never matters.
\<close>

subsection \<open>Maps\<close>

definition put :: "'k \<Rightarrow> 'v \<Rightarrow> ('k \<times> 'v) list \<Rightarrow> ('k \<times> 'v) list" where
  "put k v m = (k, v) # filter (\<lambda>(k', _). k' \<noteq> k) m"

lemma map_of_put [simp]: "map_of (put k v m) = (map_of m)(k \<mapsto> v)"
proof
  fix x
  have "map_of (filter (\<lambda>(k', _). k' \<noteq> k) m) x = (if x = k then None else map_of m x)"
    by (induction m) auto
  then show "map_of (put k v m) x = ((map_of m)(k \<mapsto> v)) x" by (simp add: put_def)
qed

lemma keys_put [simp]: "fst ` set (put k v m) = insert k (fst ` set m)"
  by (auto simp: put_def)

lemma distinct_put: "distinct (map fst m) \<Longrightarrow> distinct (map fst (put k v m))"
  by (auto simp: put_def distinct_map intro: inj_on_subset)

subsection \<open>Hostname\<close>

definition Hostname :: "golib \<Rightarrow> string \<Rightarrow> string" where
  "Hostname L hostport =
     (let host = TrimSpace (ToLower L hostport) in
      case url_parse L (''//'' @ host) of
        Some u \<Rightarrow> (let h = url_hostname (u_host u) in
                   if h \<noteq> [] then TrimSuffix h ''.'' else TrimSuffix host ''.'')
      | None \<Rightarrow> TrimSuffix host ''.'')"

subsection \<open>One-label wildcards\<close>

definition label_match :: "string \<Rightarrow> string \<Rightarrow> bool" where
  "label_match host suf =
     (let needle = ''.'' @ suf in
      HasSuffix host needle \<and>
      (let left = TrimSuffix host needle in left \<noteq> [] \<and> \<not> Contains left ''.''))"

lemma Contains_dot: "Contains s [c] \<longleftrightarrow> c \<in> set s"
  by (induction s) auto

lemma label_match_iff:
  "label_match host suf \<longleftrightarrow> (\<exists>label. label \<noteq> [] \<and> CHR ''.'' \<notin> set label \<and> host = label @ CHR ''.'' # suf)"
proof
  assume "label_match host suf"
  then show "\<exists>label. label \<noteq> [] \<and> CHR ''.'' \<notin> set label \<and> host = label @ CHR ''.'' # suf"
    by (auto simp: label_match_def Let_def HasSuffix_def TrimSuffix_def suffix_def Contains_dot)
next
  assume "\<exists>label. label \<noteq> [] \<and> CHR ''.'' \<notin> set label \<and> host = label @ CHR ''.'' # suf"
  then show "label_match host suf"
    by (auto simp: label_match_def Let_def HasSuffix_def TrimSuffix_def suffix_def Contains_dot)
qed

lemma drop_label: "c \<notin> set l \<Longrightarrow> dropWhile (\<lambda>x. x \<noteq> c) (l @ c # s) = c # s"
  by (induction l) auto

lemma label_match_unique:
  assumes "label_match host s" "label_match host t"
  shows "s = t"
proof -
  from assms(1) obtain l where l: "CHR ''.'' \<notin> set l" "host = l @ CHR ''.'' # s" unfolding label_match_iff by blast
  from assms(2) obtain l' where l': "CHR ''.'' \<notin> set l'" "host = l' @ CHR ''.'' # t" unfolding label_match_iff by blast
  have "CHR ''.'' # s = CHR ''.'' # t"
    using drop_label [OF l(1), of s] drop_label [OF l'(1), of t] unfolding l(2) [symmetric] l'(2) [symmetric] by metis
  then show ?thesis by simp
qed

lemma option_eqI: "(\<And>x. a = Some x \<longleftrightarrow> b = Some x) \<Longrightarrow> a = b"
  by (cases a; cases b) auto

text \<open>How a domain of a virtual host enters a pair of tables.\<close>

definition enter_domain :: "'v \<Rightarrow> string \<Rightarrow> (string \<times> 'v) list \<times> (string \<times> 'v) list
    \<Rightarrow> (string \<times> 'v) list \<times> (string \<times> 'v) list" where
  "enter_domain v d = (\<lambda>(exact, wild).
     if HasPrefix d ''*.'' then (exact, put (TrimPrefix d ''*.'') v wild) else (put d v exact, wild))"

definition table_get :: "(string \<times> 'v) list \<times> (string \<times> 'v) list \<Rightarrow> string \<Rightarrow> 'v option" where
  "table_get t d = (if HasPrefix d ''*.'' then map_of (snd t) (TrimPrefix d ''*.'') else map_of (fst t) d)"

lemma TrimPrefix_inj: "HasPrefix d p \<Longrightarrow> HasPrefix e p \<Longrightarrow> TrimPrefix d p = TrimPrefix e p \<longleftrightarrow> d = e"
  by (auto simp: go_defs prefix_def)

lemma table_get_enter [simp]:
  "table_get (enter_domain v d t) e = (if e = d then Some v else table_get t e)"
  by (cases t) (auto simp: table_get_def enter_domain_def TrimPrefix_inj)

definition enter_all :: "'v \<Rightarrow> string list \<Rightarrow> (string \<times> 'v) list \<times> (string \<times> 'v) list
    \<Rightarrow> (string \<times> 'v) list \<times> (string \<times> 'v) list" where
  "enter_all v ds t = foldl (\<lambda>t d. enter_domain v d t) t ds"

lemma table_get_enter_all:
  "table_get (enter_all v ds t) e = (if e \<in> set ds then Some v else table_get t e)"
  unfolding enter_all_def by (induction ds arbitrary: t) auto

lemma enter_domain_keys:
  "fst ` set (fst (enter_domain v d t)) = (if HasPrefix d ''*.'' then {} else {d}) \<union> fst ` set (fst t)"
  "fst ` set (snd (enter_domain v d t)) = (if HasPrefix d ''*.'' then {TrimPrefix d ''*.''} else {}) \<union> fst ` set (snd t)"
  by (cases t; auto simp: enter_domain_def)+

text \<open>A name with the prefix of a wildcard is never a key of the exact table.\<close>

definition exact_clean :: "(string \<times> 'v) list \<times> (string \<times> 'v) list \<Rightarrow> bool" where
  "exact_clean t \<longleftrightarrow> (\<forall>k\<in>fst ` set (fst t). \<not> HasPrefix k ''*.'')"

lemma exact_clean_empty [simp]: "exact_clean ([], [])"
  by (simp add: exact_clean_def)

lemma exact_clean_enter: "exact_clean t \<Longrightarrow> exact_clean (enter_domain v d t)"
  unfolding exact_clean_def enter_domain_keys by auto

lemma exact_clean_enter_all [simp]: "exact_clean t \<Longrightarrow> exact_clean (enter_all v ds t)"
  unfolding enter_all_def by (induction ds arbitrary: t) (simp_all add: exact_clean_enter)

text \<open>
  The specification of a lookup: the name itself, else the wildcard over the part after its first
  label.
\<close>

definition parent_pattern :: "string \<Rightarrow> string option" where
  "parent_pattern host =
     (case Cut host CHR ''.'' of (label, rest, found) \<Rightarrow> if found \<and> label \<noteq> [] then Some (''*.'' @ rest) else None)"

definition host_spec :: "(string \<Rightarrow> 'v option) \<Rightarrow> string \<Rightarrow> 'v option" where
  "host_spec get host =
     (case get host of Some v \<Rightarrow> Some v
      | None \<Rightarrow> (case parent_pattern host of Some d \<Rightarrow> get d | None \<Rightarrow> None))"

lemma Cut_append: "c \<notin> set b \<Longrightarrow> Cut (b @ c # a) c = (b, a, True)"
  by (induction b) auto

lemma Cut_found: "Cut s c = (b, a, True) \<Longrightarrow> s = b @ c # a \<and> c \<notin> set b"
proof (induction s arbitrary: b)
  case (Cons x s)
  then show ?case by (cases "x = c"; cases "Cut s c") auto
qed simp

lemma Cut_found_iff: "Cut s c = (b, a, True) \<longleftrightarrow> s = b @ c # a \<and> c \<notin> set b"
  using Cut_append Cut_found by metis

lemma parent_pattern_iff: "parent_pattern host = Some d \<longleftrightarrow> (\<exists>suf. d = ''*.'' @ suf \<and> label_match host suf)"
proof -
  have "parent_pattern host = Some d \<longleftrightarrow>
      (\<exists>label rest. Cut host CHR ''.'' = (label, rest, True) \<and> label \<noteq> [] \<and> d = ''*.'' @ rest)"
    by (auto simp: parent_pattern_def split: prod.splits if_splits)
  then show ?thesis unfolding Cut_found_iff label_match_iff by blast
qed

text \<open>
  A table of wildcard suffixes and the order in which a lookup visits its keys. Whatever the order,
  the lookup finds the one suffix that matches.
\<close>

definition first_match :: "string list \<Rightarrow> string \<Rightarrow> string option" where
  "first_match visit host = find (label_match host) visit"

definition table_lookup :: "((string \<times> 'v) list \<Rightarrow> string list) \<Rightarrow> (string \<times> 'v) list \<times> (string \<times> 'v) list
    \<Rightarrow> string \<Rightarrow> 'v option" where
  "table_lookup visit t host =
     (case map_of (fst t) host of Some v \<Rightarrow> Some v
      | None \<Rightarrow> Option.bind (first_match (visit (snd t)) host) (map_of (snd t)))"

locale wildcard_table =
  fixes visit :: "(string \<times> 'v) list \<Rightarrow> string list"
  assumes visits: "set (visit m) = fst ` set m"
begin

lemma lookup_iff:
  "first_match (visit m) host = Some s \<longleftrightarrow> s \<in> fst ` set m \<and> label_match host s"
proof
  assume "first_match (visit m) host = Some s"
  then show "s \<in> fst ` set m \<and> label_match host s"
    using visits [of m] by (auto simp: first_match_def find_Some_iff)
next
  assume s: "s \<in> fst ` set m \<and> label_match host s"
  then have "s \<in> set (visit m)" using visits by simp
  with s obtain t where "find (label_match host) (visit m) = Some t"
    by (cases "find (label_match host) (visit m)") (auto simp: find_None_iff)
  moreover from this have "label_match host t" by (auto dest: find_SomeD)
  ultimately show "first_match (visit m) host = Some s"
    using label_match_unique s by (auto simp: first_match_def)
qed

lemma lookup_None: "(\<And>s. s \<in> fst ` set m \<Longrightarrow> \<not> label_match host s) \<Longrightarrow> first_match (visit m) host = None"
  unfolding first_match_def find_None_iff visits by blast

lemma wild_lookup:
  "Option.bind (first_match (visit m) host) (map_of m) =
     (case parent_pattern host of Some d \<Rightarrow> map_of m (TrimPrefix d ''*.'') | None \<Rightarrow> None)"
proof (cases "parent_pattern host")
  case None
  then have "\<not> label_match host s" for s using parent_pattern_iff [of host "''*.'' @ s"] by auto
  then have "first_match (visit m) host = None" by (rule lookup_None)
  with None show ?thesis by simp
next
  case (Some d)
  then obtain suf where d: "d = ''*.'' @ suf" "label_match host suf" using parent_pattern_iff by blast
  then have trim: "TrimPrefix d ''*.'' = suf" by (simp add: go_defs)
  show ?thesis
  proof (cases "suf \<in> fst ` set m")
    case True
    with d(2) lookup_iff [of m host suf] Some trim show ?thesis by simp
  next
    case False
    have "first_match (visit m) host = None"
    proof (rule lookup_None)
      fix s
      assume "s \<in> fst ` set m"
      with False have "s \<noteq> suf" by blast
      then show "\<not> label_match host s" using label_match_unique [OF d(2), of s] by blast
    qed
    moreover have "map_of m suf = None" using False by (simp add: map_of_eq_None_iff)
    ultimately show ?thesis using Some trim by simp
  qed
qed

lemma lookup_spec:
  assumes "exact_clean t"
  shows "table_lookup visit t host = host_spec (table_get t) host"
proof -
  have wild: "(case parent_pattern host of Some d \<Rightarrow> map_of (snd t) (TrimPrefix d ''*.'') | None \<Rightarrow> None)
      = (case parent_pattern host of Some d \<Rightarrow> table_get t d | None \<Rightarrow> None)"
  proof (cases "parent_pattern host")
    case (Some d)
    then have "HasPrefix d ''*.''" unfolding parent_pattern_iff by (auto simp: HasPrefix_def)
    with Some show ?thesis by (simp add: table_get_def)
  qed simp
  show ?thesis
  proof (cases "HasPrefix host ''*.''")
    case False
    then have "table_get t host = map_of (fst t) host" by (simp add: table_get_def)
    then show ?thesis unfolding table_lookup_def wild_lookup wild host_spec_def by simp
  next
    case True
    then obtain suf where h: "host = ''*.'' @ suf" by (auto simp: HasPrefix_def prefix_def)
    have "host \<notin> fst ` set (fst t)" using True assms by (auto simp: exact_clean_def)
    then have "map_of (fst t) host = None" by (simp add: map_of_eq_None_iff)
    moreover have "label_match host suf" unfolding label_match_iff h by (intro exI [of _ "''*''"]) simp
    then have "parent_pattern host = Some host" using h parent_pattern_iff by blast
    ultimately show ?thesis unfolding table_lookup_def wild_lookup wild host_spec_def by (simp split: option.split)
  qed
qed

end

text \<open>The routing table sorts the suffixes by falling length, the certificate store does not sort.\<close>

definition by_length :: "(string \<times> 'v) list \<Rightarrow> string list" where
  "by_length m = sort_key (\<lambda>s. - int (length s)) (map fst m)"

definition as_iterated :: "(string \<times> 'v) list \<Rightarrow> string list" where
  "as_iterated m = map fst m"

interpretation sorted_table: wildcard_table by_length
  by unfold_locales (simp add: by_length_def)

interpretation plain_table: wildcard_table as_iterated
  by unfold_locales (simp add: as_iterated_def)

end
