(* ===== verification/CertStore.thy ===== *)
theory CertStore
  imports Hosts
begin

unbundle bit_operations_syntax

text \<open>
  The certificate store of \<open>internal/certstore/store.go\<close>. X.509 parsing, key matching and host name
  verification belong to the Go library and are the fields of \<open>cert_io\<close>: the permission bits of a file,
  the leaf of a certificate and key file, and \<open>VerifyHostname\<close>. A loaded \<open>tls.Certificate\<close> is known by
  its files and its leaf. The model is that of a Unix system.
\<close>

record leaf =
  lf_subject :: string
  lf_issuer :: string
  lf_serial :: string
  lf_notBefore :: gotime
  lf_notAfter :: gotime

record cert_pair =
  cp_cert :: string
  cp_key :: string
  cp_leaf :: leaf

record cert_io =
  ci_perm :: "string \<Rightarrow> int option"
  ci_load :: "string \<Rightarrow> string \<Rightarrow> string + leaf"
  ci_verify :: "leaf \<Rightarrow> string \<Rightarrow> bool"

record cert_info =
  cf_vhost :: string
  cf_domains :: "string list"
  cf_leaf :: leaf
  cf_daysLeft :: int

record cert_store =
  cs_exact :: "(string \<times> cert_pair) list"
  cs_wild :: "(string \<times> cert_pair) list"
  cs_fallback :: "cert_pair option"
  cs_info :: "cert_info list"

definition validatePrivateKeyPermissions :: "cert_io \<Rightarrow> string \<Rightarrow> go_error option" where
  "validatePrivateKeyPermissions io path =
     (case ci_perm io path of
        None \<Rightarrow> Some (Errorf ''stat private key: %w'' [path])
      | Some perm \<Rightarrow>
          if perm AND 7 \<noteq> 0 \<or> perm AND 24 \<noteq> 0
          then Some (Errorf ''private key %s permissions are %04o; expected 0600, 0640, or stricter without group write/world access'' [path])
          else None)"

definition loadAndValidatePair :: "cert_io \<Rightarrow> string \<Rightarrow> string \<Rightarrow> gotime \<Rightarrow> go_error + cert_pair" where
  "loadAndValidatePair io certFile keyFile now =
     (if certFile = [] \<or> keyFile = [] then Inl (Errorf ''certificate and private key paths are required'' [])
      else (case validatePrivateKeyPermissions io keyFile of
          Some e \<Rightarrow> Inl e
        | None \<Rightarrow>
            (case ci_load io certFile keyFile of
               Inl e \<Rightarrow> Inl (Errorf ''load certificate pair: %w'' [e])
             | Inr lf \<Rightarrow>
                 if now < lf_notBefore lf then Inl (Errorf ''certificate is not valid before %s'' [])
                 else if \<not> now < lf_notAfter lf then Inl (Errorf ''certificate expired at %s'' [])
                 else Inr \<lparr>cp_cert = certFile, cp_key = keyFile, cp_leaf = lf\<rparr>)))"

definition VerifyDomain :: "golib \<Rightarrow> cert_io \<Rightarrow> leaf option \<Rightarrow> string \<Rightarrow> bool" where
  "VerifyDomain L io lf domain =
     (case lf of
        None \<Rightarrow> False
      | Some x \<Rightarrow>
          let d = TrimSuffix (ToLower L (TrimSpace domain)) ''.'' in
          if HasPrefix d ''*.'' then
            (let suf = TrimPrefix d ''*.'' in
             if suf = [] \<or> Contains suf ''*'' then False
             else ci_verify io x (''cherrywaf-validation.'' @ suf))
          else ci_verify io x d)"

text \<open>Whole days left. The code divides in \<open>float64\<close> and truncates; the model divides exactly.\<close>

definition days_left :: "leaf \<Rightarrow> gotime \<Rightarrow> int" where
  "days_left lf now = time_sub (lf_notAfter lf) now div (24 * 60 * minute)"

definition load_vhost :: "golib \<Rightarrow> cert_io \<Rightarrow> config \<Rightarrow> gotime \<Rightarrow> virtual_host \<Rightarrow> cert_store \<Rightarrow> go_error + cert_store" where
  "load_vhost L io c now v s =
     (case loadAndValidatePair io (ResolvePath c (ft_cert (vh_frontTLS v))) (ResolvePath c (ft_key (vh_frontTLS v))) now of
        Inl e \<Rightarrow> Inl (Wrapped ''virtual host %q: %w'' [vh_name v] [e])
      | Inr pair \<Rightarrow>
          (case find (\<lambda>d. \<not> VerifyDomain L io (Some (cp_leaf pair)) d) (vh_domains v) of
             Some d \<Rightarrow> Inl (Errorf ''virtual host %q certificate does not cover %q: %w'' [vh_name v, d])
           | None \<Rightarrow>
               (case enter_all pair (vh_domains v) (cs_exact s, cs_wild s) of (exact, wild) \<Rightarrow>
                  Inr (s\<lparr>cs_exact := exact, cs_wild := wild,
                    cs_fallback := (case cs_fallback s of None \<Rightarrow> Some pair | Some f \<Rightarrow> Some f),
                    cs_info := cs_info s @ [\<lparr>cf_vhost = vh_name v, cf_domains = vh_domains v, cf_leaf = cp_leaf pair,
                      cf_daysLeft = days_left (cp_leaf pair) now\<rparr>]\<rparr>))))"

text \<open>The virtual hosts have distinct names, so sorting by name is the same with any sorting algorithm.\<close>

definition cert_Load :: "golib \<Rightarrow> cert_io \<Rightarrow> config \<Rightarrow> gotime \<Rightarrow> go_error + cert_store" where
  "cert_Load L io c now =
     (case fold_err (load_vhost L io c now) (EnabledVirtualHosts c)
         \<lparr>cs_exact = [], cs_wild = [], cs_fallback = None, cs_info = []\<rparr> of
        Inl e \<Rightarrow> Inl e
      | Inr s \<Rightarrow>
          if hs_enabled (c_https c) \<and> cs_fallback s = None
          then Inl (Errorf ''HTTPS is enabled but no certificate was loaded'' [])
          else Inr (s\<lparr>cs_info := sort_key cf_vhost (cs_info s)\<rparr>))"

definition sni_name :: "golib \<Rightarrow> string \<Rightarrow> string" where
  "sni_name L serverName = TrimSuffix (ToLower L (TrimSpace serverName)) ''.''"

definition GetCertificate :: "golib \<Rightarrow> cert_store option \<Rightarrow> string \<Rightarrow> go_error + cert_pair" where
  "GetCertificate L st serverName =
     (case st of
        None \<Rightarrow> Inl (Errorf ''certificate store is not initialized'' [])
      | Some s \<Rightarrow>
          let host = sni_name L serverName in
          (case table_lookup as_iterated (cs_exact s, cs_wild s) host of
             Some cert \<Rightarrow> Inr cert
           | None \<Rightarrow>
               if host = [] \<and> cs_fallback s \<noteq> None then Inr (the (cs_fallback s))
               else Inl (Errorf ''no TLS certificate configured for SNI name %q'' [host])))"

definition cert_Info :: "cert_store option \<Rightarrow> cert_info list" where
  "cert_Info st = (case st of None \<Rightarrow> [] | Some s \<Rightarrow> cs_info s)"

definition ValidatePair :: "cert_io \<Rightarrow> string \<Rightarrow> string \<Rightarrow> gotime \<Rightarrow> go_error + cert_info" where
  "ValidatePair io certFile keyFile now =
     (case loadAndValidatePair io certFile keyFile now of
        Inl e \<Rightarrow> Inl e
      | Inr pair \<Rightarrow> Inr \<lparr>cf_vhost = [], cf_domains = [], cf_leaf = cp_leaf pair, cf_daysLeft = days_left (cp_leaf pair) now\<rparr>)"

subsection \<open>Loaded stores\<close>

text \<open>What loading the virtual hosts \<open>vs\<close> leaves: every certificate was acceptable for every name it serves.\<close>

definition acceptable :: "golib \<Rightarrow> cert_io \<Rightarrow> gotime \<Rightarrow> cert_pair \<Rightarrow> string \<Rightarrow> bool" where
  "acceptable L io now pair d \<longleftrightarrow> VerifyDomain L io (Some (cp_leaf pair)) d
     \<and> lf_notBefore (cp_leaf pair) \<le> now \<and> now < lf_notAfter (cp_leaf pair)
     \<and> validatePrivateKeyPermissions io (cp_key pair) = None
     \<and> ci_load io (cp_cert pair) (cp_key pair) = Inr (cp_leaf pair)"

definition tables :: "cert_store \<Rightarrow> (string \<times> cert_pair) list \<times> (string \<times> cert_pair) list" where
  "tables s = (cs_exact s, cs_wild s)"

definition store_inv :: "golib \<Rightarrow> cert_io \<Rightarrow> config \<Rightarrow> gotime \<Rightarrow> virtual_host list \<Rightarrow> cert_store \<Rightarrow> bool" where
  "store_inv L io c now vs s \<longleftrightarrow> exact_clean (tables s) \<and>
     (\<forall>d pair. table_get (tables s) d = Some pair \<longrightarrow> acceptable L io now pair d
        \<and> (\<exists>v\<in>set vs. d \<in> set (vh_domains v) \<and> cp_cert pair = ResolvePath c (ft_cert (vh_frontTLS v))
             \<and> cp_key pair = ResolvePath c (ft_key (vh_frontTLS v))))
     \<and> (\<forall>v\<in>set vs. \<forall>d\<in>set (vh_domains v). table_get (tables s) d \<noteq> None)"

lemma loadAndValidatePair_ok:
  assumes "loadAndValidatePair io cf kf now = Inr pair"
  shows "cp_cert pair = cf \<and> cp_key pair = kf \<and> lf_notBefore (cp_leaf pair) \<le> now \<and> now < lf_notAfter (cp_leaf pair)
    \<and> validatePrivateKeyPermissions io kf = None \<and> ci_load io cf kf = Inr (cp_leaf pair)"
  using assms by (auto simp: loadAndValidatePair_def split: if_splits option.splits sum.splits)

lemma load_vhost_inv:
  assumes "store_inv L io c now vs s" "load_vhost L io c now v s = Inr s'"
  shows "store_inv L io c now (vs @ [v]) s'"
proof -
  from assms(2) obtain pair where p: "loadAndValidatePair io (ResolvePath c (ft_cert (vh_frontTLS v)))
      (ResolvePath c (ft_key (vh_frontTLS v))) now = Inr pair"
    and ver: "\<forall>d\<in>set (vh_domains v). VerifyDomain L io (Some (cp_leaf pair)) d"
    and t: "tables s' = enter_all pair (vh_domains v) (tables s)"
    by (auto simp: load_vhost_def tables_def find_None_iff split: sum.splits option.splits prod.splits)
  note ok = loadAndValidatePair_ok [OF p]
  have "acceptable L io now pair d" if "d \<in> set (vh_domains v)" for d
    using ok ver that by (simp add: acceptable_def)
  then show ?thesis
    using assms(1) ok unfolding store_inv_def t table_get_enter_all by auto
qed

lemma load_vhosts_inv:
  "fold_err (load_vhost L io c now) vs s = Inr s' \<Longrightarrow> store_inv L io c now us s \<Longrightarrow> store_inv L io c now (us @ vs) s'"
proof (induction vs arbitrary: s us)
  case (Cons v vs)
  then obtain s1 where s1: "load_vhost L io c now v s = Inr s1" "fold_err (load_vhost L io c now) vs s1 = Inr s'"
    by (auto split: sum.splits)
  from Cons.IH [OF s1(2) load_vhost_inv [OF Cons.prems(2) s1(1)]] show ?case by simp
qed simp

lemma cert_Load_inv:
  assumes "cert_Load L io c now = Inr s"
  shows "store_inv L io c now (EnabledVirtualHosts c) s"
proof -
  let ?s0 = "\<lparr>cs_exact = [], cs_wild = [], cs_fallback = None, cs_info = []\<rparr>"
  from assms obtain t where t: "fold_err (load_vhost L io c now) (EnabledVirtualHosts c) ?s0 = Inr t"
    and s: "s = t\<lparr>cs_info := sort_key cf_vhost (cs_info t)\<rparr>"
    by (auto simp: cert_Load_def split: sum.splits if_splits)
  have "store_inv L io c now [] ?s0" by (simp add: store_inv_def table_get_def tables_def)
  from load_vhosts_inv [OF t this] show ?thesis by (simp add: s store_inv_def tables_def)
qed

subsection \<open>Properties\<close>

text \<open>The checks of a loaded pair in terms of the permission bits of the key file and of the names the library was asked about.\<close>

lemma key_bits:
  assumes "validatePrivateKeyPermissions io path = None"
  shows "\<exists>perm. ci_perm io path = Some perm \<and> list_all (\<lambda>b. \<not> bit perm b) [0, 1, 2, 3, 4]"
proof -
  obtain perm where p: "ci_perm io path = Some perm" "perm AND 7 = 0" "perm AND 24 = 0"
    using assms by (auto simp: validatePrivateKeyPermissions_def split: option.splits if_splits)
  have "\<not> bit (perm AND 7) b" "\<not> bit (perm AND 24) b" for b using p(2,3) by simp_all
  then have "\<not> (bit perm b \<and> bit (7 :: int) b)" "\<not> (bit perm b \<and> bit (24 :: int) b)" for b by (simp_all add: bit_and_iff)
  from this(1) [of 0] this(1) [of 1] this(1) [of 2] this(2) [of 3] this(2) [of 4] show ?thesis using p(1) by simp
qed

lemma domain_verified:
  assumes "VerifyDomain L io (Some lf) d"
  shows "(\<exists>suf. sni_name L d = ''*.'' @ suf \<and> suf \<noteq> [] \<and> \<not> Contains suf ''*'' \<and> ci_verify io lf (''cherrywaf-validation.'' @ suf))
    \<or> \<not> HasPrefix (sni_name L d) ''*.'' \<and> ci_verify io lf (sni_name L d)"
proof (cases "HasPrefix (sni_name L d) ''*.''")
  case True
  then have "sni_name L d = ''*.'' @ TrimPrefix (sni_name L d) ''*.''" by (auto simp: HasPrefix_def TrimPrefix_def prefix_def)
  then show ?thesis using assms True by (auto simp: VerifyDomain_def sni_name_def Let_def split: if_splits)
qed (use assms in \<open>simp add: VerifyDomain_def sni_name_def Let_def\<close>)


definition sample_cert_io :: cert_io where
  "sample_cert_io = \<lparr>ci_perm = (\<lambda>_. Some 384),
     ci_load = (\<lambda>c k. Inr \<lparr>lf_subject = c, lf_issuer = ''CA'', lf_serial = ''1'', lf_notBefore = 0, lf_notAfter = 100\<rparr>),
     ci_verify = (\<lambda>_ _. True)\<rparr>"


end
