(* ===== verification/NetUtil.thy ===== *)
theory NetUtil
  imports GoNet
begin

text \<open>
  Client-address extraction, \<open>internal/netutil/clientip.go\<close>: the set of trusted proxies and the
  right-to-left walk over the forwarding chain. A nil \<open>*TrustedProxies\<close> or \<open>net.IP\<close> is \<open>None\<close>.
\<close>

type_synonym trusted_proxies = "ipnet list"

definition parse_trusted :: "string \<Rightarrow> trusted_proxies \<Rightarrow> string + trusted_proxies" where
  "parse_trusted cidr networks =
     (case ParseCIDR cidr of None \<Rightarrow> Inl cidr | Some (_, network) \<Rightarrow> Inr (networks @ [network]))"

definition NewTrustedProxies :: "string list \<Rightarrow> string + trusted_proxies" where
  "NewTrustedProxies cidrs = fold_err parse_trusted cidrs []"

definition TP_Contains :: "trusted_proxies option \<Rightarrow> 128 word option \<Rightarrow> bool" where
  "TP_Contains t ip =
     (case (t, ip) of (Some networks, Some a) \<Rightarrow> list_ex (\<lambda>n. ipnet_contains n a) networks | _ \<Rightarrow> False)"

definition trim_brackets :: "string \<Rightarrow> string" where
  "trim_brackets s =
     (let br = (\<lambda>c. c = CHR ''['' \<or> c = CHR '']'') in
      rev (dropWhile br (rev (dropWhile br s))))"

definition parseRemoteIP :: "string \<Rightarrow> 128 word option" where
  "parseRemoteIP remoteAddr =
     (case SplitHostPort remoteAddr of
        Some (host, _) \<Rightarrow> ParseIP host
      | None \<Rightarrow> ParseIP (trim_brackets remoteAddr))"

text \<open>The addresses of the header that parse, in order; the peer itself comes last.\<close>

definition forwarding_chain :: "string \<Rightarrow> 128 word list" where
  "forwarding_chain header = List.map_filter (\<lambda>p. ParseIP (TrimSpace p)) (Split header CHR '','')"

definition ClientIP :: "string \<Rightarrow> string \<Rightarrow> trusted_proxies option \<Rightarrow> string" where
  "ClientIP remoteAddr header trusted =
     (case parseRemoteIP remoteAddr of
        None \<Rightarrow> ''unknown''
      | Some remoteIP \<Rightarrow>
          if \<not> TP_Contains trusted (Some remoteIP) \<or> TrimSpace header = [] then IP_str remoteIP
          else
            let chain = forwarding_chain header @ [remoteIP] in
            (case find (\<lambda>ip. \<not> TP_Contains trusted (Some ip)) (rev chain) of
               Some ip \<Rightarrow> IP_str ip
             | None \<Rightarrow> IP_str (hd chain)))"

lemma forwarding_chain_append:
  "forwarding_chain (front @ CHR '','' # rest) = forwarding_chain front @ forwarding_chain rest"
  by (simp add: forwarding_chain_def Split_append List.map_filter_def)

lemma blank_header_no_chain: "TrimSpace header = [] \<Longrightarrow> forwarding_chain header = []"
proof -
  assume blank: "TrimSpace header = []"
  from TrimSpace_empty_bytes [OF this] have "CHR '','' \<notin> set header"
    using no_separator_in_space(1) by blast
  moreover have "ParseIP [] = None" by (simp add: ParseIP_def ParseAddr_def)
  ultimately show ?thesis using blank by (simp add: forwarding_chain_def Split_no_sep List.map_filter_def)
qed

lemma comma_not_blank: "TrimSpace (front @ CHR '','' # rest) \<noteq> []"
  using TrimSpace_empty_bytes [of "front @ CHR '','' # rest"] no_separator_in_space(1) by auto

subsection \<open>Properties\<close>

text \<open>
  A peer that is not a trusted proxy cannot choose its address: whatever forwarding header it
  sends, the client address is its own.
\<close>

theorem ClientIP_untrusted_peer:
  assumes "parseRemoteIP remoteAddr = Some ip" "\<not> TP_Contains trusted (Some ip)"
  shows "ClientIP remoteAddr header trusted = IP_str ip"
  using assms by (simp add: ClientIP_def)

theorem ClientIP_untrusted_peer_witness:
  "ClientIP ''203.0.113.9:4711'' ''127.0.0.1'' (Some [Net4 167772160 8]) = ''203.0.113.9''"
proof -
  have "parseRemoteIP ''203.0.113.9:4711'' = Some (As16 3405803785)" by code_simp
  moreover have "\<not> TP_Contains (Some [Net4 167772160 8]) (Some (As16 3405803785))" by code_simp
  moreover have "IP_str (As16 3405803785) = ''203.0.113.9''" by code_simp
  ultimately show ?thesis using ClientIP_untrusted_peer by metis
qed

text \<open>
  C32. Behind a trusted proxy the walk is right to left and stops at the first untrusted hop, so what a
  client puts in front of the part written by the proxies has no effect: prefixing any text and a comma
  to a header whose own chain holds an untrusted address does not change the result.
\<close>

theorem ClientIP_ignores_injected_prefix:
  assumes "\<exists>ip\<in>set (forwarding_chain header). \<not> TP_Contains trusted (Some ip)"
  shows "ClientIP remoteAddr (forged @ CHR '','' # header) trusted = ClientIP remoteAddr header trusted"
proof -
  have "find (\<lambda>ip. \<not> TP_Contains trusted (Some ip)) (rev (forwarding_chain header)) \<noteq> None"
    using assms by (auto simp: find_None_iff)
  moreover have "TrimSpace header \<noteq> []" using assms blank_header_no_chain by fastforce
  ultimately show ?thesis using comma_not_blank [of forged header]
    by (auto simp: ClientIP_def forwarding_chain_append find_append Let_def split: option.splits)
qed

theorem ClientIP_ignores_injected_prefix_witness:
  "ClientIP ''10.0.0.2:80'' (''8.8.8.8'' @ CHR '','' # '' 203.0.113.9, 10.0.0.7'') (Some [Net4 167772160 8])
     = ''203.0.113.9''"
proof -
  let ?h = "'' 203.0.113.9, 10.0.0.7''" and ?t = "Some [Net4 167772160 8]"
  have "list_ex (\<lambda>ip. \<not> TP_Contains ?t (Some ip)) (forwarding_chain ?h)" by code_simp
  moreover have "ClientIP ''10.0.0.2:80'' ?h ?t = ''203.0.113.9''" by code_simp
  ultimately show ?thesis
    using ClientIP_ignores_injected_prefix [of ?h ?t "''10.0.0.2:80''" "''8.8.8.8''"]
    unfolding list_ex_iff by metis
qed

text \<open>
  The address is that of a hop of the chain, and every hop to the right of it is trusted; only when
  every hop is trusted is it the left-most one.
\<close>

theorem ClientIP_rightmost_untrusted:
  assumes "parseRemoteIP remoteAddr = Some peer" "TP_Contains trusted (Some peer)" "TrimSpace header \<noteq> []"
  shows "\<exists>left ip right. forwarding_chain header @ [peer] = left @ ip # right
    \<and> ClientIP remoteAddr header trusted = IP_str ip
    \<and> (\<forall>hop\<in>set right. TP_Contains trusted (Some hop))
    \<and> (TP_Contains trusted (Some ip) \<longrightarrow> left = [])"
proof -
  let ?c = "forwarding_chain header @ [peer]" and ?P = "\<lambda>ip. \<not> TP_Contains trusted (Some ip)"
  show ?thesis
  proof (cases "find ?P (rev ?c)")
    case None
    then have "\<forall>hop\<in>set (rev ?c). TP_Contains trusted (Some hop)" unfolding find_None_iff by blast
    then have all: "\<forall>hop\<in>set ?c. TP_Contains trusted (Some hop)" by simp
    obtain ip right where "?c = ip # right" by (cases ?c) auto
    with None all assms show ?thesis
      by (intro exI [of _ "[]"] exI [of _ ip] exI [of _ right]) (auto simp: ClientIP_def Let_def)
  next
    case (Some ip)
    then obtain xs ys where "rev ?c = xs @ ip # ys" "\<not> TP_Contains trusted (Some ip)"
      "\<forall>hop\<in>set xs. TP_Contains trusted (Some hop)"
      using find_SomeD [OF Some] by blast
    moreover from this(1) have "rev (rev ?c) = rev (xs @ ip # ys)" by simp
    then have "?c = rev ys @ ip # rev xs" by simp
    ultimately show ?thesis using Some assms
      by (intro exI [of _ "rev ys"] exI [of _ ip] exI [of _ "rev xs"]) (auto simp: ClientIP_def Let_def)
  qed
qed

theorem ClientIP_rightmost_untrusted_witness:
  "\<exists>left ip right. forwarding_chain ''203.0.113.9, 10.0.0.7'' @ [As16 167772162] = left @ ip # right
    \<and> ClientIP ''10.0.0.2:80'' ''203.0.113.9, 10.0.0.7'' (Some [Net4 167772160 8]) = IP_str ip
    \<and> (\<forall>hop\<in>set right. TP_Contains (Some [Net4 167772160 8]) (Some hop))
    \<and> (TP_Contains (Some [Net4 167772160 8]) (Some ip) \<longrightarrow> left = [])"
proof (rule ClientIP_rightmost_untrusted)
  show "parseRemoteIP ''10.0.0.2:80'' = Some (As16 167772162)" by code_simp
  show "TP_Contains (Some [Net4 167772160 8]) (Some (As16 167772162))" by code_simp
  show "TrimSpace ''203.0.113.9, 10.0.0.7'' \<noteq> []" by code_simp
qed

end
