(* ===== verification/Validate.thy ===== *)
theory Validate
  imports Config
begin

text \<open>
  \<open>Config.Validate\<close> and the validators it calls (\<open>internal/config/config.go\<close>), and what a
  configuration that passes is guaranteed to satisfy.
\<close>

subsection \<open>Section validators\<close>

definition validateRateLimit :: "rate_limit_config \<Rightarrow> string \<Rightarrow> go_error list" where
  "validateRateLimit v pre =
     err_if (rl_rps v \<le> 0) (BadRate pre) @ err_if (rl_burst v < 1) (BadBurst pre)
     @ err_if (rl_ttlSeconds v < 30) (BadTTL pre)"

definition validateHealthCheck :: "golib \<Rightarrow> health_config \<Rightarrow> go_error list" where
  "validateHealthCheck L v =
     err_if (hc_type v \<noteq> ''http'' \<and> hc_type v \<noteq> ''tcp'') HealthType
     @ err_if (hc_interval v < 2 \<or> hc_interval v > 3600) HealthInterval
     @ err_if (hc_timeout v < 1 \<or> hc_timeout v > 60) HealthTimeout
     @ err_if (hc_healthy v < 1 \<or> hc_healthy v > 20) HealthUp
     @ err_if (hc_unhealthy v < 1 \<or> hc_unhealthy v > 20) HealthDown
     @ (if hc_type v = ''http'' then
          err_if (hc_path v = [] \<or> \<not> HasPrefix (hc_path v) ''/'') HealthPath
          @ (let m = ToUpper L (TrimSpace (hc_method v)) in err_if (m \<noteq> ''GET'' \<and> m \<noteq> ''HEAD'') HealthMethod)
          @ err_if (hc_statusMin v < 100 \<or> hc_statusMin v > 599 \<or> hc_statusMax v < hc_statusMin v
                    \<or> hc_statusMax v > 599) HealthStatus
        else [])"

definition validatePersistence :: "persistence_config \<Rightarrow> bool" where
  "validatePersistence v =
     (if ps_mode v \<notin> {''none'', ''source_ip'', ''cookie''} then False
      else if ps_mode v = ''cookie'' then
        validCookieName (ps_cookie v) \<and> \<not> (ps_ttl v < 60 \<or> ps_ttl v > 30 * 24 * 60 * 60)
      else True)"

definition validateWAFPolicy :: "waf_policy \<Rightarrow> go_error list" where
  "validateWAFPolicy v =
     err_if (wp_mode v \<notin> {''inherit'', ''detect'', ''blocking'', ''disabled''}) PolicyMode
     @ err_if (wp_threshold v \<noteq> 0 \<and> (wp_threshold v < 1 \<or> wp_threshold v > 1000)) PolicyThreshold
     @ err_if (wp_maxBody v \<noteq> 0 \<and> (wp_maxBody v < 1024 \<or> wp_maxBody v > 128 * 2 ^ 20)) PolicyMaxBody
     @ err_if (wp_failMode v \<noteq> ''closed'' \<and> wp_failMode v \<noteq> ''open'') PolicyFailMode
     @ (case wp_rateLimit v of
          None \<Rightarrow> []
        | Some r \<Rightarrow> if rl_enabled r then wrap ''%w'' [] (validateRateLimit r ''waf_policy.rate_limit'') else [])
     @ concat (map (\<lambda>cidr. err_if (\<not> validateIPOrCIDR cidr) (PolicyCIDR cidr)) (wp_allow v @ wp_deny v))
     @ concat (map (\<lambda>path. err_if (TrimSpace path = []) PolicyRuleFile) (wp_ruleFiles v))"

definition validateBotPolicy :: "golib \<Rightarrow> bot_policy \<Rightarrow> go_error list" where
  "validateBotPolicy L v =
     (if \<not> bp_enabled v then []
      else err_if (bp_mode v \<noteq> ''monitor'' \<and> bp_mode v \<noteq> ''block'') BotMode
        @ err_if (bp_rpm v \<le> 0 \<or> bp_rpm v > 1000000) BotRate
        @ err_if (bp_burst v < 1 \<or> bp_burst v > 1000000) BotBurst
        @ concat (map (\<lambda>pat.
            if pat = [] \<or> 4096 < length pat then [BotPatternLength]
            else err_if (rx_compile L pat = None) (BotPattern pat)) (bp_bad v @ bp_allow v)))"

text \<open>A reference to a pool by name, as virtual hosts and content routes make it.\<close>

definition check_pool_ref :: "config \<Rightarrow> string list \<Rightarrow> string \<Rightarrow> go_error \<Rightarrow> go_error \<Rightarrow> go_error list" where
  "check_pool_ref cfg poolNames pool unknown disabled =
     (if pool \<notin> set poolNames then [unknown]
      else case ServerPoolByName cfg pool of
          None \<Rightarrow> [disabled]
        | Some p \<Rightarrow> if \<not> sp_enabled p then [disabled] else [])"

lemma check_pool_ref_Nil:
  "check_pool_ref cfg poolNames pool e1 e2 = [] \<longleftrightarrow>
     pool \<in> set poolNames \<and> (\<exists>p. ServerPoolByName cfg pool = Some p \<and> sp_enabled p)"
  by (auto simp: check_pool_ref_def split: option.splits)

definition validate_route ::
  "golib \<Rightarrow> config \<Rightarrow> string list \<Rightarrow> string \<Rightarrow> nat \<times> content_route \<Rightarrow> string list
     \<Rightarrow> (nat \<times> content_route) \<times> string list \<times> go_error list" where
  "validate_route L cfg poolNames vname ir seen =
     (let (i, r) = ir in
      if \<not> cr_enabled r then (ir, seen, [])
      else
        let (seen', e1) =
              note_name (TrimSpace (cr_name r) = []) (cr_name r)
                (RouteNameEmpty vname i) (RouteDuplicate vname (cr_name r)) seen;
            e2 = check_pool_ref cfg poolNames (cr_pool r) (RoutePoolUnknown vname (cr_name r) (cr_pool r))
                   (RoutePoolDisabled vname (cr_name r) (cr_pool r));
            e3 = concat (map (\<lambda>m. err_if (\<not> validMethod m) (RouteMethod vname (cr_name r) m)) (cr_methods r));
            e4 = err_if (cr_pathPrefix r \<noteq> [] \<and> \<not> HasPrefix (cr_pathPrefix r) ''/'') (RoutePrefix vname (cr_name r));
            e5 = err_if (cr_pathPattern r \<noteq> [] \<and> rx_compile L (cr_pathPattern r) = None)
                   (RoutePathPattern vname (cr_name r));
            hasH = (cr_headerName r \<noteq> [] \<or> cr_headerPattern r \<noteq> []);
            e6 = (if hasH then
                    if \<not> validHeaderName (cr_headerName r) \<or> cr_headerPattern r = []
                    then [RouteHeader vname (cr_name r)]
                    else err_if (rx_compile L (cr_headerPattern r) = None) (RouteHeaderPattern vname (cr_name r))
                  else []);
            hasQ = (cr_queryName r \<noteq> [] \<or> cr_queryPattern r \<noteq> []);
            e7 = (if hasQ then
                    if TrimSpace (cr_queryName r) = [] \<or> cr_queryPattern r = []
                    then [RouteQuery vname (cr_name r)]
                    else err_if (rx_compile L (cr_queryPattern r) = None) (RouteQueryPattern vname (cr_name r))
                  else []);
            conditions = length (filter (\<lambda>b. b) [cr_methods r \<noteq> [], cr_pathPrefix r \<noteq> [],
                           cr_pathPattern r \<noteq> [], hasH, hasQ])
        in (ir, seen', e1 @ e2 @ e3 @ e4 @ e5 @ e6 @ e7
             @ err_if (conditions = 0) (RouteNoCondition vname (cr_name r))))"

definition validateContentRoutes :: "golib \<Rightarrow> config \<Rightarrow> virtual_host \<Rightarrow> string list \<Rightarrow> go_error list" where
  "validateContentRoutes L cfg v poolNames =
     (if vh_routes v = [] then []
      else if vh_action v \<noteq> ''group'' then [RoutesNeedGroup (vh_name v)]
      else snd (snd (collect (validate_route L cfg poolNames (vh_name v)) (enumerate 0 (vh_routes v)) [])))"

subsection \<open>Global section\<close>

definition validate_global :: "golib \<Rightarrow> config \<Rightarrow> go_error list" where
  "validate_global L c =
     (let http = c_http c; https = c_https c; adm = c_admin c; sec = c_security c; rep = sec_reputation sec in
      err_if (c_version c \<noteq> CurrentVersion) (UnsupportedVersion (c_version c))
      @ err_if (\<not> h_enabled http \<and> \<not> hs_enabled https) NoListener
      @ err_if (h_enabled http \<and> \<not> validateListen (h_listen http)) (BadListen ''http'')
      @ (if hs_enabled https then
           err_if (\<not> validateListen (hs_listen https)) (BadListen ''https'')
           @ err_if (hs_minTLS https \<noteq> ''1.2'' \<and> hs_minTLS https \<noteq> ''1.3'') BadTLSVersion else [])
      @ err_if (h_redirect http \<and> \<not> hs_enabled https) RedirectNeedsHTTPS
      @ (if ad_enabled adm then
           err_if (\<not> validateListen (ad_listen adm)) (BadListen ''admin'')
           @ err_if (\<not> ad_allowPublic adm \<and> \<not> isLoopbackListen (ad_listen adm)) AdminNotLoopback
           @ err_if (ad_tokenEnv adm = []) AdminTokenEnv else [])
      @ err_if (sec_mode sec \<noteq> ''blocking'' \<and> sec_mode sec \<noteq> ''detect'') BadMode
      @ err_if (sec_threshold sec < 1 \<or> sec_threshold sec > 1000) BadThreshold
      @ err_if (sec_maxBody sec < 1024 \<or> sec_maxBody sec > 128 * 2 ^ 20) BadMaxBody
      @ err_if (sec_maxHeader sec < 8192 \<or> sec_maxHeader sec > 16 * 2 ^ 20) BadMaxHeader
      @ (if rl_enabled (sec_rateLimit sec)
         then wrap ''%w'' [] (validateRateLimit (sec_rateLimit sec) ''security.rate_limit'') else [])
      @ err_if (\<not> validHeaderName (sec_fwdHeader sec)) BadForwardHeader
      @ concat (map (\<lambda>cidr. err_if (ParseCIDR cidr = None) (BadTrustedCIDR cidr)) (sec_trusted sec))
      @ err_if (rep_mode rep \<noteq> ''monitor'' \<and> rep_mode rep \<noteq> ''block'') BadReputationMode
      @ concat (map (\<lambda>e. err_if (\<not> validateReputationEntry e) (BadReputationEntry e)) (rep_entries rep))
      @ concat (map (\<lambda>f. err_if (TrimSpace f = []) EmptyReputationFile) (rep_files rep)))"

subsection \<open>Server pools\<close>

definition validate_member ::
  "golib \<Rightarrow> string \<Rightarrow> nat \<times> pool_member \<Rightarrow> string list \<Rightarrow> (nat \<times> pool_member) \<times> string list \<times> go_error list" where
  "validate_member L pname im seen =
     (let (i, m) = im;
          (seen', e1) =
            note_name (pm_id m = []) (pm_id m) (MemberIDEmpty pname i) (MemberDuplicate pname (pm_id m)) seen;
          e2 = (case validateUpstreamURL L (pm_url m) of
                  None \<Rightarrow> [MemberURL pname (pm_id m)]
                | Some u \<Rightarrow> err_if (u_scheme u = ''http'' \<and> hasOriginTLS (pm_tls m)) (MemberTLSPlain pname (pm_id m)))
      in (im, seen', e1 @ e2
           @ err_if (pm_weight m < 1 \<or> pm_weight m > 1000) (MemberWeight pname (pm_id m))
           @ err_if (pm_priority m < 1 \<or> pm_priority m > 1000) (MemberPriority pname (pm_id m))))"

definition validate_pool ::
  "golib \<Rightarrow> nat \<times> server_pool \<Rightarrow> string list \<Rightarrow> (nat \<times> server_pool) \<times> string list \<times> go_error list" where
  "validate_pool L ip names =
     (let (i, p) = ip; n = sp_name p;
          (names', e1) =
            note_name (n = []) n (PoolNameEmpty i) (PoolDuplicate n) names;
          enabledMembers = length (filter pm_enabled (sp_members p))
      in (ip, names', e1
           @ err_if (sp_algorithm p \<notin> {''round_robin'', ''weighted_round_robin'', ''least_connections'',
                       ''source_ip_hash'', ''primary_backup'', ''random''}) (PoolAlgorithm n (sp_algorithm p))
           @ err_if (sp_failureMode p \<noteq> ''reject'' \<and> sp_failureMode p \<noteq> ''last_resort'') (PoolFailureMode n)
           @ err_if (sp_enabled p \<and> sp_members p = []) (PoolNoMember n)
           @ snd (snd (collect (validate_member L n) (enumerate 0 (sp_members p)) []))
           @ err_if (sp_enabled p \<and> enabledMembers = 0) (PoolNoEnabled n)
           @ (if hc_enabled (sp_health p)
              then wrap ''server pool %q health_check: %w'' [n] (validateHealthCheck L (sp_health p)) else [])))"

definition validate_pools :: "golib \<Rightarrow> config \<Rightarrow> string list \<times> go_error list" where
  "validate_pools L c = snd (collect (validate_pool L) (enumerate 0 (c_pools c)) [])"

subsection \<open>Virtual hosts\<close>

type_synonym domain_owners = "(string \<times> string) list"

definition validate_domain ::
  "golib \<Rightarrow> string \<Rightarrow> string \<Rightarrow> domain_owners \<Rightarrow> string \<times> domain_owners \<times> go_error list" where
  "validate_domain L vname domain owners =
     (let d = NormalizeDomain L domain in
      if ValidateDomainPattern L d \<noteq> None then (d, owners, [BadDomain vname d])
      else case map_of owners d of
          Some owner \<Rightarrow> (d, owners, [DomainTwice d owner vname])
        | None \<Rightarrow> (d, (d, vname) # owners, []))"

definition validate_action :: "golib \<Rightarrow> config \<Rightarrow> string list \<Rightarrow> virtual_host \<Rightarrow> go_error list" where
  "validate_action L c poolNames v =
     (if vh_action v = ''group'' then
        (if TrimSpace (vh_pool v) \<noteq> [] \<and> TrimSpace (vh_upstream v) \<noteq> [] then [PoolAndUpstream (vh_name v)]
         else if vh_pool v \<noteq> [] then
           check_pool_ref c poolNames (vh_pool v) (UnknownPool (vh_name v) (vh_pool v))
             (DisabledPool (vh_name v) (vh_pool v))
         else (case validateUpstreamURL L (vh_upstream v) of
             None \<Rightarrow> [BadUpstream (vh_name v)]
           | Some u \<Rightarrow> err_if (u_scheme u = ''http'' \<and> hasOriginTLS (vh_originTLS v)) (PlainUpstreamTLS (vh_name v))))
      else if vh_action v = ''redirect'' then
        err_if (\<not> validateRedirect L (vh_redirect v)) (BadRedirect (vh_name v))
      else if vh_action v = ''discard'' then
        err_if (vh_discard v < 400 \<or> vh_discard v > 599) (BadDiscard (vh_name v))
      else [BadAction (vh_name v)])"

definition validate_header ::
  "(string \<Rightarrow> bool) \<Rightarrow> string \<Rightarrow> string \<Rightarrow> string \<times> string \<Rightarrow> go_error list" where
  "validate_header forbidden kind vname hv =
     (let (h, value) = hv in
      if \<not> validHeaderName h then [HeaderName vname kind h]
      else err_if (forbidden h) (HeaderForbidden vname kind h)
        @ err_if (\<not> validHeaderValue value) (HeaderValue vname kind h))"

text \<open>What is checked for an enabled virtual host once its name and domains are settled.\<close>

definition validate_service :: "golib \<Rightarrow> config \<Rightarrow> string list \<Rightarrow> virtual_host \<Rightarrow> go_error list" where
  "validate_service L c poolNames v =
     validate_action L c poolNames v
     @ (if hs_enabled (c_https c)
        then err_if (TrimSpace (ft_cert (vh_frontTLS v)) = [] \<or> TrimSpace (ft_key (vh_frontTLS v)) = [])
               (MissingCertificate (vh_name v)) else [])
     @ err_if (\<not> validatePersistence (vh_persistence v)) (BadPersistence (vh_name v))
     @ wrap ''virtual host %q waf_policy: %w'' [vh_name v] (validateWAFPolicy (vh_waf v))
     @ wrap ''virtual host %q bot_policy: %w'' [vh_name v] (validateBotPolicy L (vh_bot v))
     @ wrap ''%w'' [] (validateContentRoutes L c v poolNames)
     @ concat (map (validate_header (forbiddenRequestHeader L) ''request'' (vh_name v)) (vh_reqHeaders v))
     @ concat (map (validate_header (forbiddenResponseHeader L) ''response'' (vh_name v)) (vh_respHeaders v))"

definition validate_vhost ::
  "golib \<Rightarrow> config \<Rightarrow> string list \<Rightarrow> nat \<times> virtual_host \<Rightarrow> string list \<times> domain_owners
     \<Rightarrow> (nat \<times> virtual_host) \<times> (string list \<times> domain_owners) \<times> go_error list" where
  "validate_vhost L c poolNames iv st =
     (let (i, v0) = iv; (names, owners) = st;
          v = v0\<lparr>vh_name := TrimSpace (vh_name v0)\<rparr>; n = vh_name v;
          (names', e1) =
            note_name (n = []) n (VHostNameEmpty i) (VHostDuplicate n) names
      in if \<not> vh_enabled v then ((i, v), (names', owners), e1)
         else
           let (ds, owners', e2) = collect (validate_domain L n) (vh_domains v) owners;
               v' = v\<lparr>vh_domains := ds\<rparr>
           in ((i, v'), (names', owners'),
               e1 @ err_if (vh_domains v = []) (VHostNoDomain n) @ e2 @ validate_service L c poolNames v'))"

definition Validate :: "golib \<Rightarrow> config \<Rightarrow> config \<times> go_error list" where
  "Validate L c =
     (let (poolNames, e2) = validate_pools L c;
          (ivs, (names, owners), e3) =
            collect (validate_vhost L c poolNames) (enumerate 0 (c_vhosts c)) ([], [])
      in (c\<lparr>c_vhosts := map snd ivs\<rparr>,
          validate_global L c @ e2 @ e3 @ err_if (hs_enabled (c_https c) \<and> owners = []) HTTPSNeedsVHost))"

text \<open>\<open>Load\<close> after decoding: the base directory, the defaults, then the validation.\<close>

definition Load_decoded :: "golib \<Rightarrow> string \<Rightarrow> config \<Rightarrow> go_error list + config" where
  "Load_decoded L baseDir decoded =
     (case Validate L (applyDefaults (decoded\<lparr>c_baseDir := baseDir\<rparr>)) of
        (c, errs) \<Rightarrow> if errs = [] then Inr c else Inl errs)"

subsection \<open>What a clean validation means\<close>

definition member_ok :: "golib \<Rightarrow> pool_member \<Rightarrow> bool" where
  "member_ok L m \<longleftrightarrow> pm_id m \<noteq> [] \<and> validateUpstreamURL L (pm_url m) \<noteq> None
     \<and> 1 \<le> pm_weight m \<and> pm_weight m \<le> 1000 \<and> 1 \<le> pm_priority m \<and> pm_priority m \<le> 1000"

definition pool_ok :: "golib \<Rightarrow> server_pool \<Rightarrow> bool" where
  "pool_ok L p \<longleftrightarrow> sp_name p \<noteq> []
     \<and> sp_algorithm p \<in> {''round_robin'', ''weighted_round_robin'', ''least_connections'',
          ''source_ip_hash'', ''primary_backup'', ''random''}
     \<and> sp_failureMode p \<in> {''reject'', ''last_resort''}
     \<and> distinct (map pm_id (sp_members p)) \<and> list_all (member_ok L) (sp_members p)
     \<and> (sp_enabled p \<longrightarrow> list_ex pm_enabled (sp_members p))
     \<and> (hc_enabled (sp_health p) \<longrightarrow> validateHealthCheck L (sp_health p) = [])"

lemma validate_members_clean:
  assumes "snd (snd (collect (validate_member L n) (enumerate 0 ms) [])) = []"
  shows "distinct (map pm_id ms) \<and> list_all (member_ok L) ms"
proof -
  obtain ys t where col: "collect (validate_member L n) (enumerate 0 ms) [] = (ys, t, [])"
    using assms by (metis prod.collapse)
  have "validate_member L n im s = (im', s', []) \<Longrightarrow>
      pm_id (snd im) \<notin> set s \<and> s' = pm_id (snd im) # s \<and> member_ok L (snd im)" for im s im' s'
    by (auto simp: validate_member_def member_ok_def Let_def note_name_clean
        split: prod.splits option.splits)
  then show ?thesis
    using collect_unique [OF col, of "\<lambda>im. pm_id (snd im)" "\<lambda>im. member_ok L (snd im)"]
    by (simp add: list_all_map_snd)
qed

lemma validate_pool_clean:
  assumes "validate_pool L ip s = (ip', s', [])"
  shows "sp_name (snd ip) \<notin> set s \<and> s' = sp_name (snd ip) # s \<and> pool_ok L (snd ip)"
proof (cases ip)
  case (Pair i p)
  with assms have "snd (snd (collect (validate_member L (sp_name p)) (enumerate 0 (sp_members p)) [])) = []"
    by (auto simp: validate_pool_def Let_def split: prod.splits)
  note mem = validate_members_clean [OF this]
  from assms Pair mem show ?thesis
    by (auto simp: validate_pool_def pool_ok_def Let_def note_name_clean list_ex_iff filter_empty_conv
        split: prod.splits if_splits)
qed

lemma validate_pools_clean:
  assumes "validate_pools L c = (names, [])"
  shows "set names = sp_name ` set (c_pools c)" "distinct (map sp_name (c_pools c))"
    "list_all (pool_ok L) (c_pools c)"
proof -
  obtain ys where col: "collect (validate_pool L) (enumerate 0 (c_pools c)) [] = (ys, names, [])"
    using assms by (cases "collect (validate_pool L) (enumerate 0 (c_pools c)) []") (auto simp: validate_pools_def)
  from collect_unique [OF col, of "\<lambda>ip. sp_name (snd ip)" "\<lambda>ip. pool_ok L (snd ip)"]
  show "set names = sp_name ` set (c_pools c)" "distinct (map sp_name (c_pools c))"
    "list_all (pool_ok L) (c_pools c)"
    using validate_pool_clean by (simp_all add: list_all_map_snd)
qed

lemma validate_domains_clean:
  assumes "collect (validate_domain L n) ds owners = (ds', owners', [])"
  shows "ds' = map (NormalizeDomain L) ds \<and> fst ` set owners' = set ds' \<union> fst ` set owners
    \<and> distinct ds' \<and> set ds' \<inter> fst ` set owners = {} \<and> list_all (\<lambda>d. ValidateDomainPattern L d = None) ds'"
  using assms
proof (induction ds arbitrary: owners ds')
  case Nil
  then show ?case by simp
next
  case (Cons d ds)
  let ?d = "NormalizeDomain L d"
  from Cons.prems obtain x' o' r' where f: "validate_domain L n d owners = (x', o', [])"
    and c: "collect (validate_domain L n) ds o' = (r', owners', [])" and ds': "ds' = x' # r'"
    by (auto split: prod.splits)
  from f have d: "x' = ?d" "o' = (?d, n) # owners" "ValidateDomainPattern L ?d = None"
      "?d \<notin> fst ` set owners"
    by (auto simp: validate_domain_def Let_def map_of_eq_None_iff split: if_splits option.splits)
  have *: "fst ` set o' = insert ?d (fst ` set owners)" using d(2) by simp
  from Cons.IH [OF c] have r': "r' = map (NormalizeDomain L) ds" "distinct r'"
    "fst ` set owners' = set r' \<union> insert ?d (fst ` set owners)"
    "list_all (\<lambda>d. ValidateDomainPattern L d = None) r'"
    and dj: "set r' \<inter> insert ?d (fst ` set owners) = {}"
    unfolding * by blast+
  from dj have "?d \<notin> set r'" "set r' \<inter> fst ` set owners = {}" by blast+
  with r'(2-4) d(3,4) show ?case unfolding ds' d(1) using r'(1) by simp
qed

definition vhost_ok :: "golib \<Rightarrow> config \<Rightarrow> string list \<Rightarrow> virtual_host \<Rightarrow> bool" where
  "vhost_ok L c poolNames v \<longleftrightarrow> vh_name v \<noteq> [] \<and>
     (vh_enabled v \<longrightarrow> vh_domains v \<noteq> [] \<and> validate_service L c poolNames v = []
        \<and> list_all (\<lambda>d. ValidateDomainPattern L d = None) (vh_domains v))"

definition enabled_domains :: "virtual_host list \<Rightarrow> string list" where
  "enabled_domains vs = concat (map vh_domains (filter vh_enabled vs))"

lemma enabled_domains_append [simp]:
  "enabled_domains (vs @ [v]) = enabled_domains vs @ (if vh_enabled v then vh_domains v else [])"
  by (simp add: enabled_domains_def)

definition vhosts_inv :: "golib \<Rightarrow> config \<Rightarrow> string list \<Rightarrow> virtual_host list \<Rightarrow> string list \<times> domain_owners \<Rightarrow> bool" where
  "vhosts_inv L c poolNames vs st \<longleftrightarrow>
     set (fst st) = vh_name ` set vs \<and> distinct (map vh_name vs)
     \<and> fst ` set (snd st) = set (enabled_domains vs) \<and> distinct (enabled_domains vs)
     \<and> list_all (vhost_ok L c poolNames) vs"

lemma validate_vhost_step:
  assumes I: "vhosts_inv L c pn vs st" and f: "validate_vhost L c pn iv st = (iv', st', [])"
  shows "vhosts_inv L c pn (vs @ [snd iv']) st'"
proof -
  obtain i v0 names owners where [simp]: "iv = (i, v0)" "st = (names, owners)" by fastforce
  let ?v = "v0\<lparr>vh_name := TrimSpace (vh_name v0)\<rparr>"
  obtain ds owners' e2 where col: "collect (validate_domain L (vh_name ?v)) (vh_domains ?v) owners = (ds, owners', e2)"
    by (metis prod.exhaust)
  obtain nn e1 where nn: "note_name (vh_name ?v = []) (vh_name ?v) (VHostNameEmpty i) (VHostDuplicate (vh_name ?v)) names
      = (nn, e1)" by fastforce
  show ?thesis
  proof (cases "vh_enabled v0")
    case False
    with f nn have "e1 = []" "iv' = (i, ?v)" "st' = (nn, owners)"
      by (auto simp: validate_vhost_def Let_def)
    with I nn False show ?thesis
      by (auto simp: vhosts_inv_def vhost_ok_def enabled_domains_def note_name_clean)
  next
    case True
    with f nn col have e: "e1 = []" "e2 = []" "st' = (nn, owners')" "iv' = (i, ?v\<lparr>vh_domains := ds\<rparr>)"
      and svc: "validate_service L c pn (?v\<lparr>vh_domains := ds\<rparr>) = []" and ne: "vh_domains v0 \<noteq> []"
      by (auto simp: validate_vhost_def Let_def)
    note dom = validate_domains_clean [OF col [unfolded e]]
    have "ds \<noteq> []" using dom ne by simp
    moreover have "set (enabled_domains vs) \<inter> set ds = {}"
    proof -
      have "fst ` set owners = set (enabled_domains vs)" using I by (simp add: vhosts_inv_def)
      moreover have "set ds \<inter> fst ` set owners = {}" using dom by blast
      ultimately show ?thesis by blast
    qed
    moreover have "fst ` set owners' = set ds \<union> fst ` set owners" "distinct ds"
      "list_all (\<lambda>d. ValidateDomainPattern L d = None) ds" using dom by blast+
    ultimately show ?thesis using I nn True e svc
      by (simp add: vhosts_inv_def vhost_ok_def enabled_domains_append note_name_clean Un_commute)
  qed
qed

lemma Validate_vhosts:
  assumes "Validate L c = (c', errs)"
  obtains pn ivs st es where "collect (validate_vhost L c pn) (enumerate 0 (c_vhosts c)) ([], []) = (ivs, st, es)"
    "c_vhosts c' = map snd ivs"
proof -
  obtain pn e2 where p: "validate_pools L c = (pn, e2)" by (rule prod.exhaust)
  obtain ivs names owners es where col: "collect (validate_vhost L c pn) (enumerate 0 (c_vhosts c)) ([], []) = (ivs, (names, owners), es)"
    by (metis prod.exhaust)
  have "c' = c\<lparr>c_vhosts := map snd ivs\<rparr>" using assms p col by (simp add: Validate_def)
  then show thesis using that [OF col] by simp
qed

lemma Validate_clean:
  assumes "Validate L c = (c', [])"
  obtains pn where "set pn = sp_name ` set (c_pools c)" "distinct (map sp_name (c_pools c))"
    "list_all (pool_ok L) (c_pools c)" "validate_global L c = []"
    "distinct (map vh_name (c_vhosts c'))" "distinct (enabled_domains (c_vhosts c'))"
    "list_all (vhost_ok L c pn) (c_vhosts c')" "c' = c\<lparr>c_vhosts := c_vhosts c'\<rparr>"
    "hs_enabled (c_https c) \<longrightarrow> enabled_domains (c_vhosts c') \<noteq> []"
proof -
  obtain pn e2 where p: "validate_pools L c = (pn, e2)" by fastforce
  obtain ivs names owners e3 where
    col: "collect (validate_vhost L c pn) (enumerate 0 (c_vhosts c)) ([], []) = (ivs, (names, owners), e3)"
    by (metis prod.exhaust)
  from assms p col have e: "e2 = []" "e3 = []" and c': "c' = c\<lparr>c_vhosts := map snd ivs\<rparr>"
    and g: "validate_global L c = []" and h: "hs_enabled (c_https c) \<longrightarrow> owners \<noteq> []"
    by (auto simp: Validate_def)
  have "vhosts_inv L c pn (map snd ivs) (names, owners)"
  proof (rule collect_clean_inv [OF col [unfolded e], where I = "\<lambda>done. vhosts_inv L c pn (map snd done)"])
    show "vhosts_inv L c pn (map snd []) ([], [])" by (simp add: vhosts_inv_def enabled_domains_def)
  next
    fix "done" :: "(nat \<times> virtual_host) list" and iv st iv' st'
    assume "vhosts_inv L c pn (map snd done) st" "validate_vhost L c pn iv st = (iv', st', [])"
    then show "vhosts_inv L c pn (map snd (done @ [iv'])) st'" using validate_vhost_step by simp
  qed
  then have vs: "distinct (map vh_name (map snd ivs))" "distinct (enabled_domains (map snd ivs))"
      "list_all (vhost_ok L c pn) (map snd ivs)" "fst ` set owners = set (enabled_domains (map snd ivs))"
    by (simp_all add: vhosts_inv_def)
  from vs(4) h have "hs_enabled (c_https c) \<longrightarrow> enabled_domains (map snd ivs) \<noteq> []" by fastforce
  with that [of pn] validate_pools_clean [OF p [unfolded e]] c' g vs(1-3) show ?thesis by simp
qed

lemma ServerPoolByName_vhosts [simp]: "ServerPoolByName (c\<lparr>c_vhosts := vs\<rparr>) = ServerPoolByName c"
  by (simp add: ServerPoolByName_def fun_eq_iff)

lemma validate_routes_clean:
  assumes "validateContentRoutes L c v pn = []" "vh_action v = ''group''"
    "r \<in> set (vh_routes v)" "cr_enabled r"
  shows "\<exists>p. ServerPoolByName c (cr_pool r) = Some p \<and> sp_enabled p"
proof -
  obtain ys t where col:
    "collect (validate_route L c pn (vh_name v)) (enumerate 0 (vh_routes v)) [] = (ys, t, [])"
    using assms by (cases "collect (validate_route L c pn (vh_name v)) (enumerate 0 (vh_routes v)) []")
      (auto simp: validateContentRoutes_def split: if_splits)
  obtain i where "(i, r) \<in> set (enumerate 0 (vh_routes v))"
    using assms(3) in_enumerate by metis
  from collect_clean_each [OF col this] obtain u x' u' where
    "validate_route L c pn (vh_name v) (i, r) u = (x', u', [])" by blast
  with assms(4) have "\<exists>e1 e2. check_pool_ref c pn (cr_pool r) e1 e2 = []"
    unfolding validate_route_def Let_def by (auto split: prod.splits)
  then show ?thesis by (auto simp: check_pool_ref_Nil)
qed

subsection \<open>Properties\<close>

text \<open>
  A configuration that validates is unambiguous: pool names, virtual-host names and the domains
  of all enabled virtual hosts are pairwise distinct, so every domain has one owner.
\<close>

theorem Validate_unambiguous:
  assumes "Validate L c = (c', [])"
  shows "distinct (map sp_name (c_pools c')) \<and> distinct (map vh_name (c_vhosts c'))
    \<and> distinct (enabled_domains (c_vhosts c'))"
proof (rule Validate_clean [OF assms])
  assume "c' = c\<lparr>c_vhosts := c_vhosts c'\<rparr>"
  then have "c_pools c' = c_pools c" by (metis config.ext_inject config.surjective config.update_convs(9))
  moreover assume "distinct (map sp_name (c_pools c))" "distinct (map vh_name (c_vhosts c'))"
    "distinct (enabled_domains (c_vhosts c'))"
  ultimately show ?thesis by simp
qed

lemma sample_valid: "Validate plain_lib sample_config = (sample_config, [])"
  by code_simp

theorem Validate_unambiguous_witness:
  "distinct (map sp_name (c_pools sample_config)) \<and> distinct (map vh_name (c_vhosts sample_config))
    \<and> distinct (enabled_domains (c_vhosts sample_config))"
  by (rule Validate_unambiguous [OF sample_valid])

text \<open>
  A validated configuration has no dangling pool: the pool of an enabled \<open>group\<close> virtual host, and of
  every enabled content route of it, is found by name, is enabled and has an enabled member.
\<close>

theorem Validate_pool_refs:
  assumes ok: "Validate L c = (c', [])" and v: "v \<in> set (c_vhosts c')" "vh_enabled v" "vh_action v = ''group''"
    and name: "name = vh_pool v \<and> name \<noteq> [] \<or> (\<exists>r\<in>set (vh_routes v). cr_enabled r \<and> name = cr_pool r)"
  shows "\<exists>p. ServerPoolByName c' name = Some p \<and> sp_enabled p \<and> list_ex pm_enabled (sp_members p)"
proof (rule Validate_clean [OF ok])
  fix pn
  assume pools: "list_all (pool_ok L) (c_pools c)" and vs: "list_all (vhost_ok L c pn) (c_vhosts c')"
    and "c' = c\<lparr>c_vhosts := c_vhosts c'\<rparr>"
  then have same: "ServerPoolByName c' = ServerPoolByName c"
    by (metis ServerPoolByName_vhosts)
  from vs v have svc: "validate_service L c pn v = []" by (auto simp: vhost_ok_def list_all_iff)
  have "\<exists>p. ServerPoolByName c name = Some p \<and> sp_enabled p"
    using name
  proof (elim disjE conjE bexE)
    assume "name = vh_pool v" "name \<noteq> []"
    then show ?thesis using svc v(3)
      by (auto simp: validate_service_def validate_action_def check_pool_ref_Nil split: if_splits)
  next
    fix r assume "r \<in> set (vh_routes v)" "cr_enabled r" "name = cr_pool r"
    then show ?thesis using svc v(3) validate_routes_clean [of L c v pn r]
      by (auto simp: validate_service_def)
  qed
  with pools same show ?thesis
    by (auto simp: ServerPoolByName_def pool_ok_def list_all_iff find_Some_iff)
qed

theorem Validate_pool_refs_witness:
  "\<exists>p. ServerPoolByName sample_config ''web'' = Some p \<and> sp_enabled p \<and> list_ex pm_enabled (sp_members p)"
  using Validate_pool_refs [OF sample_valid, of sample_vhost "''web''"]
  by (simp add: sample_config_def sample_vhost_def)

end
