(* ===== verification/Runtime.thy ===== *)
theory Runtime
  imports Access WAF Bot Proxy CertStore NetUtil Validate
begin

text \<open>
  The runtime of \<open>internal/core\<close>: what is built from a validated configuration, the routing table and
  the security settings of each route (\<open>runtime.go\<close>, \<open>policy.go\<close>). A \<open>*Route\<close> is its index in the list of
  routes. A route's limiter is none, the one shared by the runtime, or its own. What construction reads
  from outside is the record \<open>env\<close>: the library parameters, rule files, reputation files, certificates, CA
  files, the clock, and whether the log files open.
\<close>

record env =
  en_lib :: golib
  en_rules :: rules_io
  en_fs :: "string \<Rightarrow> string option"
  en_cert :: cert_io
  en_ca :: ca_loader
  en_logs :: "string \<Rightarrow> string \<Rightarrow> string option"
  en_now :: gotime

subsection \<open>Security of a route\<close>

datatype limiter_ref = NoLimiter | SharedLimiter | OwnLimiter limiter

record route =
  ro_vhost :: virtual_host
  ro_backend :: "backend option"
  ro_engine :: "waf_engine option"
  ro_limiter :: limiter_ref
  ro_bot :: "bot_engine option"
  ro_maxBody :: int
  ro_failMode :: string
  ro_access :: "access_policy option"

definition needs_dedicated :: "waf_policy \<Rightarrow> bool" where
  "needs_dedicated w = (wp_mode w \<noteq> ''inherit'' \<or> wp_threshold w \<noteq> 0 \<or> wp_builtins w \<noteq> None \<or> wp_ruleFiles w \<noteq> [])"

definition effective_mode :: "config \<Rightarrow> waf_policy \<Rightarrow> string" where
  "effective_mode c w = (if wp_mode w = ''detect'' \<or> wp_mode w = ''blocking'' then wp_mode w else sec_mode (c_security c))"

definition effective_threshold :: "config \<Rightarrow> waf_policy \<Rightarrow> int" where
  "effective_threshold c w = (if wp_threshold w \<noteq> 0 then wp_threshold w else sec_threshold (c_security c))"

definition effective_builtins :: "config \<Rightarrow> waf_policy \<Rightarrow> bool" where
  "effective_builtins c w = (case wp_builtins w of Some b \<Rightarrow> b | None \<Rightarrow> rules_builtins (c_rules c))"

definition effective_files :: "config \<Rightarrow> waf_policy \<Rightarrow> string list" where
  "effective_files c w = map (ResolvePath c) (rules_files (c_rules c) @ wp_ruleFiles w)"

definition route_engine :: "env \<Rightarrow> config \<Rightarrow> waf_policy \<Rightarrow> waf_engine \<Rightarrow> go_error + waf_engine option" where
  "route_engine E c w global =
     (if wp_mode w = ''disabled'' then Inr None
      else if needs_dedicated w then
        (case waf_New (en_lib E) (en_rules E) (effective_mode c w) (effective_threshold c w)
            (effective_builtins c w) (effective_files c w) of
           Inl e \<Rightarrow> Inl e
         | Inr e \<Rightarrow> Inr (Some e))
      else Inr (Some global))"

definition route_limiter :: "waf_policy \<Rightarrow> limiter option \<Rightarrow> limiter_ref" where
  "route_limiter w global =
     (case wp_rateLimit w of
        None \<Rightarrow> (case global of None \<Rightarrow> NoLimiter | Some _ \<Rightarrow> SharedLimiter)
      | Some r \<Rightarrow>
          if rl_enabled r then OwnLimiter (New_limiter (rl_rps r) (rl_burst r) (rl_ttlSeconds r * second))
          else NoLimiter)"

definition buildRouteSecurity :: "env \<Rightarrow> config \<Rightarrow> virtual_host \<Rightarrow> waf_engine \<Rightarrow> limiter option \<Rightarrow> go_error + route" where
  "buildRouteSecurity E c v global glim =
     (let w = vh_waf v in
      case route_engine E c w global of
        Inl e \<Rightarrow> Inl e
      | Inr eng \<Rightarrow>
          (case newAccessPolicy (wp_allow w) (wp_deny w) of
             Inl e \<Rightarrow> Inl e
           | Inr access \<Rightarrow>
               (case bot_New (en_lib E) (vh_bot v) of
                  Inl e \<Rightarrow> Inl e
                | Inr beng \<Rightarrow>
                    Inr \<lparr>ro_vhost = v, ro_backend = None, ro_engine = eng, ro_limiter = route_limiter w glim,
                      ro_bot = beng, ro_maxBody = (if wp_maxBody w \<noteq> 0 then wp_maxBody w else sec_maxBody (c_security c)),
                      ro_failMode = wp_failMode w, ro_access = access\<rparr>)))"

subsection \<open>Building\<close>

record runtime =
  rt_config :: config
  rt_engine :: waf_engine
  rt_certs :: "cert_store option"
  rt_trusted :: trusted_proxies
  rt_limiter :: "limiter option"
  rt_reputation :: "rep_store option"
  rt_loadedAt :: gotime
  rt_routes :: "route list"
  rt_exact :: "(string \<times> nat) list"
  rt_wild :: "(string \<times> nat) list"
  rt_closed :: bool

definition build_route :: "env \<Rightarrow> config \<Rightarrow> waf_engine \<Rightarrow> limiter option \<Rightarrow> virtual_host \<Rightarrow> go_error + route" where
  "build_route E c global glim v =
     (case buildRouteSecurity E c v global glim of
        Inl e \<Rightarrow> Inl (Wrapped ''virtual host %q security policy: %w'' [vh_name v] [e])
      | Inr r \<Rightarrow>
          if vh_action v = ''group'' then
            (case proxy_New (en_lib E) (en_ca E) v c of
               Inl e \<Rightarrow> Inl (Wrapped ''virtual host %q: %w'' [vh_name v] [e])
             | Inr b \<Rightarrow> Inr (r\<lparr>ro_backend := Some b\<rparr>))
          else Inr r)"

definition add_route :: "env \<Rightarrow> config \<Rightarrow> waf_engine \<Rightarrow> limiter option \<Rightarrow> virtual_host
    \<Rightarrow> route list \<times> (string \<times> nat) list \<times> (string \<times> nat) list
    \<Rightarrow> go_error + (route list \<times> (string \<times> nat) list \<times> (string \<times> nat) list)" where
  "add_route E c global glim v = (\<lambda>(routes, tabs).
     case build_route E c global glim v of
       Inl e \<Rightarrow> Inl e
     | Inr r \<Rightarrow> Inr (routes @ [r], enter_all (length routes) (vh_domains v) tabs))"

definition global_limiter :: "config \<Rightarrow> limiter option" where
  "global_limiter c =
     (let r = sec_rateLimit (c_security c) in
      if rl_enabled r then Some (New_limiter (rl_rps r) (rl_burst r) (rl_ttlSeconds r * second)) else None)"

definition load_certificates :: "env \<Rightarrow> config \<Rightarrow> go_error + cert_store option" where
  "load_certificates E c =
     (if \<not> hs_enabled (c_https c) then Inr None
      else (case cert_Load (en_lib E) (en_cert E) c (en_now E) of
          Inl e \<Rightarrow> Inl (Wrapped ''load TLS certificates: %w'' [] [e])
        | Inr s \<Rightarrow> Inr (Some s)))"

definition open_logs :: "env \<Rightarrow> config \<Rightarrow> bool \<Rightarrow> string option" where
  "open_logs E c openConfiguredLogs =
     (if openConfiguredLogs
      then en_logs E (ResolvePath c (log_access (c_logging c))) (ResolvePath c (log_security (c_logging c)))
      else en_logs E ''-'' ''-'')"

definition assemble :: "env \<Rightarrow> config \<Rightarrow> waf_engine \<Rightarrow> trusted_proxies \<Rightarrow> rep_store option \<Rightarrow> go_error + runtime" where
  "assemble E c engine trusted rep =
     (case load_certificates E c of
        Inl e \<Rightarrow> Inl e
      | Inr certs \<Rightarrow>
          (case fold_err (add_route E c engine (global_limiter c)) (EnabledVirtualHosts c) ([], [], []) of
             Inl e \<Rightarrow> Inl e
           | Inr (routes, exact, wild) \<Rightarrow>
               Inr \<lparr>rt_config = c, rt_engine = engine, rt_certs = certs, rt_trusted = trusted,
                 rt_limiter = global_limiter c, rt_reputation = rep, rt_loadedAt = en_now E,
                 rt_routes = routes, rt_exact = exact, rt_wild = wild, rt_closed = False\<rparr>))"

text \<open>\<open>build\<close> from the configuration that \<open>config.Load\<close> returned.\<close>

definition build :: "env \<Rightarrow> config \<Rightarrow> bool \<Rightarrow> go_error + runtime" where
  "build E c openConfiguredLogs =
     (case waf_New (en_lib E) (en_rules E) (sec_mode (c_security c)) (sec_threshold (c_security c))
         (rules_builtins (c_rules c)) (map (ResolvePath c) (rules_files (c_rules c))) of
        Inl e \<Rightarrow> Inl (Wrapped ''build WAF engine: %w'' [] [e])
      | Inr engine \<Rightarrow>
          (case NewTrustedProxies (sec_trusted (c_security c)) of
             Inl cidr \<Rightarrow> Inl (Errorf ''parse trusted proxy %q: %w'' [cidr])
           | Inr trusted \<Rightarrow>
               (case rep_Load (en_fs E) (Some c) of
                  Inl e \<Rightarrow> Inl (Wrapped ''load reputation data: %w'' [] [e])
                | Inr rep \<Rightarrow>
                    (case open_logs E c openConfiguredLogs of
                       Some err \<Rightarrow> Inl (Errorf err [])
                     | None \<Rightarrow> assemble E c engine trusted rep))))"

subsection \<open>Operations\<close>

definition Route :: "golib \<Rightarrow> runtime option \<Rightarrow> string \<Rightarrow> nat option" where
  "Route L r host =
     (case r of
        None \<Rightarrow> None
      | Some rt \<Rightarrow> table_lookup by_length (rt_exact rt, rt_wild rt) (Hostname L host))"

definition TLSVersion :: "runtime option \<Rightarrow> int" where
  "TLSVersion r =
     (case r of
        Some rt \<Rightarrow> if hs_minTLS (c_https (rt_config rt)) = ''1.3'' then 0x0304 else 0x0303
      | None \<Rightarrow> 0x0303)"

record route_status =
  rst_vhost :: string
  rst_action :: string
  rst_domains :: "string list"
  rst_mode :: string
  rst_pools :: "pool_status list"

definition status_of_route :: "golib \<Rightarrow> route \<Rightarrow> route_status" where
  "status_of_route L r = \<lparr>rst_vhost = vh_name (ro_vhost r), rst_action = vh_action (ro_vhost r),
     rst_domains = vh_domains (ro_vhost r),
     rst_mode = (case ro_engine r of None \<Rightarrow> ''disabled'' | Some e \<Rightarrow> e_mode e),
     rst_pools = proxy_Status L (ro_backend r)\<rparr>"

definition seen_routes :: "runtime \<Rightarrow> nat list" where
  "seen_routes rt = remdups (map snd (rt_exact rt) @ map snd (rt_wild rt))"

definition RouteStatuses :: "golib \<Rightarrow> runtime option \<Rightarrow> route_status list" where
  "RouteStatuses L r =
     (case r of
        None \<Rightarrow> []
      | Some rt \<Rightarrow> sort_key rst_vhost (map (\<lambda>i. status_of_route L (rt_routes rt ! i)) (seen_routes rt)))"

definition route_Close :: "route \<Rightarrow> route" where
  "route_Close r =
     r\<lparr>ro_backend := CloseIdleConnections (ro_backend r),
       ro_limiter := (case ro_limiter r of OwnLimiter l \<Rightarrow> OwnLimiter (Close_limiter l) | x \<Rightarrow> x),
       ro_bot := bot_Close (ro_bot r)\<rparr>"

definition runtime_Close :: "runtime option \<Rightarrow> runtime option" where
  "runtime_Close r = map_option (\<lambda>rt.
     if rt_closed rt then rt
     else rt\<lparr>rt_closed := True, rt_limiter := map_option Close_limiter (rt_limiter rt),
       rt_routes := map (\<lambda>(i, x). if i \<in> set (seen_routes rt) then route_Close x else x) (enumerate 0 (rt_routes rt))\<rparr>) r"

definition CertificatesInfo :: "runtime option \<Rightarrow> cert_info list" where
  "CertificatesInfo r = (case r of None \<Rightarrow> [] | Some rt \<Rightarrow> cert_Info (rt_certs rt))"

definition runtime_GetCertificate :: "golib \<Rightarrow> runtime option \<Rightarrow> string \<Rightarrow> go_error + cert_pair" where
  "runtime_GetCertificate L r sni =
     (case Option.bind r rt_certs of
        None \<Rightarrow> Inl (Errorf ''TLS certificate store is unavailable'' [])
      | Some s \<Rightarrow> GetCertificate L (Some s) sni)"

record validation_result =
  vr_mode :: string
  vr_ruleCount :: nat
  vr_domains :: "string list"
  vr_certificates :: "cert_info list"
  vr_pools :: nat
  vr_routes :: nat
  vr_reputation :: nat

definition core_Validate :: "env \<Rightarrow> config \<Rightarrow> go_error + validation_result" where
  "core_Validate E c =
     (case build E c False of
        Inl e \<Rightarrow> Inl e
      | Inr rt \<Rightarrow> Inr \<lparr>vr_mode = e_mode (rt_engine rt), vr_ruleCount = RuleCount (rt_engine rt),
          vr_domains = DomainNames (rt_config rt), vr_certificates = CertificatesInfo (Some rt),
          vr_pools = length (c_pools (rt_config rt)), vr_routes = length (RouteStatuses (en_lib E) (Some rt)),
          vr_reputation = rep_Count (rt_reputation rt)\<rparr>)"

subsection \<open>The routing table\<close>

definition routes_inv :: "virtual_host list \<Rightarrow> route list \<times> (string \<times> nat) list \<times> (string \<times> nat) list \<Rightarrow> bool" where
  "routes_inv us = (\<lambda>(routes, tabs). map ro_vhost routes = us \<and> exact_clean tabs \<and>
     (distinct (concat (map vh_domains us)) \<longrightarrow>
        (\<forall>d i. table_get tabs d = Some i \<longleftrightarrow> i < length us \<and> d \<in> set (vh_domains (us ! i)))))"

lemma concat_index_unique:
  assumes "distinct (concat (map f xs))" "i < length xs" "d \<in> set (f (xs ! i))" "j < length xs" "d \<in> set (f (xs ! j))"
  shows "j = i"
  using assms
proof (induction xs arbitrary: i j)
  case (Cons x xs)
  have apart: "d \<in> set (f x) \<Longrightarrow> n < length xs \<Longrightarrow> d \<notin> set (f (xs ! n))" for n
    using Cons.prems(1) nth_mem [of n xs] by (auto simp: disjoint_iff)
  show ?case using Cons apart by (cases i; cases j) auto
qed simp

lemma build_route_vhost: "build_route E c global glim v = Inr r \<Longrightarrow> ro_vhost r = v"
  by (auto simp: build_route_def buildRouteSecurity_def Let_def split: sum.splits if_splits)

lemma add_route_inv:
  assumes "routes_inv us st" "add_route E c global glim v st = Inr st'"
  shows "routes_inv (us @ [v]) st'"
proof -
  obtain routes tabs where st: "st = (routes, tabs)" by (rule prod.exhaust)
  from assms(2) st obtain r where r: "build_route E c global glim v = Inr r"
    and st': "st' = (routes @ [r], enter_all (length routes) (vh_domains v) tabs)"
    by (auto simp: add_route_def split: sum.splits)
  have len: "length routes = length us" and rv: "ro_vhost r = v" and clean: "exact_clean tabs"
    using assms(1) st build_route_vhost [OF r] by (auto simp: routes_inv_def)
  have "table_get (enter_all (length us) (vh_domains v) tabs) d = Some i \<longleftrightarrow>
      i < length (us @ [v]) \<and> d \<in> set (vh_domains ((us @ [v]) ! i))"
    if dist: "distinct (concat (map vh_domains (us @ [v])))" for d i
  proof -
    have old: "table_get tabs d = Some i \<longleftrightarrow> i < length us \<and> d \<in> set (vh_domains (us ! i))"
      using assms(1) st dist by (simp add: routes_inv_def)
    have fresh: "d \<in> set (vh_domains v) \<Longrightarrow> i < length us \<Longrightarrow> d \<notin> set (vh_domains (us ! i))"
      using concat_index_unique [OF dist, of i d "length us"] by (auto simp: nth_append)
    show ?thesis
      using old fresh by (auto simp: table_get_enter_all nth_append less_Suc_eq)
  qed
  then show ?thesis using assms(1) st st' len rv clean by (auto simp: routes_inv_def)
qed

lemma add_routes_inv:
  "fold_err (add_route E c global glim) vs st = Inr st' \<Longrightarrow> routes_inv us st \<Longrightarrow> routes_inv (us @ vs) st'"
proof (induction vs arbitrary: st us)
  case (Cons v vs)
  then obtain s1 where s1: "add_route E c global glim v st = Inr s1" "fold_err (add_route E c global glim) vs s1 = Inr st'"
    by (auto split: sum.splits)
  from Cons.IH [OF s1(2) add_route_inv [OF Cons.prems(2) s1(1)]] show ?case by simp
qed simp

lemma build_parts:
  assumes "build E c logs = Inr rt"
  shows "routes_inv (EnabledVirtualHosts c) (rt_routes rt, rt_exact rt, rt_wild rt)"
    and "load_certificates E c = Inr (rt_certs rt)" and "rt_config rt = c"
proof -
  from assms obtain engine trusted rep where "assemble E c engine trusted rep = Inr rt"
    by (auto simp: build_def split: sum.splits option.splits)
  then obtain certs routes exact wild where l: "load_certificates E c = Inr certs"
    and f: "fold_err (add_route E c engine (global_limiter c)) (EnabledVirtualHosts c) ([], [], []) = Inr (routes, exact, wild)"
    and rt: "rt_routes rt = routes" "rt_exact rt = exact" "rt_wild rt = wild" "rt_certs rt = certs" "rt_config rt = c"
    by (auto simp: assemble_def split: sum.splits)
  have "routes_inv [] ([], [], [])" by (simp add: routes_inv_def table_get_def)
  from add_routes_inv [OF f this] rt l
  show "routes_inv (EnabledVirtualHosts c) (rt_routes rt, rt_exact rt, rt_wild rt)"
    and "load_certificates E c = Inr (rt_certs rt)" and "rt_config rt = c" by simp_all
qed

lemma loaded_domains_distinct:
  assumes "Load_decoded L dir decoded = Inr c"
  shows "distinct (concat (map vh_domains (EnabledVirtualHosts c)))"
proof -
  from assms have "Validate L (applyDefaults (decoded\<lparr>c_baseDir := dir\<rparr>)) = (c, [])"
    by (auto simp: Load_decoded_def split: prod.splits if_splits)
  then have "distinct (enabled_domains (c_vhosts c))" by (rule Validate_clean)
  then show ?thesis by (simp add: enabled_domains_def EnabledVirtualHosts_def)
qed

text \<open>The virtual host that serves a host name: the one that lists it, else the one that lists its wildcard.\<close>

definition serves :: "config \<Rightarrow> string \<Rightarrow> nat \<Rightarrow> bool" where
  "serves c h i \<longleftrightarrow> i < length (EnabledVirtualHosts c) \<and>
     (h \<in> set (vh_domains (EnabledVirtualHosts c ! i)) \<or>
      \<not> list_ex (\<lambda>v. h \<in> set (vh_domains v)) (EnabledVirtualHosts c) \<and>
      (case parent_pattern h of None \<Rightarrow> False | Some d \<Rightarrow> d \<in> set (vh_domains (EnabledVirtualHosts c ! i))))"

lemma host_spec_serves:
  assumes "\<And>d i. get d = Some i \<longleftrightarrow> i < length (EnabledVirtualHosts c) \<and> d \<in> set (vh_domains (EnabledVirtualHosts c ! i))"
  shows "host_spec get h = Some i \<longleftrightarrow> serves c h i"
proof (cases "get h")
  case None
  have "\<not> list_ex (\<lambda>v. h \<in> set (vh_domains v)) (EnabledVirtualHosts c)"
  proof
    assume "list_ex (\<lambda>v. h \<in> set (vh_domains v)) (EnabledVirtualHosts c)"
    then obtain j where "j < length (EnabledVirtualHosts c)" "h \<in> set (vh_domains (EnabledVirtualHosts c ! j))"
      by (auto simp: list_ex_length)
    with assms have "get h = Some j" by blast
    with None show False by simp
  qed
  moreover from None assms [of h i] have "\<not> (i < length (EnabledVirtualHosts c) \<and> h \<in> set (vh_domains (EnabledVirtualHosts c ! i)))"
    by simp
  ultimately show ?thesis using None assms by (auto simp: host_spec_def serves_def split: option.splits)
next
  case (Some j)
  then have j: "j < length (EnabledVirtualHosts c)" "h \<in> set (vh_domains (EnabledVirtualHosts c ! j))"
    using assms by blast+
  then have "list_ex (\<lambda>v. h \<in> set (vh_domains v)) (EnabledVirtualHosts c)" by (auto simp: list_ex_length)
  moreover have "host_spec get h = get h" using Some by (simp add: host_spec_def)
  ultimately show ?thesis using assms [of h i] by (simp add: serves_def)
qed

lemma serves_pick:
  assumes "serves c h i"
    and known: "\<And>d. get d \<noteq> None \<longleftrightarrow> list_ex (\<lambda>v. d \<in> set (vh_domains v)) (EnabledVirtualHosts c)"
  obtains d where "i < length (EnabledVirtualHosts c)" "d \<in> set (vh_domains (EnabledVirtualHosts c ! i))"
    "host_spec get h = get d"
proof (cases "h \<in> set (vh_domains (EnabledVirtualHosts c ! i))")
  case True
  moreover from True assms(1) have "get h \<noteq> None" unfolding known by (auto simp: serves_def list_ex_length)
  ultimately show thesis using assms(1) by (intro that [of h]) (auto simp: serves_def host_spec_def)
next
  case False
  with assms(1) obtain d where d: "i < length (EnabledVirtualHosts c)" "parent_pattern h = Some d"
    "d \<in> set (vh_domains (EnabledVirtualHosts c ! i))" "get h = None"
    using known [of h] by (auto simp: serves_def split: option.splits)
  then show thesis by (intro that [of d]) (auto simp: host_spec_def)
qed

lemma loaded_table:
  assumes "Load_decoded L dir decoded = Inr c" "build E c logs = Inr rt"
  shows "table_get (rt_exact rt, rt_wild rt) d = Some i \<longleftrightarrow>
    i < length (EnabledVirtualHosts c) \<and> d \<in> set (vh_domains (EnabledVirtualHosts c ! i))"
  using build_parts(1) [OF assms(2)] loaded_domains_distinct [OF assms(1)] by (simp add: routes_inv_def)

lemma Route_serves:
  assumes "Load_decoded L dir decoded = Inr c" "build E c logs = Inr rt"
  shows "Route L (Some rt) host = Some i \<longleftrightarrow> serves c (Hostname L host) i"
proof -
  have "exact_clean (rt_exact rt, rt_wild rt)" using build_parts(1) [OF assms(2)] by (simp add: routes_inv_def)
  then have "Route L (Some rt) host = host_spec (table_get (rt_exact rt, rt_wild rt)) (Hostname L host)"
    by (simp add: Route_def sorted_table.lookup_spec)
  then show ?thesis using host_spec_serves [OF loaded_table [OF assms]] by simp
qed

lemma serves_unique:
  assumes "Load_decoded L dir decoded = Inr c" "v \<in> set (EnabledVirtualHosts c)" "d \<in> set (vh_domains v)"
    and "i < length (EnabledVirtualHosts c)" "d \<in> set (vh_domains (EnabledVirtualHosts c ! i))"
  shows "v = EnabledVirtualHosts c ! i"
proof -
  let ?vs = "EnabledVirtualHosts c"
  from assms(2) obtain j where j: "j < length ?vs" "v = ?vs ! j" by (auto simp: in_set_conv_nth)
  have "distinct (concat (map vh_domains ?vs))" by (rule loaded_domains_distinct [OF assms(1)])
  then have "j = i" using assms(3-5) j by (intro concat_index_unique) auto
  with j show ?thesis by simp
qed

text \<open>A runtime built from the sample configuration.\<close>

definition sample_env :: env where
  "sample_env = \<lparr>en_lib = plain_lib, en_rules = sample_rules, en_fs = sample_fs, en_cert = sample_cert_io,
     en_ca = (\<lambda>_. None), en_logs = (\<lambda>_ _. None), en_now = 50\<rparr>"

lemma sample_evaluated:
  "Load_decoded plain_lib ''/etc/cherrywaf'' sample_tls_config = Inr sample_tls_config
   \<and> \<not> isl (build sample_env sample_tls_config True)
   \<and> serves sample_tls_config (Hostname plain_lib ''www.app.test:8443'') 0"
  by code_simp

lemmas sample_loaded = sample_evaluated [THEN conjunct1]
lemmas sample_serves = sample_evaluated [THEN conjunct2, THEN conjunct2]

lemma sample_built: "\<exists>rt. build sample_env sample_tls_config True = Inr rt"
  using sample_evaluated by (cases "build sample_env sample_tls_config True") auto

subsection \<open>Properties\<close>

text \<open>
  C15. A runtime built from a loaded configuration routes as the configuration says: the routes are the
  enabled virtual hosts, and a request host goes to the one that lists it, or when none does, to the
  one that lists the wildcard over its first label; every other host has no route. The sorting of the
  suffixes and Go's map order do not matter.
\<close>

theorem Route_follows_config:
  assumes "Load_decoded L dir decoded = Inr c" "build E c logs = Inr rt"
  shows "map ro_vhost (rt_routes rt) = EnabledVirtualHosts c
    \<and> (Route L (Some rt) host = Some i \<longleftrightarrow> serves c (Hostname L host) i)"
  using Route_serves [OF assms] build_parts(1) [OF assms(2)] by (simp add: routes_inv_def)

theorem Route_follows_config_witness:
  "\<exists>rt. build sample_env sample_tls_config True = Inr rt
    \<and> Route plain_lib (Some rt) ''www.app.test:8443'' = Some 0"
  using sample_built Route_follows_config [OF sample_loaded, of sample_env True] sample_serves by blast

text \<open>
  C16. TLS and routing agree: for a name that the request host and the server name indication both
  normalize to, the certificate presented is the one configured for the virtual host that the
  request is routed to.
\<close>

theorem certificate_matches_route:
  assumes "Load_decoded L dir decoded = Inr c" "build E c logs = Inr rt" "en_lib E = L"
    and "hs_enabled (c_https c)" "Hostname L host = h" "sni_name L sni = h" "h \<noteq> []"
    and "Route L (Some rt) host = Some i"
  shows "\<exists>pair. runtime_GetCertificate L (Some rt) sni = Inr pair
    \<and> cp_cert pair = ResolvePath c (ft_cert (vh_frontTLS (ro_vhost (rt_routes rt ! i))))"
proof -
  let ?vs = "EnabledVirtualHosts c"
  from build_parts(2) [OF assms(2)] assms(3,4) obtain s where certs: "rt_certs rt = Some s"
    and load: "cert_Load L (en_cert E) c (en_now E) = Inr s"
    by (cases "rt_certs rt") (auto simp: load_certificates_def split: sum.splits)
  note inv = cert_Load_inv [OF load]
  have known: "table_get (tables s) d \<noteq> None \<longleftrightarrow> list_ex (\<lambda>v. d \<in> set (vh_domains v)) ?vs" for d
    using inv by (fastforce simp: store_inv_def list_ex_iff)
  have "serves c h i" using Route_serves [OF assms(1,2)] assms(5,8) by simp
  then obtain d where d: "i < length ?vs" "d \<in> set (vh_domains (?vs ! i))"
    and pick: "host_spec (table_get (tables s)) h = table_get (tables s) d"
    using known by (rule serves_pick)
  then obtain pair where pair: "table_get (tables s) d = Some pair"
    using known [of d] by (auto simp: list_ex_length)
  then obtain v where "v \<in> set ?vs" "d \<in> set (vh_domains v)" "cp_cert pair = ResolvePath c (ft_cert (vh_frontTLS v))"
    using inv unfolding store_inv_def by metis
  moreover from this d have "v = ?vs ! i" using serves_unique [OF assms(1)] by blast
  moreover have "map ro_vhost (rt_routes rt) = ?vs" using build_parts(1) [OF assms(2)] by (simp add: routes_inv_def)
  then have "ro_vhost (rt_routes rt ! i) = ?vs ! i" using d(1) by (metis length_map nth_map)
  moreover have "table_lookup as_iterated (tables s) h = Some pair"
    using plain_table.lookup_spec [of "tables s" h] inv pick pair by (simp add: store_inv_def)
  ultimately show ?thesis using certs assms(6)
    by (intro exI [of _ pair]) (simp add: runtime_GetCertificate_def GetCertificate_def tables_def Let_def)
qed

theorem certificate_matches_route_witness:
  "\<exists>rt pair. build sample_env sample_tls_config True = Inr rt
    \<and> runtime_GetCertificate plain_lib (Some rt) ''www.APP.test.'' = Inr pair
    \<and> cp_cert pair = ResolvePath sample_tls_config (ft_cert (vh_frontTLS (ro_vhost (rt_routes rt ! 0))))"
proof -
  obtain rt where rt: "build sample_env sample_tls_config True = Inr rt" using sample_built by blast
  have env: "en_lib sample_env = plain_lib" by (simp add: sample_env_def)
  have https: "hs_enabled (c_https sample_tls_config)" by code_simp
  have host: "Hostname plain_lib ''www.app.test:8443'' = ''www.app.test''" by code_simp
  have sni: "sni_name plain_lib ''www.APP.test.'' = ''www.app.test''" by code_simp
  have route: "Route plain_lib (Some rt) ''www.app.test:8443'' = Some 0"
    using Route_serves [OF sample_loaded rt] sample_serves by blast
  from certificate_matches_route [OF sample_loaded rt env https host sni _ route] rt show ?thesis by blast
qed

end
