(* ===== verification/Telemetry.thy ===== *)
theory Telemetry
  imports WAF Complex_Main
begin

text \<open>
  Counters (\<open>internal/metrics/metrics.go\<close>, 64 bits wide) and the in-memory ring of recent security
  events (\<open>internal/logging/logger.go\<close>). Writing JSON lines to files is output and not modelled. Events are
  values here, so the defensive copies of \<open>cloneSecurityEvent\<close> are the identity.
\<close>

subsection \<open>Metrics\<close>

record metrics =
  mt_requests :: "64 word"
  mt_blocked :: "64 word"
  mt_rateLimited :: "64 word"
  mt_bodyTooLarge :: "64 word"
  mt_upstreamErrors :: "64 word"
  mt_reloads :: "64 word"
  mt_reloadFailures :: "64 word"
  mt_inFlight :: "64 word"
  mt_2xx :: "64 word"
  mt_3xx :: "64 word"
  mt_4xx :: "64 word"
  mt_5xx :: "64 word"
  mt_latency :: "64 word"

definition RequestStarted :: "metrics \<Rightarrow> metrics" where
  "RequestStarted m = m\<lparr>mt_requests := mt_requests m + 1, mt_inFlight := mt_inFlight m + 1\<rparr>"

definition count_status :: "int \<Rightarrow> metrics \<Rightarrow> metrics" where
  "count_status status m =
     (if 200 \<le> status \<and> status < 300 then m\<lparr>mt_2xx := mt_2xx m + 1\<rparr>
      else if 300 \<le> status \<and> status < 400 then m\<lparr>mt_3xx := mt_3xx m + 1\<rparr>
      else if 400 \<le> status \<and> status < 500 then m\<lparr>mt_4xx := mt_4xx m + 1\<rparr>
      else if 500 \<le> status then m\<lparr>mt_5xx := mt_5xx m + 1\<rparr>
      else m)"

definition RequestFinished :: "int \<Rightarrow> duration \<Rightarrow> metrics \<Rightarrow> metrics" where
  "RequestFinished status d m =
     count_status status (m\<lparr>mt_inFlight := mt_inFlight m - 1, mt_latency := mt_latency m + word_of_int (max d 0)\<rparr>)"

definition metric_Blocked :: "metrics \<Rightarrow> metrics" where
  "metric_Blocked m = m\<lparr>mt_blocked := mt_blocked m + 1\<rparr>"

definition metric_RateLimited :: "metrics \<Rightarrow> metrics" where
  "metric_RateLimited m = m\<lparr>mt_rateLimited := mt_rateLimited m + 1\<rparr>"

definition metric_BodyTooLarge :: "metrics \<Rightarrow> metrics" where
  "metric_BodyTooLarge m = m\<lparr>mt_bodyTooLarge := mt_bodyTooLarge m + 1\<rparr>"

definition metric_UpstreamError :: "metrics \<Rightarrow> metrics" where
  "metric_UpstreamError m = m\<lparr>mt_upstreamErrors := mt_upstreamErrors m + 1\<rparr>"

definition metric_Reloaded :: "metrics \<Rightarrow> metrics" where
  "metric_Reloaded m = m\<lparr>mt_reloads := mt_reloads m + 1\<rparr>"

definition metric_ReloadFailed :: "metrics \<Rightarrow> metrics" where
  "metric_ReloadFailed m = m\<lparr>mt_reloadFailures := mt_reloadFailures m + 1\<rparr>"

definition metric_line :: "string \<Rightarrow> string \<Rightarrow> string \<Rightarrow> string \<Rightarrow> string" where
  "metric_line name help typ val = ''# HELP '' @ name @ '' '' @ help @ [CHR 0x0A] @ ''# TYPE '' @ name @ '' '' @ typ
     @ [CHR 0x0A] @ name @ '' '' @ val @ [CHR 0x0A]"

text \<open>\<open>fmt_float\<close> is Go's default formatting of the latency in seconds.\<close>

definition Prometheus :: "(int \<Rightarrow> string) \<Rightarrow> metrics \<Rightarrow> string" where
  "Prometheus fmt_float m =
     (let w = (\<lambda>x. Itoa (uint x)) in
      metric_line ''cherrywaf_requests_total'' ''HTTP requests processed.'' ''counter'' (w (mt_requests m))
      @ metric_line ''cherrywaf_blocked_total'' ''Requests blocked by WAF policy.'' ''counter'' (w (mt_blocked m))
      @ metric_line ''cherrywaf_rate_limited_total'' ''Requests rejected by rate limiting.'' ''counter'' (w (mt_rateLimited m))
      @ metric_line ''cherrywaf_body_too_large_total'' ''Requests rejected because the body exceeded inspection limits.'' ''counter'' (w (mt_bodyTooLarge m))
      @ metric_line ''cherrywaf_upstream_errors_total'' ''Reverse proxy upstream failures.'' ''counter'' (w (mt_upstreamErrors m))
      @ metric_line ''cherrywaf_reloads_total'' ''Successful configuration reloads.'' ''counter'' (w (mt_reloads m))
      @ metric_line ''cherrywaf_reload_failures_total'' ''Failed configuration reloads.'' ''counter'' (w (mt_reloadFailures m))
      @ metric_line ''cherrywaf_in_flight'' ''Requests currently being processed.'' ''gauge'' (Itoa (sint (mt_inFlight m)))
      @ metric_line ''cherrywaf_http_2xx_total'' ''HTTP 2xx responses.'' ''counter'' (w (mt_2xx m))
      @ metric_line ''cherrywaf_http_3xx_total'' ''HTTP 3xx responses.'' ''counter'' (w (mt_3xx m))
      @ metric_line ''cherrywaf_http_4xx_total'' ''HTTP 4xx responses.'' ''counter'' (w (mt_4xx m))
      @ metric_line ''cherrywaf_http_5xx_total'' ''HTTP 5xx responses.'' ''counter'' (w (mt_5xx m))
      @ metric_line ''cherrywaf_request_latency_seconds_total'' ''Cumulative request latency in seconds.'' ''counter''
          (fmt_float (uint (mt_latency m))))"

subsection \<open>Security events\<close>

text \<open>A \<open>float64\<close> coordinate: a number, or one of the values that are not.\<close>

datatype gofloat = Fin rat | PosInf | NegInf | NaN

record geo =
  g_countryCode :: string
  g_country :: string
  g_city :: string
  g_latitude :: "gofloat option"
  g_longitude :: "gofloat option"
  g_source :: string

record sec_event =
  se_time :: gotime
  se_requestID :: string
  se_clientIP :: string
  se_vhost :: string
  se_host :: string
  se_method :: string
  se_path :: string
  se_action :: string
  se_score :: int
  se_reason :: string
  se_matches :: "rule_match list"
  se_geo :: "geo option"

definition recentSecurityCapacity :: nat where
  "recentSecurityCapacity = 512"

text \<open>The ring; a position that was never written holds the zero event, here \<open>None\<close>.\<close>

record 'e ring =
  rg_recent :: "'e option list"
  rg_next :: nat
  rg_count :: nat

definition new_ring :: "'e ring" where
  "new_ring = \<lparr>rg_recent = replicate recentSecurityCapacity None, rg_next = 0, rg_count = 0\<rparr>"

definition rememberSecurity :: "'e ring \<Rightarrow> 'e \<Rightarrow> 'e ring" where
  "rememberSecurity l0 e =
     (let l = (if length (rg_recent l0) \<noteq> recentSecurityCapacity then new_ring else l0) in
      l\<lparr>rg_recent := (rg_recent l)[rg_next l := Some e],
        rg_next := (rg_next l + 1) mod recentSecurityCapacity,
        rg_count := (if rg_count l < recentSecurityCapacity then rg_count l + 1 else rg_count l)\<rparr>)"

definition RecentSecurity :: "'e ring \<Rightarrow> int \<Rightarrow> 'e list" where
  "RecentSecurity l limit0 =
     (let limit = (if limit0 \<le> 0 \<or> int (rg_count l) < limit0 then rg_count l else nat limit0);
          oldest = (rg_next l + recentSecurityCapacity - rg_count l) mod recentSecurityCapacity;
          skip = rg_count l - limit in
      List.map_filter (\<lambda>i. rg_recent l ! ((oldest + skip + i) mod recentSecurityCapacity)) [0..<limit])"

subsection \<open>The logger\<close>

text \<open>
  A log file is the list of the events written to it. The JSON encoder refuses an infinite coordinate and
  one that is not a number; such an event is remembered and its line is not written. The duration is in
  microseconds.
\<close>

record access_event =
  ae_time :: gotime
  ae_requestID :: string
  ae_clientIP :: string
  ae_vhost :: string
  ae_host :: string
  ae_method :: string
  ae_path :: string
  ae_protocol :: string
  ae_status :: int
  ae_bytes :: int
  ae_duration :: int
  ae_upstream :: string

record logger =
  lg_access :: "access_event list"
  lg_security :: "sec_event list"
  lg_ring :: "sec_event ring"

definition New_logger :: logger where
  "New_logger = \<lparr>lg_access = [], lg_security = [], lg_ring = new_ring\<rparr>"

definition finite_coord :: "gofloat option \<Rightarrow> bool" where
  "finite_coord c = (case c of None \<Rightarrow> True | Some (Fin _) \<Rightarrow> True | _ \<Rightarrow> False)"

definition encodable :: "sec_event \<Rightarrow> bool" where
  "encodable e = (case se_geo e of None \<Rightarrow> True | Some g \<Rightarrow> finite_coord (g_latitude g) \<and> finite_coord (g_longitude g))"

definition logger_Access :: "access_event \<Rightarrow> logger \<Rightarrow> logger" where
  "logger_Access e l = l\<lparr>lg_access := lg_access l @ [e]\<rparr>"

definition logger_Security :: "sec_event \<Rightarrow> logger \<Rightarrow> logger" where
  "logger_Security e l =
     l\<lparr>lg_ring := rememberSecurity (lg_ring l) e,
       lg_security := (if encodable e then lg_security l @ [e] else lg_security l)\<rparr>"

subsection \<open>The contract of a bounded log\<close>

definition lastn :: "nat \<Rightarrow> 'a list \<Rightarrow> 'a list" where
  "lastn n xs = drop (length xs - n) xs"

lemma lastn_snoc: "0 < n \<Longrightarrow> lastn n (lastn n xs @ [x]) = lastn n (xs @ [x])"
  by (cases "length xs \<le> n") (simp_all add: lastn_def Suc_diff_le)

locale bounded_log =
  fixes init :: 's and add :: "'s \<Rightarrow> 'e \<Rightarrow> 's" and content :: "'s \<Rightarrow> 'e list" and inv :: "'s \<Rightarrow> bool" and cap :: nat
  assumes cap_pos: "0 < cap"
    and inv_init: "inv init" and content_init: "content init = []"
    and inv_add: "inv s \<Longrightarrow> inv (add s e)"
    and content_add: "inv s \<Longrightarrow> content (add s e) = lastn cap (content s @ [e])"
begin

lemma after_inv: "inv (foldl add init es)"
  by (induction es rule: rev_induct) (simp_all add: inv_init inv_add)

lemma after: "content (foldl add init es) = lastn cap es"
proof (induction es rule: rev_induct)
  case Nil
  then show ?case by (simp add: content_init lastn_def)
next
  case (snoc e es)
  then show ?case using content_add [OF after_inv] lastn_snoc [OF cap_pos] by simp
qed

end

subsection \<open>The ring is a bounded log\<close>

abbreviation (input) "Cap \<equiv> recentSecurityCapacity"

lemma Cap_pos [simp]: "0 < Cap"
  by (simp add: recentSecurityCapacity_def)

definition slot :: "'e ring \<Rightarrow> nat \<Rightarrow> 'e option" where
  "slot l i = rg_recent l ! ((rg_next l + (Cap - rg_count l + i)) mod Cap)"

definition ring_inv :: "'e ring \<Rightarrow> bool" where
  "ring_inv l \<longleftrightarrow> length (rg_recent l) = Cap \<and> rg_next l < Cap \<and> rg_count l \<le> Cap
     \<and> (\<forall>i<rg_count l. slot l i \<noteq> None)"

definition ring_content :: "'e ring \<Rightarrow> 'e list" where
  "ring_content l = map (\<lambda>i. the (slot l i)) [0..<rg_count l]"

lemma shift_ne: "n < C \<Longrightarrow> 0 < k \<Longrightarrow> k < C \<Longrightarrow> (n + k) mod C \<noteq> (n :: nat)"
proof (cases "n + k < C")
  case False
  assume "n < C" "k < C"
  with False have "(n + k) mod C = n + k - C" by (simp add: mod_if)
  with \<open>k < C\<close> False show ?thesis by linarith
qed simp

lemma remember_fields:
  assumes "ring_inv l"
  shows "rg_recent (rememberSecurity l e) = (rg_recent l)[rg_next l := Some e]"
    "rg_next (rememberSecurity l e) = (rg_next l + 1) mod Cap"
    "rg_count (rememberSecurity l e) = (if rg_count l < Cap then rg_count l + 1 else rg_count l)"
  using assms by (simp_all add: rememberSecurity_def ring_inv_def Let_def)

lemma slot_filling:
  assumes inv: "ring_inv l" and c: "rg_count l < Cap" and i: "i \<le> rg_count l"
  shows "slot (rememberSecurity l e) i = (if i = rg_count l then Some e else slot l i)"
proof -
  let ?n = "rg_next l" and ?c = "rg_count l" and ?k = "Cap - rg_count l + i"
  have n: "?n < Cap" "length (rg_recent l) = Cap" using inv by (auto simp: ring_inv_def)
  have "((?n + 1) mod Cap + (Cap - (?c + 1) + i)) mod Cap = (?n + 1 + (Cap - (?c + 1) + i)) mod Cap"
    by (rule mod_add_left_eq)
  also have "?n + 1 + (Cap - (?c + 1) + i) = ?n + ?k" using c by simp
  finally have "slot (rememberSecurity l e) i = (rg_recent l)[?n := Some e] ! ((?n + ?k) mod Cap)"
    using c by (simp only: slot_def remember_fields [OF inv] if_True)
  moreover have "i = ?c \<Longrightarrow> (?n + ?k) mod Cap = ?n" using c n by simp
  moreover have "i \<noteq> ?c \<Longrightarrow> (?n + ?k) mod Cap \<noteq> ?n" using c i n by (intro shift_ne) auto
  ultimately show ?thesis using n by (cases "i = ?c") (simp_all add: slot_def)
qed

lemma slot_full:
  assumes inv: "ring_inv l" and c: "rg_count l = Cap" and i: "i < Cap"
  shows "slot (rememberSecurity l e) i = (if i = Cap - 1 then Some e else slot l (i + 1))"
proof -
  let ?n = "rg_next l"
  have n: "?n < Cap" "length (rg_recent l) = Cap" using inv by (auto simp: ring_inv_def)
  have "((?n + 1) mod Cap + (Cap - Cap + i)) mod Cap = (?n + 1 + (Cap - Cap + i)) mod Cap"
    by (rule mod_add_left_eq)
  also have "?n + 1 + (Cap - Cap + i) = ?n + (i + 1)" by simp
  finally have "slot (rememberSecurity l e) i = (rg_recent l)[?n := Some e] ! ((?n + (i + 1)) mod Cap)"
    using c by (simp only: slot_def remember_fields [OF inv] less_irrefl if_False)
  moreover have "i = Cap - 1 \<Longrightarrow> (?n + (i + 1)) mod Cap = ?n" using n by simp
  moreover have "i \<noteq> Cap - 1 \<Longrightarrow> (?n + (i + 1)) mod Cap \<noteq> ?n" using i n by (intro shift_ne) auto
  ultimately show ?thesis using n c by (cases "i = Cap - 1") (simp_all add: slot_def)
qed

lemma remember_inv: "ring_inv l \<Longrightarrow> ring_inv (rememberSecurity l e)"
proof -
  assume inv: "ring_inv l"
  have "slot (rememberSecurity l e) i \<noteq> None" if "i < rg_count (rememberSecurity l e)" for i
  proof (cases "rg_count l < Cap")
    case True
    with that inv slot_filling [OF inv True, of i e] show ?thesis
      by (auto simp: remember_fields ring_inv_def)
  next
    case False
    then have "rg_count l = Cap" using inv by (simp add: ring_inv_def)
    with that inv slot_full [OF inv this, of i e] show ?thesis
      by (auto simp: remember_fields ring_inv_def)
  qed
  then show ?thesis using inv by (auto simp: ring_inv_def remember_fields [OF inv])
qed

lemma remember_content:
  assumes inv: "ring_inv l"
  shows "ring_content (rememberSecurity l e) = lastn Cap (ring_content l @ [e])"
proof (cases "rg_count l < Cap")
  case True
  then have "lastn Cap (ring_content l @ [e]) = ring_content l @ [e]" by (simp add: lastn_def ring_content_def)
  moreover have "map (\<lambda>i. the (slot (rememberSecurity l e) i)) [0..<rg_count l] = ring_content l"
    using slot_filling [OF inv True] by (simp add: ring_content_def)
  ultimately show ?thesis
    using True slot_filling [OF inv True, of "rg_count l" e]
    by (simp add: ring_content_def remember_fields [OF inv])
next
  case False
  then have c: "rg_count l = Cap" using inv by (simp add: ring_inv_def)
  obtain k where k: "Cap = Suc k" using Cap_pos gr0_implies_Suc by blast
  have "lastn Cap (ring_content l @ [e]) = map (\<lambda>i. the (slot l i)) [1..<Cap] @ [e]"
    using c by (simp add: lastn_def ring_content_def drop_map Suc_leI)
  also have "map (\<lambda>i. the (slot l i)) [1..<Cap] = map (\<lambda>i. the (slot l (i + 1))) [0..<k]"
    unfolding k by (simp add: map_Suc_upt [symmetric] comp_def del: upt_Suc)
  also have "map (\<lambda>i. the (slot l (i + 1))) [0..<k] = map (\<lambda>i. the (slot (rememberSecurity l e) i)) [0..<k]"
    using slot_full [OF inv c] by (auto simp: k)
  finally have last: "lastn Cap (ring_content l @ [e]) = map (\<lambda>i. the (slot (rememberSecurity l e) i)) [0..<k] @ [e]" .
  have "[0..<Cap] = [0..<k] @ [k]" by (simp add: k)
  moreover have "slot (rememberSecurity l e) k = Some e" using slot_full [OF inv c, of k e] by (simp add: k)
  moreover have "ring_content (rememberSecurity l e) = map (\<lambda>i. the (slot (rememberSecurity l e) i)) [0..<Cap]"
    using c by (simp add: ring_content_def remember_fields [OF inv])
  ultimately show ?thesis unfolding last by simp
qed

interpretation sec_ring: bounded_log new_ring rememberSecurity ring_content ring_inv Cap
proof
  show "ring_inv new_ring" by (simp add: ring_inv_def new_ring_def)
  show "ring_content new_ring = []" by (simp add: ring_content_def new_ring_def)
qed (simp_all add: remember_inv remember_content)

lemma RecentSecurity_content:
  assumes inv: "ring_inv l"
  shows "RecentSecurity l limit = (if limit \<le> 0 then ring_content l else lastn (nat limit) (ring_content l))"
proof -
  define n where "n = (if limit \<le> 0 \<or> int (rg_count l) < limit then rg_count l else nat limit)"
  have n: "n \<le> rg_count l" by (auto simp: n_def)
  have "rg_count l \<le> Cap" using inv by (simp add: ring_inv_def)
  then have pos: "((rg_next l + Cap - rg_count l) mod Cap + (rg_count l - n) + i) mod Cap
      = (rg_next l + (Cap - rg_count l + ((rg_count l - n) + i))) mod Cap" for i
    using mod_add_left_eq [of "rg_next l + Cap - rg_count l" Cap "rg_count l - n + i"] by (simp add: add.assoc)
  have "RecentSecurity l limit = List.map_filter (\<lambda>i. slot l ((rg_count l - n) + i)) [0..<n]"
    by (simp add: RecentSecurity_def n_def [symmetric] Let_def slot_def pos)
  also have "\<dots> = map (\<lambda>i. the (slot l ((rg_count l - n) + i))) [0..<n]"
    using inv n by (simp add: List.map_filter_def ring_inv_def)
  also have "\<dots> = drop (rg_count l - n) (ring_content l)"
    using n by (intro nth_equalityI) (auto simp: ring_content_def)
  finally show ?thesis by (auto simp: n_def lastn_def ring_content_def)
qed

subsection \<open>Properties\<close>

text \<open>
  The ring buffer with its two counters implements the plain specification of a bounded log: after
  any events, asking for a limit of recent events returns the last ones in order of insertion, at most
  the limit and never more than 512; a limit of zero or less asks for all that are kept.
\<close>

theorem RecentSecurity_last:
  "RecentSecurity (foldl rememberSecurity new_ring es) limit =
     (if limit \<le> 0 then lastn 512 es else lastn (nat limit) (lastn 512 es))"
  using RecentSecurity_content [OF sec_ring.after_inv, of es limit] sec_ring.after [of es]
  by (simp add: recentSecurityCapacity_def)

text \<open>
  The gauge of requests in flight returns to its value when a started request finishes, whatever the
  status and duration, also across wrap-around, and at most one status class is counted.
\<close>

theorem in_flight_balanced:
  "mt_inFlight (RequestFinished s d (RequestStarted m)) = mt_inFlight m
   \<and> mt_requests (RequestFinished s d (RequestStarted m)) = mt_requests m + 1
   \<and> (let f = RequestFinished s d (RequestStarted m) in
      (mt_2xx f - mt_2xx m) + (mt_3xx f - mt_3xx m) + (mt_4xx f - mt_4xx m) + (mt_5xx f - mt_5xx m)
        = (if 200 \<le> s then 1 else 0))"
  by (auto simp: RequestFinished_def RequestStarted_def count_status_def Let_def)

end
