(* ===== verification/Geo.thy ===== *)
theory Geo
  imports Telemetry NetUtil
begin

text \<open>
  Location metadata of security events, \<open>internal/app/threatmap.go\<close>. \<open>strconv.ParseFloat\<close> is the
  parameter \<open>parse_float\<close>; it accepts the spellings of infinities and of not-a-number, which is why a
  coordinate is a \<^typ>\<open>gofloat\<close>.
\<close>

definition remoteIP :: "string \<Rightarrow> 128 word option" where
  "remoteIP remoteAddr =
     (case SplitHostPort (TrimSpace remoteAddr) of
        Some (host, _) \<Rightarrow> ParseIP host
      | None \<Rightarrow> ParseIP (trim_brackets (TrimSpace remoteAddr)))"

fun firstHeader :: "header \<Rightarrow> string list \<Rightarrow> string" where
  "firstHeader h [] = []"
| "firstHeader h (n # ns) = (let v = TrimSpace (header_get h n) in if v \<noteq> [] then v else firstHeader h ns)"

definition normalizeCountryCode :: "golib \<Rightarrow> string \<Rightarrow> string" where
  "normalizeCountryCode L raw =
     (let v = ToUpper L (TrimSpace raw) in
      if length v \<noteq> 2 then [] else if list_all is_upper v then v else [])"

text \<open>The first \<open>n\<close> runes of a text; an invalid byte counts as one rune and converts to the error rune.\<close>

fun take_runes :: "nat \<Rightarrow> string \<Rightarrow> string" where
  "take_runes 0 s = []"
| "take_runes (Suc n) s =
     (if s = [] then []
      else if rune_len s = 0 then RuneError @ take_runes n (tl s)
      else take (rune_len s) s @ take_runes n (drop (rune_len s) s))"

function count_runes :: "string \<Rightarrow> nat" where
  "count_runes s =
     (if s = [] then 0
      else if rune_len s = 0 then Suc (count_runes (tl s)) else Suc (count_runes (drop (rune_len s) s)))"
  by pat_completeness auto
termination
  by (relation "measure length") auto

declare count_runes.simps [simp del]

definition cleanGeoText :: "string \<Rightarrow> nat \<Rightarrow> string" where
  "cleanGeoText raw limit =
     (let v = map_runes (\<lambda>r. if IsControl r then [] else r) (TrimSpace raw) in
      if 0 < limit \<and> limit < count_runes v then take_runes limit v else v)"

fun float_less :: "gofloat \<Rightarrow> gofloat \<Rightarrow> bool" where
  "float_less (Fin a) (Fin b) = (a < b)"
| "float_less NegInf (Fin b) = True"
| "float_less (Fin a) PosInf = True"
| "float_less NegInf PosInf = True"
| "float_less _ _ = False"

definition parseCoordinate :: "(string \<Rightarrow> gofloat option) \<Rightarrow> string \<Rightarrow> rat \<Rightarrow> rat \<Rightarrow> gofloat option" where
  "parseCoordinate parse_float raw minimum maximum =
     (let v = TrimSpace raw in
      if v = [] then None
      else (case parse_float v of
          None \<Rightarrow> None
        | Some c \<Rightarrow> if float_less c (Fin minimum) \<or> float_less (Fin maximum) c then None else Some c))"

definition trustedRequestGeo :: "golib \<Rightarrow> (string \<Rightarrow> gofloat option) \<Rightarrow> request \<Rightarrow> trusted_proxies option \<Rightarrow> geo option" where
  "trustedRequestGeo L parse_float r trusted =
     (if \<not> TP_Contains trusted (remoteIP (rq_remoteAddr r)) then None
      else
        let h = rq_header r;
            code = normalizeCountryCode L (firstHeader h [''CF-IPCountry'', ''X-Geo-Country-Code'', ''X-Country-Code'']);
            country = cleanGeoText (firstHeader h [''X-Geo-Country'', ''CF-IPCountry-Name'']) 96;
            city = cleanGeoText (firstHeader h [''X-Geo-City'', ''CF-IPCity'']) 96;
            lat = parseCoordinate parse_float (firstHeader h [''X-Geo-Latitude'', ''CF-IPLatitude'']) (- 90) 90;
            lon = parseCoordinate parse_float (firstHeader h [''X-Geo-Longitude'', ''CF-IPLongitude'']) (- 180) 180 in
        if code = [] \<and> country = [] \<and> city = [] \<and> lat = None \<and> lon = None then None
        else Some \<lparr>g_countryCode = code, g_country = country, g_city = city, g_latitude = lat, g_longitude = lon,
          g_source = ''trusted-proxy-header''\<rparr>)"

subsection \<open>Properties\<close>

text \<open>
  A client that is not a trusted proxy cannot place points on the map. A coordinate that a trusted
  proxy sends is within its range or not a number: the range test lets not-a-number through, which the
  JSON encoder of the log and of the status page then refuses to encode.
\<close>

theorem geo_trusted_and_ranged:
  "(\<not> TP_Contains trusted (remoteIP (rq_remoteAddr r)) \<longrightarrow> trustedRequestGeo L pf r trusted = None)
   \<and> (\<forall>c. parseCoordinate pf raw lo hi = Some c \<longrightarrow> c = NaN \<or> (\<exists>q. c = Fin q \<and> lo \<le> q \<and> q \<le> hi))
   \<and> (TrimSpace raw \<noteq> [] \<longrightarrow> pf (TrimSpace raw) = Some NaN \<longrightarrow> parseCoordinate pf raw lo hi = Some NaN)"
proof -
  have "c = NaN \<or> (\<exists>q. c = Fin q \<and> lo \<le> q \<and> q \<le> hi)" if "parseCoordinate pf raw lo hi = Some c" for c
    using that by (cases c) (auto simp: parseCoordinate_def Let_def split: if_splits option.splits)
  then show ?thesis by (simp add: trustedRequestGeo_def parseCoordinate_def Let_def)
qed

theorem geo_trusted_and_ranged_witness:
  "parseCoordinate (\<lambda>s. if s = ''NaN'' then Some NaN else None) ''NaN'' (- 90) 90 = Some NaN"
proof -
  have "TrimSpace ''NaN'' = ''NaN''" by code_simp
  then show ?thesis
    using geo_trusted_and_ranged [of "Some []" "query_request []" plain_lib "\<lambda>s. if s = ''NaN'' then Some NaN else None" "''NaN''" "- 90" 90]
    by simp
qed

text \<open>
  A coordinate that is not a number silences the log: the event of a request that came through a
  trusted proxy with such a latitude header, its own or one it passed on, is not written to the
  security log, because the encoder refuses the value and the handler ignores the error.
\<close>

theorem nan_latitude_not_logged:
  assumes "TP_Contains trusted (remoteIP (rq_remoteAddr r))"
    and "TrimSpace (firstHeader (rq_header r) [''X-Geo-Latitude'', ''CF-IPLatitude'']) = v" "v \<noteq> []" "pf v = Some NaN"
    and "se_geo e = trustedRequestGeo L pf r trusted"
  shows "lg_security (logger_Security e lg) = lg_security lg"
proof -
  have "parseCoordinate pf (firstHeader (rq_header r) [''X-Geo-Latitude'', ''CF-IPLatitude'']) (- 90) 90 = Some NaN"
    using assms(2-4) by (simp add: parseCoordinate_def Let_def)
  then obtain g where "se_geo e = Some g" "g_latitude g = Some NaN"
    using assms(1,5) by (auto simp: trustedRequestGeo_def Let_def simp del: firstHeader.simps)
  then show ?thesis by (simp add: logger_Security_def encodable_def finite_coord_def)
qed

definition nan_request :: request where
  "nan_request = (query_request [])\<lparr>rq_remoteAddr := ''10.0.0.2:80'', rq_header := [(''X-Geo-Latitude'', [''nan''])]\<rparr>"

definition nan_event :: sec_event where
  "nan_event = \<lparr>se_time = 0, se_requestID = ''r'', se_clientIP = ''10.0.0.2'', se_vhost = ''v'', se_host = ''h'', se_method = ''GET'',
     se_path = ''/'', se_action = ''block'', se_score = 20, se_reason = [], se_matches = [],
     se_geo = trustedRequestGeo plain_lib (\<lambda>s. if s = ''nan'' then Some NaN else None) nan_request (Some [Net4 167772160 8])\<rparr>"

theorem nan_latitude_not_logged_witness: "lg_security (logger_Security nan_event New_logger) = []"
proof -
  have t: "TP_Contains (Some [Net4 167772160 8]) (remoteIP (rq_remoteAddr nan_request))" by code_simp
  have v: "TrimSpace (firstHeader (rq_header nan_request) [''X-Geo-Latitude'', ''CF-IPLatitude'']) = ''nan''" by code_simp
  have "lg_security (logger_Security nan_event New_logger) = lg_security New_logger"
    by (rule nan_latitude_not_logged [OF t v, where pf = "\<lambda>s. if s = ''nan'' then Some NaN else None" and L = plain_lib])
      (simp_all add: nan_event_def)
  then show ?thesis by (simp add: New_logger_def)
qed

end
