(* ===== verification/App.thy ===== *)
theory App
  imports Runtime Geo
begin

text \<open>
  The public request handler of \<open>internal/app/app.go\<close>: every check in the order of the code, the response it
  writes, the events and counters it records, and the call of the proxy. A stage is a function from the
  state of the handler to \<open>Inl\<close> of the state in which the handler returned, or \<open>Inr\<close> of the state in which it
  goes on. What comes from outside is the record \<open>app_io\<close>: the clock (read when the request starts, once
  for the checks, and when it ends), a fresh request identifier, JSON encoding, the number of bytes the
  connection accepts, the body stream, decompression, a panic of the engine, and what the proxy needs.
\<close>

subsection \<open>The captured response\<close>

record capture =
  ca_header :: header
  ca_status :: int
  ca_bytes :: int
  ca_wrote :: bool

definition capture_WriteHeader :: "int \<Rightarrow> capture \<Rightarrow> capture" where
  "capture_WriteHeader status w = (if ca_wrote w then w else w\<lparr>ca_status := status, ca_wrote := True\<rparr>)"

text \<open>\<open>n\<close> is the number of bytes that the underlying writer reports as written.\<close>

definition capture_Write :: "int \<Rightarrow> capture \<Rightarrow> capture" where
  "capture_Write n w =
     (let w' = (if ca_wrote w then w else capture_WriteHeader 200 w) in w'\<lparr>ca_bytes := ca_bytes w' + n\<rparr>)"

definition capture_Flush :: "capture \<Rightarrow> capture" where
  "capture_Flush w = (if ca_wrote w then w else capture_WriteHeader 200 w)"

definition capture_ReadFrom :: "int \<Rightarrow> capture \<Rightarrow> capture" where
  "capture_ReadFrom n w =
     (let w' = (if ca_wrote w then w else capture_WriteHeader 200 w) in w'\<lparr>ca_bytes := ca_bytes w' + n\<rparr>)"

definition set_header :: "string \<Rightarrow> string \<Rightarrow> capture \<Rightarrow> capture" where
  "set_header k v w = w\<lparr>ca_header := header_set (ca_header w) k v\<rparr>"

datatype jval = JStr string | JInt int

text \<open>What the body of a request is when the handler reads it: absent, or the bytes of \<open>rq_body\<close> and the error that ends them.\<close>

datatype body_stream = NoBody | Stream "string option"

text \<open>A gzip reader: the bytes it yields, the error that ends them, and the error of closing it.\<close>

record gzip_reader =
  gz_bytes :: string
  gz_readErr :: "string option"
  gz_closeErr :: "string option"

record app_io =
  io_lib :: golib
  io_started :: gotime
  io_now :: gotime
  io_finished :: gotime
  io_fresh :: string
  io_json :: "(string \<times> jval) list \<Rightarrow> string"
  io_write :: "string \<Rightarrow> int"
  io_relative :: "request \<Rightarrow> string \<Rightarrow> string"
  io_proto :: string
  io_sni :: "string option"
  io_stream :: body_stream
  io_gzip :: "string \<Rightarrow> string + gzip_reader"
  io_panic :: "request \<Rightarrow> string \<Rightarrow> string option"
  io_float :: "string \<Rightarrow> gofloat option"
  io_token :: "string \<Rightarrow> string \<Rightarrow> string"
  io_send :: sender
  io_prepare :: "request \<Rightarrow> request"
  io_respBytes :: int

definition write_line :: "app_io \<Rightarrow> string \<Rightarrow> capture \<Rightarrow> capture" where
  "write_line io s w = capture_Write (io_write io s) w"

definition writeJSON :: "app_io \<Rightarrow> int \<Rightarrow> (string \<times> jval) list \<Rightarrow> capture \<Rightarrow> capture" where
  "writeJSON io status v w =
     write_line io (io_json io v)
       (capture_WriteHeader status
         (set_header ''Cache-Control'' ''no-store'' (set_header ''Content-Type'' ''application/json; charset=utf-8'' w)))"

subsection \<open>Redirects\<close>

definition url_RequestURI :: "gourl \<Rightarrow> string" where
  "url_RequestURI u =
     (let p = EscapedPath u; p' = (if p = [] then ''/'' else p) in
      if u_forceQuery u \<or> u_rawquery u \<noteq> [] then p' @ ''?'' @ u_rawquery u else p')"

definition hexEscapeNonASCII :: "string \<Rightarrow> string" where
  "hexEscapeNonASCII s = concat (map (\<lambda>c. if is_ascii c then [c] else escape_char c) s)"

definition htmlEscape :: "string \<Rightarrow> string" where
  "htmlEscape s = replacer [(''&'', ''&amp;''), (''<'', ''&lt;''), (''>'', ''&gt;''),
     ([CHR 0x22], ''&#34;''), ([CHR 0x27], ''&#39;'')] s"

definition StatusText :: "int \<Rightarrow> string" where
  "StatusText code =
     (if code = 301 then ''Moved Permanently'' else if code = 302 then ''Found''
      else if code = 303 then ''See Other'' else if code = 307 then ''Temporary Redirect''
      else if code = 308 then ''Permanent Redirect'' else [])"

text \<open>\<open>http.Redirect\<close> when no content type is set: a target with neither scheme nor host is made absolute.\<close>

definition http_Redirect :: "app_io \<Rightarrow> request \<Rightarrow> string \<Rightarrow> int \<Rightarrow> capture \<Rightarrow> capture" where
  "http_Redirect io r target code w =
     (let url = (case url_parse (io_lib io) target of
            Some u \<Rightarrow> if u_scheme u = [] \<and> u_host u = [] then io_relative io r target else target
          | None \<Rightarrow> target);
          w1 = set_header ''Location'' (hexEscapeNonASCII url) w;
          w2 = (if rq_method r = ''GET'' \<or> rq_method r = ''HEAD''
                then set_header ''Content-Type'' ''text/html; charset=utf-8'' w1 else w1);
          w3 = capture_WriteHeader code w2 in
      if rq_method r = ''GET''
      then write_line io (''<a href='' @ [CHR 0x22] @ htmlEscape url @ [CHR 0x22] @ ''>'' @ StatusText code @ ''</a>.'' @ [CHR 0x0A, CHR 0x0A]) w3
      else w3)"

definition redirectURL :: "golib \<Rightarrow> runtime \<Rightarrow> request \<Rightarrow> string" where
  "redirectURL L rt r =
     (let host = Hostname L (rq_host r);
          host' = (case SplitHostPort (hs_listen (c_https (rt_config rt))) of
              Some (_, httpsPort) \<Rightarrow> if httpsPort \<noteq> ''443'' then JoinHostPort host httpsPort else host
            | None \<Rightarrow> host) in
      ''https://'' @ host' @ url_RequestURI (rq_url r))"

definition routeRedirectURL :: "route \<Rightarrow> request \<Rightarrow> string" where
  "routeRedirectURL ro r =
     (let target = replacer [(''{host}'', rq_host r), (''{request_uri}'', url_RequestURI (rq_url r)),
            (''{path}'', EscapedPath (rq_url r)), (''{query}'', u_rawquery (rq_url r))]
            (rd_url (vh_redirect (ro_vhost ro))) in
      if HasPrefix target ''/'' then (if rq_tls r then ''https'' else ''http'') @ ''://'' @ rq_host r @ target
      else target)"

subsection \<open>The body that is inspected\<close>

definition validRequestID :: "string \<Rightarrow> bool" where
  "validRequestID v =
     (v \<noteq> [] \<and> length v \<le> 128 \<and>
      list_all (\<lambda>c. is_lower c \<or> is_upper c \<or> is_digit c \<or> c \<in> set ''-_.:'') v)"

datatype body_error = BodyTooLarge | UnsupportedEncoding string | BodyError string

text \<open>\<open>io.ReadAll (io.LimitReader s n)\<close>: the error that ends a stream is met only by reading past its last byte.\<close>

definition read_limited :: "string \<Rightarrow> string option \<Rightarrow> int \<Rightarrow> string + string" where
  "read_limited bytes err n =
     (if n \<le> int (length bytes) then Inr (take (nat n) bytes)
      else case err of Some e \<Rightarrow> Inl e | None \<Rightarrow> Inr bytes)"

definition gunzip_limited :: "app_io \<Rightarrow> string \<Rightarrow> int \<Rightarrow> body_error + string" where
  "gunzip_limited io raw limit =
     (case io_gzip io raw of
        Inl e \<Rightarrow> Inl (BodyError (''open gzip request body: '' @ e))
      | Inr g \<Rightarrow>
          (case read_limited (gz_bytes g) (gz_readErr g) (limit + 1) of
             Inl e \<Rightarrow> Inl (BodyError e)
           | Inr out \<Rightarrow>
               (case gz_closeErr g of
                  Some e \<Rightarrow> Inl (BodyError e)
                | None \<Rightarrow> if limit < int (length out) then Inl BodyTooLarge else Inr out)))"

definition content_encoding :: "golib \<Rightarrow> request \<Rightarrow> string" where
  "content_encoding L r = ToLower L (TrimSpace (Join (header_values (rq_header r) ''Content-Encoding'') '',''))"

definition restore_body :: "string \<Rightarrow> request \<Rightarrow> request" where
  "restore_body raw r =
     (let r' = r\<lparr>rq_body := raw\<rparr> in
      if rq_transferEncoding r = [] then r'\<lparr>rq_contentLength := int (length raw)\<rparr> else r')"

text \<open>The request comes back with the bytes that were read put back as its body.\<close>

definition inspectionBody :: "app_io \<Rightarrow> request \<Rightarrow> int \<Rightarrow> request \<times> (body_error + string)" where
  "inspectionBody io r limit =
     (case io_stream io of
        NoBody \<Rightarrow> (r, Inr [])
      | Stream err \<Rightarrow>
          (case read_limited (rq_body r) err (limit + 1) of
             Inl e \<Rightarrow> (r, Inl (BodyError e))
           | Inr raw \<Rightarrow>
               if limit < int (length raw) then (r, Inl BodyTooLarge)
               else let r' = restore_body raw r; enc = content_encoding (io_lib io) r in
                 if enc \<noteq> [] \<and> enc \<noteq> ''identity'' \<and> enc \<noteq> ''gzip'' then (r', Inl (UnsupportedEncoding enc))
                 else if enc = ''gzip'' then (r', gunzip_limited io raw limit)
                 else (r', Inr raw)))"

text \<open>A panic of the engine is recovered into an error; the decision then keeps its zero value.\<close>

definition inspectRoute :: "app_io \<Rightarrow> route option \<Rightarrow> request \<Rightarrow> string \<Rightarrow> decision \<times> string option" where
  "inspectRoute io ro r body =
     (case Option.bind ro ro_engine of
        None \<Rightarrow> (no_decision, None)
      | Some e \<Rightarrow>
          (case io_panic io r body of
             Some p \<Rightarrow> (no_decision, Some (''WAF engine panic: '' @ p))
           | None \<Rightarrow> (waf_Inspect (io_lib io) e (Some r) body, None)))"

subsection \<open>The state of the handler\<close>

record ctx =
  cx_runtime :: runtime
  cx_metrics :: metrics
  cx_logger :: logger
  cx_capture :: capture
  cx_request :: request
  cx_id :: string
  cx_route :: "nat option"
  cx_client :: string
  cx_upstream :: string
  cx_forwarded :: "(request \<times> served) option"

type_synonym stage = "ctx \<Rightarrow> ctx + ctx"

definition and_then :: "stage \<Rightarrow> stage \<Rightarrow> stage" where
  "and_then f g = (\<lambda>c. case f c of Inl d \<Rightarrow> Inl d | Inr d \<Rightarrow> g d)"

fun in_order :: "stage list \<Rightarrow> stage" where
  "in_order [] = Inr"
| "in_order (f # fs) = and_then f (in_order fs)"

definition the_route :: "ctx \<Rightarrow> route" where
  "the_route c = rt_routes (cx_runtime c) ! the (cx_route c)"

definition set_route :: "route \<Rightarrow> ctx \<Rightarrow> ctx" where
  "set_route ro c =
     (case cx_route c of
        Some i \<Rightarrow> c\<lparr>cx_runtime := (cx_runtime c)\<lparr>rt_routes := (rt_routes (cx_runtime c))[i := ro]\<rparr>\<rparr>
      | None \<Rightarrow> c)"

definition upd_metrics :: "(metrics \<Rightarrow> metrics) \<Rightarrow> ctx \<Rightarrow> ctx" where
  "upd_metrics f c = c\<lparr>cx_metrics := f (cx_metrics c)\<rparr>"

definition upd_capture :: "(capture \<Rightarrow> capture) \<Rightarrow> ctx \<Rightarrow> ctx" where
  "upd_capture f c = c\<lparr>cx_capture := f (cx_capture c)\<rparr>"

definition security_event :: "app_io \<Rightarrow> ctx \<Rightarrow> string \<Rightarrow> int \<Rightarrow> string \<Rightarrow> rule_match list \<Rightarrow> sec_event" where
  "security_event io c action score reason matches =
     \<lparr>se_time = io_now io, se_requestID = cx_id c, se_clientIP = cx_client c,
      se_vhost = vh_name (ro_vhost (the_route c)), se_host = rq_host (cx_request c),
      se_method = rq_method (cx_request c), se_path = EscapedPath (rq_url (cx_request c)),
      se_action = action, se_score = score, se_reason = reason, se_matches = matches,
      se_geo = trustedRequestGeo (io_lib io) (io_float io) (cx_request c) (Some (rt_trusted (cx_runtime c)))\<rparr>"

definition emit_security :: "sec_event \<Rightarrow> ctx \<Rightarrow> ctx" where
  "emit_security e c = c\<lparr>cx_logger := logger_Security e (cx_logger c)\<rparr>"

definition logSyntheticSecurity :: "app_io \<Rightarrow> string \<Rightarrow> int \<Rightarrow> string \<Rightarrow> ctx \<Rightarrow> ctx" where
  "logSyntheticSecurity io action score reason c =
     (if cx_route c = None then c else emit_security (security_event io c action score reason []) c)"

definition reply :: "app_io \<Rightarrow> int \<Rightarrow> string \<Rightarrow> ctx \<Rightarrow> ctx" where
  "reply io status msg c =
     upd_capture (writeJSON io status [(''error'', JStr msg), (''request_id'', JStr (cx_id c))]) c"

subsection \<open>The checks, in the order of the code\<close>

definition route_stage :: "app_io \<Rightarrow> stage" where
  "route_stage io c =
     (case Route (io_lib io) (Some (cx_runtime c)) (rq_host (cx_request c)) of
        None \<Rightarrow> Inl (reply io 421 ''unknown virtual host'' c)
      | Some i \<Rightarrow> Inr (c\<lparr>cx_route := Some i\<rparr>))"

definition sni_mismatch :: "app_io \<Rightarrow> request \<Rightarrow> bool" where
  "sni_mismatch io r =
     (case io_sni io of
        None \<Rightarrow> False
      | Some name \<Rightarrow> let sni = Hostname (io_lib io) name in sni \<noteq> [] \<and> sni \<noteq> Hostname (io_lib io) (rq_host r))"

definition sni_stage :: "app_io \<Rightarrow> bool \<Rightarrow> stage" where
  "sni_stage io isHTTPS c =
     (if isHTTPS \<and> sni_mismatch io (cx_request c) then Inl (reply io 421 ''TLS SNI and HTTP Host do not match'' c)
      else Inr c)"

definition client_of :: "runtime \<Rightarrow> request \<Rightarrow> string" where
  "client_of rt r =
     ClientIP (rq_remoteAddr r) (header_get (rq_header r) (sec_fwdHeader (c_security (rt_config rt)))) (Some (rt_trusted rt))"

definition client_stage :: "stage" where
  "client_stage c = Inr (c\<lparr>cx_client := client_of (cx_runtime c) (cx_request c)\<rparr>)"

definition access_stage :: "app_io \<Rightarrow> stage" where
  "access_stage io c =
     (case Allowed (ro_access (the_route c)) (cx_client c) of
        (True, _) \<Rightarrow> Inr c
      | (False, reason) \<Rightarrow>
          Inl (reply io 403 reason (logSyntheticSecurity io ''access_block'' 20 reason (upd_metrics metric_Blocked c))))"

definition reputation_stage :: "app_io \<Rightarrow> stage" where
  "reputation_stage io c =
     (case Lookup (rt_reputation (cx_runtime c)) (cx_client c) of
        None \<Rightarrow> Inr c
      | Some m \<Rightarrow>
          let blk = (rm_mode m = ''block'');
              c1 = logSyntheticSecurity io (if blk then ''reputation_block'' else ''reputation_monitor'') 10
                     (rm_reason m @ '' ('' @ rm_prefix m @ '')'') c in
          if blk then Inl (reply io 403 ''client IP blocked by reputation policy'' (upd_metrics metric_Blocked c1))
          else Inr c1)"

definition https_stage :: "app_io \<Rightarrow> bool \<Rightarrow> stage" where
  "https_stage io isHTTPS c =
     (if \<not> isHTTPS \<and> h_redirect (c_http (rt_config (cx_runtime c)))
      then Inl (upd_capture (http_Redirect io (cx_request c) (redirectURL (io_lib io) (cx_runtime c) (cx_request c)) 308) c)
      else Inr c)"

definition rate_key :: "route \<Rightarrow> string \<Rightarrow> string" where
  "rate_key ro clientIP = vh_name (ro_vhost ro) @ ''|'' @ clientIP"

text \<open>The limiter of a route, shared or its own, is called and its state kept.\<close>

definition take_token :: "app_io \<Rightarrow> ctx \<Rightarrow> ctx \<times> bool" where
  "take_token io c =
     (let ro = the_route c; key = rate_key ro (cx_client c) in
      case ro_limiter ro of
        NoLimiter \<Rightarrow> (c, True)
      | SharedLimiter \<Rightarrow>
          (case rt_limiter (cx_runtime c) of
             None \<Rightarrow> (c, True)
           | Some l \<Rightarrow> (case Allow l (io_now io) key of
               (l', ok) \<Rightarrow> (c\<lparr>cx_runtime := (cx_runtime c)\<lparr>rt_limiter := Some l'\<rparr>\<rparr>, ok)))
      | OwnLimiter l \<Rightarrow>
          (case Allow l (io_now io) key of (l', ok) \<Rightarrow> (set_route (ro\<lparr>ro_limiter := OwnLimiter l'\<rparr>) c, ok)))"

definition rate_stage :: "app_io \<Rightarrow> stage" where
  "rate_stage io c =
     (case take_token io c of
        (c1, True) \<Rightarrow> Inr c1
      | (c1, False) \<Rightarrow>
          Inl (reply io 429 ''rate limit exceeded'' (logSyntheticSecurity io ''rate_limit'' 0 ''request rate exceeded''
            (upd_capture (set_header ''Retry-After'' ''1'') (upd_metrics metric_RateLimited c1)))))"

definition bot_stage :: "app_io \<Rightarrow> stage" where
  "bot_stage io c =
     (case bot_Inspect (ro_bot (the_route c)) (io_now io) (cx_client c) (header_get (rq_header (cx_request c)) ''User-Agent'') of
        (eng, d) \<Rightarrow>
          let c1 = set_route ((the_route c)\<lparr>ro_bot := eng\<rparr>) c in
          if \<not> bd_matched d then Inr c1
          else let c2 = logSyntheticSecurity io (if bd_blocked d then ''bot_block'' else ''bot_monitor'') 5 (bd_reason d) c1 in
            if \<not> bd_blocked d then Inr c2
            else let c3 = upd_metrics metric_Blocked c2 in
              if bd_kind d = ''rate''
              then Inl (reply io 429 ''request blocked by bot policy'' (upd_capture (set_header ''Retry-After'' ''1'') c3))
              else Inl (reply io 403 ''request blocked by bot policy'' c3))"

definition action_stage :: "app_io \<Rightarrow> stage" where
  "action_stage io c =
     (let v = ro_vhost (the_route c) in
      if vh_action v = ''redirect''
      then Inl (upd_capture (http_Redirect io (cx_request c) (routeRedirectURL (the_route c) (cx_request c)) (rd_status (vh_redirect v))) c)
      else if vh_action v = ''discard'' then Inl (reply io (vh_discard v) ''virtual service discarded request'' c)
      else Inr c)"

definition body_failed :: "app_io \<Rightarrow> body_error \<Rightarrow> ctx \<Rightarrow> ctx" where
  "body_failed io e c =
     (case e of
        UnsupportedEncoding enc \<Rightarrow>
          let msg = ''unsupported request content encoding: '' @ enc in
          reply io 415 msg (logSyntheticSecurity io ''block'' 10 msg (upd_metrics metric_Blocked c))
      | BodyTooLarge \<Rightarrow>
          reply io 413 ''request body too large''
            (logSyntheticSecurity io ''block'' 20 ''request body exceeds inspection limit'' (upd_metrics metric_BodyTooLarge c))
      | BodyError _ \<Rightarrow> reply io 400 ''unable to inspect request body'' c)"

definition decide :: "app_io \<Rightarrow> ctx \<Rightarrow> ctx + ctx \<times> decision" where
  "decide io c =
     (if ro_engine (the_route c) = None then Inr (c, no_decision)
      else case inspectionBody io (cx_request c) (ro_maxBody (the_route c)) of
        (r, Inl e) \<Rightarrow> Inl (body_failed io e (c\<lparr>cx_request := r\<rparr>))
      | (r, Inr body) \<Rightarrow>
          let c1 = c\<lparr>cx_request := r\<rparr> in
          (case inspectRoute io (Some (the_route c)) r body of
             (d, None) \<Rightarrow> Inr (c1, d)
           | (d, Some err) \<Rightarrow>
               let c2 = logSyntheticSecurity io ''waf_error'' 0 err c1 in
               if ro_failMode (the_route c) \<noteq> ''open''
               then Inl (reply io 503 ''WAF inspection unavailable'' (upd_metrics metric_Blocked c2))
               else Inr (c2, d)))"

definition blocked_reply :: "app_io \<Rightarrow> decision \<Rightarrow> ctx \<Rightarrow> ctx" where
  "blocked_reply io d c =
     upd_capture (\<lambda>w. writeJSON io 403 [(''error'', JStr ''request blocked by CherryWAF''), (''request_id'', JStr (cx_id c)),
       (''incident_score'', JInt (d_score d))] (set_header ''Cache-Control'' ''no-store'' w)) (upd_metrics metric_Blocked c)"

definition waf_stage :: "app_io \<Rightarrow> stage" where
  "waf_stage io c =
     (case decide io c of
        Inl c1 \<Rightarrow> Inl c1
      | Inr (c1, d) \<Rightarrow>
          let c2 = (if d_matches d = [] then c1
                    else emit_security (security_event io c1 (if d_blocked d then ''block'' else ''detect'') (d_score d) (d_reason d) (d_matches d)) c1) in
          if d_blocked d then Inl (blocked_reply io d c2) else Inr c2)"

definition proxy_error :: "app_io \<Rightarrow> int \<Rightarrow> string \<Rightarrow> request \<Rightarrow> capture \<Rightarrow> capture" where
  "proxy_error io status msg r w =
     write_line io (io_json io [(''error'', JStr msg), (''request_id'', JStr (header_get (rq_header r) ''X-Request-ID''))])
       (capture_WriteHeader status (set_header ''Cache-Control'' ''no-store'' (set_header ''Content-Type'' ''application/json'' w)))"

definition served_capture :: "app_io \<Rightarrow> request \<Rightarrow> served \<Rightarrow> capture \<Rightarrow> capture" where
  "served_capture io r s w =
     (case s of
        Unavailable msg \<Rightarrow> proxy_error io 503 msg r w
      | BadGateway _ \<Rightarrow> proxy_error io 502 ''upstream unavailable'' r w
      | Served resp \<Rightarrow>
          capture_ReadFrom (io_respBytes io)
            (capture_WriteHeader (rs_status resp)
              (w\<lparr>ca_header := foldl (\<lambda>h (k, vs). foldl (\<lambda>h v. header_add h k v) h vs) (ca_header w) (rs_header resp)\<rparr>)))"

definition forward_stage :: "app_io \<Rightarrow> stage" where
  "forward_stage io c =
     (case ro_backend (the_route c) of
        None \<Rightarrow> Inl (reply io 503 ''virtual service backend unavailable'' c)
      | Some b \<Rightarrow>
          (case proxy_ServeHTTP (io_lib io) (io_token io) (io_send io) (io_prepare io) (io_fresh io) b (cx_request c) (cx_client c) of
             (b', s, upstream) \<Rightarrow>
               let c1 = set_route ((the_route c)\<lparr>ro_backend := Some b'\<rparr>) c;
                   c2 = (case s of BadGateway _ \<Rightarrow> upd_metrics metric_UpstreamError c1 | _ \<Rightarrow> c1) in
               Inl (upd_capture (served_capture io (cx_request c) s) c2
                 \<lparr>cx_upstream := upstream, cx_forwarded := Some (cx_request c, s)\<rparr>)))"

definition stages :: "app_io \<Rightarrow> bool \<Rightarrow> stage list" where
  "stages io isHTTPS = [route_stage io, sni_stage io isHTTPS, client_stage, access_stage io, reputation_stage io,
     https_stage io isHTTPS, rate_stage io, bot_stage io, action_stage io, waf_stage io, forward_stage io]"

subsection \<open>The handler\<close>

text \<open>The application: its counters, the current runtime with its logger, and the retired ones.\<close>

record app =
  a_metrics :: metrics
  a_current :: "(runtime \<times> logger) option"
  a_retired :: "(runtime \<times> logger) list"

definition request_id :: "app_io \<Rightarrow> request \<Rightarrow> string" where
  "request_id io r = (let v = header_get (rq_header r) ''X-Request-ID'' in if validRequestID v then v else io_fresh io)"

definition new_capture :: "string \<Rightarrow> capture" where
  "new_capture rid = set_header ''Server'' ''CherryWAF'' (set_header ''X-Request-ID'' rid
     \<lparr>ca_header = [], ca_status = 200, ca_bytes = 0, ca_wrote = False\<rparr>)"

definition identified :: "app_io \<Rightarrow> request \<Rightarrow> request" where
  "identified io r = r\<lparr>rq_header := header_set (rq_header r) ''X-Request-ID'' (request_id io r)\<rparr>"

definition arrive :: "app_io \<Rightarrow> metrics \<Rightarrow> runtime \<Rightarrow> logger \<Rightarrow> request \<Rightarrow> ctx" where
  "arrive io m rt lg r =
     (let rid = request_id io r in
      \<lparr>cx_runtime = rt, cx_metrics = RequestStarted m, cx_logger = lg, cx_capture = new_capture rid,
       cx_request = identified io r, cx_id = rid, cx_route = None,
       cx_client = ''unknown'', cx_upstream = [], cx_forwarded = None\<rparr>)"

definition handle :: "app_io \<Rightarrow> bool \<Rightarrow> ctx \<Rightarrow> ctx" where
  "handle io isHTTPS c = (case in_order (stages io isHTTPS) c of Inl d \<Rightarrow> d | Inr d \<Rightarrow> d)"

text \<open>The deferred function: the request is counted and its access event written.\<close>

definition access_of :: "app_io \<Rightarrow> ctx \<Rightarrow> access_event" where
  "access_of io c =
     \<lparr>ae_time = io_finished io, ae_requestID = cx_id c, ae_clientIP = cx_client c,
      ae_vhost = (if cx_route c = None then [] else vh_name (ro_vhost (the_route c))),
      ae_host = rq_host (cx_request c), ae_method = rq_method (cx_request c), ae_path = EscapedPath (rq_url (cx_request c)),
      ae_protocol = io_proto io, ae_status = ca_status (cx_capture c), ae_bytes = ca_bytes (cx_capture c),
      ae_duration = time_sub (io_finished io) (io_started io) div 1000,
      ae_upstream = (if cx_route c = None \<or> cx_upstream c \<noteq> [] then cx_upstream c
        else case ro_backend (the_route c) of None \<Rightarrow> [] | Some b \<Rightarrow> Upstream (io_lib io) b)\<rparr>"

definition finish :: "app_io \<Rightarrow> ctx \<Rightarrow> ctx" where
  "finish io c =
     c\<lparr>cx_metrics := RequestFinished (ca_status (cx_capture c)) (time_sub (io_finished io) (io_started io)) (cx_metrics c),
       cx_logger := logger_Access (access_of io c) (cx_logger c)\<rparr>"

definition unavailable :: "app_io \<Rightarrow> request \<Rightarrow> capture" where
  "unavailable io r = writeJSON io 503 [(''error'', JStr ''WAF runtime unavailable''), (''request_id'', JStr (request_id io r))]
     (new_capture (request_id io r))"

definition publicHandler :: "app_io \<Rightarrow> bool \<Rightarrow> app \<Rightarrow> request \<Rightarrow> app \<times> capture \<times> (request \<times> served) option" where
  "publicHandler io isHTTPS a r =
     (case a_current a of
        None \<Rightarrow>
          let w = unavailable io r in
          (a\<lparr>a_metrics := RequestFinished (ca_status w) (time_sub (io_finished io) (io_started io)) (RequestStarted (a_metrics a))\<rparr>, w, None)
      | Some (rt, lg) \<Rightarrow>
          let c = finish io (handle io isHTTPS (arrive io (a_metrics a) rt lg r)) in
          (a\<lparr>a_metrics := cx_metrics c, a_current := Some (cx_runtime c, cx_logger c)\<rparr>, cx_capture c, cx_forwarded c))"

subsection \<open>The admission table\<close>

text \<open>
  What the handler promises, as a table: whether and with which status a request is refused, from the
  runtime and the request alone. The first row that applies decides.
\<close>

definition rate_admits :: "app_io \<Rightarrow> runtime \<Rightarrow> route \<Rightarrow> string \<Rightarrow> bool" where
  "rate_admits io rt ro ip =
     (case ro_limiter ro of
        NoLimiter \<Rightarrow> True
      | SharedLimiter \<Rightarrow> (case rt_limiter rt of None \<Rightarrow> True | Some l \<Rightarrow> snd (Allow l (io_now io) (rate_key ro ip)))
      | OwnLimiter l \<Rightarrow> snd (Allow l (io_now io) (rate_key ro ip)))"

definition bot_says :: "app_io \<Rightarrow> route \<Rightarrow> string \<Rightarrow> request \<Rightarrow> bot_decision" where
  "bot_says io ro ip r = snd (bot_Inspect (ro_bot ro) (io_now io) ip (header_get (rq_header r) ''User-Agent''))"

definition body_status :: "body_error \<Rightarrow> int" where
  "body_status e = (case e of UnsupportedEncoding _ \<Rightarrow> 415 | BodyTooLarge \<Rightarrow> 413 | BodyError _ \<Rightarrow> 400)"

definition waf_refusal :: "app_io \<Rightarrow> route \<Rightarrow> request \<Rightarrow> int option" where
  "waf_refusal io ro r =
     (if ro_engine ro = None then None
      else case inspectionBody io r (ro_maxBody ro) of
        (_, Inl e) \<Rightarrow> Some (body_status e)
      | (r', Inr body) \<Rightarrow>
          (case inspectRoute io (Some ro) r' body of
             (_, Some _) \<Rightarrow> if ro_failMode ro = ''open'' then None else Some 503
           | (d, None) \<Rightarrow> if d_blocked d then Some 403 else None))"

definition refuse_if :: "bool \<Rightarrow> int \<Rightarrow> int option" where
  "refuse_if b s = (if b then Some s else None)"

definition bot_refusal :: "bot_decision \<Rightarrow> int option" where
  "bot_refusal b = refuse_if (bd_matched b \<and> bd_blocked b) (if bd_kind b = ''rate'' then 429 else 403)"

definition action_refusal :: "virtual_host \<Rightarrow> int option" where
  "action_refusal v =
     (if vh_action v = ''redirect'' then Some (rd_status (vh_redirect v))
      else if vh_action v = ''discard'' then Some (vh_discard v) else None)"

fun first_some :: "'a option list \<Rightarrow> 'a option" where
  "first_some [] = None"
| "first_some (x # xs) = (case x of Some v \<Rightarrow> Some v | None \<Rightarrow> first_some xs)"

definition rows :: "app_io \<Rightarrow> bool \<Rightarrow> runtime \<Rightarrow> route \<Rightarrow> string \<Rightarrow> request \<Rightarrow> int option list" where
  "rows io isHTTPS rt ro ip r =
     [refuse_if (isHTTPS \<and> sni_mismatch io r) 421,
      refuse_if (\<not> fst (Allowed (ro_access ro) ip)) 403,
      refuse_if (map_option rm_mode (Lookup (rt_reputation rt) ip) = Some ''block'') 403,
      refuse_if (\<not> isHTTPS \<and> h_redirect (c_http (rt_config rt))) 308,
      refuse_if (\<not> rate_admits io rt ro ip) 429,
      bot_refusal (bot_says io ro ip r),
      action_refusal (ro_vhost ro),
      waf_refusal io ro r,
      refuse_if (ro_backend ro = None) 503]"

definition admission :: "app_io \<Rightarrow> bool \<Rightarrow> runtime \<Rightarrow> request \<Rightarrow> int option" where
  "admission io isHTTPS rt r =
     (case Route (io_lib io) (Some rt) (rq_host r) of
        None \<Rightarrow> Some 421
      | Some i \<Rightarrow> first_some (rows io isHTTPS rt (rt_routes rt ! i) (client_of rt r) r))"

subsection \<open>The stages implement the rows\<close>

definition refused :: "int \<Rightarrow> ctx + ctx \<Rightarrow> bool" where
  "refused s x = (case x of Inl d \<Rightarrow> ca_status (cx_capture d) = s \<and> cx_forwarded d = None | Inr _ \<Rightarrow> False)"

definition pristine :: "ctx \<Rightarrow> bool" where
  "pristine c \<longleftrightarrow> \<not> ca_wrote (cx_capture c) \<and> cx_forwarded c = None"

named_theorems ctx_defs \<open>the updates a stage makes\<close>
declare upd_capture_def [ctx_defs] upd_metrics_def [ctx_defs] emit_security_def [ctx_defs]
  logSyntheticSecurity_def [ctx_defs] reply_def [ctx_defs]

lemma status_writeJSON [simp]:
  "\<not> ca_wrote w \<Longrightarrow> ca_status (writeJSON io s v w) = s"
  by (simp add: writeJSON_def write_line_def capture_Write_def capture_WriteHeader_def set_header_def Let_def)

lemma wrote_set_header [simp]: "ca_wrote (set_header k v w) = ca_wrote w"
  by (simp add: set_header_def)

lemma status_Redirect [simp]: "\<not> ca_wrote w \<Longrightarrow> ca_status (http_Redirect io r u s w) = s"
  by (simp add: http_Redirect_def write_line_def capture_Write_def capture_WriteHeader_def set_header_def Let_def split: option.split)

lemma reply_refused: "pristine c \<Longrightarrow> refused s (Inl (reply io s msg c))"
  by (simp add: refused_def pristine_def ctx_defs)

lemma pristine_simps [simp]:
  "pristine (upd_metrics f c) = pristine c"
  "pristine (logSyntheticSecurity io act sc why c) = pristine c"
  "pristine (emit_security e c) = pristine c"
  "pristine (c\<lparr>cx_request := r\<rparr>) = pristine c"
  "pristine (c\<lparr>cx_route := q\<rparr>) = pristine c"
  "pristine (c\<lparr>cx_client := ip\<rparr>) = pristine c"
  "pristine (c\<lparr>cx_runtime := rt\<rparr>) = pristine c"
  "pristine (upd_capture (set_header k v) c) = pristine c"
  "pristine (set_route ro c) = pristine c"
  by (simp_all add: pristine_def ctx_defs set_route_def split: option.split)

text \<open>What the limiter and the bot engine of a route cannot change.\<close>

definition static :: "route \<Rightarrow> virtual_host \<times> backend option \<times> waf_engine option \<times> int \<times> string" where
  "static ro = (ro_vhost ro, ro_backend ro, ro_engine ro, ro_maxBody ro, ro_failMode ro)"

definition settled :: "ctx \<Rightarrow> ctx \<Rightarrow> bool" where
  "settled c d \<longleftrightarrow> cx_request d = cx_request c \<and> cx_route d = cx_route c \<and> cx_client d = cx_client c
     \<and> rt_config (cx_runtime d) = rt_config (cx_runtime c) \<and> static (the_route d) = static (the_route c)"

definition in_table :: "ctx \<Rightarrow> bool" where
  "in_table c = (case cx_route c of None \<Rightarrow> False | Some i \<Rightarrow> i < length (rt_routes (cx_runtime c)))"

lemma in_table_upd [simp]:
  "in_table (c\<lparr>cx_request := r\<rparr>) = in_table c" "in_table (c\<lparr>cx_logger := lg\<rparr>) = in_table c"
  "in_table (emit_security e c) = in_table c"
  by (simp_all add: in_table_def emit_security_def split: option.split)

lemma the_route_set_route [simp]: "in_table c \<Longrightarrow> the_route (set_route ro c) = ro"
  by (auto simp: in_table_def the_route_def set_route_def split: option.splits)

lemma set_route_simps [simp]:
  "cx_request (set_route ro c) = cx_request c" "cx_route (set_route ro c) = cx_route c"
  "cx_client (set_route ro c) = cx_client c" "rt_config (cx_runtime (set_route ro c)) = rt_config (cx_runtime c)"
  "in_table (set_route ro c) = in_table c"
  by (auto simp: set_route_def in_table_def split: option.splits)

lemma log_simps [simp]:
  "cx_request (logSyntheticSecurity io act sc why c) = cx_request c" "cx_route (logSyntheticSecurity io act sc why c) = cx_route c"
  "cx_client (logSyntheticSecurity io act sc why c) = cx_client c" "cx_runtime (logSyntheticSecurity io act sc why c) = cx_runtime c"
  "the_route (logSyntheticSecurity io act sc why c) = the_route c" "in_table (logSyntheticSecurity io act sc why c) = in_table c"
  by (simp_all add: ctx_defs the_route_def in_table_def split: option.split)

lemma access_row:
  assumes "pristine c"
  shows "if fst (Allowed (ro_access (the_route c)) (cx_client c)) then access_stage io c = Inr c else refused 403 (access_stage io c)"
  using assms by (auto simp: access_stage_def intro!: reply_refused split: prod.split bool.split)

lemma reputation_row:
  assumes "pristine c"
  shows "if map_option rm_mode (Lookup (rt_reputation (cx_runtime c)) (cx_client c)) = Some ''block''
    then refused 403 (reputation_stage io c)
    else \<exists>d. reputation_stage io c = Inr d \<and> pristine d \<and> cx_request d = cx_request c \<and> cx_route d = cx_route c
      \<and> cx_client d = cx_client c \<and> cx_runtime d = cx_runtime c"
  using assms by (auto simp: reputation_stage_def Let_def intro!: reply_refused split: option.split)

lemma take_token_row:
  assumes "in_table c"
  shows "snd (take_token io c) = rate_admits io (cx_runtime c) (the_route c) (cx_client c)
    \<and> settled c (fst (take_token io c)) \<and> ro_bot (the_route (fst (take_token io c))) = ro_bot (the_route c)
    \<and> pristine (fst (take_token io c)) = pristine c \<and> in_table (fst (take_token io c))"
proof (cases "ro_limiter (the_route c)")
  case SharedLimiter
  then show ?thesis using assms
    by (auto simp: take_token_def rate_admits_def settled_def Let_def static_def the_route_def in_table_def
        split: option.splits prod.splits)
qed (use assms in \<open>auto simp: take_token_def rate_admits_def settled_def Let_def static_def split: prod.splits\<close>)

lemma rate_row:
  assumes "pristine c" "in_table c"
  shows "if rate_admits io (cx_runtime c) (the_route c) (cx_client c)
    then \<exists>d. rate_stage io c = Inr d \<and> pristine d \<and> in_table d \<and> settled c d \<and> ro_bot (the_route d) = ro_bot (the_route c)
    else refused 429 (rate_stage io c)"
  using take_token_row [OF assms(2), of io] assms(1)
  by (auto simp: rate_stage_def intro!: reply_refused split: prod.split bool.split)

lemma bot_row:
  assumes "pristine c" "in_table c"
  shows "let b = bot_says io (the_route c) (cx_client c) (cx_request c) in
    if bd_matched b \<and> bd_blocked b then refused (if bd_kind b = ''rate'' then 429 else 403) (bot_stage io c)
    else \<exists>d. bot_stage io c = Inr d \<and> pristine d \<and> in_table d \<and> settled c d"
  using assms
  by (auto simp: bot_stage_def bot_says_def Let_def settled_def static_def intro!: reply_refused split: prod.split)

lemma body_failed_refused: "pristine c \<Longrightarrow> refused (body_status e) (Inl (body_failed io e c))"
  by (auto simp: body_failed_def body_status_def Let_def intro!: reply_refused split: body_error.split)

lemma blocked_reply_refused: "pristine c \<Longrightarrow> refused 403 (Inl (blocked_reply io d c))"
  by (simp add: blocked_reply_def refused_def pristine_def ctx_defs)

lemma emit_simps [simp]:
  "cx_request (emit_security e c) = cx_request c" "cx_route (emit_security e c) = cx_route c"
  "cx_client (emit_security e c) = cx_client c" "cx_runtime (emit_security e c) = cx_runtime c"
  by (simp_all add: emit_security_def)

lemma waf_row:
  assumes "pristine c" "in_table c"
  shows "case waf_refusal io (the_route c) (cx_request c) of
      Some s \<Rightarrow> refused s (waf_stage io c)
    | None \<Rightarrow> \<exists>d. waf_stage io c = Inr d \<and> pristine d \<and> in_table d \<and> cx_route d = cx_route c \<and> cx_client d = cx_client c
        \<and> cx_runtime d = cx_runtime c
        \<and> cx_request d = (if ro_engine (the_route c) = None then cx_request c
            else fst (inspectionBody io (cx_request c) (ro_maxBody (the_route c))))"
proof (cases "ro_engine (the_route c)")
  case None
  then show ?thesis using assms by (simp add: waf_refusal_def waf_stage_def decide_def no_decision_def)
next
  case (Some e)
  let ?ib = "inspectionBody io (cx_request c) (ro_maxBody (the_route c))"
  show ?thesis
  proof (cases "snd ?ib")
    case (Inl err)
    then show ?thesis using assms Some
      by (auto simp: waf_refusal_def waf_stage_def decide_def body_failed_refused split: prod.splits)
  next
    case (Inr body)
    then show ?thesis using assms Some
      by (auto simp: waf_refusal_def waf_stage_def decide_def inspectRoute_def Let_def no_decision_def intro!: reply_refused blocked_reply_refused split: prod.splits option.splits)
  qed
qed

subsection \<open>The stages in order implement the table\<close>

definition implements :: "ctx + ctx \<Rightarrow> int option \<Rightarrow> request \<Rightarrow> bool" where
  "implements x adm out =
     (case adm of
        Some s \<Rightarrow> refused s x
      | None \<Rightarrow> (case x of Inl d \<Rightarrow> map_option fst (cx_forwarded d) = Some out | Inr _ \<Rightarrow> False))"

lemma step_row:
  assumes "\<And>s. row = Some s \<Longrightarrow> refused s (f c)"
    and "row = None \<Longrightarrow> \<exists>d. f c = Inr d \<and> implements (in_order fs d) (first_some rest) out"
  shows "implements (in_order (f # fs) c) (first_some (row # rest)) out"
proof (cases row)
  case None
  with assms(2) show ?thesis by (auto simp: and_then_def)
next
  case (Some s)
  with assms(1) [OF Some] show ?thesis
    by (auto simp: implements_def and_then_def refused_def split: sum.splits)
qed

definition inspected :: "app_io \<Rightarrow> route \<Rightarrow> request \<Rightarrow> request" where
  "inspected io ro r = (if ro_engine ro = None then r else fst (inspectionBody io r (ro_maxBody ro)))"

lemma forward_tail:
  "pristine c \<Longrightarrow> implements (in_order [forward_stage io] c)
     (first_some [refuse_if (ro_backend (the_route c) = None) 503]) (cx_request c)"
  using reply_refused [of c 503 io "''virtual service backend unavailable''"]
  by (auto simp: forward_stage_def refuse_if_def implements_def and_then_def Let_def split: option.split prod.split)

lemma waf_tail:
  assumes "pristine c" "in_table c"
  shows "implements (in_order [waf_stage io, forward_stage io] c)
    (first_some [waf_refusal io (the_route c) (cx_request c), refuse_if (ro_backend (the_route c) = None) 503])
    (inspected io (the_route c) (cx_request c))"
proof (rule step_row)
  fix s
  assume "waf_refusal io (the_route c) (cx_request c) = Some s"
  then show "refused s (waf_stage io c)" using waf_row [OF assms, of io] by simp
next
  assume "waf_refusal io (the_route c) (cx_request c) = None"
  then obtain d where d: "waf_stage io c = Inr d" "pristine d" "cx_route d = cx_route c" "cx_runtime d = cx_runtime c"
    "cx_request d = inspected io (the_route c) (cx_request c)"
    using waf_row [OF assms, of io] by (auto simp: inspected_def)
  then have "the_route d = the_route c" by (simp add: the_route_def)
  with d forward_tail [OF d(2), of io]
  show "\<exists>d. waf_stage io c = Inr d \<and> implements (in_order [forward_stage io] d)
      (first_some [refuse_if (ro_backend (the_route c) = None) 503]) (inspected io (the_route c) (cx_request c))"
    by auto
qed

definition late_rows :: "app_io \<Rightarrow> route \<Rightarrow> request \<Rightarrow> int option list" where
  "late_rows io ro r = [action_refusal (ro_vhost ro), waf_refusal io ro r, refuse_if (ro_backend ro = None) 503]"

lemma action_tail:
  assumes "pristine c" "in_table c"
  shows "implements (in_order [action_stage io, waf_stage io, forward_stage io] c)
    (first_some (late_rows io (the_route c) (cx_request c))) (inspected io (the_route c) (cx_request c))"
  unfolding late_rows_def
proof (rule step_row)
  fix s
  assume "action_refusal (ro_vhost (the_route c)) = Some s"
  then show "refused s (action_stage io c)"
    using assms(1) reply_refused [OF assms(1)]
    by (auto simp: action_refusal_def action_stage_def Let_def refused_def pristine_def upd_capture_def split: if_splits)
next
  assume "action_refusal (ro_vhost (the_route c)) = None"
  then have "action_stage io c = Inr c" by (auto simp: action_refusal_def action_stage_def Let_def split: if_splits)
  with waf_tail [OF assms]
  show "\<exists>d. action_stage io c = Inr d \<and> implements (in_order [waf_stage io, forward_stage io] d)
      (first_some [waf_refusal io (the_route c) (cx_request c), refuse_if (ro_backend (the_route c) = None) 503])
      (inspected io (the_route c) (cx_request c))" by blast
qed

lemma static_rows:
  assumes "static ro = static ro'"
  shows "late_rows io ro r = late_rows io ro' r" "inspected io ro r = inspected io ro' r"
  using assms by (auto simp: static_def late_rows_def inspected_def waf_refusal_def inspectRoute_def split: option.splits)

lemma bot_tail:
  assumes "pristine c" "in_table c"
  shows "implements (in_order [bot_stage io, action_stage io, waf_stage io, forward_stage io] c)
    (first_some (bot_refusal (bot_says io (the_route c) (cx_client c) (cx_request c)) # late_rows io (the_route c) (cx_request c)))
    (inspected io (the_route c) (cx_request c))"
proof (rule step_row)
  fix s
  assume "bot_refusal (bot_says io (the_route c) (cx_client c) (cx_request c)) = Some s"
  then show "refused s (bot_stage io c)"
    using bot_row [OF assms, of io] by (auto simp: bot_refusal_def refuse_if_def Let_def split: if_splits)
next
  assume "bot_refusal (bot_says io (the_route c) (cx_client c) (cx_request c)) = None"
  then obtain d where d: "bot_stage io c = Inr d" "pristine d" "in_table d" "settled c d"
    using bot_row [OF assms, of io] by (auto simp: bot_refusal_def refuse_if_def Let_def split: if_splits)
  then have e: "static (the_route d) = static (the_route c)" and "cx_request d = cx_request c" by (simp_all add: settled_def)
  with action_tail [OF d(2,3), of io] d(1)
  show "\<exists>d. bot_stage io c = Inr d \<and> implements (in_order [action_stage io, waf_stage io, forward_stage io] d)
      (first_some (late_rows io (the_route c) (cx_request c))) (inspected io (the_route c) (cx_request c))"
    by (simp add: static_rows [OF e])
qed

lemma rate_tail:
  assumes "pristine c" "in_table c"
  shows "implements (in_order [rate_stage io, bot_stage io, action_stage io, waf_stage io, forward_stage io] c)
    (first_some (refuse_if (\<not> rate_admits io (cx_runtime c) (the_route c) (cx_client c)) 429
      # bot_refusal (bot_says io (the_route c) (cx_client c) (cx_request c)) # late_rows io (the_route c) (cx_request c)))
    (inspected io (the_route c) (cx_request c))"
proof (rule step_row)
  fix s
  assume "refuse_if (\<not> rate_admits io (cx_runtime c) (the_route c) (cx_client c)) 429 = Some s"
  then show "refused s (rate_stage io c)" using rate_row [OF assms, of io] by (auto simp: refuse_if_def split: if_splits)
next
  assume "refuse_if (\<not> rate_admits io (cx_runtime c) (the_route c) (cx_client c)) 429 = None"
  then obtain d where d: "rate_stage io c = Inr d" "pristine d" "in_table d" "settled c d" "ro_bot (the_route d) = ro_bot (the_route c)"
    using rate_row [OF assms, of io] by (auto simp: refuse_if_def split: if_splits)
  then have e: "static (the_route d) = static (the_route c)" and "cx_request d = cx_request c" "cx_client d = cx_client c"
    by (simp_all add: settled_def)
  with bot_tail [OF d(2,3), of io] d(1,5)
  show "\<exists>d. rate_stage io c = Inr d \<and> implements (in_order [bot_stage io, action_stage io, waf_stage io, forward_stage io] d)
      (first_some (bot_refusal (bot_says io (the_route c) (cx_client c) (cx_request c)) # late_rows io (the_route c) (cx_request c)))
      (inspected io (the_route c) (cx_request c))"
    by (simp add: static_rows [OF e] bot_says_def)
qed

definition entry_rows :: "app_io \<Rightarrow> runtime \<Rightarrow> route \<Rightarrow> string \<Rightarrow> request \<Rightarrow> int option list" where
  "entry_rows io rt ro ip r = refuse_if (\<not> rate_admits io rt ro ip) 429 # bot_refusal (bot_says io ro ip r) # late_rows io ro r"

definition entry_stages :: "app_io \<Rightarrow> stage list" where
  "entry_stages io = [rate_stage io, bot_stage io, action_stage io, waf_stage io, forward_stage io]"

lemma https_tail:
  assumes "pristine c" "in_table c"
  shows "implements (in_order (https_stage io isHTTPS # entry_stages io) c)
    (first_some (refuse_if (\<not> isHTTPS \<and> h_redirect (c_http (rt_config (cx_runtime c)))) 308
      # entry_rows io (cx_runtime c) (the_route c) (cx_client c) (cx_request c)))
    (inspected io (the_route c) (cx_request c))"
proof (rule step_row)
  fix s
  assume "refuse_if (\<not> isHTTPS \<and> h_redirect (c_http (rt_config (cx_runtime c)))) 308 = Some s"
  then show "refused s (https_stage io isHTTPS c)"
    using assms(1) by (auto simp: refuse_if_def https_stage_def refused_def pristine_def upd_capture_def split: if_splits)
next
  assume "refuse_if (\<not> isHTTPS \<and> h_redirect (c_http (rt_config (cx_runtime c)))) 308 = None"
  with rate_tail [OF assms, of io]
  show "\<exists>d. https_stage io isHTTPS c = Inr d \<and> implements (in_order (entry_stages io) d)
      (first_some (entry_rows io (cx_runtime c) (the_route c) (cx_client c) (cx_request c)))
      (inspected io (the_route c) (cx_request c))"
    by (auto simp: refuse_if_def https_stage_def entry_rows_def entry_stages_def split: if_splits)
qed

lemma reputation_tail:
  assumes "pristine c" "in_table c"
  shows "implements (in_order (reputation_stage io # https_stage io isHTTPS # entry_stages io) c)
    (first_some (refuse_if (map_option rm_mode (Lookup (rt_reputation (cx_runtime c)) (cx_client c)) = Some ''block'') 403
      # refuse_if (\<not> isHTTPS \<and> h_redirect (c_http (rt_config (cx_runtime c)))) 308
      # entry_rows io (cx_runtime c) (the_route c) (cx_client c) (cx_request c)))
    (inspected io (the_route c) (cx_request c))"
proof (rule step_row)
  fix s
  assume "refuse_if (map_option rm_mode (Lookup (rt_reputation (cx_runtime c)) (cx_client c)) = Some ''block'') 403 = Some s"
  then show "refused s (reputation_stage io c)"
    using reputation_row [OF assms(1), of io] by (auto simp: refuse_if_def split: if_splits)
next
  assume "refuse_if (map_option rm_mode (Lookup (rt_reputation (cx_runtime c)) (cx_client c)) = Some ''block'') 403 = None"
  then obtain d where d: "reputation_stage io c = Inr d" "pristine d" "cx_request d = cx_request c" "cx_route d = cx_route c"
    "cx_client d = cx_client c" "cx_runtime d = cx_runtime c"
    using reputation_row [OF assms(1), of io] by (auto simp: refuse_if_def split: if_splits)
  then have "the_route d = the_route c" "in_table d" using assms(2) by (simp_all add: the_route_def in_table_def split: option.splits)
  with d https_tail [OF d(2), of io isHTTPS]
  show "\<exists>d. reputation_stage io c = Inr d \<and> implements (in_order (https_stage io isHTTPS # entry_stages io) d)
      (first_some (refuse_if (\<not> isHTTPS \<and> h_redirect (c_http (rt_config (cx_runtime c)))) 308
        # entry_rows io (cx_runtime c) (the_route c) (cx_client c) (cx_request c)))
      (inspected io (the_route c) (cx_request c))" by simp
qed

lemma access_tail:
  assumes "pristine c" "in_table c"
  shows "implements (in_order (access_stage io # reputation_stage io # https_stage io isHTTPS # entry_stages io) c)
    (first_some (tl (rows io isHTTPS (cx_runtime c) (the_route c) (cx_client c) (cx_request c))))
    (inspected io (the_route c) (cx_request c))"
  unfolding rows_def list.sel
proof (rule step_row)
  fix s
  assume "refuse_if (\<not> fst (Allowed (ro_access (the_route c)) (cx_client c))) 403 = Some s"
  then show "refused s (access_stage io c)" using access_row [OF assms(1), of io] by (auto simp: refuse_if_def split: if_splits)
next
  assume "refuse_if (\<not> fst (Allowed (ro_access (the_route c)) (cx_client c))) 403 = None"
  then have "access_stage io c = Inr c" using access_row [OF assms(1), of io] by (auto simp: refuse_if_def split: if_splits)
  with reputation_tail [OF assms, of io isHTTPS]
  show "\<exists>d. access_stage io c = Inr d \<and> implements (in_order (reputation_stage io # https_stage io isHTTPS # entry_stages io) d)
      (first_some [refuse_if (map_option rm_mode (Lookup (rt_reputation (cx_runtime c)) (cx_client c)) = Some ''block'') 403,
        refuse_if (\<not> isHTTPS \<and> h_redirect (c_http (rt_config (cx_runtime c)))) 308,
        refuse_if (\<not> rate_admits io (cx_runtime c) (the_route c) (cx_client c)) 429,
        bot_refusal (bot_says io (the_route c) (cx_client c) (cx_request c)),
        action_refusal (ro_vhost (the_route c)), waf_refusal io (the_route c) (cx_request c),
        refuse_if (ro_backend (the_route c) = None) 503])
      (inspected io (the_route c) (cx_request c))"
    unfolding entry_rows_def late_rows_def by blast
qed

definition routes_ok :: "runtime \<Rightarrow> bool" where
  "routes_ok rt = list_all (\<lambda>(d, i). i < length (rt_routes rt)) (rt_exact rt @ rt_wild rt)"

lemma map_of_all: "list_all (\<lambda>(d, i). P i) xs \<Longrightarrow> map_of xs k = Some i \<Longrightarrow> P i"
  by (induction xs) (auto split: if_splits)

lemma Route_in_table: "routes_ok rt \<Longrightarrow> Route L (Some rt) h = Some i \<Longrightarrow> i < length (rt_routes rt)"
  by (auto simp: Route_def routes_ok_def table_lookup_def bind_eq_Some_conv split: option.splits
      dest: map_of_all [of "\<lambda>i. i < length (rt_routes rt)"])

lemma stages_implement:
  assumes "routes_ok rt"
  shows "implements (in_order (stages io isHTTPS) (arrive io m rt lg r)) (admission io isHTTPS rt (identified io r))
    (case Route (io_lib io) (Some rt) (rq_host r) of None \<Rightarrow> r | Some i \<Rightarrow> inspected io (rt_routes rt ! i) (identified io r))"
proof -
  let ?c = "arrive io m rt lg r" and ?r = "identified io r"
  have c: "pristine ?c" "cx_request ?c = ?r" "cx_runtime ?c = rt" "rq_host ?r = rq_host r"
    by (simp_all add: arrive_def pristine_def new_capture_def identified_def Let_def)
  show ?thesis
  proof (cases "Route (io_lib io) (Some rt) (rq_host r)")
    case None
    then show ?thesis using c reply_refused [OF c(1)]
      by (simp add: stages_def and_then_def route_stage_def admission_def implements_def refused_def)
  next
    case (Some i)
    let ?d = "?c\<lparr>cx_route := Some i\<rparr>"
    let ?e = "?d\<lparr>cx_client := client_of rt ?r\<rparr>"
    have e: "pristine ?e" "in_table ?e" "the_route ?e = rt_routes rt ! i" "cx_request ?e = ?r" "cx_runtime ?e = rt" "cx_client ?e = client_of rt ?r"
      using c Route_in_table [OF assms Some] by (simp_all add: in_table_def the_route_def)
    have tail: "implements (in_order (access_stage io # reputation_stage io # https_stage io isHTTPS # entry_stages io) ?e)
        (first_some (tl (rows io isHTTPS rt (rt_routes rt ! i) (client_of rt ?r) ?r))) (inspected io (rt_routes rt ! i) ?r)"
      using access_tail [OF e(1,2), of io isHTTPS] unfolding e(3-) .
    have "client_stage ?d = Inr ?e" using c by (simp add: client_stage_def)
    then have tail': "implements (in_order (client_stage # access_stage io # reputation_stage io # https_stage io isHTTPS # entry_stages io) ?d)
        (first_some (tl (rows io isHTTPS rt (rt_routes rt ! i) (client_of rt ?r) ?r))) (inspected io (rt_routes rt ! i) ?r)"
      using tail by (simp only: in_order.simps and_then_def sum.case)
    have sni: "implements (in_order (sni_stage io isHTTPS # client_stage # access_stage io # reputation_stage io
          # https_stage io isHTTPS # entry_stages io) ?d)
        (first_some (refuse_if (isHTTPS \<and> sni_mismatch io ?r) 421 # tl (rows io isHTTPS rt (rt_routes rt ! i) (client_of rt ?r) ?r)))
        (inspected io (rt_routes rt ! i) ?r)"
      by (rule step_row) (use c(1,2) tail' in \<open>auto simp: refuse_if_def sni_stage_def intro!: reply_refused split: if_splits\<close>)
    have "route_stage io ?c = Inr ?d" using Some c by (simp add: route_stage_def)
    then show ?thesis using sni Some c
      by (simp add: stages_def entry_stages_def admission_def rows_def and_then_def)
  qed
qed

subsection \<open>Bodies\<close>

lemma inspectionBody_ok:
  assumes "inspectionBody io r limit = (r', Inr body)" "0 \<le> limit" "io_stream io = Stream err"
  shows "rq_body r' = rq_body r \<and> int (length (rq_body r)) \<le> limit \<and> err = None \<and> int (length body) \<le> limit
    \<and> (if content_encoding (io_lib io) r = ''gzip''
       then \<exists>g. io_gzip io (rq_body r) = Inr g \<and> body = gz_bytes g else body = rq_body r)"
  using assms
  by (auto simp: inspectionBody_def restore_body_def Let_def gunzip_limited_def read_limited_def
      split: sum.splits if_splits option.splits)

lemma inspectionBody_same:
  assumes "inspectionBody io r limit = (r', x)"
  shows "rq_header r' = rq_header r \<and> rq_url r' = rq_url r \<and> rq_method r' = rq_method r \<and> rq_host r' = rq_host r"
  using assms by (auto simp: inspectionBody_def restore_body_def Let_def split: body_stream.splits sum.splits if_splits)

lemma handle_implements:
  assumes "routes_ok rt"
  shows "case admission io isHTTPS rt (identified io r) of
      Some s \<Rightarrow> ca_status (cx_capture (handle io isHTTPS (arrive io m rt lg r))) = s
        \<and> cx_forwarded (handle io isHTTPS (arrive io m rt lg r)) = None
    | None \<Rightarrow> \<exists>i. Route (io_lib io) (Some rt) (rq_host r) = Some i
        \<and> map_option fst (cx_forwarded (handle io isHTTPS (arrive io m rt lg r))) = Some (inspected io (rt_routes rt ! i) (identified io r))"
proof -
  have "admission io isHTTPS rt (identified io r) = None \<Longrightarrow> Route (io_lib io) (Some rt) (rq_host r) \<noteq> None"
    by (simp add: admission_def identified_def split: option.splits)
  with stages_implement [OF assms, of io isHTTPS m lg r] show ?thesis
    by (auto simp: implements_def refused_def handle_def split: option.splits sum.splits)
qed

end
