(* ===== verification/Service.thy ===== *)
theory Service
  imports App
begin

text \<open>
  The application of \<open>internal/app/app.go\<close> around the request handler: starting, hot reload, shutdown, the
  listeners, the TLS callbacks and the admin interface. The configuration conf is the outcome of opening
  and decoding it. Requests, reloads and shutdown are the steps of a transition system.
\<close>

subsection \<open>Building, reloading, closing\<close>

definition Build :: "env \<Rightarrow> string \<Rightarrow> go_error + config \<Rightarrow> go_error + runtime" where
  "Build E dir conf =
     (case conf of
        Inl e \<Rightarrow> Inl e
      | Inr decoded \<Rightarrow>
          (case Load_decoded (en_lib E) dir decoded of
             Inl errs \<Rightarrow> Inl (Wrapped [] [] errs)
           | Inr c \<Rightarrow> build E c True))"

definition New_metrics :: metrics where
  "New_metrics = \<lparr>mt_requests = 0, mt_blocked = 0, mt_rateLimited = 0, mt_bodyTooLarge = 0, mt_upstreamErrors = 0,
     mt_reloads = 0, mt_reloadFailures = 0, mt_inFlight = 0, mt_2xx = 0, mt_3xx = 0, mt_4xx = 0, mt_5xx = 0, mt_latency = 0\<rparr>"

definition New_app :: "env \<Rightarrow> string \<Rightarrow> go_error + config \<Rightarrow> go_error + app" where
  "New_app E dir conf =
     (case Build E dir conf of
        Inl e \<Rightarrow> Inl e
      | Inr rt \<Rightarrow> Inr \<lparr>a_metrics = New_metrics, a_current = Some (rt, New_logger), a_retired = []\<rparr>)"

text \<open>What a reload may not change: the listeners and the header limit they were started with.\<close>

definition listener_settings :: "config \<Rightarrow> (bool \<times> string) \<times> (bool \<times> string) \<times> (bool \<times> string) \<times> int" where
  "listener_settings c = ((h_enabled (c_http c), h_listen (c_http c)), (hs_enabled (c_https c), hs_listen (c_https c)),
     (ad_enabled (c_admin c), ad_listen (c_admin c)), sec_maxHeader (c_security c))"

definition compatibleForHotReload :: "runtime option \<Rightarrow> runtime option \<Rightarrow> go_error option" where
  "compatibleForHotReload old nxt =
     (case (old, nxt) of
        (Some o', Some n) \<Rightarrow>
          let a = rt_config o'; b = rt_config n in
          if h_enabled (c_http a) \<noteq> h_enabled (c_http b) \<or> h_listen (c_http a) \<noteq> h_listen (c_http b)
             \<or> hs_enabled (c_https a) \<noteq> hs_enabled (c_https b) \<or> hs_listen (c_https a) \<noteq> hs_listen (c_https b)
             \<or> ad_enabled (c_admin a) \<noteq> ad_enabled (c_admin b) \<or> ad_listen (c_admin a) \<noteq> ad_listen (c_admin b)
             \<or> sec_maxHeader (c_security a) \<noteq> sec_maxHeader (c_security b)
          then Some (Errorf ''listener enablement, listen addresses, and max_header_bytes require a service restart'' [])
          else None
      | _ \<Rightarrow> None)"

definition Reload :: "env \<Rightarrow> string \<Rightarrow> go_error + config \<Rightarrow> app \<Rightarrow> app \<times> go_error option" where
  "Reload E dir conf a =
     (case Build E dir conf of
        Inl e \<Rightarrow> (a\<lparr>a_metrics := metric_ReloadFailed (a_metrics a)\<rparr>, Some e)
      | Inr nxt \<Rightarrow>
          (case compatibleForHotReload (map_option fst (a_current a)) (Some nxt) of
             Some e \<Rightarrow> (a\<lparr>a_metrics := metric_ReloadFailed (a_metrics a)\<rparr>, Some e)
           | None \<Rightarrow>
               (a\<lparr>a_current := Some (nxt, New_logger),
                  a_retired := (case a_current a of Some old \<Rightarrow> a_retired a @ [old] | None \<Rightarrow> a_retired a),
                  a_metrics := metric_Reloaded (a_metrics a)\<rparr>, None)))"

text \<open>The runtimes that \<open>closeRuntimes\<close> closes, closed.\<close>

definition closeRuntimes :: "app \<Rightarrow> app \<times> runtime list" where
  "closeRuntimes a =
     (a\<lparr>a_current := None, a_retired := []\<rparr>,
      map (\<lambda>(rt, _). the (runtime_Close (Some rt))) ((case a_current a of Some x \<Rightarrow> [x] | None \<Rightarrow> []) @ a_retired a))"

subsection \<open>Listeners and TLS\<close>

datatype listener_name = HTTPListener | HTTPSListener | AdminListener

definition wanted_listeners :: "config \<Rightarrow> (listener_name \<times> string \<times> string) list" where
  "wanted_listeners c =
     (if h_enabled (c_http c) then [(HTTPListener, ''HTTP'', h_listen (c_http c))] else [])
     @ (if hs_enabled (c_https c) then [(HTTPSListener, ''HTTPS'', hs_listen (c_https c))] else [])
     @ (if ad_enabled (c_admin c) then [(AdminListener, ''admin'', ad_listen (c_admin c))] else [])"

text \<open>A failure to listen closes the listeners opened before it; \<open>Inl\<close> holds the error and those.\<close>

fun open_listeners :: "(string \<Rightarrow> bool) \<Rightarrow> listener_name list \<Rightarrow> (listener_name \<times> string \<times> string) list
    \<Rightarrow> (go_error \<times> listener_name list) + listener_name list" where
  "open_listeners can opened [] = Inr opened"
| "open_listeners can opened ((n, label, address) # rest) =
     (if can address then open_listeners can (opened @ [n]) rest
      else Inl (Errorf ''listen %s on %s: %w'' [label, address], opened))"

definition Run_listeners :: "(string \<Rightarrow> bool) \<Rightarrow> app \<Rightarrow> (go_error \<times> listener_name list) + listener_name list" where
  "Run_listeners can a =
     (case a_current a of
        None \<Rightarrow> Inl (Errorf ''runtime is not initialized'' [], [])
      | Some (rt, _) \<Rightarrow> open_listeners can [] (wanted_listeners (rt_config rt)))"

definition tls_for_client :: "golib \<Rightarrow> app \<Rightarrow> string \<Rightarrow> int \<times> (go_error + cert_pair)" where
  "tls_for_client L a sni =
     (let rt = map_option fst (a_current a) in (TLSVersion rt, runtime_GetCertificate L rt sni))"

subsection \<open>The admin interface\<close>

definition authorized :: "(string \<Rightarrow> string) \<Rightarrow> app \<Rightarrow> request \<Rightarrow> bool" where
  "authorized getenv a r =
     (case a_current a of
        None \<Rightarrow> False
      | Some (rt, _) \<Rightarrow>
          let expected = TrimSpace (TrimSpace (getenv (ad_tokenEnv (c_admin (rt_config rt)))));
              p1 = TrimSpace (TrimPrefix (header_get (rq_header r) ''Authorization'') ''Bearer '');
              provided = (if p1 = [] then TrimSpace (header_get (rq_header r) ''X-Admin-Token'') else p1) in
          expected \<noteq> [] \<and> length provided = length expected \<and> provided = expected)"

record admin_status =
  as_loadedAt :: gotime
  as_mode :: string
  as_ruleCount :: nat
  as_domains :: "string list"
  as_certificates :: "cert_info list"
  as_metrics :: metrics
  as_routes :: "route_status list"
  as_reputation :: nat
  as_recent :: "sec_event list"

datatype admin_reply =
    Banner | Healthy | Ready | NotReady | MetricsText string | Unauthorized
  | StatusPage admin_status | Reloaded gotime | ReloadError go_error | MethodNotAllowed

definition status_page :: "golib \<Rightarrow> app \<Rightarrow> runtime \<Rightarrow> logger \<Rightarrow> admin_status" where
  "status_page L a rt lg =
     \<lparr>as_loadedAt = rt_loadedAt rt, as_mode = e_mode (rt_engine rt), as_ruleCount = RuleCount (rt_engine rt),
      as_domains = DomainNames (rt_config rt), as_certificates = CertificatesInfo (Some rt), as_metrics = a_metrics a,
      as_routes = RouteStatuses L (Some rt), as_reputation = rep_Count (rt_reputation rt),
      as_recent = RecentSecurity (lg_ring lg) 200\<rparr>"

text \<open>
  The patterns of the mux: a literal path wins over the root pattern, which matches every other path of a
  \<open>GET\<close> or \<open>HEAD\<close> request; a method that no pattern of the path has is refused. The path is as the mux sees it,
  after its cleaning.
\<close>

definition adminHandler :: "env \<Rightarrow> (string \<Rightarrow> string) \<Rightarrow> (int \<Rightarrow> string) \<Rightarrow> string \<Rightarrow> go_error + config
    \<Rightarrow> app \<Rightarrow> request \<Rightarrow> app \<times> admin_reply" where
  "adminHandler E getenv fmt_float dir conf a r =
     (let path = u_path (rq_url r); get = (rq_method r = ''GET'' \<or> rq_method r = ''HEAD'') in
      if rq_method r = ''POST'' \<and> path = ''/api/v1/reload'' then
        (if \<not> authorized getenv a r then (a, Unauthorized)
         else case Reload E dir conf a of
           (a', Some e) \<Rightarrow> (a', ReloadError e)
         | (a', None) \<Rightarrow> (a', case a_current a' of Some (rt, _) \<Rightarrow> Reloaded (rt_loadedAt rt) | None \<Rightarrow> NotReady))
      else if \<not> get then (a, MethodNotAllowed)
      else if path = ''/healthz'' then (a, Healthy)
      else if path = ''/readyz'' then (a, if a_current a = None then NotReady else Ready)
      else if path = ''/metrics'' then (a, MetricsText (Prometheus fmt_float (a_metrics a)))
      else if path = ''/api/v1/status'' then
        (if \<not> authorized getenv a r then (a, Unauthorized)
         else (a, case a_current a of Some (rt, lg) \<Rightarrow> StatusPage (status_page (en_lib E) a rt lg) | None \<Rightarrow> NotReady))
      else (a, Banner))"

subsection \<open>The application as a transition system\<close>

text \<open>Shutdown is not a step: \<open>Run\<close> closes the runtimes after its servers have stopped, and returns.\<close>

inductive app_step :: "app \<Rightarrow> app \<Rightarrow> bool" where
  serve: "publicHandler io isHTTPS a r = (b, w, fwd) \<Longrightarrow> app_step a b"
| admin: "adminHandler E getenv fmt_float dir conf a r = (b, out) \<Longrightarrow> app_step a b"
| reload: "Reload E dir conf a = (b, err) \<Longrightarrow> app_step a b"

inductive_cases app_stepE: "app_step a b"

definition app_started :: "config \<Rightarrow> app \<Rightarrow> bool" where
  "app_started c a \<longleftrightarrow> (\<exists>E dir conf rt. New_app E dir conf = Inr a \<and> map_option fst (a_current a) = Some rt \<and> rt_config rt = c)"

definition app_ok :: "config \<Rightarrow> app \<Rightarrow> bool" where
  "app_ok c a \<longleftrightarrow> (case a_current a of None \<Rightarrow> False
     | Some (rt, lg) \<Rightarrow> routes_ok rt \<and> listener_settings (rt_config rt) = listener_settings c)"

text \<open>What no check changes: the routing table and configuration, two counters and the access log.\<close>

definition stable :: "ctx \<Rightarrow> (config \<times> (string \<times> nat) list \<times> (string \<times> nat) list \<times> nat) \<times> 64 word \<times> 64 word \<times> access_event list" where
  "stable c = ((rt_config (cx_runtime c), rt_exact (cx_runtime c), rt_wild (cx_runtime c), length (rt_routes (cx_runtime c))),
     mt_requests (cx_metrics c), mt_inFlight (cx_metrics c), lg_access (cx_logger c))"

fun result :: "ctx + ctx \<Rightarrow> ctx" where
  "result (Inl d) = d"
| "result (Inr d) = d"

definition steady :: "stage \<Rightarrow> bool" where
  "steady f \<longleftrightarrow> (\<forall>c. stable (result (f c)) = stable c)"

lemma stable_upd [simp]:
  "stable (set_route ro c) = stable c" "stable (upd_capture h c) = stable c"
  "stable (upd_metrics metric_Blocked c) = stable c" "stable (upd_metrics metric_RateLimited c) = stable c"
  "stable (upd_metrics metric_BodyTooLarge c) = stable c" "stable (upd_metrics metric_UpstreamError c) = stable c"
  "stable (emit_security e c) = stable c" "stable (c\<lparr>cx_request := r\<rparr>) = stable c" "stable (c\<lparr>cx_route := i\<rparr>) = stable c"
  "stable (c\<lparr>cx_client := ip\<rparr>) = stable c" "stable (c\<lparr>cx_upstream := u\<rparr>) = stable c" "stable (c\<lparr>cx_forwarded := f\<rparr>) = stable c"
  by (simp_all add: stable_def set_route_def upd_capture_def upd_metrics_def emit_security_def logger_Security_def
      metric_Blocked_def metric_RateLimited_def metric_BodyTooLarge_def metric_UpstreamError_def split: option.split)

lemma stable_replies [simp]:
  "stable (logSyntheticSecurity io act sc why c) = stable c"
  "stable (reply io s msg c) = stable c"
  "stable (blocked_reply io d c) = stable c" "stable (body_failed io e c) = stable c"
  by (simp_all add: logSyntheticSecurity_def reply_def blocked_reply_def body_failed_def Let_def split: body_error.split)

lemma stable_token: "stable (fst (take_token io c)) = stable c"
proof -
  have "stable (c\<lparr>cx_runtime := (cx_runtime c)\<lparr>rt_limiter := l\<rparr>\<rparr>) = stable c" for l by (simp add: stable_def)
  then show ?thesis by (auto simp: take_token_def Let_def split: limiter_ref.split option.split prod.split)
qed

lemma steady_stages: "list_all steady (stages io isHTTPS)"
proof -
  have "steady (route_stage io)" "steady (sni_stage io isHTTPS)" "steady client_stage"
    by (simp_all add: steady_def route_stage_def sni_stage_def client_stage_def split: option.split)
  moreover have "steady (access_stage io)" "steady (reputation_stage io)" "steady (https_stage io isHTTPS)"
    by (auto simp: steady_def access_stage_def reputation_stage_def https_stage_def Let_def split: option.split prod.split bool.split)
  moreover have "steady (rate_stage io)" unfolding steady_def
  proof
    fix c
    show "stable (result (rate_stage io c)) = stable c"
      using stable_token [of io c] by (cases "take_token io c"; cases "snd (take_token io c)") (auto simp: rate_stage_def)
  qed
  moreover have "steady (bot_stage io)" "steady (action_stage io)"
    by (auto simp: steady_def bot_stage_def action_stage_def Let_def split: prod.split)
  moreover have "steady (waf_stage io)"
    by (auto simp: steady_def waf_stage_def decide_def Let_def split: prod.split sum.split option.split)
  moreover have "steady (forward_stage io)"
    by (auto simp: steady_def forward_stage_def Let_def split: prod.split option.split served.split)
  ultimately show ?thesis by (simp add: stages_def)
qed

lemma in_order_steady: "list_all steady fs \<Longrightarrow> stable (result (in_order fs c)) = stable c"
proof (induction fs arbitrary: c)
  case (Cons f fs)
  then have "stable (result (f c)) = stable c" by (simp add: steady_def)
  with Cons show ?case by (cases "f c") (simp_all add: and_then_def)
qed simp

lemma handle_stable: "stable (handle io isHTTPS c) = stable c"
proof -
  have "handle io isHTTPS c = result (in_order (stages io isHTTPS) c)"
    by (cases "in_order (stages io isHTTPS) c") (simp_all add: handle_def)
  then show ?thesis using in_order_steady [OF steady_stages] by simp
qed

subsection \<open>Invariant\<close>

lemma routes_ok_stable:
  "stable d = stable c \<Longrightarrow> routes_ok (cx_runtime d) = routes_ok (cx_runtime c) \<and> rt_config (cx_runtime d) = rt_config (cx_runtime c)"
  by (simp add: stable_def routes_ok_def)

lemma publicHandler_ok:
  assumes "app_ok c a" "publicHandler io isHTTPS a r = (b, w, fwd)"
  shows "app_ok c b"
proof (cases "a_current a")
  case None
  with assms(1) show ?thesis by (simp add: app_ok_def)
next
  case (Some x)
  obtain rt lg where x: "x = (rt, lg)" by (rule prod.exhaust)
  let ?d = "handle io isHTTPS (arrive io (a_metrics a) rt lg r)"
  have "stable ?d = stable (arrive io (a_metrics a) rt lg r)" by (rule handle_stable)
  from routes_ok_stable [OF this] assms Some x show ?thesis
    by (auto simp: publicHandler_def app_ok_def Let_def finish_def arrive_def)
qed

definition bounded :: "nat \<Rightarrow> (string \<times> nat) list \<times> (string \<times> nat) list \<Rightarrow> bool" where
  "bounded n t = list_all (\<lambda>(d, i). i < n) (fst t @ snd t)"

lemma bounded_mono: "bounded n t \<Longrightarrow> n \<le> m \<Longrightarrow> bounded m t"
  unfolding bounded_def by (elim list.pred_mono_strong) auto

lemma bounded_enter: "bounded n t \<Longrightarrow> i < n \<Longrightarrow> bounded n (enter_domain i d t)"
  by (cases t) (auto simp: bounded_def enter_domain_def put_def list_all_iff)

lemma bounded_enter_all: "bounded n t \<Longrightarrow> i < n \<Longrightarrow> bounded n (enter_all i ds t)"
  unfolding enter_all_def by (induction ds arbitrary: t) (simp_all add: bounded_enter)

lemma add_route_bounded:
  assumes "bounded (length (fst st)) (snd st)" "add_route E c global glim v st = Inr st'"
  shows "bounded (length (fst st')) (snd st')"
proof -
  obtain rs t where st: "st = (rs, t)" by (rule prod.exhaust)
  have "bounded (Suc (length rs)) t"
    by (rule bounded_mono [of "length rs"]) (use assms(1) st in simp_all)
  then show ?thesis using assms(2) st by (auto simp: add_route_def bounded_enter_all split: sum.splits)
qed

lemma build_routes_ok:
  assumes "Build E dir conf = Inr rt"
  shows "routes_ok rt"
proof -
  from assms obtain c where "build E c True = Inr rt" by (auto simp: Build_def split: sum.splits)
  then obtain engine trusted rep where "assemble E c engine trusted rep = Inr rt"
    by (auto simp: build_def split: sum.splits option.splits)
  then obtain st where f: "fold_err (add_route E c engine (global_limiter c)) (EnabledVirtualHosts c) ([], [], []) = Inr st"
    and st: "st = (rt_routes rt, rt_exact rt, rt_wild rt)"
    by (auto simp: assemble_def split: sum.splits)
  have "bounded (length (fst st)) (snd st)"
  proof (rule fold_err_inv [where P = "\<lambda>s. bounded (length (fst s)) (snd s)", OF _ f])
    show "bounded (length (fst s')) (snd s')" if "bounded (length (fst s)) (snd s)"
      "add_route E c engine (global_limiter c) v s = Inr s'" for v s s' using that by (rule add_route_bounded)
  qed (simp add: bounded_def)
  then show ?thesis using st by (simp add: bounded_def routes_ok_def)
qed

lemma compatible_settings:
  "compatibleForHotReload (Some x) (Some y) = None \<longleftrightarrow> listener_settings (rt_config y) = listener_settings (rt_config x)"
  by (auto simp: compatibleForHotReload_def listener_settings_def Let_def)

lemma Reload_ok:
  assumes "app_ok c a" "Reload E dir conf a = (b, err)"
  shows "app_ok c b"
  using assms build_routes_ok [of E dir conf]
  by (auto simp: Reload_def app_ok_def compatible_settings split: sum.splits option.splits)

lemma adminHandler_ok:
  assumes "app_ok c a" "adminHandler E getenv fmt_float dir conf a r = (b, out)"
  shows "app_ok c b"
  using assms Reload_ok [OF assms(1), of E dir conf]
  by (auto simp: adminHandler_def Let_def split: if_splits prod.splits option.splits)

lemma New_app_ok:
  assumes "New_app E dir conf = Inr a"
  shows "\<exists>rt. a_current a = Some (rt, New_logger) \<and> routes_ok rt"
  using assms build_routes_ok [of E dir conf] by (cases "Build E dir conf") (auto simp: New_app_def)

interpretation app_sys: invariant_system "app_started c" app_step "app_ok c"
proof
  show "app_ok c s" if "app_started c s" for s
    using that New_app_ok by (fastforce simp: app_started_def app_ok_def)
  show "app_ok c t" if "app_ok c s" "app_step s t" for s t
    using that(2,1) by (cases rule: app_step.cases) (auto intro: publicHandler_ok Reload_ok adminHandler_ok)
qed

subsection \<open>Samples\<close>

definition sample_io :: app_io where
  "sample_io = \<lparr>io_lib = plain_lib, io_started = 10, io_now = 20, io_finished = 30, io_fresh = ''r-1'',
     io_json = (\<lambda>_. ''{}''), io_write = (\<lambda>s. int (length s)), io_relative = (\<lambda>_ u. u), io_proto = ''HTTP/1.1'',
     io_sni = Some ''www.app.test'', io_stream = Stream None, io_gzip = (\<lambda>_. Inl ''not gzip''), io_panic = (\<lambda>_ _. None),
     io_float = (\<lambda>_. None), io_token = (\<lambda>_ i. i), io_send = sample_send, io_prepare = (\<lambda>r. r), io_respBytes = 5\<rparr>"

definition sample_request :: request where
  "sample_request = get_request\<lparr>rq_host := ''www.app.test''\<rparr>"

lemma sample_New: "\<exists>a rt. New_app sample_env ''/etc/cherrywaf'' (Inr sample_tls_config) = Inr a
    \<and> a_current a = Some (rt, New_logger) \<and> build sample_env sample_tls_config True = Inr rt"
proof -
  obtain rt where rt: "build sample_env sample_tls_config True = Inr rt" using sample_built by blast
  have "en_lib sample_env = plain_lib" by (simp add: sample_env_def)
  then have "Build sample_env ''/etc/cherrywaf'' (Inr sample_tls_config) = Inr rt"
    unfolding Build_def sum.case using sample_loaded rt by (simp only: sum.case)
  then show ?thesis using rt by (simp only: New_app_def sum.case) (metis app.select_convs(2))
qed

lemma sample_started:
  "\<exists>a rt. reach (app_started sample_tls_config) app_step a \<and> a_current a = Some (rt, New_logger)
    \<and> build sample_env sample_tls_config True = Inr rt"
proof -
  obtain a rt where a: "New_app sample_env ''/etc/cherrywaf'' (Inr sample_tls_config) = Inr a"
    "a_current a = Some (rt, New_logger)" "build sample_env sample_tls_config True = Inr rt" using sample_New by blast
  have "map_option fst (a_current a) = Some rt" using a(2) by simp
  with a(1) build_parts(3) [OF a(3)] have "app_started sample_tls_config a" unfolding app_started_def by blast
  then have "reach (app_started sample_tls_config) app_step a" by (rule reach_init)
  with a(2,3) show ?thesis by blast
qed

lemma sample_admission:
  assumes "build sample_env sample_tls_config True = Inr rt"
  shows "admission sample_io True rt (identified sample_io sample_request) = None"
    "\<exists>e. ro_engine (rt_routes rt ! 0) = Some e" "0 \<le> ro_maxBody (rt_routes rt ! 0)"
proof -
  have "case build sample_env sample_tls_config True of Inl _ \<Rightarrow> False
    | Inr rt \<Rightarrow> admission sample_io True rt (identified sample_io sample_request) = None
        \<and> \<not> Option.is_none (ro_engine (rt_routes rt ! 0)) \<and> 0 \<le> ro_maxBody (rt_routes rt ! 0)" by code_simp
  with assms show "admission sample_io True rt (identified sample_io sample_request) = None"
    "\<exists>e. ro_engine (rt_routes rt ! 0) = Some e" "0 \<le> ro_maxBody (rt_routes rt ! 0)"
    by (auto simp: Option.is_none_def)
qed

lemma publicHandler_current:
  assumes "a_current a = Some (rt, lg)" "publicHandler io isHTTPS a r = (b, w, fwd)"
  shows "w = cx_capture (handle io isHTTPS (arrive io (a_metrics a) rt lg r))"
    "fwd = cx_forwarded (handle io isHTTPS (arrive io (a_metrics a) rt lg r))"
  using assms by (auto simp: publicHandler_def Let_def finish_def)

lemma mediation:
  assumes "reach (app_started c) app_step a" "a_current a = Some (rt, lg)"
    and "publicHandler io isHTTPS a r = (b, w, fwd)"
  shows "case admission io isHTTPS rt (identified io r) of
      Some s \<Rightarrow> ca_status w = s \<and> fwd = None
    | None \<Rightarrow> \<exists>i. Route (io_lib io) (Some rt) (rq_host r) = Some i
        \<and> map_option fst fwd = Some (inspected io (rt_routes rt ! i) (identified io r))"
proof -
  have "app_ok c a" using assms(1) by (rule app_sys.inv_reach)
  then have "routes_ok rt" using assms(2) by (simp add: app_ok_def)
  from handle_implements [OF this, where io = io and isHTTPS = isHTTPS and r = r and m = "a_metrics a" and lg = lg] show ?thesis
    unfolding publicHandler_current [OF assms(2,3)] .
qed

subsection \<open>Properties\<close>

text \<open>
  C1. Complete mediation: whatever requests and reloads came before, the handler answers as the admission
  table says. A request that a row refuses gets the status of the first such row and nothing reaches an
  upstream; the backend is called, with the request as inspected, exactly when no row refuses.
\<close>

theorem publicHandler_mediates:
  assumes "reach (app_started c) app_step a" "a_current a = Some (rt, lg)"
    and "publicHandler io isHTTPS a r = (b, w, fwd)"
  shows "case admission io isHTTPS rt (identified io r) of
      Some s \<Rightarrow> ca_status w = s \<and> fwd = None
    | None \<Rightarrow> \<exists>i. Route (io_lib io) (Some rt) (rq_host r) = Some i
        \<and> map_option fst fwd = Some (inspected io (rt_routes rt ! i) (identified io r))"
  using mediation [OF assms] .

theorem publicHandler_mediates_witness:
  "\<exists>a rt b w fwd i. a_current a = Some (rt, New_logger) \<and> publicHandler sample_io True a sample_request = (b, w, fwd)
    \<and> map_option fst fwd = Some (inspected sample_io (rt_routes rt ! i) (identified sample_io sample_request))"
proof -
  obtain a rt where a: "reach (app_started sample_tls_config) app_step a" "a_current a = Some (rt, New_logger)"
    "build sample_env sample_tls_config True = Inr rt" using sample_started by blast
  obtain b w fwd where run: "publicHandler sample_io True a sample_request = (b, w, fwd)" by (rule prod_cases3)
  from publicHandler_mediates [OF a(1,2) run] sample_admission(1) [OF a(3)] a(2) run show ?thesis
    by (simp only: option.case) blast
qed

text \<open>
  C13. What is inspected is what is forwarded: when a request with a body reaches the backend of a route
  that has an engine, the body was read in full within the limit, the forwarded body is the one the
  client sent, and the engine, given the forwarded request with that body (or with what it decompresses
  to, also within the limit), did not decide to block.
\<close>

theorem forwarded_was_inspected:
  assumes "reach (app_started c) app_step a" "a_current a = Some (rt, lg)"
    and "publicHandler io isHTTPS a r = (b, w, Some (out, s))"
    and "Route (io_lib io) (Some rt) (rq_host r) = Some i" "ro_engine (rt_routes rt ! i) = Some e"
    and "io_stream io = Stream err" "0 \<le> ro_maxBody (rt_routes rt ! i)" "\<And>r body. io_panic io r body = None"
  shows "\<exists>body. \<not> d_blocked (waf_Inspect (io_lib io) e (Some out) body)
    \<and> rq_body out = rq_body r \<and> int (length (rq_body r)) \<le> ro_maxBody (rt_routes rt ! i)
    \<and> int (length body) \<le> ro_maxBody (rt_routes rt ! i)
    \<and> (if content_encoding (io_lib io) (identified io r) = ''gzip''
       then \<exists>g. io_gzip io (rq_body r) = Inr g \<and> body = gz_bytes g else body = rq_body r)"
proof -
  let ?ro = "rt_routes rt ! i" and ?r = "identified io r"
  have adm: "admission io isHTTPS rt ?r = None" and out: "out = inspected io ?ro ?r"
    using mediation [OF assms(1-3)] assms(4) by (auto split: option.splits)
  have same: "rq_host ?r = rq_host r" "rq_body ?r = rq_body r" by (simp_all add: identified_def)
  have waf: "waf_refusal io ?ro ?r = None"
    using adm assms(4) same by (auto simp: admission_def rows_def split: option.splits)
  obtain body where ib: "inspectionBody io ?r (ro_maxBody ?ro) = (out, Inr body)"
    using waf assms(5) out by (auto simp: waf_refusal_def inspected_def split: prod.splits sum.splits)
  then have "\<not> d_blocked (waf_Inspect (io_lib io) e (Some out) body)"
    using waf assms(5,8) by (auto simp: waf_refusal_def inspectRoute_def split: if_splits)
  with inspectionBody_ok [OF ib assms(7,6)] same show ?thesis by auto
qed

lemma sample_routed:
  "build sample_env sample_tls_config True = Inr rt \<Longrightarrow> Route plain_lib (Some rt) (rq_host sample_request) = Some 0"
proof -
  assume rt: "build sample_env sample_tls_config True = Inr rt"
  have "serves sample_tls_config (Hostname plain_lib (rq_host sample_request)) 0" by code_simp
  then show ?thesis using Route_serves [OF sample_loaded rt] by blast
qed

theorem forwarded_was_inspected_witness:
  "\<exists>e out body. \<not> d_blocked (waf_Inspect plain_lib e (Some out) body) \<and> rq_body out = rq_body sample_request"
proof -
  obtain a rt where a: "reach (app_started sample_tls_config) app_step a" "a_current a = Some (rt, New_logger)"
    "build sample_env sample_tls_config True = Inr rt" using sample_started by blast
  obtain b w fwd where run: "publicHandler sample_io True a sample_request = (b, w, fwd)" by (rule prod_cases3)
  with mediation [OF a(1,2) run] sample_admission(1) [OF a(3)] obtain out s where fwd: "fwd = Some (out, s)" by auto
  obtain e where e: "ro_engine (rt_routes rt ! 0) = Some e" using sample_admission(2) [OF a(3)] by blast
  have io: "io_lib sample_io = plain_lib" "io_stream sample_io = Stream None" "io_panic sample_io q x = None" for q x
    by (simp_all add: sample_io_def)
  from forwarded_was_inspected [OF a(1,2) run [unfolded fwd] _ e io(2) sample_admission(3) [OF a(3)] io(3)]
    sample_routed [OF a(3)] io(1) show ?thesis by metis
qed

text \<open>
  A reload is a transaction. When the new configuration does not load, does not build, or would move
  a listener, the runtime in service and the retired ones are untouched; when it succeeds the new
  runtime is the one built from the file and the old one is retired, to be closed at shutdown.
\<close>

theorem Reload_transaction:
  "case Reload E dir conf a of
     (b, Some e) \<Rightarrow> a_current b = a_current a \<and> a_retired b = a_retired a
       \<and> a_metrics b = metric_ReloadFailed (a_metrics a)
   | (b, None) \<Rightarrow> (\<exists>rt. Build E dir conf = Inr rt \<and> a_current b = Some (rt, New_logger))
       \<and> a_retired b = a_retired a @ (case a_current a of None \<Rightarrow> [] | Some old \<Rightarrow> [old])
       \<and> a_metrics b = metric_Reloaded (a_metrics a)
       \<and> length (snd (closeRuntimes b)) = length (snd (closeRuntimes a)) + 1"
  by (auto simp: Reload_def closeRuntimes_def split: sum.split option.split)

text \<open>
  The listeners opened at the start stay the ones the current configuration asks for, through any
  sequence of requests, admin calls and reloads.
\<close>

theorem listeners_stay:
  assumes "reach (app_started c) app_step a" "a_current a = Some (rt, lg)"
  shows "wanted_listeners (rt_config rt) = wanted_listeners c \<and> sec_maxHeader (c_security (rt_config rt)) = sec_maxHeader (c_security c)"
proof -
  have "app_ok c a" using assms(1) by (rule app_sys.inv_reach)
  then have "listener_settings (rt_config rt) = listener_settings c" using assms(2) by (simp add: app_ok_def)
  then show ?thesis by (simp add: listener_settings_def wanted_listeners_def)
qed

theorem listeners_stay_witness:
  "\<exists>a rt. reach (app_started sample_tls_config) app_step a \<and> a_current a = Some (rt, New_logger)
    \<and> wanted_listeners (rt_config rt) = wanted_listeners sample_tls_config"
  using sample_started listeners_stay by metis

text \<open>
  C39. The admin interface: without the configured token, compared as a whole, no request changes the
  application or reads the status page; with no token configured, none is accepted.
\<close>

theorem admin_needs_token:
  assumes "adminHandler E getenv fmt_float dir conf a r = (b, out)" "b \<noteq> a \<or> (\<exists>s. out = StatusPage s)"
  shows "\<exists>rt lg tok. a_current a = Some (rt, lg) \<and> tok = TrimSpace (TrimSpace (getenv (ad_tokenEnv (c_admin (rt_config rt)))))
    \<and> tok \<noteq> [] \<and> (TrimSpace (TrimPrefix (header_get (rq_header r) ''Authorization'') ''Bearer '') = tok
       \<or> TrimSpace (header_get (rq_header r) ''X-Admin-Token'') = tok)"
proof -
  have "authorized getenv a r"
    using assms by (auto simp: adminHandler_def Let_def split: if_splits prod.splits option.splits)
  then show ?thesis by (auto simp: authorized_def Let_def split: option.splits if_splits prod.splits)
qed

definition status_request :: request where
  "status_request = get_request\<lparr>rq_url := sample_url\<lparr>u_path := ''/api/v1/status''\<rparr>, rq_header := [(''Authorization'', [''Bearer s3cret''])]\<rparr>"

theorem admin_needs_token_witness:
  "\<exists>(a :: app) rt. a_current a = Some (rt, New_logger)
    \<and> TrimSpace (TrimSpace ''s3cret'') = TrimSpace (TrimPrefix (header_get (rq_header status_request) ''Authorization'') ''Bearer '')"
proof -
  obtain a :: app and rt :: runtime where a: "a_current a = Some (rt, New_logger)" using sample_started by blast
  have tok: "TrimSpace (TrimPrefix (header_get (rq_header status_request) ''Authorization'') ''Bearer '') = ''s3cret''"
    "TrimSpace (TrimSpace ''s3cret'') = ''s3cret''" "TrimSpace (header_get (rq_header status_request) ''X-Admin-Token'') = []"
    "u_path (rq_url status_request) = ''/api/v1/status''" "rq_method status_request = ''GET''" by code_simp+
  then have "adminHandler sample_env (\<lambda>_. ''s3cret'') (\<lambda>_. []) [] (Inl (Errorf [] [])) a status_request
      = (a, StatusPage (status_page (en_lib sample_env) a rt New_logger))"
    using a by (simp add: adminHandler_def authorized_def Let_def)
  from admin_needs_token [OF this] a tok show ?thesis by auto
qed

text \<open>
  Every request is accounted for once: the request counter goes up by one, the number in flight is
  back to what it was, and one access line is written, with the status and the size of the response.
\<close>

theorem request_accounted:
  assumes "a_current a = Some (rt, lg)" "publicHandler io isHTTPS a r = (b, w, fwd)"
  shows "mt_requests (a_metrics b) = mt_requests (a_metrics a) + 1 \<and> mt_inFlight (a_metrics b) = mt_inFlight (a_metrics a)
    \<and> (\<exists>rt' lg' e. a_current b = Some (rt', lg') \<and> lg_access lg' = lg_access lg @ [e]
        \<and> ae_status e = ca_status w \<and> ae_bytes e = ca_bytes w)"
proof -
  let ?c = "arrive io (a_metrics a) rt lg r" and ?d = "handle io isHTTPS (arrive io (a_metrics a) rt lg r)"
  have "stable ?d = stable ?c" by (rule handle_stable)
  then have "mt_requests (cx_metrics ?d) = mt_requests (a_metrics a) + 1" "mt_inFlight (cx_metrics ?d) = mt_inFlight (a_metrics a) + 1"
    "lg_access (cx_logger ?d) = lg_access lg"
    by (simp_all add: stable_def arrive_def RequestStarted_def Let_def)
  moreover have "mt_requests (RequestFinished st t m) = mt_requests m" "mt_inFlight (RequestFinished st t m) = mt_inFlight m - 1" for st t m
    by (simp_all add: RequestFinished_def count_status_def)
  moreover have "lg_access (logger_Access (access_of io c) l) = lg_access l @ [access_of io c]" for c l by (simp add: logger_Access_def)
  moreover have "ae_status (access_of io c) = ca_status (cx_capture c) \<and> ae_bytes (access_of io c) = ca_bytes (cx_capture c)" for c
    by (simp add: access_of_def Let_def)
  ultimately show ?thesis using assms by (auto simp: publicHandler_def Let_def finish_def)
qed

theorem request_accounted_witness:
  "\<exists>a b w fwd. publicHandler sample_io True a sample_request = (b, w, fwd) \<and> mt_requests (a_metrics b) = mt_requests (a_metrics a) + 1"
proof -
  obtain a :: app and rt :: runtime where a: "a_current a = Some (rt, New_logger)" using sample_started by blast
  obtain b w fwd where run: "publicHandler sample_io True a sample_request = (b, w, fwd)" by (rule prod_cases3)
  from request_accounted [OF a run] run show ?thesis by blast
qed

text \<open>
  Only the first line of the forwarding header is read. A client behind a trusted proxy that adds
  its own line instead of extending the client's chooses its address: with one untrusted address in a line
  of its own in front, that is the client address of every check, whatever the proxy adds below it.
\<close>

theorem second_forwarded_line_ignored:
  assumes "header_values (rq_header r) (sec_fwdHeader (c_security (rt_config rt))) = forged # lines"
    and "parseRemoteIP (rq_remoteAddr r) = Some peer" "TP_Contains (Some (rt_trusted rt)) (Some peer)"
    and "forwarding_chain forged = [ip]" "\<not> TP_Contains (Some (rt_trusted rt)) (Some ip)"
  shows "client_of rt r = IP_str ip"
proof -
  have "TrimSpace forged \<noteq> []" using assms(4) blank_header_no_chain by fastforce
  then show ?thesis using assms by (simp add: client_of_def header_get_def ClientIP_def)
qed

theorem second_forwarded_line_ignored_witness:
  "\<exists>rt. client_of (rt\<lparr>rt_trusted := [Net4 167772160 8]\<rparr>) (sample_request\<lparr>rq_remoteAddr := ''10.0.0.2:80'',
     rq_header := [(''X-Forwarded-For'', [''8.8.8.8'', ''203.0.113.9''])]\<rparr>) = ''8.8.8.8''"
proof -
  obtain rt where rt: "build sample_env sample_tls_config True = Inr rt" using sample_built by blast
  let ?rt = "rt\<lparr>rt_trusted := [Net4 167772160 8]\<rparr>"
  let ?r = "sample_request\<lparr>rq_remoteAddr := ''10.0.0.2:80'', rq_header := [(''X-Forwarded-For'', [''8.8.8.8'', ''203.0.113.9''])]\<rparr>"
  have fwd: "sec_fwdHeader (c_security (rt_config ?rt)) = ''X-Forwarded-For''"
    using build_parts(3) [OF rt] by (simp add: sample_tls_config_def sample_config_def)
  have "header_values [(''X-Forwarded-For'', [''8.8.8.8'', ''203.0.113.9''])] ''X-Forwarded-For'' = [''8.8.8.8'', ''203.0.113.9'']" by code_simp
  then have h: "header_values (rq_header ?r) (sec_fwdHeader (c_security (rt_config ?rt))) = [''8.8.8.8'', ''203.0.113.9'']"
    using fwd by simp
  have peer: "parseRemoteIP (rq_remoteAddr ?r) = Some (As16 167772162)" by code_simp
  have t1: "TP_Contains (Some (rt_trusted ?rt)) (Some (As16 167772162))"
    and t2: "\<not> TP_Contains (Some (rt_trusted ?rt)) (Some (As16 134744072))"
    unfolding runtime.select_convs runtime.update_convs by (simp; code_simp)+
  have ip: "forwarding_chain ''8.8.8.8'' = [As16 134744072]" "IP_str (As16 134744072) = ''8.8.8.8''" by code_simp+
  from second_forwarded_line_ignored [OF h peer t1 ip(1) t2] ip(2) show ?thesis by metis
qed

end
