(* ===== verification/Password.thy ===== *)
theory Password
  imports GoNet
begin

text \<open>
  The passwords of the control plane (\<open>internal/control/password.go\<close>): the policy, PBKDF2 over a keyed hash,
  the stored form and its verification. HMAC-SHA-256 and the random salt are parameters; unpadded
  standard base64 is modelled on bytes.
\<close>

unbundle bit_operations_syntax

subsection \<open>Base64\<close>

definition b64_alphabet :: string where
  "b64_alphabet = ''ABCDEFGHIJKLMNOPQRSTUVWXYZabcdefghijklmnopqrstuvwxyz0123456789+/''"

definition b64_char :: "nat \<Rightarrow> char" where
  "b64_char k = b64_alphabet ! k"

definition b64_val :: "char \<Rightarrow> nat option" where
  "b64_val c = map_of (zip b64_alphabet [0..<64]) c"

definition b64_triple :: "nat \<Rightarrow> string" where
  "b64_triple n = map b64_char [n div 262144, n div 4096 mod 64, n div 64 mod 64, n mod 64]"

fun b64_encode :: "string \<Rightarrow> string" where
  "b64_encode [] = []"
| "b64_encode [a] = take 2 (b64_triple (of_char a * 65536))"
| "b64_encode [a, b] = take 3 (b64_triple (of_char a * 65536 + of_char b * 256))"
| "b64_encode (a # b # c # rest) =
     b64_triple (of_char a * 65536 + of_char b * 256 + of_char c) @ b64_encode rest"

definition b64_join :: "nat \<Rightarrow> nat \<Rightarrow> nat \<Rightarrow> nat \<Rightarrow> string" where
  "b64_join w x y z = (let n = w * 262144 + x * 4096 + y * 64 + z in
     map char_of [n div 65536, n div 256 mod 256, n mod 256])"

text \<open>Line breaks are skipped, trailing bits of a short last group are not looked at.\<close>

fun b64_groups :: "string \<Rightarrow> string option" where
  "b64_groups [] = Some []"
| "b64_groups [w] = None"
| "b64_groups [w, x] = (case (b64_val w, b64_val x) of
     (Some p, Some q) \<Rightarrow> Some (take 1 (b64_join p q 0 0)) | _ \<Rightarrow> None)"
| "b64_groups [w, x, y] = (case (b64_val w, b64_val x, b64_val y) of
     (Some p, Some q, Some r) \<Rightarrow> Some (take 2 (b64_join p q r 0)) | _ \<Rightarrow> None)"
| "b64_groups (w # x # y # z # rest) = (case (b64_val w, b64_val x, b64_val y, b64_val z) of
     (Some p, Some q, Some r, Some s) \<Rightarrow> map_option (append (b64_join p q r s)) (b64_groups rest) | _ \<Rightarrow> None)"

definition b64_decode :: "string \<Rightarrow> string option" where
  "b64_decode s = b64_groups (filter (\<lambda>c. c \<noteq> CHR 0x0A \<and> c \<noteq> CHR 0x0D) s)"

subsection \<open>Password policy and hashing\<close>

definition validatePassword :: "string \<Rightarrow> go_error option" where
  "validatePassword password =
     (if length password < 12 then Some (Errorf ''password must contain at least 12 characters'' [])
      else if 256 < length password then Some (Errorf ''password is too long'' [])
      else if \<not> (list_ex is_lower password \<and> list_ex is_upper password \<and> list_ex is_digit password
                 \<and> list_ex (\<lambda>c. \<not> is_lower c \<and> \<not> is_upper c \<and> \<not> is_digit c) password)
      then Some (Errorf ''password must include upper-case, lower-case, number, and symbol characters'' [])
      else None)"

type_synonym keyed_hash = "string \<Rightarrow> string \<Rightarrow> string"

definition passwordIterations :: int where "passwordIterations = 310000"

definition passwordSaltBytes :: nat where "passwordSaltBytes = 16"

definition passwordKeyBytes :: nat where "passwordKeyBytes = 32"

definition dummyPasswordHash :: string where
  "dummyPasswordHash = ''pbkdf2-sha256$310000$MDEyMzQ1Njc4OWFiY2RlZg$lv7QgaHREeVBg5pIrJ0xjilHOruDnf1Tc7lmvDusOWc''"

definition xor_byte :: "char \<Rightarrow> char \<Rightarrow> char" where
  "xor_byte a b = char_of ((of_char a :: nat) XOR of_char b)"

definition xor_bytes :: "string \<Rightarrow> string \<Rightarrow> string" where
  "xor_bytes t u = map (\<lambda>(a, b). xor_byte a b) (zip t u)"

fun pbkdf2_rounds :: "keyed_hash \<Rightarrow> string \<Rightarrow> nat \<Rightarrow> string \<Rightarrow> string \<Rightarrow> string" where
  "pbkdf2_rounds hmac password 0 u t = t"
| "pbkdf2_rounds hmac password (Suc n) u t =
     (let u' = hmac password u in pbkdf2_rounds hmac password n u' (xor_bytes t u'))"

definition block_bytes :: "nat \<Rightarrow> string" where
  "block_bytes k = map (\<lambda>s. char_of (k div 2 ^ s)) [24, 16, 8, 0]"

definition pbkdf2_block :: "keyed_hash \<Rightarrow> string \<Rightarrow> string \<Rightarrow> int \<Rightarrow> nat \<Rightarrow> string" where
  "pbkdf2_block hmac password salt iterations k =
     (let u = hmac password (salt @ block_bytes k) in pbkdf2_rounds hmac password (nat (iterations - 1)) u u)"

definition pbkdf2SHA256 :: "keyed_hash \<Rightarrow> string \<Rightarrow> string \<Rightarrow> int \<Rightarrow> nat \<Rightarrow> string" where
  "pbkdf2SHA256 hmac password salt iterations keyLength =
     take keyLength (concat (map (pbkdf2_block hmac password salt iterations) [1..<Suc ((keyLength + 31) div 32)]))"

text \<open>The salt is what the random source yields, or the error it fails with.\<close>

definition hashPassword :: "keyed_hash \<Rightarrow> go_error + string \<Rightarrow> string \<Rightarrow> go_error + string" where
  "hashPassword hmac random password =
     (case validatePassword password of
        Some e \<Rightarrow> Inl e
      | None \<Rightarrow>
          (case random of
             Inl e \<Rightarrow> Inl (Wrapped ''generate password salt: %w'' [] [e])
           | Inr salt \<Rightarrow>
               Inr (''pbkdf2-sha256$'' @ Itoa passwordIterations @ ''$'' @ b64_encode salt @ ''$''
                 @ b64_encode (pbkdf2SHA256 hmac password salt passwordIterations passwordKeyBytes))))"

definition verifyPassword :: "keyed_hash \<Rightarrow> string \<Rightarrow> string \<Rightarrow> bool" where
  "verifyPassword hmac encoded password =
     (case Split encoded CHR ''$'' of
        [scheme, iters, salt64, key64] \<Rightarrow>
          scheme = ''pbkdf2-sha256'' \<and>
          (case Atoi iters of
             None \<Rightarrow> False
           | Some iterations \<Rightarrow>
               100000 \<le> iterations \<and> iterations \<le> 2000000 \<and>
               (case b64_decode salt64 of
                  None \<Rightarrow> False
                | Some salt \<Rightarrow>
                    16 \<le> length salt \<and> length salt \<le> 64 \<and>
                    (case b64_decode key64 of
                       None \<Rightarrow> False
                     | Some expected \<Rightarrow>
                         length expected = passwordKeyBytes
                         \<and> pbkdf2SHA256 hmac password salt iterations (length expected) = expected)))
      | _ \<Rightarrow> False)"

subsection \<open>Base64 round trip\<close>

lemma b64_alphabet_len: "length b64_alphabet = 64"
  by code_simp

lemma b64_val_char: "k < 64 \<Longrightarrow> b64_val (b64_char k) = Some k"
proof -
  assume "k < 64"
  have "list_all (\<lambda>k. b64_val (b64_char k) = Some k) [0..<64]" by code_simp
  then show ?thesis using \<open>k < 64\<close> by (simp add: list_all_iff)
qed

lemma b64_char_plain: "k < 64 \<Longrightarrow> b64_char k \<noteq> CHR 0x0A \<and> b64_char k \<noteq> CHR 0x0D \<and> b64_char k \<noteq> CHR ''$''"
proof -
  assume "k < 64"
  have "list_all (\<lambda>k. b64_char k \<noteq> CHR 0x0A \<and> b64_char k \<noteq> CHR 0x0D \<and> b64_char k \<noteq> CHR ''$'') [0..<64]" by code_simp
  then show ?thesis using \<open>k < 64\<close> by (simp add: list_all_iff)
qed

lemma of_char_less: "(of_char c :: nat) < 256"
  by (metis of_char_mod_256 mod_less_divisor zero_less_numeral)

lemma sextets:
  assumes "n < (16777216 :: nat)"
  shows "n div 262144 < 64" "n div 4096 mod 64 < 64" "n div 64 mod 64 < 64" "n mod 64 < 64"
    "n div 262144 * 262144 + n div 4096 mod 64 * 4096 + n div 64 mod 64 * 64 + n mod 64 = n"
proof -
  let ?x = "n div 64" let ?y = "?x div 64" let ?z = "?y div 64"
  have e: "n div 4096 = ?y" "n div 262144 = ?z" by (simp_all add: div_mult2_eq [symmetric])
  have "n = 64 * ?x + n mod 64" "?x = 64 * ?y + ?x mod 64" "?y = 64 * ?z + ?y mod 64" by simp_all
  then show "n div 262144 * 262144 + n div 4096 mod 64 * 4096 + n div 64 mod 64 * 64 + n mod 64 = n"
    unfolding e by linarith
qed (use assms in simp_all)

lemma bytes_of_triple:
  assumes "a < 256" "b < 256" "c < (256 :: nat)"
  shows "(a * 65536 + b * 256 + c) div 65536 = a" "(a * 65536 + b * 256 + c) div 256 mod 256 = b"
    "(a * 65536 + b * 256 + c) mod 256 = c" "a * 65536 + b * 256 + c < 16777216"
proof -
  have n: "a * 65536 + b * 256 + c = 256 * (256 * a + b) + c" by simp
  have d: "(256 * k + x) div 256 = k" "(256 * k + x) mod 256 = x" if "x < 256" for k x :: nat using that by simp_all
  have "(a * 65536 + b * 256 + c) div 65536 = (256 * (256 * a + b) + c) div 256 div 256"
    unfolding n by (simp only: div_mult2_eq [symmetric]) simp
  then show "(a * 65536 + b * 256 + c) div 65536 = a" unfolding d(1) [OF assms(3)] d(1) [OF assms(2)] .
  show "(a * 65536 + b * 256 + c) div 256 mod 256 = b" unfolding n d(1) [OF assms(3)] d(2) [OF assms(2)] ..
  show "(a * 65536 + b * 256 + c) mod 256 = c" unfolding n d(2) [OF assms(3)] ..
  show "a * 65536 + b * 256 + c < 16777216" using assms by linarith
qed

definition word24 :: "char \<Rightarrow> char \<Rightarrow> char \<Rightarrow> nat" where
  "word24 a b c = of_char a * 65536 + of_char b * 256 + of_char c"

lemma word24_less: "word24 a b c < 16777216"
  unfolding word24_def by (rule bytes_of_triple(4)) (rule of_char_less)+

lemma join_word24:
  "b64_join (word24 a b c div 262144) (word24 a b c div 4096 mod 64) (word24 a b c div 64 mod 64) (word24 a b c mod 64) = [a, b, c]"
proof -
  note t = bytes_of_triple [OF of_char_less of_char_less of_char_less, of a b c, folded word24_def]
  show ?thesis unfolding b64_join_def Let_def sextets(5) [OF word24_less] t by simp
qed

lemma val_sextets:
  assumes "n < 16777216"
  shows "b64_val (b64_char (n div 262144)) = Some (n div 262144)"
    "b64_val (b64_char (n div 4096 mod 64)) = Some (n div 4096 mod 64)"
    "b64_val (b64_char (n div 64 mod 64)) = Some (n div 64 mod 64)" "b64_val (b64_char (n mod 64)) = Some (n mod 64)"
  by (rule b64_val_char, rule sextets [OF assms])+

lemma word24_tail:
  "word24 a b (CHR 0x00) = of_char a * 65536 + of_char b * 256" "word24 a (CHR 0x00) (CHR 0x00) = of_char a * 65536"
  "word24 a b (CHR 0x00) mod 64 = 0" "word24 a (CHR 0x00) (CHR 0x00) div 64 mod 64 = 0"
proof -
  show e: "word24 a b (CHR 0x00) = of_char a * 65536 + of_char b * 256" "word24 a (CHR 0x00) (CHR 0x00) = of_char a * 65536"
    by (simp_all add: word24_def)
  have "(of_char a * 65536 + of_char b * 256 :: nat) = 64 * (of_char a * 1024 + of_char b * 4)" by simp
  then show "word24 a b (CHR 0x00) mod 64 = 0" unfolding e by (simp only: mod_mult_self1_is_0)
  have "(of_char a * 65536 :: nat) div 64 = 64 * (of_char a * 16)" by simp
  then show "word24 a (CHR 0x00) (CHR 0x00) div 64 mod 64 = 0" unfolding e by (simp only: mod_mult_self1_is_0)
qed

lemma groups_encode: "b64_groups (b64_encode xs) = Some xs"
proof (induction xs rule: b64_encode.induct)
  case (2 a)
  note v = val_sextets [OF word24_less, of a "CHR 0x00" "CHR 0x00"]
  have "b64_join (word24 a (CHR 0x00) (CHR 0x00) div 262144) (word24 a (CHR 0x00) (CHR 0x00) div 4096 mod 64) 0 0 = [a, CHR 0x00, CHR 0x00]"
    using join_word24 [of a "CHR 0x00" "CHR 0x00"] by (simp add: word24_tail(3,4))
  with v show ?case by (simp add: b64_triple_def word24_tail(2) [symmetric])
next
  case (3 a b)
  note v = val_sextets [OF word24_less, of a b "CHR 0x00"]
  have "b64_join (word24 a b (CHR 0x00) div 262144) (word24 a b (CHR 0x00) div 4096 mod 64) (word24 a b (CHR 0x00) div 64 mod 64) 0
      = [a, b, CHR 0x00]"
    using join_word24 [of a b "CHR 0x00"] by (simp add: word24_tail(3))
  with v show ?case by (simp add: b64_triple_def word24_tail(1) [symmetric] del: word24_tail)
next
  case (4 a b c rest)
  note v = val_sextets [OF word24_less, of a b c]
  show ?case using 4 v join_word24 [of a b c] by (simp add: b64_triple_def word24_def [symmetric])
qed simp

lemma b64_triple_plain:
  assumes "n < 16777216" "c \<in> set (b64_triple n)"
  shows "c \<noteq> CHR 0x0A \<and> c \<noteq> CHR 0x0D \<and> c \<noteq> CHR ''$''"
  using assms(2) sextets(1-4) [OF assms(1)] b64_char_plain by (auto simp: b64_triple_def)

lemma encode_plain: "c \<in> set (b64_encode xs) \<Longrightarrow> c \<noteq> CHR 0x0A \<and> c \<noteq> CHR 0x0D \<and> c \<noteq> CHR ''$''"
proof (induction xs rule: b64_encode.induct)
  case (2 a)
  then have "c \<in> set (b64_triple (word24 a (CHR 0x00) (CHR 0x00)))" using set_take_subset word24_tail(2) by fastforce
  then show ?case by (rule b64_triple_plain [OF word24_less])
next
  case (3 a b)
  then have "c \<in> set (b64_triple (word24 a b (CHR 0x00)))" using set_take_subset word24_tail(1) by fastforce
  then show ?case by (rule b64_triple_plain [OF word24_less])
next
  case (4 a b d rest)
  then show ?case using b64_triple_plain [OF word24_less, of c a b d] by (auto simp: word24_def)
qed simp

lemma decode_encode: "b64_decode (b64_encode xs) = Some xs"
proof -
  have "filter (\<lambda>c. c \<noteq> CHR 0x0A \<and> c \<noteq> CHR 0x0D) (b64_encode xs) = b64_encode xs"
    using encode_plain by (simp add: filter_id_conv)
  then show ?thesis by (simp add: b64_decode_def groups_encode)
qed

lemma rounds_length: "(\<And>k m. length (hmac k m) = 32) \<Longrightarrow> length t = 32 \<Longrightarrow> length (pbkdf2_rounds hmac p n u t) = 32"
  by (induction n arbitrary: u t) (simp_all add: Let_def xor_bytes_def)

lemma key_length: "(\<And>k m. length (hmac k m) = 32) \<Longrightarrow> length (pbkdf2SHA256 hmac p salt iters passwordKeyBytes) = passwordKeyBytes"
  by (simp add: pbkdf2SHA256_def passwordKeyBytes_def pbkdf2_block_def Let_def rounds_length)

subsection \<open>Properties\<close>

text \<open>
  C30. Stored passwords verify: for a password that meets the policy, what is stored splits, decodes and
  verifies again, and another password verifies against it exactly when it derives the same key from the
  stored salt. HMAC-SHA-256 yields 32 bytes.
\<close>

theorem verify_hashed:
  assumes "hashPassword hmac (Inr salt) password = Inr encoded"
    and "length salt = passwordSaltBytes" "\<And>k m. length (hmac k m) = 32"
  shows "verifyPassword hmac encoded attempt \<longleftrightarrow>
      pbkdf2SHA256 hmac attempt salt passwordIterations passwordKeyBytes = pbkdf2SHA256 hmac password salt passwordIterations passwordKeyBytes"
    (is "_ \<longleftrightarrow> ?key attempt = ?key password")
proof -
  let ?s = "b64_encode salt" and ?k = "b64_encode (?key password)"
  have enc: "encoded = ''pbkdf2-sha256'' @ CHR ''$'' # ''310000'' @ CHR ''$'' # ?s @ CHR ''$'' # ?k"
  proof -
    have "Itoa passwordIterations = ''310000''" by code_simp
    then show ?thesis using assms(1) by (auto simp: hashPassword_def split: option.splits)
  qed
  have "CHR ''$'' \<notin> set ?s" "CHR ''$'' \<notin> set ?k" using encode_plain by blast+
  then have "Split encoded CHR ''$'' = [''pbkdf2-sha256'', ''310000'', ?s, ?k]"
    unfolding enc by (simp only: Split_append) (simp add: Split_no_sep)
  moreover have "Atoi ''310000'' = Some passwordIterations" by code_simp
  moreover have "length (?key password) = passwordKeyBytes" by (rule key_length [OF assms(3)])
  ultimately show ?thesis using assms(2)
    by (simp add: verifyPassword_def decode_encode passwordIterations_def passwordSaltBytes_def passwordKeyBytes_def)
qed

theorem verify_hashed_witness:
  "\<exists>encoded. hashPassword (\<lambda>_ _. replicate 32 CHR ''k'') (Inr (replicate 16 CHR ''s'')) ''Correct-Horse-9'' = Inr encoded
    \<and> verifyPassword (\<lambda>_ _. replicate 32 CHR ''k'') encoded ''Correct-Horse-9''"
proof -
  have "validatePassword ''Correct-Horse-9'' = None" by code_simp
  then obtain encoded where h: "hashPassword (\<lambda>_ _. replicate 32 CHR ''k'') (Inr (replicate 16 CHR ''s'')) ''Correct-Horse-9'' = Inr encoded"
    by (simp add: hashPassword_def)
  from verify_hashed [OF this] show ?thesis using h by (simp add: passwordSaltBytes_def)
qed

end
