(* ===== verification/Store.thy ===== *)
theory Store
  imports Password GoHTTP Hosts
begin

text \<open>
  The state of the control plane (\<open>internal/control/store.go\<close>, \<open>types.go\<close>): accounts, sessions, login
  failures and the audit log. The state file is the value last written to it. What an operation needs from
  outside is the record \<open>store_io\<close>: the clock, random identifiers, the salt, the keyed hash, and whether the
  write and the synchronization of the log succeed. Maps of the code are association lists with distinct keys, so that their size is
  the length. A login takes the lock twice; its two halves are two operations.
\<close>

subsection \<open>Data\<close>

definition RoleViewer :: string where "RoleViewer = ''viewer''"
definition RoleOperator :: string where "RoleOperator = ''operator''"
definition RoleAdmin :: string where "RoleAdmin = ''admin''"

record user =
  us_id :: string
  us_name :: string
  us_display :: string
  us_role :: string
  us_disabled :: bool
  us_created :: gotime
  us_updated :: gotime
  us_login :: gotime

record persisted_user =
  pu_user :: user
  pu_hash :: string

record persistent_state =
  ps_version :: int
  ps_setup :: bool
  ps_users :: "persisted_user list"
  ps_created :: gotime
  ps_updated :: gotime

record session =
  sn_token :: string
  sn_csrf :: string
  sn_user :: string
  sn_expires :: gotime

record login_failure =
  lf_count :: int
  lf_start :: gotime
  lf_blocked :: gotime

record audit_event =
  au_id :: string
  au_time :: gotime
  au_actor :: string
  au_role :: string
  au_action :: string
  au_resource :: string
  au_outcome :: string
  au_remote :: string
  au_details :: "(string \<times> string) list"

record control_store =
  cs_state :: persistent_state
  cs_disk :: "persistent_state option"
  cs_sessions :: "(string \<times> session) list"
  cs_failures :: "(string \<times> login_failure) list"
  cs_audit :: "audit_event list"

record store_io =
  si_lib :: golib
  si_now :: gotime
  si_id :: string
  si_token :: "go_error + string"
  si_csrf :: "go_error + string"
  si_salt :: "go_error + string"
  si_hmac :: keyed_hash
  si_write :: "go_error option"
  si_sync :: "go_error option"
  si_victim :: "nat \<Rightarrow> nat"

definition stateVersion :: int where "stateVersion = 1"

definition sessionDuration :: duration where "sessionDuration = 8 * 60 * minute"

text \<open>Deleting a key of a map.\<close>

definition del :: "'k \<Rightarrow> ('k \<times> 'v) list \<Rightarrow> ('k \<times> 'v) list" where
  "del k m = filter (\<lambda>(k', _). k' \<noteq> k) m"

subsection \<open>Opening and saving\<close>

text \<open>The file is missing, cannot be read or decoded, or holds a state.\<close>

definition store_load :: "gotime \<Rightarrow> go_error + persistent_state option \<Rightarrow> go_error + persistent_state" where
  "store_load now file =
     (case file of
        Inl e \<Rightarrow> Inl e
      | Inr None \<Rightarrow> Inr \<lparr>ps_version = stateVersion, ps_setup = False, ps_users = [], ps_created = now, ps_updated = now\<rparr>
      | Inr (Some st) \<Rightarrow>
          if ps_version st \<noteq> stateVersion then Inl (Errorf ''unsupported control state version %d'' [Itoa (ps_version st)])
          else Inr st)"

definition openStore :: "string \<Rightarrow> go_error option \<Rightarrow> gotime \<Rightarrow> go_error + persistent_state option \<Rightarrow> go_error + control_store" where
  "openStore dir mkdir now file =
     (if TrimSpace dir = [] then Inl (Errorf ''control state directory is empty'' [])
      else case mkdir of
        Some e \<Rightarrow> Inl (Wrapped ''create control state directory: %w'' [] [e])
      | None \<Rightarrow>
          (case store_load now file of
             Inl e \<Rightarrow> Inl e
           | Inr st \<Rightarrow> Inr \<lparr>cs_state = st, cs_disk = (case file of Inr f \<Rightarrow> f | Inl _ \<Rightarrow> None),
               cs_sessions = [], cs_failures = [], cs_audit = []\<rparr>))"

text \<open>The new state in memory, and written when the write succeeds; a failed write changes the memory only.\<close>

definition saveLocked :: "store_io \<Rightarrow> control_store \<Rightarrow> control_store \<times> go_error option" where
  "saveLocked io s =
     (let st = (cs_state s)\<lparr>ps_version := stateVersion, ps_updated := si_now io\<rparr> in
      case si_write io of
        Some e \<Rightarrow> (s\<lparr>cs_state := st\<rparr>, Some e)
      | None \<Rightarrow> (s\<lparr>cs_state := st, cs_disk := Some st\<rparr>, None))"

text \<open>The pattern of every change: save, and restore the state from before when that fails.\<close>

definition commit :: "store_io \<Rightarrow> persistent_state \<Rightarrow> 'a \<Rightarrow> control_store \<Rightarrow> control_store \<times> (go_error + 'a)" where
  "commit io before x s =
     (case saveLocked io s of
        (s', Some e) \<Rightarrow> (s'\<lparr>cs_state := before\<rparr>, Inl e)
      | (s', None) \<Rightarrow> (s', Inr x))"

definition setupCompleted :: "control_store \<Rightarrow> bool" where
  "setupCompleted s = (ps_setup (cs_state s) \<and> ps_users (cs_state s) \<noteq> [])"

definition set_users :: "persisted_user list \<Rightarrow> control_store \<Rightarrow> control_store" where
  "set_users us s = s\<lparr>cs_state := (cs_state s)\<lparr>ps_users := us\<rparr>\<rparr>"

subsection \<open>Accounts\<close>

definition normalizeUsername :: "golib \<Rightarrow> string \<Rightarrow> go_error + string" where
  "normalizeUsername L v0 =
     (let v = ToLower L (TrimSpace v0) in
      if length v < 3 \<or> 64 < length v then Inl (Errorf ''username must contain 3 to 64 characters'' [])
      else if \<not> list_all (\<lambda>c. is_lower c \<or> is_digit c \<or> c \<in> set ''-_.'') v
      then Inl (Errorf ''username may contain only lowercase letters, numbers, dot, dash, and underscore'' [])
      else Inr v)"

definition validRole :: "string \<Rightarrow> bool" where
  "validRole role = (role = RoleAdmin \<or> role = RoleOperator \<or> role = RoleViewer)"

definition roleLevel :: "string \<Rightarrow> int" where
  "roleLevel role = (if role = RoleAdmin then 3 else if role = RoleOperator then 2 else if role = RoleViewer then 1 else 0)"

definition new_user :: "store_io \<Rightarrow> string \<Rightarrow> string \<Rightarrow> string \<Rightarrow> string \<Rightarrow> user" where
  "new_user io name displayName fallback role =
     (let d = TrimSpace displayName in
      \<lparr>us_id = si_id io, us_name = name, us_display = (if d = [] then fallback else d), us_role = role, us_disabled = False,
       us_created = si_now io, us_updated = si_now io, us_login = time_zero\<rparr>)"

definition createInitialAdmin :: "store_io \<Rightarrow> string \<Rightarrow> string \<Rightarrow> string \<Rightarrow> control_store \<Rightarrow> control_store \<times> (go_error + user)" where
  "createInitialAdmin io username displayName password s =
     (case normalizeUsername (si_lib io) username of
        Inl e \<Rightarrow> (s, Inl e)
      | Inr name \<Rightarrow>
          (case hashPassword (si_hmac io) (si_salt io) password of
             Inl e \<Rightarrow> (s, Inl e)
           | Inr hash \<Rightarrow>
               if ps_setup (cs_state s) \<or> ps_users (cs_state s) \<noteq> []
               then (s, Inl (Errorf ''first-boot setup is already complete'' []))
               else let u = new_user io name displayName ''CherryWAF Administrator'' RoleAdmin in
                 commit io (cs_state s) u
                   (s\<lparr>cs_state := (cs_state s)\<lparr>ps_users := [\<lparr>pu_user = u, pu_hash = hash\<rparr>], ps_setup := True\<rparr>\<rparr>)))"

definition has_name :: "string \<Rightarrow> persisted_user \<Rightarrow> bool" where
  "has_name name u = (us_name (pu_user u) = name)"

definition createUser :: "store_io \<Rightarrow> string \<Rightarrow> string \<Rightarrow> string \<Rightarrow> string \<Rightarrow> control_store \<Rightarrow> control_store \<times> (go_error + user)" where
  "createUser io username displayName password role s =
     (case normalizeUsername (si_lib io) username of
        Inl e \<Rightarrow> (s, Inl e)
      | Inr name \<Rightarrow>
          if \<not> validRole role then (s, Inl (Errorf ''role must be admin, operator, or viewer'' []))
          else (case hashPassword (si_hmac io) (si_salt io) password of
             Inl e \<Rightarrow> (s, Inl e)
           | Inr hash \<Rightarrow>
               if list_ex (has_name name) (ps_users (cs_state s)) then (s, Inl (Errorf ''username already exists'' []))
               else let u = new_user io name displayName name role in
                 commit io (cs_state s) u (set_users (ps_users (cs_state s) @ [\<lparr>pu_user = u, pu_hash = hash\<rparr>]) s)))"

definition users :: "control_store \<Rightarrow> user list" where
  "users s = sort_key us_name (map pu_user (ps_users (cs_state s)))"

definition is_admin :: "persisted_user \<Rightarrow> bool" where
  "is_admin u = (us_role (pu_user u) = RoleAdmin \<and> \<not> us_disabled (pu_user u))"

definition ensureAdminLocked :: "control_store \<Rightarrow> go_error option" where
  "ensureAdminLocked s =
     (if list_ex is_admin (ps_users (cs_state s)) then None
      else Some (Errorf ''at least one enabled administrator is required'' []))"

definition ErrNotExist :: go_error where
  "ErrNotExist = Errorf ''file does not exist'' []"

record user_update =
  uu_display :: "string option"
  uu_role :: "string option"
  uu_disabled :: "bool option"
  uu_password :: "string option"

fun first_index :: "('a \<Rightarrow> bool) \<Rightarrow> 'a list \<Rightarrow> nat option" where
  "first_index P [] = None"
| "first_index P (x # xs) = (if P x then Some 0 else map_option Suc (first_index P xs))"

definition by_id :: "string \<Rightarrow> persisted_user \<Rightarrow> bool" where
  "by_id i u = (us_id (pu_user u) = i)"

text \<open>\<open>record := &s.state.Users[index]\<close>: an assignment through the pointer is a change of the state at once.\<close>

definition assign :: "nat \<Rightarrow> persisted_user \<Rightarrow> control_store \<Rightarrow> control_store" where
  "assign i u s = set_users ((ps_users (cs_state s))[i := u]) s"

definition upd_display :: "user_update \<Rightarrow> persisted_user \<Rightarrow> go_error + persisted_user" where
  "upd_display up u =
     (case uu_display up of
        None \<Rightarrow> Inr u
      | Some d \<Rightarrow> let name = TrimSpace d in
          if name = [] then Inl (Errorf ''display name must not be empty'' [])
          else Inr (u\<lparr>pu_user := (pu_user u)\<lparr>us_display := name\<rparr>\<rparr>))"

definition upd_role :: "user_update \<Rightarrow> string \<Rightarrow> persisted_user \<Rightarrow> go_error + persisted_user" where
  "upd_role up actorID u =
     (case uu_role up of
        None \<Rightarrow> Inr u
      | Some role \<Rightarrow>
          if \<not> validRole role then Inl (Errorf ''invalid role'' [])
          else if us_id (pu_user u) = actorID \<and> role \<noteq> RoleAdmin
          then Inl (Errorf ''an administrator cannot remove their own admin role'' [])
          else Inr (u\<lparr>pu_user := (pu_user u)\<lparr>us_role := role\<rparr>\<rparr>))"

definition upd_disabled :: "user_update \<Rightarrow> string \<Rightarrow> persisted_user \<Rightarrow> go_error + persisted_user" where
  "upd_disabled up actorID u =
     (case uu_disabled up of
        None \<Rightarrow> Inr u
      | Some d \<Rightarrow>
          if us_id (pu_user u) = actorID \<and> d then Inl (Errorf ''an administrator cannot disable their own account'' [])
          else Inr (u\<lparr>pu_user := (pu_user u)\<lparr>us_disabled := d\<rparr>\<rparr>))"

definition upd_password :: "store_io \<Rightarrow> user_update \<Rightarrow> persisted_user \<Rightarrow> go_error + persisted_user \<times> bool" where
  "upd_password io up u =
     (case uu_password up of
        None \<Rightarrow> Inr (u, False)
      | Some p \<Rightarrow>
          if p = [] then Inr (u, False)
          else (case hashPassword (si_hmac io) (si_salt io) p of
              Inl e \<Rightarrow> Inl e
            | Inr hash \<Rightarrow> Inr (u\<lparr>pu_hash := hash\<rparr>, True)))"

definition drop_sessions :: "(session \<Rightarrow> bool) \<Rightarrow> control_store \<Rightarrow> control_store" where
  "drop_sessions P s = s\<lparr>cs_sessions := filter (\<lambda>(_, sn). \<not> P sn) (cs_sessions s)\<rparr>"

text \<open>The end of an update: the password, the administrator check, the save, and the sessions.\<close>

definition finish_update :: "store_io \<Rightarrow> user_update \<Rightarrow> string \<Rightarrow> nat \<Rightarrow> persistent_state \<Rightarrow> persisted_user
    \<Rightarrow> control_store \<Rightarrow> control_store \<times> (go_error + user)" where
  "finish_update io up actorID i before u s =
     (case upd_password io up u of
        Inl e \<Rightarrow> (s\<lparr>cs_state := before\<rparr>, Inl e)
      | Inr (u1, passwordChanged) \<Rightarrow>
          let u2 = u1\<lparr>pu_user := (pu_user u1)\<lparr>us_updated := si_now io\<rparr>\<rparr>; s2 = assign i u2 s in
          (case ensureAdminLocked s2 of
             Some e \<Rightarrow> (s2\<lparr>cs_state := before\<rparr>, Inl e)
           | None \<Rightarrow>
               (case commit io before (pu_user u2) s2 of
                  (s3, Inl e) \<Rightarrow> (s3, Inl e)
                | (s3, Inr r) \<Rightarrow>
                    (if us_disabled (pu_user u2) \<or> passwordChanged
                     then drop_sessions (\<lambda>sn. sn_user sn = us_id (pu_user u2)
                       \<and> (us_id (pu_user u2) \<noteq> actorID \<or> us_disabled (pu_user u2))) s3
                     else s3, Inr r))))"

definition updateUser :: "store_io \<Rightarrow> string \<Rightarrow> user_update \<Rightarrow> string \<Rightarrow> control_store \<Rightarrow> control_store \<times> (go_error + user)" where
  "updateUser io uid up actorID s =
     (case first_index (by_id uid) (ps_users (cs_state s)) of
        None \<Rightarrow> (s, Inl ErrNotExist)
      | Some i \<Rightarrow>
          let before = cs_state s; u0 = ps_users (cs_state s) ! i in
          (case upd_display up u0 of
             Inl e \<Rightarrow> (s, Inl e)
           | Inr u1 \<Rightarrow>
               (case upd_role up actorID u1 of
                  Inl e \<Rightarrow> (assign i u1 s, Inl e)
                | Inr u2 \<Rightarrow>
                    (case upd_disabled up actorID u2 of
                       Inl e \<Rightarrow> (assign i u2 s, Inl e)
                     | Inr u3 \<Rightarrow> finish_update io up actorID i before u3 (assign i u3 s)))))"

definition remove_at :: "nat \<Rightarrow> 'a list \<Rightarrow> 'a list" where
  "remove_at i xs = take i xs @ drop (Suc i) xs"

definition deleteUser :: "store_io \<Rightarrow> string \<Rightarrow> string \<Rightarrow> control_store \<Rightarrow> control_store \<times> go_error option" where
  "deleteUser io uid actorID s =
     (if uid = actorID then (s, Some (Errorf ''an administrator cannot delete their own account'' []))
      else case first_index (by_id uid) (ps_users (cs_state s)) of
        None \<Rightarrow> (s, Some ErrNotExist)
      | Some i \<Rightarrow>
          let before = cs_state s; s1 = set_users (remove_at i (ps_users before)) s in
          (case ensureAdminLocked s1 of
             Some e \<Rightarrow> (s1\<lparr>cs_state := before\<rparr>, Some e)
           | None \<Rightarrow>
               (case commit io before () s1 of
                  (s2, Inl e) \<Rightarrow> (s2, Some e)
                | (s2, Inr _) \<Rightarrow> (drop_sessions (\<lambda>sn. sn_user sn = uid) s2, None))))"

subsection \<open>Logging in\<close>

definition no_failure :: login_failure where
  "no_failure = \<lparr>lf_count = 0, lf_start = time_zero, lf_blocked = time_zero\<rparr>"

definition failure_of :: "string \<Rightarrow> control_store \<Rightarrow> login_failure" where
  "failure_of key s = (case map_of (cs_failures s) key of
     Some f \<Rightarrow> f | None \<Rightarrow> no_failure)"

text \<open>The entry that a round of the eviction loop removes is the one the map iteration meets first.\<close>

function evict :: "(nat \<Rightarrow> nat) \<Rightarrow> ('k \<times> 'v) list \<Rightarrow> ('k \<times> 'v) list" where
  "evict victim m =
     (if 8192 < length m then evict victim (remove_at (victim (length m) mod length m) m) else m)"
  by pat_completeness auto
termination
proof (relation "measure (\<lambda>(_, m). length m)")
  fix victim :: "nat \<Rightarrow> nat" and m :: "('k \<times> 'v) list"
  assume "8192 < length m"
  moreover from this have "victim (length m) mod length m < length m" by (intro mod_less_divisor) auto
  ultimately show "((victim, remove_at (victim (length m) mod length m) m), victim, m) \<in> measure (\<lambda>(_, m). length m)"
    by (simp add: remove_at_def)
qed simp

declare evict.simps [simp del]

definition stale :: "gotime \<Rightarrow> login_failure \<Rightarrow> bool" where
  "stale now f \<longleftrightarrow> lf_start f \<noteq> time_zero \<and> 30 * minute < time_sub now (lf_start f)
     \<and> (lf_blocked f = time_zero \<or> \<not> time_before now (lf_blocked f))"

definition pruneFailuresLocked :: "(nat \<Rightarrow> nat) \<Rightarrow> gotime \<Rightarrow> control_store \<Rightarrow> control_store" where
  "pruneFailuresLocked victim now s =
     (if length (cs_failures s) < 1024 then s
      else s\<lparr>cs_failures := evict victim (filter (\<lambda>(_, f). \<not> stale now f) (cs_failures s))\<rparr>)"

definition login_name :: "golib \<Rightarrow> string \<Rightarrow> string" where
  "login_name L username = ToLower L (TrimSpace username)"

definition login_key :: "string \<Rightarrow> string \<Rightarrow> string" where
  "login_key remote name = remote @ ''|'' @ name"

definition blocked_error :: go_error where
  "blocked_error = Errorf ''login temporarily blocked until %s'' []"

text \<open>The first half, under the lock: the identifier and hash to check the password against.\<close>

definition auth_begin :: "store_io \<Rightarrow> string \<Rightarrow> string \<Rightarrow> control_store \<Rightarrow> control_store \<times> (go_error + string \<times> string)" where
  "auth_begin io name remote s =
     (let s1 = pruneFailuresLocked (si_victim io) (si_now io) s in
      if time_before (si_now io) (lf_blocked (failure_of (login_key remote name) s1)) then (s1, Inl blocked_error)
      else (s1, Inr (case find (has_name name) (ps_users (cs_state s)) of
          Some u \<Rightarrow> (us_id (pu_user u), pu_hash u)
        | None \<Rightarrow> ([], dummyPasswordHash))))"

definition count_failure :: "gotime \<Rightarrow> login_failure \<Rightarrow> login_failure" where
  "count_failure now f =
     (let f1 = (if lf_start f = time_zero \<or> 15 * minute < time_sub now (lf_start f)
                then \<lparr>lf_count = 0, lf_start = now, lf_blocked = time_zero\<rparr> else f);
          f2 = f1\<lparr>lf_count := lf_count f1 + 1\<rparr> in
      if 8 \<le> lf_count f2 then f2\<lparr>lf_blocked := now + 15 * minute\<rparr> else f2)"

text \<open>The second half, under the lock again, with the outcome of the verification.\<close>

definition auth_finish :: "store_io \<Rightarrow> string \<Rightarrow> string \<Rightarrow> string \<times> string \<Rightarrow> bool \<Rightarrow> control_store
    \<Rightarrow> control_store \<times> (go_error + user)" where
  "auth_finish io name remote cand passwordOK s =
     (let key = login_key remote name; now = si_now io; f = failure_of key s in
      if time_before now (lf_blocked f) then (s, Inl blocked_error)
      else case first_index (\<lambda>u. by_id (fst cand) u \<and> has_name name u \<and> pu_hash u = snd cand) (ps_users (cs_state s)) of
        Some i \<Rightarrow>
          let u = ps_users (cs_state s) ! i in
          if us_disabled (pu_user u) \<or> \<not> passwordOK
          then (s\<lparr>cs_failures := put key (count_failure now f) (cs_failures s)\<rparr>, Inl (Errorf ''invalid username or password'' []))
          else let s1 = s\<lparr>cs_failures := del key (cs_failures s)\<rparr>;
                   u' = u\<lparr>pu_user := (pu_user u)\<lparr>us_login := now, us_updated := now\<rparr>\<rparr> in
            commit io (cs_state s) (pu_user u') (assign i u' s1)
      | None \<Rightarrow>
          (s\<lparr>cs_failures := put key (count_failure now f) (cs_failures s)\<rparr>, Inl (Errorf ''invalid username or password'' [])))"

definition authenticate :: "store_io \<Rightarrow> store_io \<Rightarrow> string \<Rightarrow> string \<Rightarrow> string \<Rightarrow> control_store \<Rightarrow> control_store \<times> (go_error + user)" where
  "authenticate io io' username password remote s =
     (let name = login_name (si_lib io) username in
      case auth_begin io name remote s of
        (s1, Inl e) \<Rightarrow> (s1, Inl e)
      | (s1, Inr cand) \<Rightarrow> auth_finish io' name remote cand (verifyPassword (si_hmac io) (snd cand) password) s1)"

subsection \<open>Sessions\<close>

definition pruneSessionsLocked :: "gotime \<Rightarrow> control_store \<Rightarrow> control_store" where
  "pruneSessionsLocked now s = drop_sessions (\<lambda>sn. \<not> time_before now (sn_expires sn)) s"

definition createSession :: "store_io \<Rightarrow> string \<Rightarrow> control_store \<Rightarrow> control_store \<times> (go_error + session)" where
  "createSession io userID s =
     (case si_token io of
        Inl e \<Rightarrow> (s, Inl e)
      | Inr token \<Rightarrow>
          (case si_csrf io of
             Inl e \<Rightarrow> (s, Inl e)
           | Inr csrf \<Rightarrow>
               let s1 = pruneSessionsLocked (si_now io) s;
                   sn = \<lparr>sn_token = token, sn_csrf = csrf, sn_user = userID, sn_expires = si_now io + sessionDuration\<rparr> in
               (s1\<lparr>cs_sessions := put token sn (cs_sessions s1)\<rparr>, Inr sn)))"

definition sessionPrincipal :: "gotime \<Rightarrow> string \<Rightarrow> control_store \<Rightarrow> control_store \<times> (user \<times> session) option" where
  "sessionPrincipal now token s =
     (let s1 = pruneSessionsLocked now s in
      case map_of (cs_sessions s1) token of
        None \<Rightarrow> (s1, None)
      | Some sn \<Rightarrow>
          if \<not> time_before now (sn_expires sn) then (s1, None)
          else (case find (\<lambda>u. by_id (sn_user sn) u \<and> \<not> us_disabled (pu_user u)) (ps_users (cs_state s1)) of
              Some u \<Rightarrow> (s1, Some (pu_user u, sn))
            | None \<Rightarrow> (s1\<lparr>cs_sessions := del token (cs_sessions s1)\<rparr>, None)))"

definition deleteSession :: "string \<Rightarrow> control_store \<Rightarrow> control_store" where
  "deleteSession token s = s\<lparr>cs_sessions := del token (cs_sessions s)\<rparr>"

subsection \<open>Audit\<close>

text \<open>Opening or writing the log fails and leaves no line, or the line is there and only its synchronization may fail.\<close>

definition appendAudit :: "store_io \<Rightarrow> audit_event \<Rightarrow> control_store \<Rightarrow> control_store \<times> go_error option" where
  "appendAudit io e s =
     (let e1 = (if au_id e = [] then e\<lparr>au_id := si_id io\<rparr> else e);
          e2 = (if au_time e1 = time_zero then e1\<lparr>au_time := si_now io\<rparr> else e1) in
      case si_write io of
        Some err \<Rightarrow> (s, Some err)
      | None \<Rightarrow> (s\<lparr>cs_audit := cs_audit s @ [e2]\<rparr>, si_sync io))"

definition keep_newest :: "nat \<Rightarrow> 'e list \<Rightarrow> 'e \<Rightarrow> 'e list" where
  "keep_newest limit events e = (let es = events @ [e] in if limit < length es then tl es else es)"

definition readAudit :: "int \<Rightarrow> control_store \<Rightarrow> audit_event list" where
  "readAudit limit0 s =
     (let limit = (if limit0 < 1 \<or> 1000 < limit0 then 200 else nat limit0) in
      rev (foldl (keep_newest limit) [] (cs_audit s)))"

subsection \<open>The store as a transition system\<close>

text \<open>
  A fresh identifier is 16 random bytes: it is none of those in use and not empty. Only the setup creates
  an account before the setup is complete, since every other handler asks for a session of an account.
\<close>

definition fresh_id :: "store_io \<Rightarrow> control_store \<Rightarrow> bool" where
  "fresh_id io s \<longleftrightarrow> si_id io \<noteq> [] \<and> \<not> list_ex (by_id (si_id io)) (ps_users (cs_state s))"

definition good_users :: "bool \<Rightarrow> persisted_user list \<Rightarrow> bool" where
  "good_users setup us \<longleftrightarrow>
     (if setup then list_ex is_admin us else us = [])
     \<and> distinct (map (us_name \<circ> pu_user) us) \<and> distinct (map (us_id \<circ> pu_user) us)
     \<and> list_all (\<lambda>u. validRole (us_role (pu_user u))) us"

definition good_state :: "persistent_state \<Rightarrow> bool" where
  "good_state st \<longleftrightarrow> ps_version st = stateVersion \<and> good_users (ps_setup st) (ps_users st)"

definition store_inv :: "control_store \<Rightarrow> bool" where
  "store_inv s \<longleftrightarrow> good_state (cs_state s) \<and> (case cs_disk s of None \<Rightarrow> \<not> ps_setup (cs_state s) | Some st \<Rightarrow> good_state st \<and> ps_setup st = ps_setup (cs_state s))"

definition store_opened :: "control_store \<Rightarrow> bool" where
  "store_opened s \<longleftrightarrow> (\<exists>dir now file. openStore dir None now (Inr file) = Inr s \<and> (case file of None \<Rightarrow> True | Some st \<Rightarrow> good_state st))"

inductive store_step :: "control_store \<Rightarrow> control_store \<Rightarrow> bool" where
  first_boot: "createInitialAdmin io name d p s = (t, r) \<Longrightarrow> fresh_id io s \<Longrightarrow> store_step s t"
| create: "createUser io name d p role s = (t, r) \<Longrightarrow> fresh_id io s \<Longrightarrow> ps_setup (cs_state s) \<Longrightarrow> store_step s t"
| update: "updateUser io uid up actor s = (t, r) \<Longrightarrow> store_step s t"
| delete: "deleteUser io uid actor s = (t, e) \<Longrightarrow> store_step s t"
| login_begin: "auth_begin io name remote s = (t, c) \<Longrightarrow> store_step s t"
| login_finish: "auth_finish io name remote cand ok s = (t, r) \<Longrightarrow> store_step s t"
| open_session: "createSession io uid s = (t, sn) \<Longrightarrow> store_step s t"
| principal: "sessionPrincipal now token s = (t, p) \<Longrightarrow> store_step s t"
| close_session: "deleteSession token s = t \<Longrightarrow> store_step s t"
| audit: "appendAudit io e s = (t, err) \<Longrightarrow> store_step s t"

lemma store_inv_core:
  assumes "store_inv s" "cs_state t = cs_state s" "cs_disk t = cs_disk s"
  shows "store_inv t"
  using assms by (simp add: store_inv_def split: option.splits)

lemma core_simps [simp]:
  "cs_state (drop_sessions P s) = cs_state s" "cs_disk (drop_sessions P s) = cs_disk s"
  "cs_state (pruneFailuresLocked v now s) = cs_state s" "cs_disk (pruneFailuresLocked v now s) = cs_disk s"
  "cs_state (pruneSessionsLocked now s) = cs_state s" "cs_disk (pruneSessionsLocked now s) = cs_disk s"
  "cs_state (set_users us s) = (cs_state s)\<lparr>ps_users := us\<rparr>" "cs_disk (set_users us s) = cs_disk s"
  "cs_state (assign i u s) = (cs_state s)\<lparr>ps_users := (ps_users (cs_state s))[i := u]\<rparr>" "cs_disk (assign i u s) = cs_disk s"
  by (simp_all add: drop_sessions_def pruneFailuresLocked_def pruneSessionsLocked_def set_users_def assign_def)

text \<open>Committing a good change keeps the invariant, whether or not the write succeeds.\<close>

lemma commit_inv:
  assumes "store_inv s" "good_state (cs_state s1)" "cs_disk s1 = cs_disk s" "commit io (cs_state s) x s1 = (t, r)"
  shows "store_inv t \<and> (\<forall>e. r = Inl e \<longrightarrow> cs_state t = cs_state s \<and> cs_disk t = cs_disk s)
    \<and> (r = Inr x \<longrightarrow> cs_disk t = Some (cs_state t) \<and> ps_users (cs_state t) = ps_users (cs_state s1)
        \<and> ps_setup (cs_state t) = ps_setup (cs_state s1))"
  using assms
  by (auto simp: commit_def saveLocked_def Let_def store_inv_def good_state_def split: option.splits)

lemma first_index_Some: "first_index P xs = Some i \<Longrightarrow> i < length xs \<and> P (xs ! i)"
  by (induction xs arbitrary: i) (auto split: if_splits)

lemma map_update_same: "i < length xs \<Longrightarrow> f y = f (xs ! i) \<Longrightarrow> map f (xs[i := y]) = map f xs"
  by (simp add: map_update list_update_same_conv)

text \<open>An account whose identity stays, whose role stays valid, and after which an administrator is left.\<close>

lemma good_users_assign:
  assumes "good_users setup us" "i < length us" "us_name (pu_user u) = us_name (pu_user (us ! i))"
    "us_id (pu_user u) = us_id (pu_user (us ! i))" "validRole (us_role (pu_user u))"
    "setup \<longrightarrow> list_ex is_admin (us[i := u])"
  shows "good_users setup (us[i := u])"
proof -
  have "map (us_name \<circ> pu_user) (us[i := u]) = map (us_name \<circ> pu_user) us"
    "map (us_id \<circ> pu_user) (us[i := u]) = map (us_id \<circ> pu_user) us"
    using assms by (simp_all add: map_update_same)
  moreover have "list_all (\<lambda>u. validRole (us_role (pu_user u))) (us[i := u])"
    using assms(1,5) by (auto simp: good_users_def list_all_iff dest!: set_update_subset_insert [THEN subsetD])
  ultimately show ?thesis using assms by (cases "setup") (auto simp: good_users_def)
qed

lemma list_ex_update: "list_ex P xs \<Longrightarrow> i < length xs \<Longrightarrow> (P (xs ! i) \<longrightarrow> P y) \<Longrightarrow> list_ex P (xs[i := y])"
  by (auto simp: list_ex_length nth_list_update)

lemma store_invD: "store_inv s \<Longrightarrow> good_state (cs_state s)"
  by (simp add: store_inv_def)

lemma commit_keeps:
  assumes "store_inv s" "good_state (cs_state s1)" "cs_disk s1 = cs_disk s"
  shows "store_inv (fst (commit io (cs_state s) x s1))"
  by (rule commit_inv [OF assms prod.collapse [symmetric], THEN conjunct1])

lemma restore_inv: "store_inv s \<Longrightarrow> cs_disk s1 = cs_disk s \<Longrightarrow> store_inv (s1\<lparr>cs_state := cs_state s\<rparr>)"
  by (simp add: store_inv_def split: option.splits)

lemma drop_sessions_inv [simp]: "store_inv (drop_sessions P s) = store_inv s"
  by (simp add: store_inv_def split: option.splits)

lemma createInitialAdmin_inv:
  assumes "store_inv s"
  shows "store_inv (fst (createInitialAdmin io name d p s))"
proof -
  have "good_state ((cs_state s)\<lparr>ps_users := [\<lparr>pu_user = new_user io n d x RoleAdmin, pu_hash = h\<rparr>], ps_setup := True\<rparr>)" for n x h
    using store_invD [OF assms] by (simp add: good_state_def good_users_def is_admin_def new_user_def Let_def validRole_def)
  then show ?thesis using assms
    by (auto simp: createInitialAdmin_def Let_def intro!: commit_keeps split: sum.splits)
qed

lemma createUser_inv:
  assumes "store_inv s" "fresh_id io s" "ps_setup (cs_state s)"
  shows "store_inv (fst (createUser io name d p role s))"
proof -
  have "good_state ((cs_state s)\<lparr>ps_users := ps_users (cs_state s) @ [\<lparr>pu_user = new_user io n d n role, pu_hash = h\<rparr>]\<rparr>)"
    if "validRole role" "\<not> list_ex (has_name n) (ps_users (cs_state s))" for n h
    using store_invD [OF assms(1)] assms(2,3) that
    by (auto simp: good_state_def good_users_def new_user_def Let_def fresh_id_def by_id_def has_name_def list_ex_iff)
  then show ?thesis using assms(1)
    by (auto simp: createUser_def Let_def intro!: commit_keeps split: sum.splits)
qed

lemma distinct_remove_at: "distinct (map f xs) \<Longrightarrow> distinct (map f (remove_at i xs))"
proof (cases "i < length xs")
  case True
  assume "distinct (map f xs)"
  then have "distinct (map f (take i xs @ xs ! i # drop (Suc i) xs))" using id_take_nth_drop [OF True] by simp
  then show ?thesis by (simp add: remove_at_def) 
qed (simp add: remove_at_def)

lemma deleteUser_inv:
  assumes "store_inv s"
  shows "store_inv (fst (deleteUser io uid actor s))"
proof -
  let ?us = "ps_users (cs_state s)"
  have good: "good_state ((cs_state s)\<lparr>ps_users := remove_at i ?us\<rparr>)" if "list_ex is_admin (remove_at i ?us)" "i < length ?us" for i
  proof -
    have "distinct (map f (remove_at i ?us))" if "distinct (map f ?us)" for f :: "persisted_user \<Rightarrow> string"
      using that by (rule distinct_remove_at)
    moreover have "set (remove_at i ?us) \<subseteq> set ?us" by (auto simp: remove_at_def dest: in_set_takeD in_set_dropD)
    ultimately show ?thesis using store_invD [OF assms] that(1)
      by (auto simp: good_state_def good_users_def list_all_iff split: if_splits)
  qed
  show ?thesis
  proof (cases "first_index (by_id uid) ?us")
    case (Some i)
    let ?s1 = "set_users (remove_at i ?us) s"
    have "store_inv (fst (commit io (cs_state s) () ?s1))" if "list_ex is_admin (remove_at i ?us)"
      using assms good [OF that] first_index_Some [OF Some] by (intro commit_keeps) simp_all
    then show ?thesis using assms Some
      by (auto simp: deleteUser_def Let_def ensureAdminLocked_def restore_inv split: prod.split sum.split)
  qed (use assms in \<open>simp add: deleteUser_def\<close>)
qed

definition same_identity :: "persisted_user \<Rightarrow> persisted_user \<Rightarrow> bool" where
  "same_identity u v \<longleftrightarrow> us_name (pu_user u) = us_name (pu_user v) \<and> us_id (pu_user u) = us_id (pu_user v)
     \<and> (validRole (us_role (pu_user v)) \<longrightarrow> validRole (us_role (pu_user u)))"

lemma upd_identity:
  "upd_display up u = Inr v \<Longrightarrow> same_identity v u \<and> (is_admin u \<longrightarrow> is_admin v)"
  "upd_role up actor u = Inr v \<Longrightarrow> same_identity v u"
  "upd_role up actor u = Inr v \<Longrightarrow> us_id (pu_user u) = actor \<Longrightarrow> is_admin u \<longrightarrow> is_admin v"
  "upd_disabled up actor u = Inr v \<Longrightarrow> same_identity v u"
  "upd_disabled up actor u = Inl e \<Longrightarrow> us_id (pu_user u) = actor"
  "upd_password io up u = Inr (v, ch) \<Longrightarrow> same_identity v u"
  by (auto simp: upd_display_def upd_role_def upd_disabled_def upd_password_def same_identity_def is_admin_def Let_def
      split: option.splits if_splits sum.splits)

lemma same_identity_trans: "same_identity u v \<Longrightarrow> same_identity v w \<Longrightarrow> same_identity u w"
  by (simp add: same_identity_def)

lemma assign_inv:
  assumes "store_inv s" "i < length (ps_users (cs_state s))" "same_identity u (ps_users (cs_state s) ! i)"
    and "ps_setup (cs_state s) \<longrightarrow> list_ex is_admin ((ps_users (cs_state s))[i := u])"
  shows "store_inv (assign i u s)" "good_state (cs_state (assign i u s))"
proof -
  have g: "good_users (ps_setup (cs_state s)) (ps_users (cs_state s))" using store_invD [OF assms(1)] by (simp add: good_state_def)
  then have "validRole (us_role (pu_user (ps_users (cs_state s) ! i)))" using assms(2) by (simp add: good_users_def list_all_length)
  then have "good_users (ps_setup (cs_state s)) ((ps_users (cs_state s))[i := u])"
    using assms by (intro good_users_assign [OF g]) (simp_all add: same_identity_def)
  then show "good_state (cs_state (assign i u s))" using store_invD [OF assms(1)] by (simp add: good_state_def)
  then show "store_inv (assign i u s)" using assms(1) by (simp add: store_inv_def split: option.splits)
qed

lemma finish_update_inv:
  assumes "store_inv s" "i < length (ps_users (cs_state s))" "same_identity u (ps_users (cs_state s) ! i)"
  shows "store_inv (fst (finish_update io up actor i (cs_state s) u (assign i u s)))"
proof (cases "upd_password io up u")
  case (Inl e)
  then show ?thesis using assms(1) by (simp add: finish_update_def restore_inv)
next
  case (Inr r)
  obtain u1 ch where r: "r = (u1, ch)" by (rule prod.exhaust)
  let ?u2 = "u1\<lparr>pu_user := (pu_user u1)\<lparr>us_updated := si_now io\<rparr>\<rparr>"
  let ?s2 = "assign i ?u2 (assign i u s)"
  have "same_identity u1 u" using upd_identity(6) Inr r by blast
  then have id: "same_identity ?u2 (ps_users (cs_state s) ! i)"
    using assms(3) by (auto simp: same_identity_def)
  have eq: "cs_state ?s2 = cs_state (assign i ?u2 s)" by simp
  have "store_inv (fst (commit io (cs_state s) (pu_user ?u2) ?s2))" if "list_ex is_admin (ps_users (cs_state ?s2))"
  proof (rule commit_keeps [OF assms(1)])
    show "good_state (cs_state ?s2)"
      unfolding eq by (rule assign_inv(2) [OF assms(1,2) id]) (use that in simp)
  qed simp
  then show ?thesis using assms(1) Inr r
    by (auto simp: finish_update_def Let_def ensureAdminLocked_def restore_inv split: prod.split sum.split simp del: core_simps(9))
qed

lemma updateUser_inv:
  assumes "store_inv s"
  shows "store_inv (fst (updateUser io uid up actor s))"
proof (cases "first_index (by_id uid) (ps_users (cs_state s))")
  case (Some i)
  let ?us = "ps_users (cs_state s)"
  have i: "i < length ?us" using first_index_Some [OF Some] by simp
  have adm: "ps_setup (cs_state s) \<longrightarrow> list_ex is_admin ?us"
    using store_invD [OF assms] by (auto simp: good_state_def good_users_def)
  have put: "store_inv (assign i u s)" if "same_identity u (?us ! i)" "is_admin (?us ! i) \<longrightarrow> is_admin u" for u
    using that adm i by (intro assign_inv(1) [OF assms i]) (auto intro: list_ex_update)
  have step1: "same_identity u1 (?us ! i) \<and> (is_admin (?us ! i) \<longrightarrow> is_admin u1)" if "upd_display up (?us ! i) = Inr u1" for u1
    using upd_identity(1) [OF that] .
  have step2: "same_identity u2 (?us ! i)" if "upd_display up (?us ! i) = Inr u1" "upd_role up actor u1 = Inr u2" for u1 u2
    using step1 [OF that(1)] upd_identity(2) [OF that(2)] same_identity_trans by blast
  have own: "is_admin (?us ! i) \<longrightarrow> is_admin u2"
    if "upd_display up (?us ! i) = Inr u1" "upd_role up actor u1 = Inr u2" "upd_disabled up actor u2 = Inl e" for u1 u2 e
  proof -
    have "us_id (pu_user u1) = actor" using upd_identity(5) [OF that(3)] upd_identity(2) [OF that(2)] by (simp add: same_identity_def)
    then show ?thesis using step1 [OF that(1)] upd_identity(3) [OF that(2)] by blast
  qed
  have step3: "same_identity u3 (?us ! i)"
    if "upd_display up (?us ! i) = Inr u1" "upd_role up actor u1 = Inr u2" "upd_disabled up actor u2 = Inr u3" for u1 u2 u3
    using step2 [OF that(1,2)] upd_identity(4) [OF that(3)] same_identity_trans by blast
  show ?thesis using Some assms i
    by (auto simp: updateUser_def Let_def intro!: put finish_update_inv dest: step1 step2 step3 own split: sum.split)
qed (simp add: updateUser_def assms)

lemma auth_finish_inv:
  assumes "store_inv s"
  shows "store_inv (fst (auth_finish io name remote cand ok s))"
proof -
  let ?us = "ps_users (cs_state s)"
  have "store_inv (fst (commit io (cs_state s) x (assign i (u\<lparr>pu_user := (pu_user u)\<lparr>us_login := now, us_updated := now\<rparr>\<rparr>) (s\<lparr>cs_failures := fs\<rparr>))))"
    if "first_index P ?us = Some i" "u = ?us ! i" for x :: user and i u now fs P
  proof (rule commit_keeps [OF assms])
    let ?v = "u\<lparr>pu_user := (pu_user u)\<lparr>us_login := now, us_updated := now\<rparr>\<rparr>"
    have i: "i < length ?us" using first_index_Some [OF that(1)] by simp
    have "ps_setup (cs_state s) \<longrightarrow> list_ex is_admin (?us[i := ?v])"
      using store_invD [OF assms] i that(2)
      by (auto simp: good_state_def good_users_def is_admin_def intro!: list_ex_update split: if_splits)
    then have "good_state (cs_state (assign i ?v s))"
      using that(2) by (intro assign_inv(2) [OF assms i]) (simp_all add: same_identity_def)
    then show "good_state (cs_state (assign i ?v (s\<lparr>cs_failures := fs\<rparr>)))" by simp
  qed simp
  then show ?thesis using assms
    by (auto simp: auth_finish_def Let_def simp del: core_simps split: option.split intro: store_inv_core)
qed

interpretation store_sys: invariant_system store_opened store_step store_inv
proof
  show "store_inv s" if "store_opened s" for s
    using that by (auto simp: store_opened_def openStore_def store_load_def store_inv_def good_state_def good_users_def
        split: if_splits option.splits)
  show "store_inv t" if "store_inv s" "store_step s t" for s t
    using that(2,1)
  proof (induction rule: store_step.induct)
    case (first_boot io name d p s t r)
    then show ?case using createInitialAdmin_inv [of s io name d p] by simp
  next
    case (create io name d p role s t r)
    then show ?case using createUser_inv [of s io name d p role] by simp
  next
    case (update io uid up actor s t r)
    then show ?case using updateUser_inv [of s io uid up actor] by simp
  next
    case (delete io uid actor s t e)
    then show ?case using deleteUser_inv [of s io uid actor] by simp
  next
    case (login_begin io name remote s t c)
    then show ?case by (auto simp: auth_begin_def Let_def intro: store_inv_core split: if_splits)
  next
    case (login_finish io name remote cand ok s t r)
    then show ?case using auth_finish_inv [of s io name remote cand ok] by simp
  next
    case (open_session io uid s t sn)
    then show ?case by (auto simp: createSession_def Let_def intro: store_inv_core split: sum.splits)
  next
    case (principal now token s t p)
    then show ?case
      by (auto simp: sessionPrincipal_def Let_def intro: store_inv_core split: option.splits if_splits)
  next
    case (close_session token s t)
    then show ?case by (auto simp: deleteSession_def intro: store_inv_core)
  next
    case (audit io e s t err)
    then show ?case by (auto simp: appendAudit_def Let_def intro: store_inv_core split: option.splits)
  qed
qed

subsection \<open>Guessing\<close>

text \<open>
  Logins as sequences of halves, of any keys, in any interleaving: a wrong attempt on key \<open>k\<close> whose second
  half answers (it is not turned away as blocked) is a guess.
\<close>

datatype auth_op = Begin store_io string string | Finish store_io string string "string \<times> string" bool

fun op_time :: "auth_op \<Rightarrow> gotime" where
  "op_time (Begin io name remote) = si_now io"
| "op_time (Finish io name remote cand ok) = si_now io"

fun op_run :: "auth_op \<Rightarrow> control_store \<Rightarrow> control_store" where
  "op_run (Begin io name remote) s = fst (auth_begin io name remote s)"
| "op_run (Finish io name remote cand ok) s = fst (auth_finish io name remote cand ok s)"

fun is_guess :: "string \<Rightarrow> control_store \<Rightarrow> auth_op \<Rightarrow> bool" where
  "is_guess k s (Begin io name remote) = False"
| "is_guess k s (Finish io name remote cand ok) =
     (login_key remote name = k \<and> \<not> time_before (si_now io) (lf_blocked (failure_of k s)))"

fun guesses :: "string \<Rightarrow> control_store \<Rightarrow> auth_op list \<Rightarrow> int" where
  "guesses k s [] = 0"
| "guesses k s (x # xs) = (if is_guess k s x then 1 else 0) + guesses k (op_run x s) xs"

text \<open>Every attempt on the key is wrong, times do not go back, and the failure map never overflows.\<close>

fun wrong :: "string \<Rightarrow> auth_op \<Rightarrow> bool" where
  "wrong k (Begin io name remote) = True"
| "wrong k (Finish io name remote cand ok) = (login_key remote name = k \<longrightarrow> \<not> ok)"

fun guessing :: "string \<Rightarrow> gotime \<Rightarrow> gotime \<Rightarrow> control_store \<Rightarrow> auth_op list \<Rightarrow> bool" where
  "guessing k t T s [] = (t \<le> T)"
| "guessing k t T s (x # xs) = (t \<le> op_time x \<and> wrong k x \<and> length (cs_failures s) \<le> 8192
     \<and> guessing k (op_time x) T (op_run x s) xs)"

abbreviation (input) "Win \<equiv> 15 * minute"

definition in_window :: "gotime \<Rightarrow> login_failure \<Rightarrow> bool" where
  "in_window now f \<longleftrightarrow> lf_start f \<noteq> time_zero \<and> now - lf_start f \<le> Win"

definition fail_inv :: "login_failure \<Rightarrow> bool" where
  "fail_inv f \<longleftrightarrow> 0 \<le> lf_count f \<and> lf_count f \<le> 9
     \<and> (lf_start f \<noteq> time_zero \<longrightarrow> 8 \<le> lf_count f \<longrightarrow> lf_start f + Win \<le> lf_blocked f)
     \<and> (lf_start f \<noteq> time_zero \<longrightarrow> 9 \<le> lf_count f \<longrightarrow> lf_start f + Win < lf_blocked f)"

text \<open>The number of windows that can still start between \<open>x\<close> and \<open>T\<close>.\<close>

definition windows :: "gotime \<Rightarrow> gotime \<Rightarrow> int" where
  "windows T x = max 0 ((T - x) div (Win + 1) + 1)"

definition allowance :: "gotime \<Rightarrow> gotime \<Rightarrow> login_failure \<Rightarrow> int" where
  "allowance T now f =
     (if in_window now f then (9 - lf_count f) + 9 * windows T (lf_start f + Win + 1) else 9 * windows T now)"

definition started_by :: "gotime \<Rightarrow> login_failure \<Rightarrow> bool" where
  "started_by now f \<longleftrightarrow> lf_start f = time_zero \<or> lf_start f \<le> now"

lemma minute_pos [simp]: "0 < minute" "0 \<le> minute"
  by (simp_all add: minute_def second_def)

lemma windows_step: "x \<le> T \<Longrightarrow> windows T x = 1 + windows T (x + Win + 1)"
proof -
  assume "x \<le> T"
  have "(T - x) div (Win + 1) = (T - (x + Win + 1)) div (Win + 1) + 1"
  proof -
    have "T - x = (T - (x + Win + 1)) + (Win + 1)" by simp
    moreover have "Win + 1 \<noteq> 0" using minute_pos by linarith
    ultimately show ?thesis using div_add_self2 [of "Win + 1" "T - (x + Win + 1)"] by simp
  qed
  moreover have "0 \<le> (T - x) div (Win + 1)" using \<open>x \<le> T\<close> by (intro pos_imp_zdiv_nonneg_iff [THEN iffD2]) (auto intro: add_nonneg_pos)
  ultimately show ?thesis by (simp add: windows_def)
qed

lemma windows_mono: "x \<le> y \<Longrightarrow> windows T y \<le> windows T x"
  unfolding windows_def by (intro max.mono) (auto intro!: zdiv_mono1 add_nonneg_pos)

lemma windows_nonneg: "0 \<le> windows T x"
  by (simp add: windows_def)

lemma allowance_nonneg: "fail_inv f \<Longrightarrow> 0 \<le> allowance T now f"
  using windows_nonneg [of T] by (simp add: allowance_def fail_inv_def)

lemma allowance_time:
  assumes "fail_inv f" "now \<le> now'"
  shows "allowance T now' f \<le> allowance T now f"
proof (cases "in_window now' f")
  case True
  then show ?thesis using assms by (auto simp: in_window_def allowance_def)
next
  case False
  show ?thesis
  proof (cases "in_window now f")
    case True
    then have "lf_start f + Win + 1 \<le> now'" using False by (auto simp: in_window_def)
    from windows_mono [OF this, of T] show ?thesis using False True assms(1) by (simp add: allowance_def fail_inv_def)
  next
    case out: False
    then show ?thesis using False windows_mono [OF assms(2), of T] by (simp add: allowance_def)
  qed
qed

lemma time_sub_window: "Win < time_sub now s \<longleftrightarrow> Win < now - s"
  by (auto simp: time_sub_def minute_def second_def max_def min_def)

lemma guess_costs:
  assumes "fail_inv f" "\<not> time_before now (lf_blocked f)" "now \<le> T" "now \<noteq> time_zero" "started_by now f"
  shows "fail_inv (count_failure now f) \<and> started_by now (count_failure now f) \<and> allowance T now (count_failure now f) + 1 \<le> allowance T now f"
proof (cases "in_window now f")
  case True
  then have same: "\<not> (lf_start f = time_zero \<or> Win < time_sub now (lf_start f))" by (simp add: in_window_def time_sub_window)
  have "lf_count f \<le> 8" using assms(1,2) True by (auto simp: fail_inv_def in_window_def not_less)
  moreover have "lf_start f < now" if "lf_count f = 8"
  proof -
    have "lf_start f + Win \<le> lf_blocked f" using assms(1) True that by (simp add: fail_inv_def in_window_def)
    then show ?thesis using assms(2) minute_pos(1) by linarith
  qed
  ultimately show ?thesis using assms True same
    by (auto simp: count_failure_def Let_def allowance_def in_window_def fail_inv_def started_by_def)
next
  case False
  then have new: "lf_start f = time_zero \<or> Win < time_sub now (lf_start f)" by (auto simp: in_window_def time_sub_window)
  have "in_window now \<lparr>lf_count = 1, lf_start = now, lf_blocked = time_zero\<rparr>" using assms(4) by (simp add: in_window_def less_imp_le)
  then show ?thesis using new False windows_step [OF assms(3)]
    by (simp add: count_failure_def allowance_def fail_inv_def started_by_def)
qed

definition keyed :: "('k \<times> 'v) list \<Rightarrow> bool" where
  "keyed m = distinct (map fst m)"

lemma keyed_simps [simp]: "keyed m \<Longrightarrow> keyed (put k v m)" "keyed m \<Longrightarrow> keyed (del k m)" "keyed m \<Longrightarrow> keyed (filter P m)"
  by (simp_all add: keyed_def distinct_put del_def distinct_map_filter)

lemma map_of_keyed_filter: "keyed m \<Longrightarrow> map_of (filter (\<lambda>(_, v). P v) m) k = (case map_of m k of Some v \<Rightarrow> if P v then Some v else None | None \<Rightarrow> None)"
proof (induction m)
  case (Cons x m)
  have "k \<notin> fst ` set m \<Longrightarrow> map_of (filter (\<lambda>(_, v). P v) m) k = None" by (force simp: map_of_eq_None_iff)
  with Cons show ?case by (cases x) (auto simp: keyed_def)
qed simp

lemma map_of_del [simp]: "map_of (del k m) k' = (if k' = k then None else map_of m k')"
  unfolding del_def by (induction m) auto

lemma failure_prune:
  assumes "keyed (cs_failures s)" "length (cs_failures s) \<le> 8192"
  shows "keyed (cs_failures (pruneFailuresLocked v now s))
    \<and> failure_of k (pruneFailuresLocked v now s) = (if 1024 \<le> length (cs_failures s) \<and> stale now (failure_of k s) then no_failure else failure_of k s)"
proof -
  let ?m = "filter (\<lambda>(_, f). \<not> stale now f) (cs_failures s)"
  have "length ?m \<le> 8192" using assms(2) length_filter_le [of _ "cs_failures s"] order_trans by blast
  then have ev: "evict v ?m = ?m" by (subst evict.simps) simp
  have "\<not> stale now no_failure" by (simp add: stale_def no_failure_def)
  then show ?thesis using assms(1) ev map_of_keyed_filter [OF assms(1), of "\<lambda>f. \<not> stale now f" k]
    by (auto simp: pruneFailuresLocked_def failure_of_def no_failure_def split: option.splits)
qed

lemma stale_out: "stale now f \<Longrightarrow> \<not> in_window now f"
  by (auto simp: stale_def in_window_def time_sub_def minute_def second_def max_def min_def split: if_splits)

lemma no_failure_inv: "fail_inv no_failure" "started_by t no_failure" "\<not> in_window now no_failure"
  by (simp_all add: fail_inv_def no_failure_def started_by_def in_window_def)

definition guess_inv :: "string \<Rightarrow> gotime \<Rightarrow> control_store \<Rightarrow> bool" where
  "guess_inv k t s \<longleftrightarrow> keyed (cs_failures s) \<and> fail_inv (failure_of k s) \<and> started_by t (failure_of k s)"

lemma commit_failures [simp]: "cs_failures (fst (commit io st x s)) = cs_failures s"
  by (simp add: commit_def saveLocked_def Let_def split: option.split)

lemma finish_wrong:
  "cs_failures (fst (auth_finish io name remote cand False s)) =
    (if time_before (si_now io) (lf_blocked (failure_of (login_key remote name) s)) then cs_failures s
     else put (login_key remote name) (count_failure (si_now io) (failure_of (login_key remote name) s)) (cs_failures s))"
  by (simp add: auth_finish_def Let_def split: option.split)

lemma finish_other:
  "cs_failures (fst (auth_finish io name remote cand ok s)) \<in>
    {cs_failures s, put (login_key remote name) (count_failure (si_now io) (failure_of (login_key remote name) s)) (cs_failures s),
     del (login_key remote name) (cs_failures s)}"
  by (auto simp: auth_finish_def Let_def assign_def set_users_def split: option.split)

lemma op_cost:
  assumes "guess_inv k t s" "t \<le> op_time x" "op_time x \<le> T" "time_zero < t" "wrong k x" "length (cs_failures s) \<le> 8192"
  shows "guess_inv k (op_time x) (op_run x s)
    \<and> allowance T (op_time x) (failure_of k (op_run x s)) + (if is_guess k s x then 1 else 0) \<le> allowance T t (failure_of k s)"
proof -
  let ?f = "failure_of k s"
  have inv: "keyed (cs_failures s)" "fail_inv ?f" "started_by t ?f" using assms(1) by (simp_all add: guess_inv_def)
  have later: "started_by (op_time x) ?f" using inv(3) assms(2) by (auto simp: started_by_def)
  have time: "allowance T (op_time x) ?f \<le> allowance T t ?f" by (rule allowance_time [OF inv(2) assms(2)])
  have stay: ?thesis if "failure_of k (op_run x s) = ?f" "keyed (cs_failures (op_run x s))" "\<not> is_guess k s x"
    using that inv later time by (simp add: guess_inv_def)
  show ?thesis
  proof (cases x)
    case (Begin io name remote)
    define s1 where "s1 = pruneFailuresLocked (si_victim io) (si_now io) s"
    have run: "op_run x s = s1" using Begin by (simp add: auth_begin_def Let_def s1_def)
    have p: "keyed (cs_failures s1)" "failure_of k s1 = ?f \<or> stale (si_now io) ?f \<and> failure_of k s1 = no_failure"
      using failure_prune [OF inv(1) assms(6), of "si_victim io" "si_now io" k] unfolding s1_def by (auto split: if_splits)
    then show ?thesis
    proof (elim disjE conjE)
      assume "stale (si_now io) ?f" "failure_of k s1 = no_failure"
      then show ?thesis using run p(1) time Begin stale_out no_failure_inv
        by (simp add: guess_inv_def allowance_def)
    qed (use run p(1) Begin stay in simp)
  next
    case (Finish io name remote cand ok)
    let ?k = "login_key remote name"
    show ?thesis
    proof (cases "?k = k")
      case True
      then have ok: "ok = False" using assms(5) Finish by simp
      show ?thesis
      proof (cases "time_before (si_now io) (lf_blocked ?f)")
        case blocked: True
        then show ?thesis using Finish True ok inv(1) by (intro stay) (simp_all add: failure_of_def finish_wrong)
      next
        case free: False
        have run: "cs_failures (op_run x s) = put k (count_failure (si_now io) ?f) (cs_failures s)"
          using Finish True ok free by (simp add: finish_wrong)
        have "fail_inv (count_failure (si_now io) ?f) \<and> started_by (si_now io) (count_failure (si_now io) ?f)
            \<and> allowance T (si_now io) (count_failure (si_now io) ?f) + 1 \<le> allowance T (si_now io) ?f"
          by (rule guess_costs [OF inv(2) free]) (use assms Finish later in auto)
        then show ?thesis using run time inv(1) Finish True free by (simp add: guess_inv_def failure_of_def)
      qed
    next
      case False
      then show ?thesis using Finish inv(1) finish_other [of io name remote cand ok s]
        by (intro stay) (auto simp: failure_of_def)
    qed
  qed
qed

lemma guessing_end: "guessing k t T s xs \<Longrightarrow> t \<le> T"
  by (induction xs arbitrary: t s) (auto intro: order_trans)

lemma guesses_allowance:
  "guessing k t T s xs \<Longrightarrow> guess_inv k t s \<Longrightarrow> time_zero < t \<Longrightarrow> guesses k s xs \<le> allowance T t (failure_of k s)"
proof (induction xs arbitrary: t s)
  case Nil
  then show ?case using allowance_nonneg by (simp add: guess_inv_def)
next
  case (Cons x xs)
  then have c: "guess_inv k (op_time x) (op_run x s)
      \<and> allowance T (op_time x) (failure_of k (op_run x s)) + (if is_guess k s x then 1 else 0) \<le> allowance T t (failure_of k s)"
    using guessing_end by (intro op_cost) auto
  with Cons.IH [of "op_time x" "op_run x s"] Cons.prems show ?case by auto
qed

lemma newest_kept: "foldl (keep_newest n) [] xs = drop (length xs - n) xs"
proof (induction xs rule: rev_induct)
  case (snoc x xs)
  then have "foldl (keep_newest n) [] (xs @ [x]) = keep_newest n (drop (length xs - n) xs) x" by simp
  also have "\<dots> = drop (length (xs @ [x]) - n) (xs @ [x])"
  proof (cases "n \<le> length xs")
    case True
    have "keep_newest n (drop (length xs - n) xs) x = tl (drop (length xs - n) (xs @ [x]))"
      using True by (simp add: keep_newest_def)
    also have "\<dots> = drop (Suc (length xs - n)) (xs @ [x])" by (simp only: drop_Suc tl_drop)
    also have "Suc (length xs - n) = length (xs @ [x]) - n" using True by simp
    finally show ?thesis .
  next
    case False
    then show ?thesis by (simp add: keep_newest_def)
  qed
  finally show ?case .
qed simp

subsection \<open>Samples\<close>

definition sample_sio :: store_io where
  "sample_sio = \<lparr>si_lib = plain_lib, si_now = 1000, si_id = ''u-1'', si_token = Inr ''tok'', si_csrf = Inr ''csrf'',
     si_salt = Inr (replicate 16 CHR ''s''), si_hmac = (\<lambda>_ _. replicate 32 CHR ''k''), si_write = None, si_sync = None, si_victim = (\<lambda>n. 0)\<rparr>"

definition empty_store :: control_store where
  "empty_store = \<lparr>cs_state = \<lparr>ps_version = 1, ps_setup = False, ps_users = [], ps_created = 0, ps_updated = 0\<rparr>, cs_disk = None,
     cs_sessions = [], cs_failures = [], cs_audit = []\<rparr>"

definition sample_user :: "string \<Rightarrow> string \<Rightarrow> string \<Rightarrow> persisted_user" where
  "sample_user i name role = \<lparr>pu_user = \<lparr>us_id = i, us_name = name, us_display = name, us_role = role, us_disabled = False,
     us_created = 0, us_updated = 0, us_login = time_zero\<rparr>, pu_hash = ''h''\<rparr>"

definition sample_pstate :: persistent_state where
  "sample_pstate = \<lparr>ps_version = 1, ps_setup = True,
     ps_users = [sample_user ''1'' ''root'' RoleAdmin, sample_user ''2'' ''ann'' RoleViewer], ps_created = 0, ps_updated = 0\<rparr>"

definition sample_cstore :: control_store where
  "sample_cstore = \<lparr>cs_state = sample_pstate, cs_disk = Some sample_pstate, cs_sessions = [], cs_failures = [], cs_audit = []\<rparr>"

lemma sample_store_opened: "reach store_opened store_step sample_cstore"
proof (rule reach_init)
  have "good_state sample_pstate" by code_simp
  moreover have "openStore ''/var'' None 0 (Inr (Some sample_pstate)) = Inr sample_cstore"
  proof -
    have "TrimSpace ''/var'' \<noteq> []" by code_simp
    then show ?thesis by (simp add: openStore_def store_load_def sample_pstate_def sample_cstore_def stateVersion_def)
  qed
  ultimately show "store_opened sample_cstore" unfolding store_opened_def
    by (intro exI [of _ "''/var''"] exI [of _ 0] exI [of _ "Some sample_pstate"]) simp
qed

subsection \<open>Properties\<close>

text \<open>
  C12. The appliance cannot lose its administrators: after any sequence of operations on the store, with
  writes that may fail, once the setup is complete the state file exists, has the setup complete and an enabled administrator, and so
  has the memory; in both, user names and identifiers are unique and roles valid. A restart, which reads that file, therefore
  finds the setup complete and an administrator.
\<close>

theorem store_keeps_admin:
  assumes "reach store_opened store_step s" "ps_setup (cs_state s)"
  shows "\<exists>st. cs_disk s = Some st \<and> ps_setup st \<and> (\<forall>us\<in>{ps_users (cs_state s), ps_users st}.
        list_ex is_admin us \<and> distinct (map (us_name \<circ> pu_user) us) \<and> distinct (map (us_id \<circ> pu_user) us)
        \<and> list_all (\<lambda>u. validRole (us_role (pu_user u))) us)
    \<and> (\<forall>dir now. TrimSpace dir \<noteq> [] \<longrightarrow> (\<exists>t. openStore dir None now (Inr (cs_disk s)) = Inr t \<and> cs_state t = st))"
proof -
  have inv: "store_inv s" using assms(1) by (rule store_sys.inv_reach)
  then obtain st where st: "cs_disk s = Some st" "good_state st" "ps_setup st" "good_state (cs_state s)"
    using assms(2) by (auto simp: store_inv_def split: option.splits)
  then have "openStore dir None now (Inr (cs_disk s)) = Inr \<lparr>cs_state = st, cs_disk = Some st, cs_sessions = [], cs_failures = [], cs_audit = []\<rparr>"
    if "TrimSpace dir \<noteq> []" for dir now using that by (simp add: openStore_def store_load_def good_state_def)
  then show ?thesis using st assms(2) by (intro exI [of _ st]) (auto simp: good_state_def good_users_def)
qed

theorem store_keeps_admin_witness:
  "\<exists>st. cs_disk sample_cstore = Some st \<and> ps_setup st \<and> list_ex is_admin (ps_users st) \<and> list_ex is_admin (ps_users (cs_state sample_cstore))"
proof -
  have "ps_setup (cs_state sample_cstore)" by (simp add: sample_cstore_def sample_pstate_def)
  from store_keeps_admin [OF sample_store_opened this] show ?thesis by blast
qed



lemma principal_session:
  assumes "sessionPrincipal now token s = (t, Some (v, sn))"
  shows "(token, sn) \<in> set (cs_sessions s) \<and> us_id v = sn_user sn \<and> now < sn_expires sn \<and> \<not> us_disabled v
    \<and> v \<in> pu_user ` set (ps_users (cs_state s))"
proof -
  obtain u where sn: "map_of (cs_sessions (pruneSessionsLocked now s)) token = Some sn" "now < sn_expires sn" "v = pu_user u"
    and u: "find (\<lambda>u. by_id (sn_user sn) u \<and> \<not> us_disabled (pu_user u)) (ps_users (cs_state s)) = Some u"
    using assms by (auto simp: sessionPrincipal_def Let_def split: option.splits if_splits)
  have "(token, sn) \<in> set (cs_sessions s)"
    using map_of_SomeD [OF sn(1)] by (auto simp: pruneSessionsLocked_def drop_sessions_def)
  then show ?thesis using sn(2,3) u by (auto simp: find_Some_iff by_id_def)
qed

lemma sessions_commit [simp]: "cs_sessions (fst (commit io st x s)) = cs_sessions s"
  by (simp add: commit_def saveLocked_def Let_def split: option.split)

lemma deleted_sessions:
  assumes "deleteUser io uid actor s = (t, None)" "(tok, sn) \<in> set (cs_sessions t)"
  shows "sn_user sn \<noteq> uid"
  using assms by (auto simp: deleteUser_def Let_def drop_sessions_def split: if_splits option.splits prod.splits sum.splits)

lemma disabled_sessions:
  assumes "updateUser io uid up actor s = (t, Inr u)" "us_disabled u" "(tok, sn) \<in> set (cs_sessions t)"
  shows "sn_user sn \<noteq> uid"
proof -
  obtain i u1 u2 u3 where i: "first_index (by_id uid) (ps_users (cs_state s)) = Some i"
    and d: "upd_display up (ps_users (cs_state s) ! i) = Inr u1" "upd_role up actor u1 = Inr u2" "upd_disabled up actor u2 = Inr u3"
    and f: "finish_update io up actor i (cs_state s) u3 (assign i u3 s) = (t, Inr u)"
    using assms(1) by (auto simp: updateUser_def Let_def split: option.splits sum.splits)
  have "us_id (pu_user u3) = uid"
    using first_index_Some [OF i] upd_identity(1) [OF d(1)] upd_identity(2) [OF d(2)] upd_identity(4) [OF d(3)]
    by (simp add: by_id_def same_identity_def)
  moreover obtain u4 ch where p: "upd_password io up u3 = Inr (u4, ch)"
    using f by (auto simp: finish_update_def split: sum.splits)
  ultimately have id: "us_id (pu_user u4) = uid" using upd_identity(6) [OF p] by (simp add: same_identity_def)
  show ?thesis using f p id assms(2,3)
    by (auto simp: finish_update_def Let_def drop_sessions_def commit_def saveLocked_def
        split: option.splits prod.splits sum.splits if_splits)
qed

text \<open>
  C31. Revoking access takes effect at once: after an account was deleted, or an update left it disabled,
  no session token is accepted for it any more.
\<close>

theorem revoked_sessions:
  assumes "deleteUser io uid actor s = (t, None) \<or> (\<exists>u. updateUser io uid up actor s = (t, Inr u) \<and> us_disabled u)"
    and "sessionPrincipal now token t = (t', Some (v, sn))"
  shows "us_id v \<noteq> uid"
  using principal_session [OF assms(2)] assms(1) deleted_sessions disabled_sessions by metis

definition ann_session :: session where
  "ann_session = \<lparr>sn_token = ''tok'', sn_csrf = ''c'', sn_user = ''2'', sn_expires = 9000\<rparr>"

definition root_session :: session where
  "root_session = \<lparr>sn_token = ''tok1'', sn_csrf = ''c'', sn_user = ''1'', sn_expires = 9000\<rparr>"

definition busy_store :: control_store where
  "busy_store = sample_cstore\<lparr>cs_sessions := [(''tok'', ann_session), (''tok1'', root_session)]\<rparr>"

theorem revoked_sessions_witness:
  "\<exists>t v sn t'. deleteUser sample_sio ''2'' ''1'' busy_store = (t, None) \<and> sessionPrincipal 2000 ''tok1'' t = (t', Some (v, sn)) \<and> us_id v \<noteq> ''2''"
proof -
  have "snd (deleteUser sample_sio ''2'' ''1'' busy_store) = None" by code_simp
  then obtain t where t: "deleteUser sample_sio ''2'' ''1'' busy_store = (t, None)" by (metis prod.collapse)
  have "snd (sessionPrincipal 2000 ''tok1'' (fst (deleteUser sample_sio ''2'' ''1'' busy_store))) \<noteq> None" by code_simp
  then obtain t' v sn where p: "sessionPrincipal 2000 ''tok1'' t = (t', Some (v, sn))" using t by (cases "sessionPrincipal 2000 ''tok1'' t") auto
  from revoked_sessions [OF disjI1 [OF t] p] t p show ?thesis by blast
qed

lemma commit_refused:
  assumes "commit io st x s = (t, Inl e)"
  shows "cs_disk t = cs_disk s \<and> cs_state t = st"
  using assms by (auto simp: commit_def saveLocked_def Let_def split: option.splits)

text \<open>
  A refused creation or deletion of an account leaves the state as it was, in memory and in the file,
  also when the reason is that the file could not be written.
\<close>

theorem refused_change_undone:
  assumes "createUser io name d p role s = (t, Inl e) \<or> deleteUser io uid actor s = (t, Some e)"
  shows "cs_disk t = cs_disk s \<and> cs_state t = cs_state s \<and> cs_sessions t = cs_sessions s"
proof -
  have c: "cs_sessions t' = cs_sessions s'" if "commit io st x s' = (t', r)" for st s' t' r and x :: 'z
    using sessions_commit [of io st x s'] that by simp
  show ?thesis using assms
    by (auto simp: createUser_def deleteUser_def Let_def dest: commit_refused c
        split: sum.splits if_splits option.splits prod.splits simp: set_users_def)
qed

theorem refused_change_undone_witness:
  "\<exists>t e. deleteUser sample_sio ''1'' ''2'' sample_cstore = (t, Some e) \<and> cs_state t = sample_pstate"
proof -
  have "snd (deleteUser sample_sio ''1'' ''2'' sample_cstore) \<noteq> None" by code_simp
  then obtain t e where "deleteUser sample_sio ''1'' ''2'' sample_cstore = (t, Some e)"
    by (cases "deleteUser sample_sio ''1'' ''2'' sample_cstore") auto
  with refused_change_undone [OF disjI2 [OF this]] show ?thesis by (auto simp: sample_cstore_def)
qed

text \<open>
  A refused update of an account may stay in memory: when the display name is accepted and the role
  is not, the update returns an error with the new name already assigned; it is shown, and written with
  the next change that succeeds.
\<close>

theorem refused_update_kept:
  assumes "first_index (by_id uid) (ps_users (cs_state s)) = Some i" "uu_display up = Some d" "TrimSpace d \<noteq> []"
    and "uu_role up = Some role" "\<not> validRole role"
  shows "\<exists>t e. updateUser io uid up actor s = (t, Inl e) \<and> cs_disk t = cs_disk s
    \<and> us_display (pu_user (ps_users (cs_state t) ! i)) = TrimSpace d"
  using assms first_index_Some [OF assms(1)] by (simp add: updateUser_def Let_def upd_display_def upd_role_def)

theorem refused_update_kept_witness:
  "\<exists>t e. updateUser sample_sio ''2'' \<lparr>uu_display = Some ''Eve'', uu_role = Some ''root'', uu_disabled = None, uu_password = None\<rparr> ''1'' sample_cstore
     = (t, Inl e) \<and> us_display (pu_user (ps_users (cs_state t) ! 1)) = ''Eve''"
proof -
  let ?up = "\<lparr>uu_display = Some ''Eve'', uu_role = Some ''root'', uu_disabled = None, uu_password = None\<rparr>"
  have f: "first_index (by_id ''2'') (ps_users (cs_state sample_cstore)) = Some 1" "TrimSpace ''Eve'' = ''Eve''" "\<not> validRole ''root''" by code_simp+
  from refused_update_kept [OF f(1), of ?up "''Eve''" "''root''" sample_sio "''1''"] f(2,3) show ?thesis by auto
qed

text \<open>
  Reading the audit log returns its newest events, newest first, as many as asked for; a limit outside
  1 to 1000 means 200.
\<close>

theorem readAudit_newest:
  "readAudit limit s = (let n = (if 1 \<le> limit \<and> limit \<le> 1000 then nat limit else 200) in
     take n (rev (cs_audit s)))"
  by (simp add: readAudit_def newest_kept Let_def take_rev)

end
