(* ===== verification/Control.thy ===== *)
theory Control
  imports Store
begin

text \<open>
  The HTTP interface of the control plane (\<open>internal/control/controller.go\<close>): sessions, roles and the CSRF
  token in front of every operation, first-boot setup, login and account management. JSON decoding is a
  parameter per input type. The operations on configuration, rules, certificates, network and backups are
  reached through the same gate; the function that runs them is a parameter here.
\<close>

subsection \<open>Inputs and replies\<close>

record setup_input =
  in_username :: string
  in_display :: string
  in_password :: string
  in_setupToken :: string

record login_input =
  li_username :: string
  li_password :: string

record create_input =
  ci_username :: string
  ci_display :: string
  ci_password :: string
  ci_role :: string

datatype ctl_body =
    SetupStatus bool bool | SessionOpened user string gotime | LoggedOut | Me user string | UserList "user list"
  | UserBody user | Deleted | Events "audit_event list" | External string

datatype ctl_reply = APIError int string | OK int ctl_body

record ctl_io =
  ct_store :: store_io
  ct_second :: store_io
  ct_setupToken :: string
  ct_readErr :: "string option"
  dec_setup :: "string \<Rightarrow> string + setup_input"
  dec_login :: "string \<Rightarrow> string + login_input"
  dec_create :: "string \<Rightarrow> string + create_input"
  dec_update :: "string \<Rightarrow> string + user_update"
  ct_errText :: "go_error \<Rightarrow> string"
  ct_asset :: "string \<Rightarrow> string option"

definition readBody :: "ctl_io \<Rightarrow> request \<Rightarrow> nat \<Rightarrow> string + string" where
  "readBody io r limit =
     (if limit < length (rq_body r) then Inl ''request body is too large''
      else case ct_readErr io of Some e \<Rightarrow> Inl e | None \<Rightarrow> Inr (rq_body r))"

definition decodeJSON :: "ctl_io \<Rightarrow> (string \<Rightarrow> string + 'a) \<Rightarrow> request \<Rightarrow> nat \<Rightarrow> string + 'a" where
  "decodeJSON io dec r limit =
     (case readBody io r limit of
        Inl e \<Rightarrow> Inl e
      | Inr data \<Rightarrow> (case dec data of Inl e \<Rightarrow> Inl (''invalid JSON: '' @ e) | Inr x \<Rightarrow> Inr x))"

definition ctl_remoteIP :: "request \<Rightarrow> string" where
  "ctl_remoteIP r = (case SplitHostPort (rq_remoteAddr r) of Some (host, _) \<Rightarrow> host | None \<Rightarrow> rq_remoteAddr r)"

definition sessionCookie :: string where
  "sessionCookie = ''cherrywaf_session''"

subsection \<open>The gate\<close>

definition ctl_principal :: "ctl_io \<Rightarrow> request \<Rightarrow> control_store \<Rightarrow> control_store \<times> (user \<times> session) option" where
  "ctl_principal io r s =
     (case request_cookie (si_lib (ct_store io)) r sessionCookie of
        None \<Rightarrow> (s, None)
      | Some v \<Rightarrow> if TrimSpace v = [] then (s, None) else sessionPrincipal (si_now (ct_store io)) v s)"

text \<open>
  A handler behind the gate gets the request and the account, and works on the store and on whatever else the
  controller manages, a type parameter here.
\<close>

type_synonym 'w authed = "request \<Rightarrow> user \<Rightarrow> control_store \<Rightarrow> 'w \<Rightarrow> control_store \<times> 'w \<times> ctl_reply"

type_synonym store_op = "request \<Rightarrow> user \<Rightarrow> control_store \<Rightarrow> control_store \<times> ctl_reply"

definition on_store :: "store_op \<Rightarrow> 'w authed" where
  "on_store h r u s w = (case h r u s of (s1, out) \<Rightarrow> (s1, w, out))"

definition require :: "ctl_io \<Rightarrow> string \<Rightarrow> bool \<Rightarrow> 'w authed \<Rightarrow> request \<Rightarrow> control_store \<Rightarrow> 'w \<Rightarrow> control_store \<times> 'w \<times> ctl_reply" where
  "require io minimum csrf nxt r s w =
     (case ctl_principal io r s of
        (s1, None) \<Rightarrow> (s1, w, APIError 401 ''authentication required'')
      | (s1, Some (u, sn)) \<Rightarrow>
          if roleLevel (us_role u) < roleLevel minimum then (s1, w, APIError 403 ''insufficient permissions'')
          else if csrf \<and> (let provided = TrimSpace (header_get (rq_header r) ''X-CSRF-Token'') in
                           provided = [] \<or> provided \<noteq> sn_csrf sn)
          then (s1, w, APIError 403 ''invalid CSRF token'')
          else nxt r u s1 w)"

definition audit_of :: "string \<Rightarrow> string \<Rightarrow> string \<Rightarrow> string \<Rightarrow> string \<Rightarrow> request \<Rightarrow> (string \<times> string) list \<Rightarrow> audit_event" where
  "audit_of actor role action resource outcome r details =
     \<lparr>au_id = [], au_time = time_zero, au_actor = actor, au_role = role, au_action = action, au_resource = resource,
      au_outcome = outcome, au_remote = ctl_remoteIP r, au_details = details\<rparr>"

definition audit :: "ctl_io \<Rightarrow> request \<Rightarrow> user \<Rightarrow> string \<Rightarrow> string \<Rightarrow> string \<Rightarrow> (string \<times> string) list \<Rightarrow> control_store \<Rightarrow> control_store" where
  "audit io r u action resource outcome details s =
     fst (appendAudit (ct_store io)
       (audit_of (if us_name u = [] then ''anonymous'' else us_name u) (us_role u) action resource outcome r details) s)"

subsection \<open>Setup and sessions\<close>

definition handleSetupStatus :: "ctl_io \<Rightarrow> control_store \<Rightarrow> control_store \<times> ctl_reply" where
  "handleSetupStatus io s = (s, OK 200 (SetupStatus (\<not> setupCompleted s) (TrimSpace (ct_setupToken io) \<noteq> [])))"

definition open_session :: "ctl_io \<Rightarrow> request \<Rightarrow> user \<Rightarrow> string \<Rightarrow> string \<Rightarrow> int \<Rightarrow> control_store \<Rightarrow> control_store \<times> ctl_reply" where
  "open_session io r u action resource status s =
     (case createSession (ct_store io) (us_id u) s of
        (s1, Inl _) \<Rightarrow> (s1, APIError 500 ''unable to create session'')
      | (s1, Inr sn) \<Rightarrow> (audit io r u action resource ''success'' [] s1, OK status (SessionOpened u (sn_csrf sn) (sn_expires sn))))"

definition handleSetupComplete :: "ctl_io \<Rightarrow> request \<Rightarrow> control_store \<Rightarrow> control_store \<times> ctl_reply" where
  "handleSetupComplete io r s =
     (if setupCompleted s then (s, APIError 409 ''first-boot setup is already complete'')
      else case decodeJSON io (dec_setup io) r 65536 of
        Inl e \<Rightarrow> (s, APIError 400 e)
      | Inr inp \<Rightarrow>
          let expected = TrimSpace (ct_setupToken io) in
          if expected \<noteq> [] \<and> TrimSpace (in_setupToken inp) \<noteq> expected
          then (fst (appendAudit (ct_store io) (audit_of ''anonymous'' [] ''setup.complete'' ''system'' ''failure'' r
                 [(''reason'', ''invalid setup token'')]) s), APIError 401 ''invalid first-boot setup code'')
          else (case createInitialAdmin (ct_store io) (in_username inp) (in_display inp) (in_password inp) s of
              (s1, Inl e) \<Rightarrow> (s1, APIError 400 (ct_errText io e))
            | (s1, Inr u) \<Rightarrow> open_session io r u ''setup.complete'' ''system'' 201 s1))"

definition handleLogin :: "ctl_io \<Rightarrow> request \<Rightarrow> control_store \<Rightarrow> control_store \<times> ctl_reply" where
  "handleLogin io r s =
     (if \<not> setupCompleted s then (s, APIError 428 ''first-boot setup is required'')
      else case decodeJSON io (dec_login io) r 65536 of
        Inl e \<Rightarrow> (s, APIError 400 e)
      | Inr inp \<Rightarrow>
          (case authenticate (ct_store io) (ct_second io) (li_username inp) (li_password inp) (ctl_remoteIP r) s of
             (s1, Inl e) \<Rightarrow>
               (fst (appendAudit (ct_store io) (audit_of (login_name (si_lib (ct_store io)) (li_username inp)) [] ''auth.login'' ''session'' ''failure'' r []) s1),
                APIError 401 (ct_errText io e))
           | (s1, Inr u) \<Rightarrow> open_session io r u ''auth.login'' ''session'' 200 s1))"

definition handleLogout :: "ctl_io \<Rightarrow> store_op" where
  "handleLogout io r u s =
     (let s1 = (case request_cookie (si_lib (ct_store io)) r sessionCookie of Some v \<Rightarrow> deleteSession v s | None \<Rightarrow> s) in
      (audit io r u ''auth.logout'' ''session'' ''success'' [] s1, OK 200 LoggedOut))"

definition handleMe :: "ctl_io \<Rightarrow> store_op" where
  "handleMe io r u s =
     (case ctl_principal io r s of
        (s1, Some (_, sn)) \<Rightarrow> (s1, OK 200 (Me u (sn_csrf sn)))
      | (s1, None) \<Rightarrow> (s1, OK 200 (Me u [])))"

subsection \<open>Accounts\<close>

definition handleUsersList :: store_op where
  "handleUsersList r u s = (s, OK 200 (UserList (users s)))"

definition handleUsersCreate :: "ctl_io \<Rightarrow> store_op" where
  "handleUsersCreate io r u s =
     (case decodeJSON io (dec_create io) r 65536 of
        Inl e \<Rightarrow> (s, APIError 400 e)
      | Inr inp \<Rightarrow>
          (case createUser (ct_store io) (ci_username inp) (ci_display inp) (ci_password inp) (ci_role inp) s of
             (s1, Inl e) \<Rightarrow> (s1, APIError 400 (ct_errText io e))
           | (s1, Inr v) \<Rightarrow>
               (audit io r u ''user.create'' (''user/'' @ us_id v) ''success'' [(''username'', us_name v), (''role'', us_role v)] s1,
                OK 201 (UserBody v))))"

definition handleUsersUpdate :: "ctl_io \<Rightarrow> string \<Rightarrow> store_op" where
  "handleUsersUpdate io uid r u s =
     (case decodeJSON io (dec_update io) r 65536 of
        Inl e \<Rightarrow> (s, APIError 400 e)
      | Inr up \<Rightarrow>
          (case updateUser (ct_store io) uid up (us_id u) s of
             (s1, Inl e) \<Rightarrow> (s1, if e = ErrNotExist then APIError 404 ''user not found'' else APIError 400 (ct_errText io e))
           | (s1, Inr v) \<Rightarrow>
               (audit io r u ''user.update'' (''user/'' @ uid) ''success''
                  [(''username'', us_name v), (''role'', us_role v), (''disabled'', if us_disabled v then ''true'' else ''false'')] s1,
                OK 200 (UserBody v))))"

definition handleUsersDelete :: "ctl_io \<Rightarrow> string \<Rightarrow> store_op" where
  "handleUsersDelete io uid r u s =
     (case deleteUser (ct_store io) uid (us_id u) s of
        (s1, Some e) \<Rightarrow> (s1, if e = ErrNotExist then APIError 404 ''user not found'' else APIError 400 (ct_errText io e))
      | (s1, None) \<Rightarrow> (audit io r u ''user.delete'' (''user/'' @ uid) ''success'' [] s1, OK 200 Deleted))"

definition handleAuditList :: store_op where
  "handleAuditList r u s =
     (s, OK 200 (Events (readAudit (case Atoi (query_get (rq_url r) ''limit'') of Some n \<Rightarrow> n | None \<Rightarrow> 0) s)))"

subsection \<open>Routes\<close>

datatype api_op =
    OpLogout | OpMe | OpDashboard | OpConfigGet | OpConfigValidate | OpConfigApply | OpRevisionList | OpRevisionRestore
  | OpRulesGet | OpRulesApply | OpRulesTest | OpCertificateList | OpCertificateUpload | OpCertificateDelete
  | OpNetworkStatus | OpNetworkValidate | OpNetworkApply | OpNetworkConfirm | OpNetworkRollback | OpWAFRestart
  | OpUsersList | OpUsersCreate | OpUsersUpdate | OpUsersDelete
  | OpBackupList | OpBackupCreate | OpBackupDownload | OpBackupRestore | OpBackupDelete | OpAuditList

record api_route =
  ar_method :: string
  ar_path :: "string list"
  ar_role :: string
  ar_csrf :: bool
  ar_op :: api_op

definition api_route_of :: "string \<Rightarrow> string \<Rightarrow> string \<Rightarrow> bool \<Rightarrow> api_op \<Rightarrow> api_route" where
  "api_route_of m p role csrf op = \<lparr>ar_method = m, ar_path = Split p CHR ''/'', ar_role = role, ar_csrf = csrf, ar_op = op\<rparr>"

definition api_routes :: "api_route list" where
  "api_routes =
    [api_route_of ''POST'' ''/api/v1/auth/logout'' RoleViewer True OpLogout,
     api_route_of ''GET'' ''/api/v1/auth/me'' RoleViewer False OpMe,
     api_route_of ''GET'' ''/api/v1/dashboard'' RoleViewer False OpDashboard,
     api_route_of ''GET'' ''/api/v1/config'' RoleViewer False OpConfigGet,
     api_route_of ''POST'' ''/api/v1/config/validate'' RoleOperator True OpConfigValidate,
     api_route_of ''PUT'' ''/api/v1/config'' RoleAdmin True OpConfigApply,
     api_route_of ''GET'' ''/api/v1/revisions'' RoleViewer False OpRevisionList,
     api_route_of ''POST'' ''/api/v1/revisions/{id}/restore'' RoleAdmin True OpRevisionRestore,
     api_route_of ''GET'' ''/api/v1/rules'' RoleViewer False OpRulesGet,
     api_route_of ''PUT'' ''/api/v1/rules'' RoleOperator True OpRulesApply,
     api_route_of ''POST'' ''/api/v1/rules/test'' RoleOperator True OpRulesTest,
     api_route_of ''GET'' ''/api/v1/certificates'' RoleViewer False OpCertificateList,
     api_route_of ''POST'' ''/api/v1/certificates'' RoleAdmin True OpCertificateUpload,
     api_route_of ''DELETE'' ''/api/v1/certificates/{domain}'' RoleAdmin True OpCertificateDelete,
     api_route_of ''GET'' ''/api/v1/network'' RoleViewer False OpNetworkStatus,
     api_route_of ''POST'' ''/api/v1/network/validate'' RoleAdmin True OpNetworkValidate,
     api_route_of ''POST'' ''/api/v1/network/apply'' RoleAdmin True OpNetworkApply,
     api_route_of ''POST'' ''/api/v1/network/confirm'' RoleAdmin True OpNetworkConfirm,
     api_route_of ''POST'' ''/api/v1/network/rollback'' RoleAdmin True OpNetworkRollback,
     api_route_of ''POST'' ''/api/v1/system/restart-waf'' RoleAdmin True OpWAFRestart,
     api_route_of ''GET'' ''/api/v1/users'' RoleAdmin False OpUsersList,
     api_route_of ''POST'' ''/api/v1/users'' RoleAdmin True OpUsersCreate,
     api_route_of ''PUT'' ''/api/v1/users/{id}'' RoleAdmin True OpUsersUpdate,
     api_route_of ''DELETE'' ''/api/v1/users/{id}'' RoleAdmin True OpUsersDelete,
     api_route_of ''GET'' ''/api/v1/backups'' RoleAdmin False OpBackupList,
     api_route_of ''POST'' ''/api/v1/backups'' RoleAdmin True OpBackupCreate,
     api_route_of ''GET'' ''/api/v1/backups/{id}/download'' RoleAdmin False OpBackupDownload,
     api_route_of ''POST'' ''/api/v1/backups/{id}/restore'' RoleAdmin True OpBackupRestore,
     api_route_of ''DELETE'' ''/api/v1/backups/{id}'' RoleAdmin True OpBackupDelete,
     api_route_of ''GET'' ''/api/v1/audit'' RoleAdmin False OpAuditList]"

text \<open>
  \<open>ServeMux\<close> matches the escaped path: it is cut at its slashes, and each segment is unescaped by itself, so an escaped
  slash is part of a segment. A pattern segment in braces matches any one non-empty segment, whose text is the path value. A path
  that is not clean, with an empty segment or one that is a dot or two, is first redirected to the clean one.
\<close>

definition mux_segments :: "request \<Rightarrow> string list" where
  "mux_segments r = map (\<lambda>x. case PathUnescape x of Some y \<Rightarrow> y | None \<Rightarrow> x) (Split (EscapedPath (rq_url r)) CHR ''/'')"

definition mux_redirects :: "request \<Rightarrow> bool" where
  "mux_redirects r \<longleftrightarrow> (let path = EscapedPath (rq_url r); xs = Split path CHR ''/'' in
     \<not> HasPrefix path ''/'' \<or> list_ex (\<lambda>x. x = ''.'' \<or> x = ''..'') xs \<or> list_ex (\<lambda>x. x = []) (butlast (tl xs)))"

fun match_segments :: "string list \<Rightarrow> string list \<Rightarrow> string list option" where
  "match_segments [] [] = Some []"
| "match_segments (p # ps) (x # xs) =
     (if HasPrefix p ''{'' then (if x = [] then None else map_option (Cons x) (match_segments ps xs))
      else if p = x then match_segments ps xs else None)"
| "match_segments _ _ = None"

definition method_fits :: "string \<Rightarrow> string \<Rightarrow> bool" where
  "method_fits pattern m \<longleftrightarrow> m = pattern \<or> pattern = ''GET'' \<and> m = ''HEAD''"

definition route_value :: "request \<Rightarrow> api_route \<Rightarrow> string list option" where
  "route_value r a = (if method_fits (ar_method a) (rq_method r) then match_segments (ar_path a) (mux_segments r) else None)"

text \<open>What runs the operations that are not on accounts; it gets the path values and the account.\<close>

type_synonym 'w external_ops = "api_op \<Rightarrow> string list \<Rightarrow> 'w authed"

definition run_op :: "ctl_io \<Rightarrow> 'w external_ops \<Rightarrow> api_op \<Rightarrow> string list \<Rightarrow> 'w authed" where
  "run_op io ext op vals =
     (case op of
        OpLogout \<Rightarrow> on_store (handleLogout io)
      | OpMe \<Rightarrow> on_store (handleMe io)
      | OpUsersList \<Rightarrow> on_store handleUsersList
      | OpUsersCreate \<Rightarrow> on_store (handleUsersCreate io)
      | OpUsersUpdate \<Rightarrow> on_store (handleUsersUpdate io (hd vals))
      | OpUsersDelete \<Rightarrow> on_store (handleUsersDelete io (hd vals))
      | OpAuditList \<Rightarrow> on_store handleAuditList
      | _ \<Rightarrow> ext op vals)"

text \<open>Pages without a session: the health check, the start page and the static assets, which change nothing.\<close>

definition static_page :: "ctl_io \<Rightarrow> request \<Rightarrow> ctl_reply option" where
  "static_page io r =
     (let path = u_path (rq_url r); segs = mux_segments r in
      if segs = [[], ''healthz''] then Some (OK 200 (External ''ok''))
      else if path = ''/'' then Some (case ct_asset io ''index.html'' of Some page \<Rightarrow> OK 200 (External page) | None \<Rightarrow> APIError 500 ''web UI is unavailable'')
      else if 2 < length segs \<and> take 2 segs = [[], ''assets''] then
        Some (if HasPrefix path ''/assets/'' \<and> (u_rawpath (rq_url r) = [] \<or> HasPrefix (u_rawpath (rq_url r)) ''/assets/'')
              then (case ct_asset io (TrimPrefix path ''/assets/'') of Some page \<Rightarrow> OK 200 (External page) | None \<Rightarrow> APIError 404 ''not found'')
              else APIError 404 ''not found'')
      else None)"

definition open_path :: "string \<Rightarrow> bool" where
  "open_path p \<longleftrightarrow> p \<in> {''/api/v1/setup/complete'', ''/api/v1/auth/login'', ''/api/v1/setup/status'', ''/healthz'', ''/''} \<or> HasPrefix p ''/assets/''"

text \<open>
  The mux: the calls and pages without a session, else the first guarded route whose pattern fits; no two
  patterns fit one request, so the order does not matter.
\<close>

definition Handler :: "ctl_io \<Rightarrow> 'w external_ops \<Rightarrow> request \<Rightarrow> control_store \<Rightarrow> 'w \<Rightarrow> control_store \<times> 'w \<times> ctl_reply" where
  "Handler io ext r s w =
     (if mux_redirects r then (s, w, APIError 301 ''Moved Permanently'')
      else if rq_method r = ''POST'' \<and> mux_segments r = Split ''/api/v1/setup/complete'' CHR ''/'' then (case handleSetupComplete io r s of (t, out) \<Rightarrow> (t, w, out))
      else if rq_method r = ''POST'' \<and> mux_segments r = Split ''/api/v1/auth/login'' CHR ''/'' then (case handleLogin io r s of (t, out) \<Rightarrow> (t, w, out))
      else if method_fits ''GET'' (rq_method r) \<and> mux_segments r = Split ''/api/v1/setup/status'' CHR ''/'' then (case handleSetupStatus io s of (t, out) \<Rightarrow> (t, w, out))
      else case (if method_fits ''GET'' (rq_method r) then static_page io r else None) of
        Some page \<Rightarrow> (s, w, page)
      | None \<Rightarrow> (case find (\<lambda>a. route_value r a \<noteq> None) api_routes of
          Some a \<Rightarrow> require io (ar_role a) (ar_csrf a) (run_op io ext (ar_op a) (the (route_value r a))) r s w
        | None \<Rightarrow> (s, w, APIError 404 ''not found'')))"

subsection \<open>The path and its segments\<close>

lemma escaped_char:
  "hex_pair (if k < 10 then char_of (48 + k) else char_of (55 + k)) (if l < 10 then char_of (48 + l) else char_of (55 + l)) = Some (char_of (16 * k + l))"
  if "0 \<le> k" "k < 16" "0 \<le> l" "l < 16" for k l :: int
proof -
  have "list_all (\<lambda>k. hex_digit (if k < 10 then char_of (48 + k) else char_of (55 + k)) = Some k) [0..15 :: int]" by code_simp
  then have "hex_digit (if k < 10 then char_of (48 + k) else char_of (55 + k)) = Some k" if "0 \<le> k" "k < 16" for k :: int
    using that by (simp add: list_all_iff)
  then show ?thesis using that by (simp add: hex_pair_def)
qed

lemma unescape_escape: "PathUnescape (path_escape s) = Some s"
proof -
  have "url_unescape False (path_escape s) = Some s"
  proof (induction s)
    case (Cons c s)
    have "byte c = byte c mod 256" by (simp add: byte_def)
    then have b: "0 \<le> byte c" "byte c < 256" using pos_mod_bound [of 256 "byte c"] pos_mod_sign [of 256 "byte c"] by simp_all
    have d: "0 \<le> byte c div 16" "byte c div 16 < 16" "0 \<le> byte c mod 16" "byte c mod 16 < 16" using b by auto
    have m: "char_of (16 * (byte c div 16) + byte c mod 16) = c" by (simp add: byte_def)
    obtain x y where e: "escape_char c = [CHR ''%'', x, y]" "hex_pair x y = Some c"
      using escaped_char [OF d] unfolding m escape_char_def Let_def by blast
    have p: "\<not> path_plain CHR ''%''" by code_simp
    have "path_escape (c # s) = (if path_plain c then [c] else escape_char c) @ path_escape s" by (simp add: path_escape_def)
    moreover have "url_unescape False (escape_char c @ path_escape s) = Some (c # s)" by (simp add: e Cons.IH)
    moreover have "url_unescape False (c # path_escape s) = Some (c # s)" if "path_plain c" using that p Cons.IH by (cases "c = CHR ''%''") auto
    ultimately show ?case by simp
  qed (simp add: path_escape_def)
  then show ?thesis by (simp add: PathUnescape_def)
qed

lemma unescape_EscapedPath: "PathUnescape (EscapedPath u) = Some (u_path u)"
proof -
  have "PathUnescape ''*'' = Some ''*''" by code_simp
  then show ?thesis by (auto simp: EscapedPath_def unescape_escape)
qed

lemma Join_Split: "Join (Split s sep) [sep] = s"
proof (induction s)
  case (Cons c s)
  have "Join ((c # x) # xs) [sep] = c # Join (x # xs) [sep]" for x xs by (cases xs) simp_all
  moreover have "Join ([] # x # xs) [sep] = sep # Join (x # xs) [sep]" for x xs by simp
  ultimately show ?case using Cons.IH by (cases "Split s sep") (auto split: if_splits)
qed simp

lemma unescape_segments:
  "url_unescape False s = Some t \<Longrightarrow> \<exists>ys. map (url_unescape False) (Split s CHR ''/'') = map Some ys \<and> Join ys ''/'' = t"
proof (induction s arbitrary: t rule: length_induct)
  case (1 s)
  have cons: "\<exists>zs. map (url_unescape False) (Split (c # q) CHR ''/'') = map Some zs \<and> Join zs ''/'' = c # u"
    if m: "map (url_unescape False) (Split q CHR ''/'') = map Some ys" and "Join ys ''/'' = u" "c \<noteq> CHR ''%''" for c q u ys
  proof -
    obtain x xs where x: "Split q CHR ''/'' = x # xs" by (cases "Split q CHR ''/''") (auto split: list.splits if_splits)
    then obtain y zs where y: "ys = y # zs" "url_unescape False x = Some y" "map (url_unescape False) xs = map Some zs" using m by (cases ys) auto
    show ?thesis
    proof (cases "c = CHR ''/''")
      case True
      then show ?thesis using that(1,2) y(1) by (intro exI [of _ "[] # ys"]) simp
    next
      case False
      have "Join ((c # y) # zs) ''/'' = c # u" using that(2) y(1) by (cases zs) auto
      then show ?thesis using False x y that(3) by (intro exI [of _ "(c # y) # zs"]) simp
    qed
  qed
  show ?case
  proof (cases s)
    case Nil
    then show ?thesis using 1 by (intro exI [of _ "[[]]"]) simp
  next
    case (Cons c q)
    show ?thesis
    proof (cases "c = CHR ''%''")
      case False
      then obtain u where u: "url_unescape False q = Some u" "t = c # u" using 1 Cons by auto
      then show ?thesis using 1 Cons cons [OF _ _ False] by (metis length_Cons lessI)
    next
      case True
      then obtain a b rest d u where r: "q = a # b # rest" "hex_pair a b = Some d" "url_unescape False rest = Some u" "t = d # u"
        using 1 Cons by (auto split: list.splits option.splits)
      have h: "a \<noteq> CHR ''/''" "b \<noteq> CHR ''/''" using r(2) by (auto simp: hex_pair_def hex_digit_def is_digit_def byte_def split: option.splits if_splits)
      have "length rest < length s" using Cons r(1) by simp
      then obtain ys where ys: "map (url_unescape False) (Split rest CHR ''/'') = map Some ys" "Join ys ''/'' = u" using 1 r(3) by blast
      obtain x xs where x: "Split rest CHR ''/'' = x # xs" by (cases "Split rest CHR ''/''") (auto split: list.splits if_splits)
      then obtain y zs where y: "ys = y # zs" "url_unescape False x = Some y" "map (url_unescape False) xs = map Some zs" using ys(1) by (cases ys) auto
      have "Join ((d # y) # zs) ''/'' = d # u" using ys(2) y(1) by (cases zs) auto
      then show ?thesis using True Cons r x y h by (intro exI [of _ "(d # y) # zs"]) simp
    qed
  qed
qed

lemma mux_path: "Join (mux_segments r) ''/'' = u_path (rq_url r)"
proof -
  let ?f = "\<lambda>x. case url_unescape False x of Some y \<Rightarrow> y | None \<Rightarrow> x"
  obtain ys where y: "map (url_unescape False) (Split (EscapedPath (rq_url r)) CHR ''/'') = map Some ys" "Join ys ''/'' = u_path (rq_url r)"
    using unescape_segments [OF unescape_EscapedPath [unfolded PathUnescape_def]] by blast
  have "map ?f xs = ys" if "map (url_unescape False) xs = map Some ys" for xs
    using that by (induction xs arbitrary: ys) (auto simp: map_eq_Cons_conv)
  then show ?thesis using y by (simp add: mux_segments_def PathUnescape_def)
qed

subsection \<open>Properties\<close>

text \<open>The session behind a request: a live session of an enabled account, by the cookie.\<close>

definition session_for :: "ctl_io \<Rightarrow> request \<Rightarrow> control_store \<Rightarrow> user \<Rightarrow> session \<Rightarrow> bool" where
  "session_for io r s u sn \<longleftrightarrow> (\<exists>token. request_cookie (si_lib (ct_store io)) r sessionCookie = Some token
     \<and> (token, sn) \<in> set (cs_sessions s) \<and> si_now (ct_store io) < sn_expires sn
     \<and> u \<in> pu_user ` set (ps_users (cs_state s)) \<and> us_id u = sn_user sn \<and> \<not> us_disabled u)"

lemma principal_session_for:
  assumes "ctl_principal io r s = (t, Some (u, sn))"
  shows "session_for io r s u sn"
  using assms principal_session [of "si_now (ct_store io)" _ s t u sn]
  by (auto simp: ctl_principal_def session_for_def split: option.splits if_splits)

lemma principal_keeps:
  assumes "ctl_principal io r s = (t, p)"
  shows "cs_state t = cs_state s" "cs_disk t = cs_disk s" "cs_audit t = cs_audit s"
  using assms
  by (auto simp: ctl_principal_def sessionPrincipal_def Let_def pruneSessionsLocked_def drop_sessions_def split: option.splits if_splits)

lemma require_runs:
  assumes "require io minimum csrf nxt r s w = (t, w1, out)"
    and "cs_state t \<noteq> cs_state s \<or> cs_disk t \<noteq> cs_disk s \<or> cs_audit t \<noteq> cs_audit s \<or> w1 \<noteq> w \<or> (\<exists>n b. out = OK n b)"
  shows "\<exists>u sn. session_for io r s u sn \<and> roleLevel minimum \<le> roleLevel (us_role u)
    \<and> (csrf \<longrightarrow> sn_csrf sn \<noteq> [] \<and> TrimSpace (header_get (rq_header r) ''X-CSRF-Token'') = sn_csrf sn)"
proof -
  obtain s1 p where p: "ctl_principal io r s = (s1, p)" by (rule prod.exhaust)
  note kept = principal_keeps [OF p]
  from p assms kept obtain u sn where u: "p = Some (u, sn)" by (auto simp: require_def split: option.splits)
  from p assms kept u show ?thesis using principal_session_for [of io r s s1 u sn]
    by (intro exI [of _ u] exI [of _ sn]) (auto simp: require_def Let_def split: if_splits)
qed

lemma admin_routes:
  "a \<in> set api_routes \<Longrightarrow> ar_method a \<noteq> ''GET'' \<Longrightarrow> ar_csrf a
    \<and> (ar_op a = OpLogout \<or> roleLevel RoleOperator \<le> roleLevel (ar_role a))"
proof -
  have "list_all (\<lambda>a. ar_method a \<noteq> ''GET'' \<longrightarrow> ar_csrf a \<and> (ar_op a = OpLogout \<or> roleLevel RoleOperator \<le> roleLevel (ar_role a))) api_routes"
    by code_simp
  then show "a \<in> set api_routes \<Longrightarrow> ar_method a \<noteq> ''GET'' \<Longrightarrow> ar_csrf a
    \<and> (ar_op a = OpLogout \<or> roleLevel RoleOperator \<le> roleLevel (ar_role a))" by (simp add: list_all_iff)
qed

text \<open>
  C2. Nothing happens without a session: apart from first-boot setup, login, the setup status, the health check and the static pages, a call
  that succeeds, or that changes the accounts, the state file, the audit log or anything else the controller
  manages, comes with the cookie of a
  live session of an enabled account whose role suffices for the route. A call that is not a read also
  carries the session's CSRF token and, unless it logs out, needs an operator or an administrator.
\<close>

theorem api_guarded:
  assumes "Handler io ext r s w = (t, w1, out)" "\<not> open_path (u_path (rq_url r))"
    and "cs_state t \<noteq> cs_state s \<or> cs_disk t \<noteq> cs_disk s \<or> cs_audit t \<noteq> cs_audit s \<or> w1 \<noteq> w \<or> (\<exists>n b. out = OK n b)"
  shows "\<exists>a u sn. a \<in> set api_routes \<and> route_value r a \<noteq> None \<and> session_for io r s u sn
    \<and> roleLevel (ar_role a) \<le> roleLevel (us_role u)
    \<and> (\<not> method_fits ''GET'' (rq_method r) \<longrightarrow> sn_csrf sn \<noteq> [] \<and> TrimSpace (header_get (rq_header r) ''X-CSRF-Token'') = sn_csrf sn
        \<and> (ar_op a = OpLogout \<or> roleLevel RoleOperator \<le> roleLevel (us_role u)))"
proof -
  have segs: "mux_segments r \<noteq> Split p CHR ''/''" if "open_path p" for p
    using assms(2) mux_path [of r] Join_Split [of p "CHR ''/''"] that by auto
  have other: "mux_segments r \<noteq> Split ''/api/v1/setup/complete'' CHR ''/''" "mux_segments r \<noteq> Split ''/api/v1/auth/login'' CHR ''/''"
    "mux_segments r \<noteq> Split ''/api/v1/setup/status'' CHR ''/''" "mux_segments r \<noteq> [[], ''healthz'']"
    using segs [of "''/api/v1/setup/complete''"] segs [of "''/api/v1/auth/login''"] segs [of "''/api/v1/setup/status''"] segs [of "''/healthz''"]
    by (simp_all add: open_path_def)
  have page: "page = APIError 404 ''not found''" if "static_page io r = Some page" for page
    using that assms(2) other(4) by (auto simp: static_page_def open_path_def Let_def split: if_splits)
  obtain a where a: "find (\<lambda>a. route_value r a \<noteq> None) api_routes = Some a"
    and run: "require io (ar_role a) (ar_csrf a) (run_op io ext (ar_op a) (the (route_value r a))) r s w = (t, w1, out)"
    using assms(1,3) other(1-3) by (auto simp: Handler_def dest: page split: option.splits if_splits)
  have in_a: "a \<in> set api_routes" "route_value r a \<noteq> None" using a by (auto simp: find_Some_iff)
  obtain u sn where u: "session_for io r s u sn" "roleLevel (ar_role a) \<le> roleLevel (us_role u)"
    "ar_csrf a \<longrightarrow> sn_csrf sn \<noteq> [] \<and> TrimSpace (header_get (rq_header r) ''X-CSRF-Token'') = sn_csrf sn"
    using require_runs [OF run assms(3)] by blast
  have "\<not> method_fits ''GET'' (rq_method r) \<Longrightarrow> ar_method a \<noteq> ''GET''"
    using in_a(2) by (auto simp: route_value_def split: if_splits)
  with admin_routes [OF in_a(1)] in_a u show ?thesis by (meson order_trans)
qed

definition sample_ctl :: ctl_io where
  "sample_ctl = \<lparr>ct_store = sample_sio\<lparr>si_lib := plain_lib\<lparr>read_cookies := (\<lambda>vs. case vs of v # _ \<Rightarrow> [(sessionCookie, v)] | [] \<Rightarrow> [])\<rparr>\<rparr>,
     ct_second = sample_sio, ct_setupToken = [], ct_readErr = None, dec_setup = (\<lambda>_. Inl []), dec_login = (\<lambda>_. Inl []),
     dec_create = (\<lambda>_. Inl []), dec_update = (\<lambda>_. Inl []), ct_errText = (\<lambda>_. []), ct_asset = (\<lambda>_. None)\<rparr>"

definition delete_request :: request where
  "delete_request = \<lparr>rq_method = ''DELETE'',
     rq_url = \<lparr>u_scheme = [], u_user = False, u_host = [], u_path = ''/api/v1/users/2'', u_rawpath = [], u_rawquery = [],
       u_forceQuery = False, u_fragment = []\<rparr>,
     rq_requestURI = ''/api/v1/users/2'', rq_host = ''waf'', rq_remoteAddr = ''192.0.2.1:4711'',
     rq_header = [(''Cookie'', [''tok1'']), (''X-Csrf-Token'', [''c''])], rq_contentLength = 0, rq_transferEncoding = [],
     rq_tls = True, rq_body = [], rq_getBody = None\<rparr>"

theorem api_guarded_witness:
  "\<exists>t n b u sn. Handler sample_ctl (\<lambda>_ _ _ _ s w. (s, w, APIError 501 [])) delete_request busy_store () = (t, (), OK n b)
    \<and> session_for sample_ctl delete_request busy_store u sn"
proof -
  let ?run = "Handler sample_ctl (\<lambda>_ _ _ _ s w. (s, w, APIError 501 [])) delete_request busy_store ()"
  have "(case snd (snd ?run) of OK _ _ \<Rightarrow> True | APIError _ _ \<Rightarrow> False)" by code_simp
  then obtain t n b where run: "?run = (t, (), OK n b)" by (cases ?run) (auto split: ctl_reply.splits)
  have "\<not> open_path (u_path (rq_url delete_request))" by code_simp
  from api_guarded [OF run this] run show ?thesis by blast
qed

text \<open>
  First-boot setup cannot be run twice: once an account exists, the setup call answers with a conflict
  or an error and the accounts and the state file stay as they are.
\<close>

theorem setup_only_once:
  assumes "reach store_opened store_step s" "ps_setup (cs_state s)"
  shows "handleSetupComplete io r s = (s, APIError 409 ''first-boot setup is already complete'')"
proof -
  have "store_inv s" using assms(1) by (rule store_sys.inv_reach)
  then have "ps_users (cs_state s) \<noteq> []" using assms(2)
    by (auto simp: store_inv_def good_state_def good_users_def)
  then show ?thesis using assms(2) by (simp add: handleSetupComplete_def setupCompleted_def)
qed

theorem setup_only_once_witness:
  "handleSetupComplete sample_ctl delete_request sample_cstore = (sample_cstore, APIError 409 ''first-boot setup is already complete'')"
  using setup_only_once [OF sample_store_opened] by (simp add: sample_cstore_def sample_pstate_def)

end
