(* ===== verification/Files.thy ===== *)
theory Files
  imports Store
begin

text \<open>
  Files and faults. The state of the machine that the managers of the control plane and the network daemon work on: the
  files by path, what the reloaded service runs, and a list of the faults that the next calls meet, \<open>None\<close> for
  a call that succeeds; past the end of the list every call succeeds. Every operation has a step lemma that says what it
  leaves of the files and of the faults.
\<close>

subsection \<open>Files\<close>

record world =
  wo_files :: "(string \<times> string) list"
  wo_running :: "(string \<times> string) list"
  wo_faults :: "go_error option list"

definition content :: "string \<Rightarrow> world \<Rightarrow> string option" where
  "content path w = map_of (wo_files w) path"

definition meet :: "world \<Rightarrow> world \<times> go_error option" where
  "meet w = (case wo_faults w of [] \<Rightarrow> (w, None) | f # fs \<Rightarrow> (w\<lparr>wo_faults := fs\<rparr>, f))"

definition ReadFile :: "string \<Rightarrow> world \<Rightarrow> world \<times> (go_error + string)" where
  "ReadFile path w =
     (case meet w of
        (w1, Some e) \<Rightarrow> (w1, Inl e)
      | (w1, None) \<Rightarrow> (w1, case content path w1 of Some d \<Rightarrow> Inr d | None \<Rightarrow> Inl ErrNotExist))"

text \<open>Write to a temporary file and rename: the old content or the new, never a part.\<close>

definition writeAtomic :: "string \<Rightarrow> string \<Rightarrow> world \<Rightarrow> world \<times> go_error option" where
  "writeAtomic path d w =
     (case meet w of
        (w1, Some e) \<Rightarrow> (w1, Some e)
      | (w1, None) \<Rightarrow> (w1\<lparr>wo_files := put path d (wo_files w1)\<rparr>, None))"

definition Remove :: "string \<Rightarrow> world \<Rightarrow> world \<times> go_error option" where
  "Remove path w =
     (case meet w of
        (w1, Some e) \<Rightarrow> (w1, Some e)
      | (w1, None) \<Rightarrow>
          if content path w1 = None then (w1, Some ErrNotExist) else (w1\<lparr>wo_files := del path (wo_files w1)\<rparr>, None))"

text \<open>
  \<open>os.RemoveAll\<close> unlinks what is below the directory file by file. A file that cannot be unlinked stays and the others are
  still tried; the first error is returned, and the directory itself is only removed when it is empty.
\<close>

fun unlink_each :: "string list \<Rightarrow> world \<Rightarrow> world \<times> go_error option" where
  "unlink_each [] w = (w, None)"
| "unlink_each (p # ps) w =
     (case meet w of
        (w1, Some e) \<Rightarrow> (fst (unlink_each ps w1), Some e)
      | (w1, None) \<Rightarrow> unlink_each ps (w1\<lparr>wo_files := del p (wo_files w1)\<rparr>))"

definition lies_in :: "string \<Rightarrow> string \<Rightarrow> bool" where
  "lies_in dir p \<longleftrightarrow> p = dir \<or> prefix (dir @ ''/'') p"

definition RemoveAll :: "string \<Rightarrow> world \<Rightarrow> world \<times> go_error option" where
  "RemoveAll dir w =
     (case unlink_each (filter (lies_in dir) (map fst (wo_files w))) w of
        (w1, Some e) \<Rightarrow> (w1, Some e)
      | (w1, None) \<Rightarrow> meet w1)"

text \<open>The names of the directories under a directory: the first segment of every path below it.\<close>

definition subdirs :: "string \<Rightarrow> world \<Rightarrow> string list" where
  "subdirs dir w = remdups (List.map_filter (\<lambda>(p, _).
     if prefix (dir @ ''/'') p \<and> CHR ''/'' \<in> set (drop (Suc (length dir)) p)
     then Some (takeWhile (\<lambda>c. c \<noteq> CHR ''/'') (drop (Suc (length dir)) p)) else None) (wo_files w))"

definition Stat :: "string \<Rightarrow> world \<Rightarrow> world \<times> go_error option" where
  "Stat path w = (case meet w of
      (w1, Some e) \<Rightarrow> (w1, Some e)
    | (w1, None) \<Rightarrow> (w1, if content path w1 = None then Some ErrNotExist else None))"

text \<open>Directories of JSON records: what cannot be read or decoded is skipped.\<close>

definition entries :: "string \<Rightarrow> world \<Rightarrow> string list" where
  "entries dir w = List.map_filter (\<lambda>(p, _).
     if prefix (dir @ ''/'') p \<and> CHR ''/'' \<notin> set (drop (Suc (length dir)) p) then Some (drop (Suc (length dir)) p) else None) (wo_files w)"

fun read_records :: "(string \<Rightarrow> 'a option) \<Rightarrow> string \<Rightarrow> string list \<Rightarrow> world \<Rightarrow> world \<times> 'a list" where
  "read_records dec dir [] w = (w, [])"
| "read_records dec dir (n # ns) w =
     (if \<not> HasSuffix n ''.json'' then read_records dec dir ns w
      else case ReadFile (dir @ ''/'' @ n) w of (w1, r) \<Rightarrow>
        (case read_records dec dir ns w1 of (w2, xs) \<Rightarrow>
          (w2, (case r of
              Inl _ \<Rightarrow> xs
            | Inr data \<Rightarrow> (case dec data of Some x \<Rightarrow> x # xs | None \<Rightarrow> xs)))))"

definition readOptional :: "string \<Rightarrow> world \<Rightarrow> world \<times> (go_error + string option)" where
  "readOptional path w =
     (case ReadFile path w of
        (w1, Inr d) \<Rightarrow> (w1, Inr (Some d))
      | (w1, Inl e) \<Rightarrow> (w1, if e = ErrNotExist then Inr None else Inl e))"

definition restoreOptional :: "string \<Rightarrow> string option \<Rightarrow> world \<Rightarrow> world \<times> go_error option" where
  "restoreOptional path old w =
     (case old of
        Some d \<Rightarrow> writeAtomic path d w
      | None \<Rightarrow> (case Remove path w of
          (w1, Some e) \<Rightarrow> (w1, if e = ErrNotExist then None else Some e)
        | (w1, None) \<Rightarrow> (w1, None)))"

text \<open>\<open>Runtime.Reload\<close>: the WAF process runs the files as they are now, or meets a fault and runs what it ran.\<close>

definition call_reload :: "world \<Rightarrow> world \<times> go_error option" where
  "call_reload w =
     (case meet w of
        (w1, Some e) \<Rightarrow> (w1, Some e)
      | (w1, None) \<Rightarrow> (w1\<lparr>wo_running := wo_files w1\<rparr>, None))"

definition join_err :: "go_error option \<Rightarrow> go_error option \<Rightarrow> go_error option" where
  "join_err a b = (case (a, b) of (None, x) \<Rightarrow> x | (Some x, None) \<Rightarrow> Some x | (Some x, Some y) \<Rightarrow> Some (Wrapped [] [] [x, y]))"

subsection \<open>Faults\<close>

definition calm :: "world \<Rightarrow> bool" where
  "calm w \<longleftrightarrow> list_all (\<lambda>f. f = None) (wo_faults w)"

text \<open>At most one call fails, and not by reporting a missing file.\<close>

definition one_fault :: "world \<Rightarrow> bool" where
  "one_fault w \<longleftrightarrow> length (filter (\<lambda>f. f \<noteq> None) (wo_faults w)) \<le> 1 \<and> Some ErrNotExist \<notin> set (wo_faults w)"

text \<open>How a call may go: it fails and at most calm is left, or it succeeds.\<close>

definition budget :: "world \<Rightarrow> go_error option \<Rightarrow> world \<Rightarrow> bool" where
  "budget w f w1 \<longleftrightarrow> (one_fault w \<longrightarrow> (if f = None then one_fault w1 else calm w1 \<and> f \<noteq> Some ErrNotExist)) \<and> (calm w \<longrightarrow> f = None \<and> calm w1)"

lemma calm_one: "calm w \<Longrightarrow> one_fault w"
  by (auto simp: calm_def one_fault_def list_all_iff filter_empty_conv)

lemma meet_budget:
  assumes "meet w = (w1, f)"
  shows "wo_files w1 = wo_files w \<and> wo_running w1 = wo_running w \<and> budget w f w1"
proof (cases "wo_faults w")
  case Nil
  then show ?thesis using assms by (simp add: meet_def budget_def calm_def one_fault_def)
next
  case (Cons g gs)
  have "filter (\<lambda>f. f \<noteq> None) gs = [] \<Longrightarrow> list_all (\<lambda>f. f = None) gs" by (simp add: filter_empty_conv list_all_iff)
  then show ?thesis using assms Cons by (auto simp: meet_def budget_def calm_def one_fault_def split: if_splits)
qed

lemma faults_simps [simp]:
  "calm (w\<lparr>wo_files := x\<rparr>) = calm w" "calm (w\<lparr>wo_running := x\<rparr>) = calm w"
  "one_fault (w\<lparr>wo_files := x\<rparr>) = one_fault w" "one_fault (w\<lparr>wo_running := x\<rparr>) = one_fault w"
  "budget w f (w1\<lparr>wo_files := x\<rparr>) = budget w f w1" "budget w f (w1\<lparr>wo_running := x\<rparr>) = budget w f w1"
  by (simp_all add: calm_def one_fault_def budget_def)

lemma writeAtomic_step:
  assumes "writeAtomic p d w = (w1, f)"
  shows "wo_running w1 = wo_running w \<and> budget w f w1 \<and> content q w1 = (if q = p \<and> f = None then Some d else content q w)"
proof -
  obtain w' g where m: "meet w = (w', g)" by (rule prod.exhaust)
  show ?thesis using assms m meet_budget [OF m]
    by (auto simp: writeAtomic_def content_def split: option.splits)
qed

lemma Remove_step:
  assumes "Remove p w = (w1, f)"
  shows "wo_running w1 = wo_running w \<and> content q w1 = (if q = p \<and> f = None then None else content q w)
    \<and> (f = Some ErrNotExist \<longrightarrow> one_fault w \<longrightarrow> content p w = None \<and> one_fault w1)
    \<and> (f \<noteq> Some ErrNotExist \<longrightarrow> budget w f w1) \<and> (calm w \<longrightarrow> calm w1 \<and> (f = None \<or> f = Some ErrNotExist))"
proof -
  obtain w' g where m: "meet w = (w', g)" by (rule prod.exhaust)
  show ?thesis using assms m meet_budget [OF m]
    by (auto simp: Remove_def content_def budget_def split: option.splits if_splits)
qed

lemma restoreOptional_step:
  assumes "restoreOptional p old w = (w1, f)" "one_fault w"
  shows "wo_running w1 = wo_running w \<and> budget w f w1 \<and> content q w1 = (if q = p \<and> f = None then old else content q w)"
proof (cases old)
  case (Some d)
  then show ?thesis using assms writeAtomic_step [of p d w w1 f q] by (simp add: restoreOptional_def)
next
  case None
  obtain w' g where r: "Remove p w = (w', g)" by (rule prod.exhaust)
  show ?thesis using assms None r Remove_step [OF r, of q]
    by (auto simp: restoreOptional_def budget_def split: option.splits if_splits)
qed

lemma ReadFile_step:
  assumes "ReadFile p w = (w1, r)" "one_fault w"
  shows "wo_files w1 = wo_files w \<and> wo_running w1 = wo_running w \<and> one_fault w1 \<and> (calm w \<longrightarrow> calm w1)
    \<and> (\<forall>d. r = Inr d \<longrightarrow> content p w = Some d) \<and> (r = Inl ErrNotExist \<longrightarrow> content p w = None)
    \<and> (calm w \<longrightarrow> r = (case content p w of Some d \<Rightarrow> Inr d | None \<Rightarrow> Inl ErrNotExist))"
proof -
  obtain w' g where m: "meet w = (w', g)" by (rule prod.exhaust)
  show ?thesis using assms m meet_budget [OF m]
    by (cases g) (auto simp: ReadFile_def content_def budget_def calm_one split: option.splits if_splits)
qed

lemma readOptional_step:
  assumes "readOptional p w = (w1, r)" "one_fault w"
  shows "wo_files w1 = wo_files w \<and> wo_running w1 = wo_running w \<and> one_fault w1 \<and> (calm w \<longrightarrow> calm w1)
    \<and> (\<forall>d. r = Inr d \<longrightarrow> content p w = d) \<and> (calm w \<longrightarrow> r = Inr (content p w))"
proof -
  obtain w' g where m: "ReadFile p w = (w', g)" by (rule prod.exhaust)
  have w: "w' = w1" using assms(1) m by (simp add: readOptional_def split: sum.splits)
  have r: "r = (case g of Inr d \<Rightarrow> Inr (Some d) | Inl e \<Rightarrow> if e = ErrNotExist then Inr None else Inl e)"
    using assms(1) m by (cases g) (simp_all add: readOptional_def)
  note f = ReadFile_step [OF m assms(2), unfolded w]
  have g1: "\<forall>d. g = Inr d \<longrightarrow> content p w = Some d" and g2: "g = Inl ErrNotExist \<longrightarrow> content p w = None"
    and g3: "calm w \<longrightarrow> g = (case content p w of Some d \<Rightarrow> Inr d | None \<Rightarrow> Inl ErrNotExist)"
    using f by blast+
  have 1: "\<forall>d. r = Inr d \<longrightarrow> content p w = d" using g1 g2 unfolding r by (cases g) simp_all
  have 2: "calm w \<longrightarrow> r = Inr (content p w)" using g3 unfolding r by (cases "content p w") simp_all
  show ?thesis using f 1 2 by blast
qed

lemma call_reload_step:
  assumes "call_reload w = (w1, f)"
  shows "wo_files w1 = wo_files w \<and> wo_running w1 = (if f = None then wo_files w else wo_running w) \<and> budget w f w1"
proof -
  obtain w' g where m: "meet w = (w', g)" by (rule prod.exhaust)
  show ?thesis using assms m meet_budget [OF m]
    by (auto simp: call_reload_def split: option.splits)
qed


lemma budget_one: "budget w f w1 \<Longrightarrow> (one_fault w \<longrightarrow> one_fault w1) \<and> (calm w \<longrightarrow> calm w1)"
  by (auto simp: budget_def calm_one split: if_splits)

lemma budget_next: "budget w f w1 \<Longrightarrow> one_fault w \<Longrightarrow> one_fault w1" "budget w f w1 \<Longrightarrow> calm w \<longrightarrow> calm w1 \<and> f = None"
    "budget w (Some e) w1 \<Longrightarrow> one_fault w \<Longrightarrow> calm w1 \<and> \<not> calm w"
  by (auto simp: budget_def calm_one split: if_splits)

lemma budget_fails: "budget w (Some e) w1 \<Longrightarrow> budget w1 f w2 \<Longrightarrow> budget w (Some e) w2"
  by (auto simp: budget_def)

lemma budget_trans: "budget w None w1 \<Longrightarrow> budget w1 f w2 \<Longrightarrow> budget w f w2"
  by (auto simp: budget_def)

lemma unlink_each_step:
  assumes "unlink_each ps w = (w1, f)"
  shows "wo_running w1 = wo_running w \<and> budget w f w1 \<and> content q w1 \<in> {None, content q w}
    \<and> (q \<notin> set ps \<longrightarrow> content q w1 = content q w) \<and> (f = None \<longrightarrow> q \<in> set ps \<longrightarrow> content q w1 = None)"
  using assms
proof (induction ps arbitrary: w f)
  case Nil
  then show ?case by (simp add: budget_def)
next
  case (Cons p ps)
  obtain w2 g where 2: "meet w = (w2, g)" by (rule prod.exhaust)
  note m = meet_budget [OF 2]
  have c: "content q (w2\<lparr>wo_files := del p (wo_files w2)\<rparr>) = (if q = p then None else content q w)" "content q w2 = content q w"
    using m by (simp_all add: content_def)
  show ?case
  proof (cases g)
    case None
    have r: "unlink_each ps (w2\<lparr>wo_files := del p (wo_files w2)\<rparr>) = (w1, f)" using Cons.prems 2 None by simp
    have "budget w None (w2\<lparr>wo_files := del p (wo_files w2)\<rparr>)" using m None by simp
    then have b: "budget w f w1" using Cons.IH [OF r] budget_trans by blast
    show ?thesis using Cons.IH [OF r] b m c(1) by (cases "q = p") simp_all
  next
    case (Some e)
    obtain h where r: "unlink_each ps w2 = (w1, h)" and f: "f = Some e" using Cons.prems 2 Some by (cases "unlink_each ps w2") simp
    have b: "budget w f w1" using Cons.IH [OF r] m budget_fails unfolding Some f by blast
    show ?thesis using Cons.IH [OF r] b m c(2) f by simp
  qed
qed

lemma RemoveAll_step:
  assumes "RemoveAll dir w = (w1, f)"
  shows "wo_running w1 = wo_running w \<and> budget w f w1 \<and> content q w1 \<in> {None, content q w}
    \<and> (\<not> lies_in dir q \<longrightarrow> content q w1 = content q w) \<and> (f = None \<longrightarrow> lies_in dir q \<longrightarrow> content q w1 = None)"
proof -
  obtain w2 g where 2: "unlink_each (filter (lies_in dir) (map fst (wo_files w))) w = (w2, g)" by (rule prod.exhaust)
  note u = unlink_each_step [OF 2, of q]
  have absent: "content q w = None" if "q \<notin> set (map fst (wo_files w))" using that by (simp add: content_def map_of_eq_None_iff)
  show ?thesis
  proof (cases g)
    case None
    then have m: "meet w2 = (w1, f)" using assms 2 by (simp add: RemoveAll_def)
    have "content q w1 = content q w2" using meet_budget [OF m] by (simp add: content_def)
    then show ?thesis using u meet_budget [OF m] budget_trans [of w w2 f w1] None absent by (cases "q \<in> set (map fst (wo_files w))") simp_all
  next
    case (Some e)
    then show ?thesis using assms 2 u by (auto simp: RemoveAll_def)
  qed
qed

lemma RemoveAll_calm: "RemoveAll dir w = (w1, f) \<Longrightarrow> calm w \<Longrightarrow> f = None \<and> calm w1"
  using RemoveAll_step budget_next(2) by blast

subsection \<open>Without faults\<close>

text \<open>An operation that cannot fail now: it answers no error, runs what ran, and changes the files as given.\<close>

definition done_with :: "world \<Rightarrow> (string \<Rightarrow> string option) \<Rightarrow> world \<times> go_error option \<Rightarrow> bool" where
  "done_with w c r \<longleftrightarrow> snd r = None \<and> calm (fst r) \<and> wo_running (fst r) = wo_running w \<and> (\<forall>q. content q (fst r) = c q)"

lemma done_withI:
  assumes "\<And>q. wo_running w1 = wo_running w \<and> budget w f w1 \<and> content q w1 = (if q = p \<and> f = None then x else content q w)" "calm w"
  shows "done_with w (\<lambda>q. if q = p then x else content q w) (w1, f)"
proof -
  have "f = None" "calm w1" using budget_next(2) [OF assms(1) [THEN conjunct2, THEN conjunct1]] assms(2) by blast+
  then show ?thesis using assms(1) by (simp add: done_with_def)
qed

lemma write_done: "calm w \<Longrightarrow> done_with w (\<lambda>q. if q = p then Some d else content q w) (writeAtomic p d w)"
  by (cases "writeAtomic p d w") (simp only:, rule done_withI [OF writeAtomic_step])

lemma ReadFile_calm:
  assumes "calm w"
  shows "\<exists>w1. ReadFile p w = (w1, case content p w of Some d \<Rightarrow> Inr d | None \<Rightarrow> Inl ErrNotExist) \<and> calm w1 \<and> wo_running w1 = wo_running w \<and> wo_files w1 = wo_files w"
proof -
  obtain w1 r where m: "ReadFile p w = (w1, r)" by (rule prod.exhaust)
  from ReadFile_step [OF m calm_one [OF assms]] have "r = (case content p w of Some d \<Rightarrow> Inr d | None \<Rightarrow> Inl ErrNotExist)"
    "calm w1" "wo_running w1 = wo_running w" "wo_files w1 = wo_files w" using assms by blast+
  then show ?thesis using m by blast
qed

lemma write_only:
  assumes "writeAtomic p d w = (w1, f)" "one_fault w"
  shows "wo_running w1 = wo_running w \<and> one_fault w1 \<and> (f = None \<longrightarrow> calm w \<longrightarrow> calm w1) \<and> (f \<noteq> None \<longrightarrow> calm w1 \<and> \<not> calm w)
    \<and> (\<forall>q. content q w1 = (if q = p \<and> f = None then Some d else content q w))"
proof -
  note s = writeAtomic_step [OF assms(1)]
  have b: "budget w f w1" using s by blast
  have "f \<noteq> None \<longrightarrow> calm w1 \<and> \<not> calm w" using budget_next(3) b assms(2) by blast
  then show ?thesis using s budget_next(1,2) [OF b] assms(2) by blast
qed

definition quiet :: "world \<Rightarrow> world \<Rightarrow> bool" where
  "quiet w w1 \<longleftrightarrow> wo_files w1 = wo_files w \<and> wo_running w1 = wo_running w \<and> (one_fault w \<longrightarrow> one_fault w1) \<and> (calm w \<longrightarrow> calm w1)"

lemma quiet_trans: "quiet w w1 \<Longrightarrow> quiet w1 w2 \<Longrightarrow> quiet w w2" by (simp add: quiet_def)

lemma meet_quiet: "meet w = (w1, f) \<Longrightarrow> quiet w w1"
  using meet_budget [of w w1 f] budget_one [of w f w1] by (simp add: quiet_def)

lemma ReadFile_quiet: "ReadFile p w = (w1, r) \<Longrightarrow> quiet w w1"
  by (auto simp: ReadFile_def intro: meet_quiet split: prod.splits option.splits)


lemma readOptional_quiet: "readOptional p w = (w1, r) \<Longrightarrow> quiet w w1"
  by (auto simp: readOptional_def intro: ReadFile_quiet split: prod.splits sum.splits)

lemma Stat_quiet: "Stat p w = (w1, r) \<Longrightarrow> quiet w w1"
  by (auto simp: Stat_def intro: meet_quiet split: prod.splits option.splits)

lemma read_records_quiet: "read_records dec dir ns w = (w1, xs) \<Longrightarrow> quiet w w1"
proof (induction ns arbitrary: w xs)
  case (Cons n ns)
  obtain w2 r where 2: "ReadFile (dir @ ''/'' @ n) w = (w2, r)" by (rule prod.exhaust)
  obtain w3 qs where 3: "read_records dec dir ns w2 = (w3, qs)" by (rule prod.exhaust)
  show ?case
  proof (cases "HasSuffix n ''.json''")
    case True
    then have "w3 = w1" using Cons.prems 2 3 by simp
    then show ?thesis using quiet_trans [OF ReadFile_quiet [OF 2]] Cons.IH [of w2 qs] 3 by simp
  next
    case False
    then show ?thesis using Cons by simp
  qed
qed (simp add: quiet_def)

lemma restore_only:
  assumes "restoreOptional p old w = (w1, f)" "one_fault w"
  shows "wo_running w1 = wo_running w \<and> one_fault w1 \<and> (calm w \<longrightarrow> f = None \<and> calm w1)
    \<and> (\<forall>q. content q w1 = (if q = p \<and> f = None then old else content q w))"
proof -
  note s = restoreOptional_step [OF assms]
  have b: "budget w f w1" using s by blast
  show ?thesis using s budget_next(1,2) [OF b] assms(2) by blast
qed

text \<open>The files outside a directory stay as they are, and so does what runs.\<close>

definition spares :: "string \<Rightarrow> world \<Rightarrow> world \<Rightarrow> bool" where
  "spares dir w w1 \<longleftrightarrow> wo_running w1 = wo_running w \<and> (\<forall>p. \<not> prefix dir p \<longrightarrow> content p w1 = content p w)
     \<and> (one_fault w \<longrightarrow> one_fault w1) \<and> (calm w \<longrightarrow> calm w1)"

lemma spares_refl [simp]: "spares dir w w" by (simp add: spares_def)

lemma spares_trans: "spares dir w w1 \<Longrightarrow> spares dir w1 w2 \<Longrightarrow> spares dir w w2" by (simp add: spares_def)

lemma quiet_spares: "quiet w w1 \<Longrightarrow> spares dir w w1" by (simp add: quiet_def spares_def content_def)

lemma meet_spares: "meet w = (w1, f) \<Longrightarrow> spares dir w w1"
  by (rule quiet_spares [OF meet_quiet])

lemma ReadFile_spares: "ReadFile p w = (w1, r) \<Longrightarrow> spares dir w w1"
  by (rule quiet_spares [OF ReadFile_quiet])

lemma writeAtomic_spares:
  assumes "writeAtomic p d w = (w1, f)" "prefix dir p"
  shows "spares dir w w1"
proof -
  have "content q w1 = content q w" if "\<not> prefix dir q" for q
    using writeAtomic_step [OF assms(1), of q] that assms(2) by auto
  then show ?thesis using writeAtomic_step [OF assms(1)] budget_one [of w f w1] by (simp add: spares_def)
qed

lemma RemoveAll_spares:
  assumes "RemoveAll p w = (w1, f)" "prefix dir p"
  shows "spares dir w w1"
proof -
  have "content q w1 = content q w" if "\<not> prefix dir q" for q
  proof -
    have "\<not> lies_in p q" using that assms(2) prefix_order.trans append_prefixD unfolding lies_in_def by blast
    then show ?thesis using RemoveAll_step [OF assms(1), of q] by blast
  qed
  then show ?thesis using RemoveAll_step [OF assms(1)] budget_one [of w f w1] by (simp add: spares_def)
qed

subsection \<open>Runs without faults\<close>

lemma calm_files_ops:
  "meet w = (w1, f) \<Longrightarrow> calm w \<Longrightarrow> calm w1 \<and> f = None"
  "ReadFile p w = (w1, r) \<Longrightarrow> calm w \<Longrightarrow> calm w1"
  "readOptional p w = (w1, o') \<Longrightarrow> calm w \<Longrightarrow> calm w1"
  "writeAtomic p d w = (w1, f) \<Longrightarrow> calm w \<Longrightarrow> calm w1 \<and> f = None"
  "restoreOptional p old w = (w1, f) \<Longrightarrow> calm w \<Longrightarrow> calm w1 \<and> f = None"
  "call_reload w = (w1, f) \<Longrightarrow> calm w \<Longrightarrow> calm w1 \<and> f = None"
  "RemoveAll p w = (w1, f) \<Longrightarrow> calm w \<Longrightarrow> calm w1 \<and> f = None"
proof -
  show "meet w = (w1, f) \<Longrightarrow> calm w \<Longrightarrow> calm w1 \<and> f = None" using meet_budget budget_next(2) by blast
  show "ReadFile p w = (w1, r) \<Longrightarrow> calm w \<Longrightarrow> calm w1" using ReadFile_quiet quiet_def by blast
  show "readOptional p w = (w1, o') \<Longrightarrow> calm w \<Longrightarrow> calm w1" using readOptional_quiet quiet_def by blast
  show "writeAtomic p d w = (w1, f) \<Longrightarrow> calm w \<Longrightarrow> calm w1 \<and> f = None" using writeAtomic_step budget_next(2) by blast
  show "restoreOptional p old w = (w1, f) \<Longrightarrow> calm w \<Longrightarrow> calm w1 \<and> f = None" using restore_only calm_one by blast
  show "call_reload w = (w1, f) \<Longrightarrow> calm w \<Longrightarrow> calm w1 \<and> f = None" using call_reload_step budget_next(2) by blast
  show "RemoveAll p w = (w1, f) \<Longrightarrow> calm w \<Longrightarrow> calm w1 \<and> f = None" using RemoveAll_calm by blast
qed

subsection \<open>Transactions\<close>

text \<open>
  What the operations of the managers promise of the part of the files they are about: a request that is accepted turns it into
  what was asked for, one refused without losing its rollback leaves it, and a good machine stays good. Any run of requests then
  amounts to the accepted ones alone, in their order, as long as no rollback was lost. The run lists the requests with their
  outcomes.
\<close>

fun run_requests :: "('r \<Rightarrow> world \<Rightarrow> world \<times> ('e + 'a)) \<Rightarrow> 'r list \<Rightarrow> world \<Rightarrow> world \<times> ('r \<times> ('e + 'a)) list" where
  "run_requests exec [] w = (w, [])"
| "run_requests exec (r # rs) w =
     (case exec r w of (w1, out) \<Rightarrow>
      (case run_requests exec rs w1 of (w2, outs) \<Rightarrow> (w2, (r, out) # outs)))"

definition accepted_of :: "('r \<times> ('e + 'a)) list \<Rightarrow> 'r list" where
  "accepted_of outs = map fst (filter (\<lambda>(r, out). \<not> isl out) outs)"

lemma run_requests_answers: "map fst (snd (run_requests exec rs w)) = rs"
proof (induction rs arbitrary: w)
  case (Cons r rs)
  obtain w2 out where 2: "exec r w = (w2, out)" by (rule prod.exhaust)
  show ?case using Cons.IH [of w2] 2 by (cases "run_requests exec rs w2") simp
qed simp

locale transactional =
  fixes exec :: "'r \<Rightarrow> world \<Rightarrow> world \<times> ('e + 'a)" and vw :: "world \<Rightarrow> 'v" and goal :: "'r \<Rightarrow> 'v \<Rightarrow> 'v"
    and good :: "world \<Rightarrow> bool" and fair :: "'r \<Rightarrow> bool" and lost :: "'e \<Rightarrow> bool"
  assumes keeps_good: "good w \<Longrightarrow> fair r \<Longrightarrow> exec r w = (w1, out) \<Longrightarrow> (\<forall>e. out = Inl e \<longrightarrow> \<not> lost e) \<Longrightarrow> good w1"
    and accepted: "good w \<Longrightarrow> fair r \<Longrightarrow> exec r w = (w1, Inr a) \<Longrightarrow> vw w1 = goal r (vw w)"
    and refused: "good w \<Longrightarrow> fair r \<Longrightarrow> exec r w = (w1, Inl e) \<Longrightarrow> \<not> lost e \<Longrightarrow> vw w1 = vw w"
begin

lemma run_view:
  "good w \<Longrightarrow> list_all fair rs \<Longrightarrow> run_requests exec rs w = (w1, outs) \<Longrightarrow> (\<And>r e. (r, Inl e) \<in> set outs \<Longrightarrow> \<not> lost e)
     \<Longrightarrow> good w1 \<and> vw w1 = fold goal (accepted_of outs) (vw w)"
proof (induction rs arbitrary: w outs)
  case Nil
  then show ?case by (simp add: accepted_of_def)
next
  case (Cons r rs)
  obtain w2 out where 2: "exec r w = (w2, out)" by (rule prod.exhaust)
  obtain w3 outs' where 3: "run_requests exec rs w2 = (w3, outs')" by (rule prod.exhaust)
  have w: "w3 = w1" "outs = (r, out) # outs'" using Cons.prems(3) 2 3 by simp_all
  have f: "fair r" "list_all fair rs" using Cons.prems(2) by simp_all
  have l: "\<forall>e. out = Inl e \<longrightarrow> \<not> lost e" using Cons.prems(4) w(2) by auto
  have l': "\<not> lost e" if "(x, Inl e) \<in> set outs'" for x e using Cons.prems(4) [of x e] that w(2) by simp
  have "good w1 \<and> vw w1 = fold goal (accepted_of outs') (vw w2)"
    by (rule Cons.IH [OF keeps_good [OF Cons.prems(1) f(1) 2 l] f(2) 3 [unfolded w(1)] l'])
  then show ?case using accepted [OF Cons.prems(1) f(1)] refused [OF Cons.prems(1) f(1)] 2 w(2) l by (cases out) (auto simp: accepted_of_def)
qed

end

end
