(* ===== verification/AtomicWrite.thy ===== *)
theory AtomicWrite
  imports Files
begin

text \<open>
  The body of \<open>writeAtomic\<close> call by call (\<open>internal/control/store.go\<close> and the copy in
  \<open>cmd/cherrywaf-netd/main.go\<close>). A writer is at one of its calls; each call may fail, a failed \<open>Write\<close> may have put
  a part of the data into the temporary file, and the calls of any number of writers interleave. The writes
  of such a run take effect one after the other, at their renames, and a run of one writer alone is the one step
  that the rest of the development takes \<open>writeAtomic\<close> for.
\<close>

subsection \<open>One writer\<close>

text \<open>The call a writer makes next. \<open>CloseAfter e\<close> is the \<open>Close\<close> of the branches that return \<open>e\<close>; \<open>Cleanup\<close> the
  deferred \<open>os.Remove\<close> of the temporary file; \<open>Finished\<close> holds what the function returned.\<close>

datatype wphase = Mkdir | CreateTemp | Chmod | WriteData | Sync | CloseFile | Rename
  | CloseAfter go_error | Cleanup "go_error option" | Finished "go_error option"

record writer =
  wr_path :: string
  wr_data :: string
  wr_tmp :: string
  wr_phase :: wphase

type_synonym files = "(string \<times> string) list"

definition new_writer :: "string \<Rightarrow> string \<Rightarrow> writer" where
  "new_writer p d = \<lparr>wr_path = p, wr_data = d, wr_tmp = [], wr_phase = Mkdir\<rparr>"

text \<open>A write goes to the open file: it changes nothing by name when the file has been removed.\<close>

definition fill :: "string \<Rightarrow> string \<Rightarrow> files \<Rightarrow> files" where
  "fill p d fs = (if map_of fs p = None then fs else put p d fs)"

text \<open>
  The next call of a writer. \<open>f\<close> is the error the call meets, \<open>n\<close> the bytes that a failed \<open>Write\<close> has put down, \<open>x\<close> the
  name that \<open>CreateTemp\<close> chooses.
\<close>

definition writer_step :: "go_error option \<Rightarrow> nat \<Rightarrow> string \<Rightarrow> writer \<Rightarrow> files \<Rightarrow> writer \<times> files" where
  "writer_step f n x wr fs =
     (case wr_phase wr of
        Mkdir \<Rightarrow> (wr\<lparr>wr_phase := (case f of Some e \<Rightarrow> Finished (Some e) | None \<Rightarrow> CreateTemp)\<rparr>, fs)
      | CreateTemp \<Rightarrow>
          (case f of
             Some e \<Rightarrow> (wr\<lparr>wr_phase := Finished (Some e)\<rparr>, fs)
           | None \<Rightarrow> (wr\<lparr>wr_tmp := x, wr_phase := Chmod\<rparr>, put x [] fs))
      | Chmod \<Rightarrow> (wr\<lparr>wr_phase := (case f of Some e \<Rightarrow> CloseAfter e | None \<Rightarrow> WriteData)\<rparr>, fs)
      | WriteData \<Rightarrow>
          (case f of
             Some e \<Rightarrow> (wr\<lparr>wr_phase := CloseAfter e\<rparr>, fill (wr_tmp wr) (take n (wr_data wr)) fs)
           | None \<Rightarrow> (wr\<lparr>wr_phase := Sync\<rparr>, fill (wr_tmp wr) (wr_data wr) fs))
      | Sync \<Rightarrow> (wr\<lparr>wr_phase := (case f of Some e \<Rightarrow> CloseAfter e | None \<Rightarrow> CloseFile)\<rparr>, fs)
      | CloseFile \<Rightarrow> (wr\<lparr>wr_phase := (case f of Some e \<Rightarrow> Cleanup (Some e) | None \<Rightarrow> Rename)\<rparr>, fs)
      | Rename \<Rightarrow>
          (case f of
             Some e \<Rightarrow> (wr\<lparr>wr_phase := Cleanup (Some e)\<rparr>, fs)
           | None \<Rightarrow>
               (case map_of fs (wr_tmp wr) of
                  None \<Rightarrow> (wr\<lparr>wr_phase := Cleanup (Some ErrNotExist)\<rparr>, fs)
                | Some d \<Rightarrow> (wr\<lparr>wr_phase := Cleanup None\<rparr>, put (wr_path wr) d (del (wr_tmp wr) fs))))
      | CloseAfter e \<Rightarrow> (wr\<lparr>wr_phase := Cleanup (Some e)\<rparr>, fs)
      | Cleanup r \<Rightarrow> (wr\<lparr>wr_phase := Finished r\<rparr>, if f = None then del (wr_tmp wr) fs else fs)
      | Finished r \<Rightarrow> (wr, fs))"

subsection \<open>A writer alone\<close>

primrec rank :: "wphase \<Rightarrow> nat" where
  "rank Mkdir = 9" | "rank CreateTemp = 8" | "rank Chmod = 7" | "rank WriteData = 6" | "rank Sync = 5" | "rank CloseFile = 4"
| "rank Rename = 3" | "rank (CloseAfter e) = 2" | "rank (Cleanup r) = 1" | "rank (Finished r) = 0"

lemma rank_decreases:
  assumes "rank (wr_phase wr) \<noteq> 0" "writer_step f n x wr fs = (wr1, fs1)"
  shows "rank (wr_phase wr1) < rank (wr_phase wr)"
  using assms by (auto simp: writer_step_def split: wphase.splits option.splits)

text \<open>The whole body: \<open>es k\<close> is the error that the call numbered \<open>k\<close> meets.\<close>

function run_writer :: "(nat \<Rightarrow> go_error option) \<Rightarrow> nat \<Rightarrow> nat \<Rightarrow> string \<Rightarrow> writer \<Rightarrow> files \<Rightarrow> writer \<times> files" where
  "run_writer es k n x wr fs =
     (if rank (wr_phase wr) = 0 then (wr, fs)
      else case writer_step (es k) n x wr fs of (wr1, fs1) \<Rightarrow> run_writer es (Suc k) n x wr1 fs1)"
  by auto
termination
  by (relation "measure (\<lambda>(_, _, _, _, wr, _). rank (wr_phase wr))") (auto split: prod.splits intro: rank_decreases)

declare run_writer.simps [simp del]

definition writeAtomic_calls :: "(nat \<Rightarrow> go_error option) \<Rightarrow> nat \<Rightarrow> string \<Rightarrow> string \<Rightarrow> string \<Rightarrow> files \<Rightarrow> files \<times> go_error option" where
  "writeAtomic_calls es n x p d fs =
     (case run_writer es 0 n x (new_writer p d) fs of (wr, fs1) \<Rightarrow>
        (fs1, case wr_phase wr of Finished r \<Rightarrow> r | _ \<Rightarrow> None))"

subsection \<open>Many writers\<close>

text \<open>
  \<open>dk_log\<close> numbers the writers whose rename took effect, in order. Names that \<open>CreateTemp\<close> chooses are new: neither
  an existing file nor the temporary file of a call under way, and they carry the prefix of the pattern, which
  no target has.
\<close>

record disk =
  dk_files :: files
  dk_writers :: "writer list"
  dk_log :: "nat list"

definition base_name :: "string \<Rightarrow> string" where
  "base_name p = rev (takeWhile (\<lambda>c. c \<noteq> CHR ''/'') (rev p))"

definition temp_name :: "string \<Rightarrow> bool" where
  "temp_name p \<longleftrightarrow> HasPrefix (base_name p) ''.cherrywaf-'' \<or> HasPrefix (base_name p) ''.netd-''"

definition holding :: "writer \<Rightarrow> bool" where
  "holding wr \<longleftrightarrow> wr_phase wr \<notin> {Mkdir, CreateTemp} \<and> rank (wr_phase wr) \<noteq> 0"

definition fresh_temp :: "string \<Rightarrow> disk \<Rightarrow> bool" where
  "fresh_temp x s \<longleftrightarrow> temp_name x \<and> map_of (dk_files s) x = None \<and> list_all (\<lambda>wr. holding wr \<longrightarrow> wr_tmp wr \<noteq> x) (dk_writers s)"

definition committed :: "writer \<Rightarrow> bool" where
  "committed wr \<longleftrightarrow> wr_phase wr = Cleanup None \<or> wr_phase wr = Finished None"

definition commits :: "nat \<Rightarrow> writer \<Rightarrow> writer \<Rightarrow> nat list" where
  "commits i before after = (if \<not> committed before \<and> committed after then [i] else [])"

text \<open>A call to \<open>writeAtomic\<close> begins, a writer makes its next call, or a \<open>Write\<close> under way has put down a part of its data.\<close>

inductive disk_step :: "disk \<Rightarrow> disk \<Rightarrow> bool" where
  begins: "\<not> temp_name p \<Longrightarrow> disk_step s (s\<lparr>dk_writers := dk_writers s @ [new_writer p d]\<rparr>)"
| calls: "i < length (dk_writers s) \<Longrightarrow> wr_phase (dk_writers s ! i) = CreateTemp \<longrightarrow> fresh_temp x s \<Longrightarrow>
    writer_step f n x (dk_writers s ! i) (dk_files s) = (wr, fs) \<Longrightarrow>
    disk_step s (s\<lparr>dk_files := fs, dk_writers := (dk_writers s)[i := wr],
      dk_log := dk_log s @ commits i (dk_writers s ! i) wr\<rparr>)"
| writing: "wr \<in> set (dk_writers s) \<Longrightarrow> wr_phase wr = WriteData \<Longrightarrow>
    disk_step s (s\<lparr>dk_files := fill (wr_tmp wr) (take n (wr_data wr)) (dk_files s)\<rparr>)"

definition disk_started :: "files \<Rightarrow> disk \<Rightarrow> bool" where
  "disk_started fs s \<longleftrightarrow> s = \<lparr>dk_files = fs, dk_writers = [], dk_log = []\<rparr>"

text \<open>What the file at a path holds after the writes of the log: that of the last write to it, or what it held.\<close>

definition register :: "(string \<rightharpoonup> string) \<Rightarrow> (string \<times> string) list \<Rightarrow> (string \<rightharpoonup> string)" where
  "register m ws = fold (\<lambda>(p, d) m. m(p \<mapsto> d)) ws m"

definition committed_writes :: "disk \<Rightarrow> (string \<times> string) list" where
  "committed_writes s = map (\<lambda>i. (wr_path (dk_writers s ! i), wr_data (dk_writers s ! i))) (dk_log s)"

subsection \<open>The invariant\<close>

definition writer_ok :: "files \<Rightarrow> writer \<Rightarrow> bool" where
  "writer_ok fs wr \<longleftrightarrow> \<not> temp_name (wr_path wr) \<and> (holding wr \<longrightarrow> temp_name (wr_tmp wr))
     \<and> (wr_phase wr \<in> {Chmod, WriteData} \<longrightarrow> map_of fs (wr_tmp wr) \<noteq> None)
     \<and> (wr_phase wr \<in> {Sync, CloseFile, Rename} \<longrightarrow> map_of fs (wr_tmp wr) = Some (wr_data wr))"

definition disk_inv :: "files \<Rightarrow> disk \<Rightarrow> bool" where
  "disk_inv fs0 s \<longleftrightarrow> (\<forall>wr\<in>set (dk_writers s). writer_ok (dk_files s) wr)
     \<and> (\<forall>i<length (dk_writers s). \<forall>j<length (dk_writers s). i \<noteq> j \<longrightarrow> holding (dk_writers s ! i) \<longrightarrow> holding (dk_writers s ! j)
          \<longrightarrow> wr_tmp (dk_writers s ! i) \<noteq> wr_tmp (dk_writers s ! j))
     \<and> distinct (dk_log s) \<and> (\<forall>i. i \<in> set (dk_log s) \<longleftrightarrow> i < length (dk_writers s) \<and> committed (dk_writers s ! i))
     \<and> (\<forall>p. \<not> temp_name p \<longrightarrow> map_of (dk_files s) p = register (map_of fs0) (committed_writes s) p)"

text \<open>What one call changes: the writer's own temporary file, and its target at the rename that takes effect.\<close>

lemma fill_other [simp]: "map_of (fill p d fs) q = (if q = p \<and> map_of fs p \<noteq> None then Some d else map_of fs q)"
  by (simp add: fill_def)

lemma writer_step_frame:
  assumes "writer_step f n x wr fs = (wr1, fs1)"
  shows "wr_path wr1 = wr_path wr" "wr_data wr1 = wr_data wr" "committed wr \<Longrightarrow> committed wr1"
    "holding wr1 \<Longrightarrow> wr_phase wr = CreateTemp \<and> wr_tmp wr1 = x \<or> holding wr \<and> wr_tmp wr1 = wr_tmp wr"
    "map_of fs1 q \<noteq> map_of fs q \<Longrightarrow> holding wr \<and> q = wr_tmp wr \<or> wr_phase wr = CreateTemp \<and> q = x
       \<or> \<not> committed wr \<and> committed wr1 \<and> q = wr_path wr"
  using assms by (auto simp: writer_step_def committed_def holding_def split: wphase.splits option.splits if_splits)

lemma writer_step_commit:
  assumes "writer_step f n x wr fs = (wr1, fs1)" "\<not> committed wr" "committed wr1" "writer_ok fs wr"
  shows "map_of fs1 (wr_path wr) = Some (wr_data wr)"
  using assms by (auto simp: writer_step_def committed_def writer_ok_def split: wphase.splits option.splits)

lemma writer_step_ok:
  assumes "writer_step f n x wr fs = (wr1, fs1)" "writer_ok fs wr" "wr_phase wr = CreateTemp \<longrightarrow> temp_name x"
  shows "writer_ok fs1 wr1"
  using assms by (auto simp: writer_step_def writer_ok_def holding_def split: wphase.splits option.splits)

lemma writer_ok_frame:
  assumes "writer_ok fs wr" "holding wr \<Longrightarrow> map_of fs1 (wr_tmp wr) = map_of fs (wr_tmp wr)"
  shows "writer_ok fs1 wr"
  using assms by (cases "wr_phase wr") (auto simp: writer_ok_def holding_def)

lemma register_snoc: "register m (ws @ [(p, d)]) = (register m ws)(p \<mapsto> d)"
  by (simp add: register_def)

lemma disk_inv_apart:
  assumes "disk_inv fs0 s" "i < length (dk_writers s)" "j < length (dk_writers s)" "i \<noteq> j"
    "holding (dk_writers s ! i)" "holding (dk_writers s ! j)"
  shows "wr_tmp (dk_writers s ! i) \<noteq> wr_tmp (dk_writers s ! j)"
  using assms unfolding disk_inv_def by blast

lemma disk_inv_ok: "disk_inv fs0 s \<Longrightarrow> i < length (dk_writers s) \<Longrightarrow> writer_ok (dk_files s) (dk_writers s ! i)"
  by (simp add: disk_inv_def)

lemma disk_inv_begins:
  assumes "disk_inv fs0 s" "\<not> temp_name p"
  shows "disk_inv fs0 (s\<lparr>dk_writers := dk_writers s @ [new_writer p d]\<rparr>)"
proof -
  have "committed_writes (s\<lparr>dk_writers := dk_writers s @ [new_writer p d]\<rparr>) = committed_writes s"
    using assms(1) by (auto simp: committed_writes_def disk_inv_def nth_append)
  moreover have "\<not> holding (new_writer p d)" "\<not> committed (new_writer p d)" "writer_ok (dk_files s) (new_writer p d)"
    using assms(2) by (simp_all add: holding_def committed_def new_writer_def writer_ok_def)
  ultimately show ?thesis using assms(1) by (auto simp: disk_inv_def nth_append less_Suc_eq)
qed

lemma fresh_temp_unheld:
  assumes "fresh_temp x s" "j < length (dk_writers s)" "holding (dk_writers s ! j)"
  shows "wr_tmp (dk_writers s ! j) \<noteq> x"
  using assms by (auto simp: fresh_temp_def list_all_length)

text \<open>A call of one writer leaves the temporary files of the others alone.\<close>

lemma writers_stay_ok:
  assumes inv: "disk_inv fs0 s" and i: "i < length (dk_writers s)" and x: "wr_phase (dk_writers s ! i) = CreateTemp \<longrightarrow> fresh_temp x s"
    and step: "writer_step f n x (dk_writers s ! i) (dk_files s) = (wr, fs)" and j: "j < length (dk_writers s)"
  shows "writer_ok fs ((dk_writers s)[i := wr] ! j)"
proof (cases "j = i")
  case True
  have "wr_phase (dk_writers s ! i) = CreateTemp \<longrightarrow> temp_name x" using x by (simp add: fresh_temp_def)
  then show ?thesis using writer_step_ok [OF step disk_inv_ok [OF inv i]] True i by simp
next
  case False
  let ?t = "wr_tmp (dk_writers s ! j)"
  have "map_of fs ?t = map_of (dk_files s) ?t" if h: "holding (dk_writers s ! j)"
  proof (rule ccontr)
    assume "map_of fs ?t \<noteq> map_of (dk_files s) ?t"
    moreover have "temp_name ?t" "\<not> temp_name (wr_path (dk_writers s ! i))"
      using disk_inv_ok [OF inv j] disk_inv_ok [OF inv i] h by (simp_all add: writer_ok_def)
    ultimately show False using writer_step_frame(5) [OF step] disk_inv_apart [OF inv j i False h] fresh_temp_unheld [OF _ j h] x by metis
  qed
  then show ?thesis using writer_ok_frame [OF disk_inv_ok [OF inv j]] False by simp
qed

lemma disk_inv_calls:
  assumes inv: "disk_inv fs0 s" and i: "i < length (dk_writers s)" and x: "wr_phase (dk_writers s ! i) = CreateTemp \<longrightarrow> fresh_temp x s"
    and step: "writer_step f n x (dk_writers s ! i) (dk_files s) = (wr, fs)"
  shows "disk_inv fs0 (s\<lparr>dk_files := fs, dk_writers := (dk_writers s)[i := wr],
      dk_log := dk_log s @ commits i (dk_writers s ! i) wr\<rparr>)"
    (is "disk_inv fs0 ?t")
proof -
  let ?ws = "dk_writers s" and ?new = "\<not> committed (dk_writers s ! i) \<and> committed wr"
  note frame = writer_step_frame [OF step]
  note ok = disk_inv_ok [OF inv] and apart = disk_inv_apart [OF inv]
  have other: "wr_tmp (?ws ! j) \<noteq> wr_tmp wr" if "j < length ?ws" "j \<noteq> i" "holding (?ws ! j)" "holding wr" for j
    using frame(4) [OF that(4)]
  proof (elim disjE conjE)
    assume "wr_phase (?ws ! i) = CreateTemp" "wr_tmp wr = x"
    then show ?thesis using fresh_temp_unheld [OF _ that(1,3)] x by blast
  next
    assume "holding (?ws ! i)" "wr_tmp wr = wr_tmp (?ws ! i)"
    then show ?thesis using apart [OF that(1) i that(2,3)] by simp
  qed
  have 1: "writer_ok fs ((?ws[i := wr]) ! j)" if "j < length ?ws" for j
    by (rule writers_stay_ok [OF inv i x step that])
  have 2: "wr_tmp ((?ws[i := wr]) ! j) \<noteq> wr_tmp ((?ws[i := wr]) ! k)"
    if "j < length ?ws" "k < length ?ws" "j \<noteq> k" "holding ((?ws[i := wr]) ! j)" "holding ((?ws[i := wr]) ! k)" for j k
    using that i other apart [OF that(1-3)] by (cases "j = i"; cases "k = i") (auto dest: not_sym)
  have 3: "distinct (dk_log ?t) \<and> (\<forall>j. j \<in> set (dk_log ?t) \<longleftrightarrow> j < length ?ws \<and> committed ((?ws[i := wr]) ! j))"
    using inv i frame(3) by (auto simp: disk_inv_def nth_list_update commits_def)
  have "committed_writes ?t = committed_writes s @ (if ?new then [(wr_path (?ws ! i), wr_data (?ws ! i))] else [])"
    using frame(1,2) i by (auto simp: committed_writes_def nth_list_update commits_def)
  then have "register (map_of fs0) (committed_writes ?t) = (if ?new then (register (map_of fs0) (committed_writes s))(wr_path (?ws ! i) \<mapsto> wr_data (?ws ! i))
      else register (map_of fs0) (committed_writes s))"
    by (simp add: register_snoc)
  moreover have "map_of fs p = (if ?new \<and> p = wr_path (?ws ! i) then Some (wr_data (?ws ! i)) else map_of (dk_files s) p)" if "\<not> temp_name p" for p
    using frame(5) [of p] writer_step_commit [OF step _ _ ok [OF i]] ok [OF i] x that by (auto simp: writer_ok_def fresh_temp_def)
  ultimately have 4: "map_of fs p = register (map_of fs0) (committed_writes ?t) p" if "\<not> temp_name p" for p
    using inv that by (simp add: disk_inv_def)
  show ?thesis using 1 2 3 4 by (simp add: disk_inv_def all_set_conv_all_nth)
qed

lemma disk_inv_files:
  assumes "disk_inv fs0 s" "\<And>wr. wr \<in> set (dk_writers s) \<Longrightarrow> writer_ok fs wr"
    "\<And>p. \<not> temp_name p \<Longrightarrow> map_of fs p = map_of (dk_files s) p"
  shows "disk_inv fs0 (s\<lparr>dk_files := fs\<rparr>)"
proof -
  have c: "committed_writes (s\<lparr>dk_files := fs\<rparr>) = committed_writes s" by (simp add: committed_writes_def)
  show ?thesis unfolding disk_inv_def c
    by (intro conjI) (use assms in \<open>simp_all add: disk_inv_def\<close>)
qed

lemma disk_inv_writing:
  assumes inv: "disk_inv fs0 s" and wr: "wr \<in> set (dk_writers s)" "wr_phase wr = WriteData"
  shows "disk_inv fs0 (s\<lparr>dk_files := fill (wr_tmp wr) y (dk_files s)\<rparr>)"
proof -
  let ?fs = "fill (wr_tmp wr) y (dk_files s)"
  obtain i where i: "i < length (dk_writers s)" "dk_writers s ! i = wr" using wr(1) by (auto simp: in_set_conv_nth)
  have h: "holding wr" "temp_name (wr_tmp wr)" using disk_inv_ok [OF inv i(1)] wr(2) i(2) by (simp_all add: writer_ok_def holding_def)
  have "writer_ok ?fs (dk_writers s ! j)" if j: "j < length (dk_writers s)" for j
  proof (cases "j = i")
    case True
    then show ?thesis using disk_inv_ok [OF inv j] wr(2) i(2) by (simp add: writer_ok_def)
  next
    case False
    have "wr_tmp (dk_writers s ! j) \<noteq> wr_tmp wr" if "holding (dk_writers s ! j)"
      using disk_inv_apart [OF inv j i(1) False that] h(1) i(2) by simp
    then show ?thesis using writer_ok_frame [OF disk_inv_ok [OF inv j]] by simp
  qed
  then have "writer_ok ?fs u" if "u \<in> set (dk_writers s)" for u using that by (auto simp: in_set_conv_nth)
  moreover have "map_of ?fs p = map_of (dk_files s) p" if "\<not> temp_name p" for p using that h(2) by auto
  ultimately show ?thesis by (rule disk_inv_files [OF inv])
qed

interpretation disk_sys: invariant_system "disk_started fs0" disk_step "disk_inv fs0"
proof
  show "disk_started fs0 s \<Longrightarrow> disk_inv fs0 s" for s
    by (simp add: disk_started_def disk_inv_def committed_writes_def register_def)
  show "disk_inv fs0 t" if "disk_inv fs0 s" "disk_step s t" for s t
    using that(2,1) by cases (simp_all add: disk_inv_begins disk_inv_calls disk_inv_writing)
qed

subsection \<open>Running a schedule\<close>

datatype disk_event = Begin string string | Call nat "go_error option" nat string | Partly nat nat

fun occurs :: "disk_event \<Rightarrow> disk \<Rightarrow> disk option" where
  "occurs (Begin p d) s = (if temp_name p then None else Some (s\<lparr>dk_writers := dk_writers s @ [new_writer p d]\<rparr>))"
| "occurs (Call i f n x) s =
     (if i < length (dk_writers s) \<and> (wr_phase (dk_writers s ! i) = CreateTemp \<longrightarrow> fresh_temp x s)
      then case writer_step f n x (dk_writers s ! i) (dk_files s) of (wr, fs) \<Rightarrow>
        Some (s\<lparr>dk_files := fs, dk_writers := (dk_writers s)[i := wr],
          dk_log := dk_log s @ commits i (dk_writers s ! i) wr\<rparr>)
      else None)"
| "occurs (Partly i n) s =
     (if i < length (dk_writers s) \<and> wr_phase (dk_writers s ! i) = WriteData
      then Some (s\<lparr>dk_files := fill (wr_tmp (dk_writers s ! i)) (take n (wr_data (dk_writers s ! i))) (dk_files s)\<rparr>) else None)"

fun disk_run :: "disk_event list \<Rightarrow> disk \<Rightarrow> disk option" where
  "disk_run [] s = Some s"
| "disk_run (e # es) s = (case occurs e s of None \<Rightarrow> None | Some t \<Rightarrow> disk_run es t)"

lemma occurs_step: "occurs e s = Some t \<Longrightarrow> disk_step s t"
  by (cases e) (auto intro: disk_step.intros split: if_splits prod.splits)

lemma disk_run_reach: "disk_run es s = Some t \<Longrightarrow> reach init disk_step s \<Longrightarrow> reach init disk_step t"
  by (induction es arbitrary: s) (fastforce intro: reach.reach_step occurs_step split: option.splits)+

subsection \<open>Properties\<close>

text \<open>
  C8. Concurrent atomic writes are linearizable, whatever calls fail, however the calls interleave and wherever the machine
  stops: at every moment a file holds, whole, the data of the last write to it whose rename took effect, or
  what it held at the start; no write takes effect twice, and the calls that have returned without an error are among
  those that took effect while the ones that returned an error are not.
\<close>
theorem atomic_writes_linearize:
  assumes "reach (disk_started fs) disk_step s"
  shows "(\<not> temp_name p \<longrightarrow> map_of (dk_files s) p = register (map_of fs) (committed_writes s) p)
    \<and> distinct (dk_log s)
    \<and> (i < length (dk_writers s) \<and> wr_phase (dk_writers s ! i) = Finished r \<longrightarrow> (i \<in> set (dk_log s) \<longleftrightarrow> r = None))"
  using disk_sys.inv_reach [OF assms] by (auto simp: disk_inv_def committed_def)

text \<open>What a run from each phase does: the result is the first error, and only a run without one changes the target.\<close>

lemma run_finished: "wr_phase wr = Finished r \<Longrightarrow> run_writer es k n x wr fs = (wr, fs)"
  by (subst run_writer.simps) simp

definition outcome :: "bool \<Rightarrow> writer \<Rightarrow> files \<Rightarrow> writer \<times> files \<Rightarrow> go_error option \<Rightarrow> bool" where
  "outcome left wr fs out r \<longleftrightarrow> wr_phase (fst out) = Finished r
     \<and> (\<forall>q. q \<noteq> wr_tmp wr \<longrightarrow> map_of (snd out) q = (if r = None \<and> q = wr_path wr then Some (wr_data wr) else map_of fs q))
     \<and> (map_of (snd out) (wr_tmp wr) \<noteq> None \<longrightarrow> left)"

definition fault_from :: "nat \<Rightarrow> (nat \<Rightarrow> go_error option) \<Rightarrow> bool" where
  "fault_from k es \<longleftrightarrow> (\<exists>j\<ge>k. es j \<noteq> None)"

definition two_faults :: "nat \<Rightarrow> (nat \<Rightarrow> go_error option) \<Rightarrow> bool" where
  "two_faults k es \<longleftrightarrow> (\<exists>j\<ge>k. es j \<noteq> None \<and> fault_from (Suc j) es)"

fun earliest_error :: "go_error option list \<Rightarrow> go_error option" where
  "earliest_error [] = None"
| "earliest_error (Some e # _) = Some e"
| "earliest_error (None # es) = earliest_error es"

lemma earliest_error_None: "earliest_error es = None \<longleftrightarrow> list_all (\<lambda>e. e = None) es"
  by (induction es rule: earliest_error.induct) auto

lemma two_faults_Suc: "two_faults (Suc k) es \<Longrightarrow> two_faults k es"
  by (auto simp: two_faults_def intro: Suc_leD)

lemma two_faultsI: "es k = Some e \<Longrightarrow> fault_from (Suc k) es \<Longrightarrow> two_faults k es"
  by (auto simp: two_faults_def)

lemma run_cleanup:
  assumes "wr_phase wr = Cleanup (Some e)"
  shows "outcome (fault_from k es) wr fs (run_writer es k n x wr fs) (Some e)"
  by (subst run_writer.simps) (auto simp: assms writer_step_def run_finished outcome_def fault_from_def)

lemma run_close_after:
  assumes "wr_phase wr = CloseAfter e"
  shows "outcome (fault_from k es) wr fs (run_writer es k n x wr fs) (Some e)"
  using run_cleanup [of "wr\<lparr>wr_phase := Cleanup (Some e)\<rparr>" e "Suc k" es fs n x]
  by (subst run_writer.simps) (auto simp: assms writer_step_def outcome_def fault_from_def intro: Suc_leD)

text \<open>The two ways a call can go: it fails and the run ends with its error, or the run goes on.\<close>

lemma outcome_call:
  assumes "rank (wr_phase wr) \<noteq> 0" "wr_phase wr \<noteq> CreateTemp" "wr_phase wr \<noteq> Rename"
    "\<And>e wr1 fs1. es k = Some e \<Longrightarrow> writer_step (Some e) n x wr fs = (wr1, fs1) \<Longrightarrow> outcome (fault_from (Suc k) es) wr1 fs1 (run_writer es (Suc k) n x wr1 fs1) (Some e)"
    "\<And>wr1 fs1. es k = None \<Longrightarrow> writer_step None n x wr fs = (wr1, fs1) \<Longrightarrow> outcome (two_faults (Suc k) es) wr1 fs1 (run_writer es (Suc k) n x wr1 fs1) (earliest_error fl)"
  shows "outcome (two_faults k es) wr fs (run_writer es k n x wr fs) (earliest_error (es k # fl))"
proof -
  obtain wr1 fs1 where s: "writer_step (es k) n x wr fs = (wr1, fs1)" by (rule prod.exhaust)
  have r: "run_writer es k n x wr fs = run_writer es (Suc k) n x wr1 fs1" using assms(1) s by (subst run_writer.simps) simp
  have "wr_path wr1 = wr_path wr" "wr_data wr1 = wr_data wr" "wr_tmp wr1 = wr_tmp wr" "\<And>q. q \<noteq> wr_tmp wr \<Longrightarrow> map_of fs1 q = map_of fs q"
    using s assms(2,3) by (auto simp: writer_step_def split: wphase.splits option.splits if_splits)
  note keep = this
  show ?thesis
  proof (cases "es k")
    case None
    then show ?thesis using keep assms(5) [of wr1 fs1] s two_faults_Suc [of k es] unfolding r outcome_def by auto
  next
    case (Some e)
    then show ?thesis using keep assms(4) [OF Some] s two_faultsI [of es k e] unfolding r outcome_def by auto
  qed
qed

lemma run_rename:
  assumes "wr_phase wr = Rename" "map_of fs (wr_tmp wr) = Some (wr_data wr)" "wr_path wr \<noteq> wr_tmp wr"
  shows "outcome (two_faults k es) wr fs (run_writer es k n x wr fs) (earliest_error [es k])"
proof (cases "es k")
  case None
  then show ?thesis using assms
    by (subst run_writer.simps, simp add: writer_step_def, subst run_writer.simps) (simp add: writer_step_def run_finished outcome_def)
next
  case (Some e)
  then show ?thesis using assms(1) run_cleanup [of "wr\<lparr>wr_phase := Cleanup (Some e)\<rparr>" e "Suc k" es fs n x] two_faultsI [of es k e]
    by (subst run_writer.simps) (auto simp: writer_step_def outcome_def)
qed

lemma run_close:
  assumes "wr_phase wr = CloseFile" "map_of fs (wr_tmp wr) = Some (wr_data wr)" "wr_path wr \<noteq> wr_tmp wr"
  shows "outcome (two_faults k es) wr fs (run_writer es k n x wr fs) (earliest_error [es k, es (Suc k)])"
  by (rule outcome_call) (use assms in \<open>auto simp: writer_step_def intro!: run_cleanup run_rename\<close>)

lemma run_sync:
  assumes "wr_phase wr = Sync" "map_of fs (wr_tmp wr) = Some (wr_data wr)" "wr_path wr \<noteq> wr_tmp wr"
  shows "outcome (two_faults k es) wr fs (run_writer es k n x wr fs) (earliest_error [es k, es (k + 1), es (k + 2)])"
  by (rule outcome_call) (use assms run_close [of "wr\<lparr>wr_phase := CloseFile\<rparr>" fs "Suc k" es n x] in \<open>auto simp: writer_step_def numeral_eq_Suc intro!: run_close_after\<close>)

lemma run_write:
  assumes "wr_phase wr = WriteData" "map_of fs (wr_tmp wr) \<noteq> None" "wr_path wr \<noteq> wr_tmp wr"
  shows "outcome (two_faults k es) wr fs (run_writer es k n x wr fs) (earliest_error [es k, es (k + 1), es (k + 2), es (k + 3)])"
  using assms run_sync [of "wr\<lparr>wr_phase := Sync\<rparr>" "fill (wr_tmp wr) (wr_data wr) fs" "Suc k" es n x]
  by (intro outcome_call) (auto simp: writer_step_def numeral_eq_Suc intro!: run_close_after)

lemma run_chmod:
  assumes "wr_phase wr = Chmod" "map_of fs (wr_tmp wr) \<noteq> None" "wr_path wr \<noteq> wr_tmp wr"
  shows "outcome (two_faults k es) wr fs (run_writer es k n x wr fs) (earliest_error [es k, es (k + 1), es (k + 2), es (k + 3), es (k + 4)])"
  using assms run_write [of "wr\<lparr>wr_phase := WriteData\<rparr>" fs "Suc k" es n x]
  by (intro outcome_call) (auto simp: writer_step_def numeral_eq_Suc intro!: run_close_after)

lemma writeAtomic_calls_outcome:
  assumes "x \<noteq> p" "map_of fs x = None" "writeAtomic_calls es n x p d fs = (fs1, r)"
  shows "r = earliest_error (map es [0..<7])" "q \<noteq> x \<Longrightarrow> map_of fs1 q = (if r = None \<and> q = p then Some d else map_of fs q)"
    "map_of fs1 x \<noteq> None \<Longrightarrow> two_faults 0 es"
proof -
  let ?wr = "\<lparr>wr_path = p, wr_data = d, wr_tmp = x, wr_phase = Chmod\<rparr>" and ?run = "run_writer es 0 n x (new_writer p d) fs"
  have "outcome (two_faults 2 es) ?wr (put x [] fs) (run_writer es 2 n x ?wr (put x [] fs)) (earliest_error [es 2, es 3, es 4, es 5, es 6])"
    using run_chmod [of ?wr "put x [] fs" 2 es n x] assms(1) by simp
  moreover have "?run = (if es 0 \<noteq> None then ((new_writer p d)\<lparr>wr_phase := Finished (es 0)\<rparr>, fs)
      else run_writer es 1 n x ((new_writer p d)\<lparr>wr_phase := CreateTemp\<rparr>) fs)"
    by (subst run_writer.simps) (auto simp: new_writer_def writer_step_def run_finished split: option.splits)
  moreover have "run_writer es 1 n x ((new_writer p d)\<lparr>wr_phase := CreateTemp\<rparr>) fs
      = (if es 1 \<noteq> None then ((new_writer p d)\<lparr>wr_phase := Finished (es 1)\<rparr>, fs) else run_writer es 2 n x ?wr (put x [] fs))"
    by (subst run_writer.simps) (auto simp: new_writer_def writer_step_def run_finished numeral_2_eq_2 split: option.splits)
  moreover have "map es [0..<7] = [es 0, es 1, es 2, es 3, es 4, es 5, es 6]" by (simp add: upt_rec numeral_eq_Suc)
  ultimately have z: "outcome (two_faults 0 es) ((new_writer p d)\<lparr>wr_tmp := x\<rparr>) fs ?run (earliest_error (map es [0..<7]))"
    using assms(1,2) two_faults_Suc [of 0 es] two_faults_Suc [of 1 es]
    by (cases "es 0"; cases "es 1") (auto simp: outcome_def new_writer_def numeral_eq_Suc)
  obtain wr2 fs2 where run: "?run = (wr2, fs2)" by (rule prod.exhaust)
  have r: "fs2 = fs1" "r = earliest_error (map es [0..<7])"
    using assms(3) z run by (auto simp: writeAtomic_calls_def outcome_def)
  show "r = earliest_error (map es [0..<7])" by (rule r(2))
  show "map_of fs1 q = (if r = None \<and> q = p then Some d else map_of fs q)" if "q \<noteq> x"
    using z that unfolding run r outcome_def by (auto simp: new_writer_def)
  show "two_faults 0 es" if "map_of fs1 x \<noteq> None" using z that unfolding run r outcome_def by simp
qed

text \<open>
  C29. Alone, the body of \<open>writeAtomic\<close> always returns, and it is the one step that the managers are modelled with: it succeeds
  exactly when none of its seven calls fails and returns the first error else, and up to the temporary file, which is gone
  unless two calls fail, the files are those of the one step that meets the error returned.
\<close>
theorem writeAtomic_refines:
  assumes "x \<noteq> p" "content x w = None" "writeAtomic_calls es n x p d (wo_files w) = (fs, r)" "wo_faults w = r # rest"
  shows "r = earliest_error (map es [0..<7])
    \<and> (\<exists>w1. writeAtomic p d w = (w1, r) \<and> (\<forall>q. q \<noteq> x \<longrightarrow> map_of fs q = content q w1))
    \<and> (map_of fs x \<noteq> None \<longrightarrow> two_faults 0 es)"
proof -
  note c = writeAtomic_calls_outcome [OF assms(1) assms(2) [unfolded content_def] assms(3)]
  obtain w1 where "writeAtomic p d w = (w1, r)" "\<forall>q. q \<noteq> x \<longrightarrow> map_of fs q = content q w1"
    using assms(4) c(2) by (cases r) (auto simp: writeAtomic_def meet_def content_def)
  then show ?thesis using c(1,3) by blast
qed

text \<open>Two writers of one file: the second renames first, the first is stopped in the middle of its \<open>Write\<close>.\<close>

definition sample_schedule :: "disk_event list" where
  "sample_schedule = [Begin ''/c'' ''aaaa'', Begin ''/c'' ''bb'', Call 0 None 0 [], Call 0 None 0 ''/.cherrywaf-1'', Call 0 None 0 [],
     Call 1 None 0 [], Call 1 None 0 ''/.cherrywaf-2''] @ replicate 6 (Call 1 None 0 []) @ [Partly 0 2]"

theorem atomic_writes_linearize_witness:
  "\<exists>s. disk_run sample_schedule \<lparr>dk_files = [(''/c'', ''old'')], dk_writers = [], dk_log = []\<rparr> = Some s
     \<and> map_of (dk_files s) ''/.cherrywaf-1'' = Some ''aa'' \<and> map_of (dk_files s) ''/c'' = Some ''bb''"
proof -
  let ?s0 = "\<lparr>dk_files = [(''/c'', ''old'')], dk_writers = [], dk_log = []\<rparr>"
  have "case disk_run sample_schedule ?s0 of None \<Rightarrow> False
    | Some s \<Rightarrow> map_of (dk_files s) ''/.cherrywaf-1'' = Some ''aa'' \<and> committed_writes s = [(''/c'', ''bb'')] \<and> \<not> temp_name ''/c''" by code_simp
  then obtain s where s: "disk_run sample_schedule ?s0 = Some s" "map_of (dk_files s) ''/.cherrywaf-1'' = Some ''aa''"
    "committed_writes s = [(''/c'', ''bb'')]" "\<not> temp_name ''/c''" by (auto split: option.splits)
  have "reach (disk_started [(''/c'', ''old'')]) disk_step s"
    by (rule disk_run_reach [OF s(1)]) (simp add: reach_init disk_started_def)
  from atomic_writes_linearize [OF this, of "''/c''" 0 None] s(3,4) have "map_of (dk_files s) ''/c'' = Some ''bb''" by (simp add: register_def)
  then show ?thesis using s by blast
qed

theorem writeAtomic_refines_witness:
  "\<exists>fs. writeAtomic_calls (\<lambda>k. if k = 3 then Some ErrNotExist else None) 1 ''/t'' ''/c'' ''new'' [(''/c'', ''old'')] = (fs, Some ErrNotExist)
     \<and> map_of fs ''/c'' = Some ''old'' \<and> map_of fs ''/t'' = None"
proof -
  let ?es = "\<lambda>k. if k = 3 then Some ErrNotExist else None" and ?w = "\<lparr>wo_files = [(''/c'', ''old'')], wo_running = [], wo_faults = [Some ErrNotExist]\<rparr>"
  have c: "writeAtomic_calls ?es 1 ''/t'' ''/c'' ''new'' [(''/c'', ''old'')] = ([(''/c'', ''old'')], Some ErrNotExist)" by code_simp
  have w: "writeAtomic ''/c'' ''new'' ?w = (?w\<lparr>wo_faults := []\<rparr>, Some ErrNotExist)" by (simp add: writeAtomic_def meet_def)
  from writeAtomic_refines [of "''/t''" "''/c''" ?w ?es 1 "''new''" "[(''/c'', ''old'')]" "Some ErrNotExist" "[]"] c w
  have "map_of [(''/c'', ''old'')] ''/c'' = content ''/c'' (?w\<lparr>wo_faults := []\<rparr>)" by (auto simp: content_def)
  then show ?thesis using c by auto
qed

end
