(* ===== verification/Flags.thy ===== *)
theory Flags
  imports Prelude
begin

text \<open>
  Command lines, as the four programs read them with the package \<open>flag\<close> of the standard library: a flag set is its names
  with their values, first the defaults; \<open>flags_Parse\<close> sets the values that the arguments give and returns the arguments
  from the first that is no flag on. The printing of usage texts is left out.
\<close>

subsection \<open>Parsing\<close>

datatype flag_value = FStr string | FBool bool

type_synonym flag_set = "(string \<times> flag_value) list"

definition ErrHelp :: go_error where
  "ErrHelp = Errorf ''flag: help requested'' []"

definition ParseBool :: "string \<Rightarrow> bool option" where
  "ParseBool s =
     (if s \<in> {''1'', ''t'', ''T'', ''TRUE'', ''true'', ''True''} then Some True
      else if s \<in> {''0'', ''f'', ''F'', ''FALSE'', ''false'', ''False''} then Some False else None)"

fun set_flag :: "string \<Rightarrow> flag_value \<Rightarrow> flag_set \<Rightarrow> flag_set" where
  "set_flag n v [] = []"
| "set_flag n v ((m, u) # fs) = (if m = n then (m, v) # fs else (m, u) # set_flag n v fs)"

text \<open>The name and the value of \<open>name=value\<close>; the equals sign cannot come first.\<close>

definition split_flag :: "string \<Rightarrow> string \<times> string option" where
  "split_flag s =
     (case s of
        [] \<Rightarrow> ([], None)
      | c # cs \<Rightarrow>
          if CHR ''='' \<in> set cs
          then (c # takeWhile (\<lambda>x. x \<noteq> CHR ''='') cs, Some (drop 1 (dropWhile (\<lambda>x. x \<noteq> CHR ''='') cs)))
          else (s, None))"

text \<open>What an argument is: no flag, the end of the flags, a malformed flag, or a flag without its dashes.\<close>

datatype argument = Operand | Terminator | BadSyntax | FlagText string

definition classify :: "string \<Rightarrow> argument" where
  "classify s =
     (if length s < 2 \<or> hd s \<noteq> CHR ''-'' then Operand
      else if s ! 1 = CHR ''-'' \<and> length s = 2 then Terminator
      else let name = (if s ! 1 = CHR ''-'' then drop 2 s else drop 1 s) in
        if name = [] \<or> hd name = CHR ''-'' \<or> hd name = CHR ''='' then BadSyntax else FlagText name)"

fun flags_Parse :: "flag_set \<Rightarrow> string list \<Rightarrow> go_error + flag_set \<times> string list" where
  "flags_Parse fs [] = Inr (fs, [])"
| "flags_Parse fs (s # args) =
     (case classify s of
        Operand \<Rightarrow> Inr (fs, s # args)
      | Terminator \<Rightarrow> Inr (fs, args)
      | BadSyntax \<Rightarrow> Inl (Errorf ''bad flag syntax: %s'' [s])
      | FlagText t \<Rightarrow>
          (case split_flag t of (name, given) \<Rightarrow>
            (case map_of fs name of
               None \<Rightarrow> Inl (if name = ''help'' \<or> name = ''h'' then ErrHelp else Errorf ''flag provided but not defined: -%s'' [name])
             | Some (FBool _) \<Rightarrow>
                 (case given of
                    None \<Rightarrow> flags_Parse (set_flag name (FBool True) fs) args
                  | Some v \<Rightarrow>
                      (case ParseBool v of
                         None \<Rightarrow> Inl (Errorf ''invalid boolean value %q for -%s: %v'' [v, name])
                       | Some b \<Rightarrow> flags_Parse (set_flag name (FBool b) fs) args))
             | Some (FStr _) \<Rightarrow>
                 (case given of
                    Some v \<Rightarrow> flags_Parse (set_flag name (FStr v) fs) args
                  | None \<Rightarrow>
                      (case args of
                         [] \<Rightarrow> Inl (Errorf ''flag needs an argument: -%s'' [name])
                       | v # rest \<Rightarrow> flags_Parse (set_flag name (FStr v) fs) rest)))))"

definition flag_string :: "flag_set \<Rightarrow> string \<Rightarrow> string" where
  "flag_string fs n = (case map_of fs n of Some (FStr s) \<Rightarrow> s | _ \<Rightarrow> [])"

definition flag_bool :: "flag_set \<Rightarrow> string \<Rightarrow> bool" where
  "flag_bool fs n = (case map_of fs n of Some (FBool b) \<Rightarrow> b | _ \<Rightarrow> False)"

subsection \<open>Writing a command line\<close>

text \<open>The ways to give a string flag: one dash or two, the value behind an equals sign or as the next argument.\<close>

record given_flag =
  gf_two :: bool
  gf_joined :: bool
  gf_name :: string
  gf_value :: string

definition print_flag :: "given_flag \<Rightarrow> string list" where
  "print_flag g =
     (let dashed = (if gf_two g then ''--'' else ''-'') @ gf_name g in
      if gf_joined g then [dashed @ ''='' @ gf_value g] else [dashed, gf_value g])"

definition flag_name_ok :: "string \<Rightarrow> bool" where
  "flag_name_ok n \<longleftrightarrow> n \<noteq> [] \<and> hd n \<noteq> CHR ''-'' \<and> CHR ''='' \<notin> set n"

definition is_string_flag :: "flag_set \<Rightarrow> string \<Rightarrow> bool" where
  "is_string_flag fs n \<longleftrightarrow> flag_name_ok n \<and> (case map_of fs n of Some (FStr _) \<Rightarrow> True | _ \<Rightarrow> False)"

definition assign_flag :: "given_flag \<Rightarrow> flag_set \<Rightarrow> flag_set" where
  "assign_flag g fs = set_flag (gf_name g) (FStr (gf_value g)) fs"

lemma map_of_set_flag [simp]: "map_of (set_flag n v fs) m = (if m = n \<and> map_of fs n \<noteq> None then Some v else map_of fs m)"
  by (induction fs) auto

lemma set_flag_names [simp]: "map fst (set_flag n v fs) = map fst fs"
  by (induction fs) auto

lemma is_string_flag_assign [simp]: "is_string_flag (assign_flag g fs) n \<longleftrightarrow> is_string_flag fs n \<or> flag_name_ok n \<and> n = gf_name g \<and> map_of fs n \<noteq> None"
  by (auto simp: is_string_flag_def assign_flag_def split: option.splits flag_value.splits)

lemma split_flag_plain: "flag_name_ok n \<Longrightarrow> split_flag n = (n, None)"
  by (cases n) (auto simp: split_flag_def flag_name_ok_def)

lemma split_flag_joined:
  assumes "flag_name_ok n"
  shows "split_flag (n @ CHR ''='' # v) = (n, Some v)"
proof -
  obtain c cs where n: "n = c # cs" "CHR ''='' \<notin> set cs" using assms by (cases n) (auto simp: flag_name_ok_def)
  have "takeWhile (\<lambda>x. x \<noteq> CHR ''='') (cs @ CHR ''='' # v) = cs" "dropWhile (\<lambda>x. x \<noteq> CHR ''='') (cs @ CHR ''='' # v) = CHR ''='' # v"
    using n(2) by (induction cs) auto
  then show ?thesis by (simp add: split_flag_def n(1))
qed

lemma classify_dashed:
  assumes "flag_name_ok n"
  shows "classify (CHR ''-'' # n @ v) = FlagText (n @ v)" "classify (CHR ''-'' # CHR ''-'' # n @ v) = FlagText (n @ v)"
proof -
  obtain c cs where n: "n = c # cs" "c \<noteq> CHR ''-''" "c \<noteq> CHR ''=''" using assms by (cases n) (auto simp: flag_name_ok_def)
  show "classify (CHR ''-'' # n @ v) = FlagText (n @ v)" "classify (CHR ''-'' # CHR ''-'' # n @ v) = FlagText (n @ v)"
    using n by (simp_all add: classify_def)
qed

lemma flags_Parse_given:
  assumes "is_string_flag fs (gf_name g)"
  shows "flags_Parse fs (print_flag g @ rest) = flags_Parse (assign_flag g fs) rest"
proof -
  have ok: "flag_name_ok (gf_name g)" and m: "\<exists>u. map_of fs (gf_name g) = Some (FStr u)"
    using assms by (auto simp: is_string_flag_def split: option.splits flag_value.splits)
  note c = classify_dashed [OF ok, of "''=''  @ gf_value g"] classify_dashed [OF ok, of "[]"]
  show ?thesis using m c split_flag_plain [OF ok] split_flag_joined [OF ok, of "gf_value g"]
    by (auto simp: print_flag_def assign_flag_def Let_def)
qed

lemma flags_Parse_all:
  assumes "list_all (\<lambda>g. is_string_flag fs (gf_name g)) gs"
  shows "flags_Parse fs (concat (map print_flag gs) @ rest) = flags_Parse (fold assign_flag gs fs) rest"
  using assms
proof (induction gs arbitrary: fs)
  case (Cons g gs)
  then have "list_all (\<lambda>x. is_string_flag (assign_flag g fs) (gf_name x)) gs" by (auto simp: list_all_iff)
  from Cons.IH [OF this] show ?case using Cons.prems flags_Parse_given [of fs g] by simp
qed simp

text \<open>
  A command line means what its writer meant: string flags, each given in any of the four ways and with any
  text as its value, even one that looks like a flag, are read back exactly, the last one of a name counts,
  the others keep their defaults, and the operands that follow are returned untouched.
\<close>
theorem flags_roundtrip:
  assumes "list_all (\<lambda>g. is_string_flag fs (gf_name g)) gs" "rest = [] \<or> classify (hd rest) = Operand"
  shows "\<exists>fs1. flags_Parse fs (concat (map print_flag gs) @ rest) = Inr (fs1, rest)
    \<and> (\<forall>n. map_of fs1 n = (case find (\<lambda>g. gf_name g = n) (rev gs) of Some g \<Rightarrow> Some (FStr (gf_value g)) | None \<Rightarrow> map_of fs n))"
proof -
  have "flags_Parse fs1 rest = Inr (fs1, rest)" for fs1 using assms(2) by (cases rest) auto
  moreover have "map_of (fold assign_flag gs fs) n = (case find (\<lambda>g. gf_name g = n) (rev gs) of Some g \<Rightarrow> Some (FStr (gf_value g)) | None \<Rightarrow> map_of fs n)" for n
    using assms(1)
  proof (induction gs arbitrary: fs)
    case (Cons g gs)
    then have "list_all (\<lambda>x. is_string_flag (assign_flag g fs) (gf_name x)) gs" by (auto simp: list_all_iff)
    from Cons.IH [OF this] Cons.prems show ?case
      by (auto simp: assign_flag_def is_string_flag_def find_append split: option.splits)
  qed simp
  ultimately show ?thesis using flags_Parse_all [OF assms(1), of rest] by auto
qed

theorem flags_roundtrip_witness:
  "\<exists>fs1. flags_Parse [(''cert'', FStr []), (''key'', FStr ''k''), (''quiet'', FBool False)] [''--cert=a=b'', ''-cert'', ''-x'', ''op'', ''--key''] = Inr (fs1, [''op'', ''--key''])
     \<and> map_of fs1 ''cert'' = Some (FStr ''-x'') \<and> map_of fs1 ''key'' = Some (FStr ''k'')"
proof -
  let ?fs = "[(''cert'', FStr []), (''key'', FStr ''k''), (''quiet'', FBool False)]"
  let ?gs = "[\<lparr>gf_two = True, gf_joined = True, gf_name = ''cert'', gf_value = ''a=b''\<rparr>, \<lparr>gf_two = False, gf_joined = False, gf_name = ''cert'', gf_value = ''-x''\<rparr>]"
  have "list_all (\<lambda>g. is_string_flag ?fs (gf_name g)) ?gs" by (simp add: is_string_flag_def flag_name_ok_def)
  from flags_roundtrip [OF this, of "[''op'', ''--key'']"] show ?thesis
    by (auto simp: print_flag_def classify_def)
qed

end
