(* ===== verification/Loading.thy ===== *)
theory Loading
  imports Files Runtime
begin

text \<open>
  Reading a configuration from the files: \<open>config.Load\<close>, \<open>core.Validate\<close> and \<open>waf.New\<close> on files of theory
  \<open>Files\<close>, as the managers of the control plane and the command line tool call them. JSON decoding, the X.509
  library and the working directory are the record \<open>config_reader\<close>; what the runtime reads besides the
  configuration (rules, reputation lists, certificates) is taken from the same files.
\<close>

record config_reader =
  cd_lib :: golib
  cd_cwd :: "string option"
  cd_json :: "string \<Rightarrow> go_error + config"
  cd_rules :: "string \<Rightarrow> go_error + rule_file"
  cd_pair :: "string \<Rightarrow> string \<Rightarrow> string + leaf"
  cd_verify :: "leaf \<Rightarrow> string \<Rightarrow> bool"
  cd_ca :: ca_loader
  cd_now :: gotime

subsection \<open>Paths\<close>

text \<open>\<open>filepath.Abs\<close> needs the working directory, which may be gone.\<close>

definition Abs :: "string option \<Rightarrow> string \<Rightarrow> string option" where
  "Abs cwd p = (if IsAbs p then Some (Clean p) else map_option (\<lambda>d. JoinPath d p) cwd)"

definition Dir :: "string \<Rightarrow> string" where
  "Dir p = Clean (rev (dropWhile (\<lambda>c. c \<noteq> CHR ''/'') (rev p)))"

definition sameFilePath :: "string option \<Rightarrow> string \<Rightarrow> string \<Rightarrow> bool" where
  "sameFilePath cwd a b =
     (case (Abs cwd a, Abs cwd b) of (Some x, Some y) \<Rightarrow> Clean x = Clean y | _ \<Rightarrow> Clean a = Clean b)"

subsection \<open>Configuration files\<close>

definition load_bytes :: "config_reader \<Rightarrow> string \<Rightarrow> string \<Rightarrow> go_error + config" where
  "load_bytes rd path data =
     (case cd_json rd data of
        Inl e \<Rightarrow> Inl (Wrapped ''decode config: %w'' [] [e])
      | Inr decoded \<Rightarrow>
          (case Abs (cd_cwd rd) path of
             None \<Rightarrow> Inl (Errorf ''resolve config path: %w'' [])
           | Some p \<Rightarrow>
               (case Load_decoded (cd_lib rd) (Dir p) decoded of
                  Inl errs \<Rightarrow> Inl (Wrapped [] [] errs)
                | Inr c \<Rightarrow> Inr c)))"

definition Load :: "config_reader \<Rightarrow> string \<Rightarrow> world \<Rightarrow> world \<times> (go_error + config)" where
  "Load rd path w =
     (case ReadFile path w of
        (w1, Inl e) \<Rightarrow> (w1, Inl (Wrapped ''open config: %w'' [] [e]))
      | (w1, Inr data) \<Rightarrow> (w1, load_bytes rd path data))"

text \<open>Certificate files as the certificate store sees them; keys are written with mode 0600.\<close>

definition files_cert_io :: "config_reader \<Rightarrow> world \<Rightarrow> cert_io" where
  "files_cert_io rd w = \<lparr>ci_perm = (\<lambda>p. map_option (\<lambda>_. 384) (content p w)),
     ci_load = (\<lambda>c k. case (content c w, content k w) of (Some a, Some b) \<Rightarrow> cd_pair rd a b | _ \<Rightarrow> Inl ''no such file''),
     ci_verify = cd_verify rd\<rparr>"

definition files_env :: "config_reader \<Rightarrow> world \<Rightarrow> env" where
  "files_env rd w = \<lparr>en_lib = cd_lib rd,
     en_rules = (\<lambda>p. case content p w of None \<Rightarrow> Inl ErrNotExist | Some d \<Rightarrow> cd_rules rd d),
     en_fs = (\<lambda>p. content p w), en_cert = files_cert_io rd w, en_ca = cd_ca rd, en_logs = (\<lambda>_ _. None), en_now = cd_now rd\<rparr>"

definition validate_bytes :: "config_reader \<Rightarrow> string \<Rightarrow> string \<Rightarrow> world \<Rightarrow> go_error + validation_result" where
  "validate_bytes rd path data w =
     (case load_bytes rd path data of Inl e \<Rightarrow> Inl e | Inr c \<Rightarrow> core_Validate (files_env rd w) c)"

definition Validate_file :: "config_reader \<Rightarrow> string \<Rightarrow> world \<Rightarrow> world \<times> (go_error + validation_result)" where
  "Validate_file rd path w =
     (case Load rd path w of
        (w1, Inl e) \<Rightarrow> (w1, Inl e)
      | (w1, Inr c) \<Rightarrow> (w1, core_Validate (files_env rd w1) c))"

text \<open>Rules are checked by loading them into an engine of their own, from a temporary file.\<close>

definition maxRuleFileBytes :: int where "maxRuleFileBytes = 4194304"

definition validateRuleBytes :: "config_reader \<Rightarrow> string \<Rightarrow> world \<Rightarrow> world \<times> go_error option" where
  "validateRuleBytes rd data w =
     (if maxRuleFileBytes < int (length data) then (w, Some (Errorf ''rule file exceeds 4 MiB'' []))
      else case meet w of
        (w1, Some e) \<Rightarrow> (w1, Some e)
      | (w1, None) \<Rightarrow>
          (w1, case waf_New (cd_lib rd) (\<lambda>_. cd_rules rd data) ''detect'' 10 False [''.rules-candidate-.json''] of
             Inl e \<Rightarrow> Some e
           | Inr _ \<Rightarrow> None))"

lemma Load_quiet: "Load rd p w = (w1, r) \<Longrightarrow> quiet w w1"
  by (cases "ReadFile p w") (auto simp: Load_def dest: ReadFile_quiet split: sum.splits)

lemma Validate_file_quiet: "Validate_file rd p w = (w1, r) \<Longrightarrow> quiet w w1"
  by (cases "Load rd p w") (auto simp: Validate_file_def dest: Load_quiet split: sum.splits)

lemma validateRuleBytes_quiet: "validateRuleBytes rd d w = (w1, r) \<Longrightarrow> quiet w w1"
  by (cases "meet w") (auto simp: validateRuleBytes_def quiet_def dest: meet_quiet split: if_splits option.splits)

lemma Load_calm:
  assumes "Load rd p w = (w1, r)" "calm w"
  shows "case content p w of None \<Rightarrow> isl r | Some d \<Rightarrow> r = load_bytes rd p d"
proof -
  obtain w' g where m: "ReadFile p w = (w', g)" by (rule prod.exhaust)
  have g: "g = (case content p w of Some d \<Rightarrow> Inr d | None \<Rightarrow> Inl ErrNotExist)"
    using ReadFile_step [OF m calm_one [OF assms(2)]] assms(2) by blast
  show ?thesis using assms(1) m g by (cases "content p w") (auto simp: Load_def)
qed

text \<open>Loading a configuration that is in order fails only by a fault.\<close>

definition loads :: "config_reader \<Rightarrow> string \<Rightarrow> world \<Rightarrow> bool" where
  "loads rd p w \<longleftrightarrow> (case content p w of None \<Rightarrow> False | Some data \<Rightarrow> \<not> isl (load_bytes rd p data))"

lemma Load_fails:
  assumes "Load rd p w = (w1, Inl e)" "one_fault w" "loads rd p w"
  shows "calm w1 \<and> \<not> calm w"
proof -
  obtain w2 f where m: "meet w = (w2, f)" by (rule prod.exhaust)
  note s = meet_budget [OF m]
  have "f \<noteq> None"
  proof
    assume "f = None"
    then have "ReadFile p w = (w2, case content p w of Some d \<Rightarrow> Inr d | None \<Rightarrow> Inl ErrNotExist)"
      using m s by (simp add: ReadFile_def content_def)
    then show False using assms(1,3) by (auto simp: Load_def loads_def split: option.splits)
  qed
  then obtain x where "f = Some x" by blast
  then have "w1 = w2" "budget w (Some x) w2" using assms(1) m s by (auto simp: Load_def ReadFile_def)
  then show ?thesis using assms(2) by (auto simp: budget_def)
qed

subsection \<open>What a loaded configuration is\<close>

definition vhost_formed :: "golib \<Rightarrow> config \<Rightarrow> virtual_host \<Rightarrow> bool" where
  "vhost_formed L c v \<longleftrightarrow> vh_name v \<noteq> [] \<and> (vh_enabled v \<longrightarrow>
     vh_domains v \<noteq> [] \<and> list_all (\<lambda>d. ValidateDomainPattern L d = None) (vh_domains v)
     \<and> vh_action v \<in> {''group'', ''redirect'', ''discard''}
     \<and> (vh_action v = ''discard'' \<longrightarrow> 400 \<le> vh_discard v \<and> vh_discard v \<le> 599)
     \<and> (hs_enabled (c_https c) \<longrightarrow> TrimSpace (ft_cert (vh_frontTLS v)) \<noteq> [] \<and> TrimSpace (ft_key (vh_frontTLS v)) \<noteq> [])
     \<and> wp_mode (vh_waf v) \<in> {''inherit'', ''detect'', ''blocking'', ''disabled''} \<and> wp_failMode (vh_waf v) \<in> {''closed'', ''open''}
     \<and> (wp_threshold (vh_waf v) = 0 \<or> 1 \<le> wp_threshold (vh_waf v) \<and> wp_threshold (vh_waf v) \<le> 1000))"

definition well_formed :: "golib \<Rightarrow> config \<Rightarrow> bool" where
  "well_formed L c \<longleftrightarrow> c_version c = CurrentVersion
     \<and> (h_enabled (c_http c) \<or> hs_enabled (c_https c))
     \<and> sec_mode (c_security c) \<in> {''blocking'', ''detect''} \<and> 1 \<le> sec_threshold (c_security c) \<and> sec_threshold (c_security c) \<le> 1000
     \<and> 1024 \<le> sec_maxBody (c_security c) \<and> 8192 \<le> sec_maxHeader (c_security c)
     \<and> (ad_enabled (c_admin c) \<longrightarrow> ad_tokenEnv (c_admin c) \<noteq> [] \<and> (ad_allowPublic (c_admin c) \<or> isLoopbackListen (ad_listen (c_admin c))))
     \<and> distinct (map sp_name (c_pools c)) \<and> list_all (pool_ok L) (c_pools c)
     \<and> distinct (map vh_name (c_vhosts c)) \<and> distinct (enabled_domains (c_vhosts c)) \<and> list_all (vhost_formed L c) (c_vhosts c)"

lemma action_known:
  assumes "validate_action L c pn v = []"
  shows "vh_action v \<in> {''group'', ''redirect'', ''discard''}" "vh_action v = ''discard'' \<Longrightarrow> 400 \<le> vh_discard v \<and> vh_discard v \<le> 599"
  using assms by (auto simp: validate_action_def err_if_def split: if_splits)

lemma policy_known:
  assumes "validateWAFPolicy p = []"
  shows "wp_mode p \<in> {''inherit'', ''detect'', ''blocking'', ''disabled''}" "wp_failMode p \<in> {''closed'', ''open''}"
    "wp_threshold p = 0 \<or> 1 \<le> wp_threshold p \<and> wp_threshold p \<le> 1000"
  using assms by (auto simp: validateWAFPolicy_def)

lemma vhost_ok_formed:
  assumes "vhost_ok L c pn v"
  shows "vhost_formed L c v"
proof (cases "vh_enabled v")
  case True
  then have s: "validate_service L c pn v = []" "vh_name v \<noteq> []" "vh_domains v \<noteq> []" "list_all (\<lambda>d. ValidateDomainPattern L d = None) (vh_domains v)"
    using assms by (simp_all add: vhost_ok_def)
  have "validate_action L c pn v = []" "validateWAFPolicy (vh_waf v) = []"
    and t: "hs_enabled (c_https c) \<Longrightarrow> TrimSpace (ft_cert (vh_frontTLS v)) \<noteq> [] \<and> TrimSpace (ft_key (vh_frontTLS v)) \<noteq> []"
    using s(1) by (simp_all add: validate_service_def wrap_Nil)
  note k = action_known [OF this(1)] policy_known [OF this(2)]
  show ?thesis unfolding vhost_formed_def using True s(2-4) k t by simp
qed (use assms in \<open>simp add: vhost_ok_def vhost_formed_def\<close>)

text \<open>
  C14. Every configuration that loads from a file is well formed: the supported version, a listener, numbers in their ranges, an admin
  interface with a token and on a loopback address unless it is declared public, pools and virtual hosts with
  distinct names whose settings have values the program knows, and no domain in two virtual hosts.
\<close>
theorem Load_well_formed:
  assumes "Load rd path w = (w1, Inr c)"
  shows "well_formed (cd_lib rd) c"
proof -
  let ?L = "cd_lib rd"
  obtain dir x where "Load_decoded ?L dir x = Inr c"
    using assms by (auto simp: Load_def load_bytes_def split: prod.splits sum.splits option.splits)
  then obtain c0 where v: "Validate ?L c0 = (c, [])"
    by (auto simp: Load_decoded_def split: prod.splits if_splits)
  obtain pn where ok: "set pn = sp_name ` set (c_pools c0)" "distinct (map sp_name (c_pools c0))" "list_all (pool_ok ?L) (c_pools c0)" "validate_global ?L c0 = []"
    "distinct (map vh_name (c_vhosts c))" "distinct (enabled_domains (c_vhosts c))" "list_all (vhost_ok ?L c0 pn) (c_vhosts c)" "c = c0\<lparr>c_vhosts := c_vhosts c\<rparr>"
    by (rule Validate_clean [OF v]) blast
  have same: "c_version c = c_version c0" "c_http c = c_http c0" "c_https c = c_https c0" "c_security c = c_security c0" "c_admin c = c_admin c0" "c_pools c = c_pools c0"
    using arg_cong [OF ok(8), of c_version] arg_cong [OF ok(8), of c_http] arg_cong [OF ok(8), of c_https] arg_cong [OF ok(8), of c_security]
      arg_cong [OF ok(8), of c_admin] arg_cong [OF ok(8), of c_pools] by simp_all
  have "list_all (vhost_formed ?L c) (c_vhosts c)"
    using ok(7) vhost_ok_formed [of ?L c0 pn] by (auto simp: list_all_iff vhost_formed_def same)
  then show ?thesis using ok(2,3,5,6) ok(4) unfolding well_formed_def same
    by (auto simp: validate_global_def Let_def split: if_splits)
qed

subsection \<open>Witness\<close>

text \<open>A reader that takes every text but \<open>bad\<close> for a configuration that listens and has no virtual host yet.\<close>

definition empty_config :: config where
  "empty_config = sample_config\<lparr>c_rules := \<lparr>rules_builtins = False, rules_files = []\<rparr>, c_pools := [], c_vhosts := [], c_baseDir := ''/''\<rparr>"

definition sample_reader :: config_reader where
  "sample_reader = \<lparr>cd_lib = plain_lib, cd_cwd = None,
     cd_json = (\<lambda>d. if d = ''bad'' then Inl (Errorf ''bad'' []) else Inr empty_config),
     cd_rules = (\<lambda>d. if d = ''bad'' then Inl (Errorf ''bad'' []) else Inr \<lparr>rf_version = 1, rf_rules = []\<rparr>),
     cd_pair = (\<lambda>_ _. Inr \<lparr>lf_subject = ''s'', lf_issuer = ''i'', lf_serial = ''1'', lf_notBefore = 0, lf_notAfter = 100\<rparr>),
     cd_verify = (\<lambda>_ _. True), cd_ca = (\<lambda>_. None), cd_now = 50\<rparr>"


theorem Load_well_formed_witness:
  "\<exists>w1 c. Load sample_reader ''/c'' \<lparr>wo_files = [(''/c'', ''conf'')], wo_running = [], wo_faults = []\<rparr> = (w1, Inr c) \<and> well_formed plain_lib c"
proof -
  let ?l = "Load sample_reader ''/c'' \<lparr>wo_files = [(''/c'', ''conf'')], wo_running = [], wo_faults = []\<rparr>"
  have "\<not> isl (snd ?l)" by code_simp
  then obtain w1 c where l: "?l = (w1, Inr c)" by (cases ?l; cases "snd ?l") auto
  have "cd_lib sample_reader = plain_lib" by (simp add: sample_reader_def)
  then show ?thesis using Load_well_formed [OF l] l by auto
qed

end
