(* ===== verification/Deploy.thy ===== *)
theory Deploy
  imports Loading Control
begin

text \<open>
  Configuration transactions of the control plane (\<open>internal/control/config_manager.go\<close>, \<open>rules_manager.go\<close>):
  revisions, applying a configuration with or without rules, automatic rollback, restoring a revision, over
  the files and faults of theory \<open>Files\<close>. JSON, the clock and the random identifier are the record \<open>deploy_io\<close>.
\<close>

subsection \<open>Revisions\<close>

record revision =
  rv_id :: string
  rv_created :: gotime
  rv_actor :: string
  rv_reason :: string
  rv_restart :: bool
  rv_rules :: bool

record deploy_io =
  dp_configPath :: string
  dp_stateDir :: string
  dp_now :: gotime
  dp_id :: string
  dp_encode :: "revision \<Rightarrow> string"
  dp_decode :: "string \<Rightarrow> revision option"
  dp_normalize :: "string \<Rightarrow> go_error + string"
  dp_rd :: config_reader
  dp_marshal :: "config \<Rightarrow> string"
  dp_ruleJSON :: "rule_file \<Rightarrow> string"
  dp_runtime :: bool
  dp_text :: "go_error \<Rightarrow> string"

definition revisionsDir :: "deploy_io \<Rightarrow> string" where
  "revisionsDir io = dp_stateDir io @ ''/revisions''"

definition guiRulesPath :: "deploy_io \<Rightarrow> string" where
  "guiRulesPath io = dp_stateDir io @ ''/rules/gui-rules.json''"

definition revisionDir :: "deploy_io \<Rightarrow> string \<Rightarrow> string" where
  "revisionDir io rid = (if rid = ''.'' then revisionsDir io else revisionsDir io @ ''/'' @ rid)"

definition updateRevisionMetadata :: "deploy_io \<Rightarrow> revision \<Rightarrow> world \<Rightarrow> world \<times> go_error option" where
  "updateRevisionMetadata io rv w = writeAtomic (revisionDir io (rv_id rv) @ ''/metadata.json'') (dp_encode io rv) w"

definition validArtifactID :: "string \<Rightarrow> bool" where
  "validArtifactID v =
     (v \<noteq> [] \<and> length v \<le> 128 \<and> \<not> Contains v ''..''
      \<and> list_all (\<lambda>c. is_lower c \<or> is_upper c \<or> is_digit c \<or> c \<in> set ''-_.'') v)"

text \<open>Directories whose metadata cannot be read or decoded are skipped; the newest comes first.\<close>

fun read_revisions :: "deploy_io \<Rightarrow> string list \<Rightarrow> world \<Rightarrow> world \<times> revision list" where
  "read_revisions io [] w = (w, [])"
| "read_revisions io (d # ds) w =
     (case ReadFile (revisionDir io d @ ''/metadata.json'') w of (w1, r) \<Rightarrow>
      (case read_revisions io ds w1 of (w2, rs) \<Rightarrow>
        (w2, (case r of
            Inl _ \<Rightarrow> rs
          | Inr data \<Rightarrow> (case dp_decode io data of
              Some rv \<Rightarrow> if validArtifactID (rv_id rv) then rv # rs else rs
            | None \<Rightarrow> rs)))))"

definition listRevisions :: "deploy_io \<Rightarrow> world \<Rightarrow> world \<times> (go_error + revision list)" where
  "listRevisions io w =
     (case meet w of
        (w1, Some e) \<Rightarrow> (w1, if e = ErrNotExist then Inr [] else Inl e)
      | (w1, None) \<Rightarrow>
          (case read_revisions io (subdirs (revisionsDir io) w1) w1 of (w2, rs) \<Rightarrow>
             (w2, Inr (sort_key (\<lambda>rv. - rv_created rv) rs))))"

definition pruneRevisions :: "deploy_io \<Rightarrow> nat \<Rightarrow> world \<Rightarrow> world" where
  "pruneRevisions io keep w =
     (case listRevisions io w of
        (w1, Inl _) \<Rightarrow> w1
      | (w1, Inr rs) \<Rightarrow> foldl (\<lambda>w rv. fst (RemoveAll (revisionDir io (rv_id rv)) w)) w1 (drop keep rs))"

definition createRevisionLocked :: "deploy_io \<Rightarrow> string \<Rightarrow> string option \<Rightarrow> string \<Rightarrow> string \<Rightarrow> world \<Rightarrow> world \<times> (go_error + revision)" where
  "createRevisionLocked io configData rules actor reason w =
     (let dir = revisionDir io (dp_id io);
          rv = \<lparr>rv_id = dp_id io, rv_created = dp_now io, rv_actor = actor, rv_reason = reason, rv_restart = False, rv_rules = (rules \<noteq> None)\<rparr> in
      case writeAtomic (dir @ ''/config.json'') configData w of
        (w1, Some e) \<Rightarrow> (w1, Inl e)
      | (w1, None) \<Rightarrow>
          (case (case rules of Some d \<Rightarrow> writeAtomic (dir @ ''/rules.json'') d w1
                             | None \<Rightarrow> writeAtomic (dir @ ''/rules.absent'') (''absent'' @ [CHR 0x0A]) w1) of
             (w2, Some e) \<Rightarrow> (w2, Inl e)
           | (w2, None) \<Rightarrow>
               (case updateRevisionMetadata io rv w2 of
                  (w3, Some e) \<Rightarrow> (w3, Inl e)
                | (w3, None) \<Rightarrow> (pruneRevisions io 50 w3, Inr rv))))"

subsection \<open>Applying\<close>

definition restartRequired :: "deploy_io \<Rightarrow> go_error \<Rightarrow> bool" where
  "restartRequired io e =
     (let v = ToLower (cd_lib (dp_rd io)) (dp_text io e) in
      Contains v ''require a service restart'' \<or> Contains v ''listener'' \<and> Contains v ''restart'')"

definition restore_files :: "deploy_io \<Rightarrow> string \<Rightarrow> string option \<Rightarrow> world \<Rightarrow> world \<times> go_error option" where
  "restore_files io oldConfig oldRules w =
     (case writeAtomic (dp_configPath io) oldConfig w of (w1, e1) \<Rightarrow>
      (case restoreOptional (guiRulesPath io) oldRules w1 of (w2, e2) \<Rightarrow> (w2, join_err e1 e2)))"

definition change_rules :: "deploy_io \<Rightarrow> string option \<Rightarrow> world \<Rightarrow> world \<times> go_error option" where
  "change_rules io rules w =
     (case rules of
        None \<Rightarrow> (w, None)
      | Some d \<Rightarrow>
          if d = [] then (case Remove (guiRulesPath io) w of
              (w1, Some e) \<Rightarrow> (w1, if e = ErrNotExist then None else Some e)
            | (w1, None) \<Rightarrow> (w1, None))
          else (case validateRuleBytes (dp_rd io) d w of
              (w1, Some e) \<Rightarrow> (w1, Some e)
            | (w1, None) \<Rightarrow> writeAtomic (guiRulesPath io) d w1))"

text \<open>The reload at the end, with the rollback when it fails.\<close>

definition reload_or_rollback :: "deploy_io \<Rightarrow> string \<Rightarrow> string option \<Rightarrow> revision \<Rightarrow> world \<Rightarrow> world \<times> (go_error + revision \<times> bool)" where
  "reload_or_rollback io oldConfig oldRules rv w =
     (if \<not> dp_runtime io then (w, Inr (rv, True))
      else case call_reload w of
        (w1, None) \<Rightarrow> (w1, Inr (rv, False))
      | (w1, Some e) \<Rightarrow>
          if restartRequired io e
          then (fst (updateRevisionMetadata io (rv\<lparr>rv_restart := True\<rparr>) w1), Inr (rv\<lparr>rv_restart := True\<rparr>, True))
          else (case restore_files io oldConfig oldRules w1 of
              (w2, Some e2) \<Rightarrow> (w2, Inl (Wrapped ''reload failed: %v; automatic rollback failed: %w'' [] [e, e2]))
            | (w2, None) \<Rightarrow>
                (case call_reload w2 of
                   (w3, Some e3) \<Rightarrow> (w3, Inl (Wrapped ''reload failed: %v; automatic rollback failed: %w'' [] [e, e3]))
                 | (w3, None) \<Rightarrow> (w3, Inl (Wrapped ''reload failed and changes were rolled back: %w'' [] [e])))))"

definition install_config :: "deploy_io \<Rightarrow> string \<Rightarrow> string \<Rightarrow> string option \<Rightarrow> revision \<Rightarrow> world \<Rightarrow> world \<times> (go_error + revision \<times> bool)" where
  "install_config io configData oldConfig oldRules rv w =
     (case writeAtomic (dp_configPath io) configData w of
        (w1, Some e) \<Rightarrow> (fst (restore_files io oldConfig oldRules w1), Inl e)
      | (w1, None) \<Rightarrow>
          (case Validate_file (dp_rd io) (dp_configPath io) w1 of
             (w2, Inl e) \<Rightarrow>
               (case restore_files io oldConfig oldRules w2 of
                  (w3, Some e2) \<Rightarrow> (w3, Inl (Wrapped ''candidate invalid: %v; rollback failed: %w'' [] [e, e2]))
                | (w3, None) \<Rightarrow> (w3, Inl (Wrapped ''candidate invalid and was rolled back: %w'' [] [e])))
           | (w2, Inr _) \<Rightarrow> reload_or_rollback io oldConfig oldRules rv w2))"

text \<open>\<open>rules\<close>: \<open>None\<close> keeps the rule file, an empty text removes it.\<close>

definition applyBundleLocked :: "deploy_io \<Rightarrow> string \<Rightarrow> string option \<Rightarrow> string \<Rightarrow> string \<Rightarrow> world \<Rightarrow> world \<times> (go_error + revision \<times> bool)" where
  "applyBundleLocked io configData rules actor reason w =
     (case ReadFile (dp_configPath io) w of
        (w1, Inl e) \<Rightarrow> (w1, Inl (Wrapped ''read active configuration: %w'' [] [e]))
      | (w1, Inr currentConfig) \<Rightarrow>
          (case readOptional (guiRulesPath io) w1 of
             (w2, Inl e) \<Rightarrow> (w2, Inl e)
           | (w2, Inr currentRules) \<Rightarrow>
               (case createRevisionLocked io currentConfig currentRules actor reason w2 of
                  (w3, Inl e) \<Rightarrow> (w3, Inl e)
                | (w3, Inr rv) \<Rightarrow>
                    (case change_rules io rules w3 of
                       (w4, Some e) \<Rightarrow> (w4, Inl e)
                     | (w4, None) \<Rightarrow> install_config io configData currentConfig currentRules rv w4))))"

definition maxConfigBytes :: int where "maxConfigBytes = 4194304"

definition normalizeJSON :: "deploy_io \<Rightarrow> string \<Rightarrow> int \<Rightarrow> go_error + string" where
  "normalizeJSON io data limit =
     (if data = [] then Inl (Errorf ''JSON document is empty'' [])
      else if limit < int (length data) then Inl (Errorf ''JSON document exceeds %d bytes'' [Itoa limit])
      else dp_normalize io data)"

text \<open>The candidate is validated as a temporary file beside the configuration.\<close>

definition validateConfigBytes :: "deploy_io \<Rightarrow> string \<Rightarrow> world \<Rightarrow> world \<times> (go_error + validation_result \<times> string)" where
  "validateConfigBytes io data w =
     (case normalizeJSON io data maxConfigBytes of
        Inl e \<Rightarrow> (w, Inl e)
      | Inr pretty \<Rightarrow>
          (case meet w of
             (w1, Some e) \<Rightarrow> (w1, Inl e)
           | (w1, None) \<Rightarrow>
               (w1, case validate_bytes (dp_rd io) (dp_configPath io) pretty w1 of Inl e \<Rightarrow> Inl e | Inr res \<Rightarrow> Inr (res, pretty))))"

definition applyConfigBytes :: "deploy_io \<Rightarrow> string \<Rightarrow> string \<Rightarrow> string \<Rightarrow> world \<Rightarrow> world \<times> (go_error + revision \<times> bool \<times> validation_result)" where
  "applyConfigBytes io data actor reason w =
     (case validateConfigBytes io data w of
        (w1, Inl e) \<Rightarrow> (w1, Inl e)
      | (w1, Inr (res, pretty)) \<Rightarrow>
          (case applyBundleLocked io pretty None actor reason w1 of
             (w2, Inl e) \<Rightarrow> (w2, Inl e)
           | (w2, Inr (rv, restart)) \<Rightarrow> (w2, Inr (rv, restart, res))))"

text \<open>Restoring a revision: \<open>Inl\<close> holds the status and the text of the answer.\<close>

definition read_revision :: "deploy_io \<Rightarrow> string \<Rightarrow> world \<Rightarrow> world \<times> (int \<times> go_error + string \<times> string)" where
  "read_revision io rid w =
     (if \<not> validArtifactID rid then (w, Inl (400, Errorf ''invalid revision ID'' []))
      else case ReadFile (revisionDir io rid @ ''/config.json'') w of
        (w1, Inl e) \<Rightarrow> (w1, Inl (if e = ErrNotExist then (404, Errorf ''revision not found'' []) else (500, e)))
      | (w1, Inr configData) \<Rightarrow>
          (case readOptional (revisionDir io rid @ ''/rules.json'') w1 of
             (w2, Inl e) \<Rightarrow> (w2, Inl (500, e))
           | (w2, Inr rules) \<Rightarrow> (w2, Inr (configData, case rules of Some d \<Rightarrow> d | None \<Rightarrow> []))))"

definition restoreRevision :: "deploy_io \<Rightarrow> string \<Rightarrow> string \<Rightarrow> world \<Rightarrow> world \<times> (int \<times> go_error + revision \<times> bool)" where
  "restoreRevision io rid actor w =
     (case read_revision io rid w of
        (w1, Inl x) \<Rightarrow> (w1, Inl x)
      | (w1, Inr (configData, rules)) \<Rightarrow>
          (case applyBundleLocked io configData (Some rules) actor (''Restore revision '' @ rid) w1 of
             (w2, Inl e) \<Rightarrow> (w2, Inl (400, e))
           | (w2, Inr x) \<Rightarrow> (w2, Inr x)))"

subsection \<open>What the revision store leaves alone\<close>

abbreviation tidy :: "deploy_io \<Rightarrow> world \<Rightarrow> world \<Rightarrow> bool" where
  "tidy io \<equiv> spares (revisionsDir io)"

lemma prefix_revisionDir: "prefix (revisionsDir io) (revisionDir io rid @ x)"
  by (simp add: revisionDir_def)

lemma writeAtomic_tidy:
  assumes "writeAtomic (revisionDir io rid @ x) d w = (w1, f)"
  shows "tidy io w w1"
  by (rule writeAtomic_spares [OF assms prefix_revisionDir])

lemma RemoveAll_tidy:
  assumes "RemoveAll (revisionDir io rid) w = (w1, f)"
  shows "tidy io w w1"
  using RemoveAll_spares [OF assms] prefix_revisionDir [of io rid "[]"] by simp

lemma read_revisions_tidy: "read_revisions io ds w = (w1, rs) \<Longrightarrow> tidy io w w1"
proof (induction ds arbitrary: w rs)
  case (Cons d ds)
  obtain w' r where m: "ReadFile (revisionDir io d @ ''/metadata.json'') w = (w', r)" by (rule prod.exhaust)
  obtain w2 rs' where n: "read_revisions io ds w' = (w2, rs')" by (rule prod.exhaust)
  have w: "w2 = w1" using Cons.prems m n by simp
  show ?case by (rule spares_trans [OF ReadFile_spares [OF m] Cons.IH [OF n [unfolded w]]])
qed simp

lemma listRevisions_tidy:
  assumes "listRevisions io w = (w1, r)"
  shows "tidy io w w1"
proof -
  obtain w' g where m: "meet w = (w', g)" by (rule prod.exhaust)
  obtain w2 rs where n: "read_revisions io (subdirs (revisionsDir io) w') w' = (w2, rs)" by (rule prod.exhaust)
  have "tidy io w w'" "tidy io w w2"
    using meet_spares [OF m] spares_trans [OF meet_spares [OF m] read_revisions_tidy [OF n]] by blast+
  then show ?thesis using assms m n by (cases g) (auto simp: listRevisions_def)
qed

lemma prune_fold_tidy: "tidy io w (foldl (\<lambda>w rv. fst (RemoveAll (revisionDir io (rv_id rv)) w)) w rs)"
proof (induction rs arbitrary: w)
  case (Cons rv rs)
  obtain w' g where m: "RemoveAll (revisionDir io (rv_id rv)) w = (w', g)" by (rule prod.exhaust)
  show ?case using spares_trans [OF RemoveAll_tidy [OF m] Cons.IH] m by simp
qed simp

lemma pruneRevisions_tidy: "tidy io w (pruneRevisions io keep w)"
proof -
  obtain w' g where m: "listRevisions io w = (w', g)" by (rule prod.exhaust)
  show ?thesis using m listRevisions_tidy [OF m] spares_trans [OF _ prune_fold_tidy]
    by (cases g) (auto simp: pruneRevisions_def)
qed

lemma createRevisionLocked_tidy:
  assumes "createRevisionLocked io c rules actor reason w = (w1, r)"
  shows "tidy io w w1"
proof -
  let ?d = "revisionDir io (dp_id io)"
  obtain w2 f2 where 2: "writeAtomic (?d @ ''/config.json'') c w = (w2, f2)" by (rule prod.exhaust)
  obtain w3 f3 where 3: "(case rules of Some d \<Rightarrow> writeAtomic (?d @ ''/rules.json'') d w2
      | None \<Rightarrow> writeAtomic (?d @ ''/rules.absent'') (''absent'' @ [CHR 0x0A]) w2) = (w3, f3)" by (rule prod.exhaust)
  have t3: "tidy io w2 w3" using 3 by (auto intro: writeAtomic_tidy split: option.splits)
  let ?rv = "\<lparr>rv_id = dp_id io, rv_created = dp_now io, rv_actor = actor, rv_reason = reason, rv_restart = False, rv_rules = (rules \<noteq> None)\<rparr>"
  obtain w4 f4 where 4: "updateRevisionMetadata io ?rv w3 = (w4, f4)" by (rule prod.exhaust)
  have t4: "tidy io w3 w4" using 4 unfolding updateRevisionMetadata_def by (rule writeAtomic_tidy)
  have "w1 = w2 \<or> w1 = w3 \<or> w1 = w4 \<or> w1 = pruneRevisions io 50 w4"
    using assms 2 3 4 by (auto simp: createRevisionLocked_def Let_def split: option.splits)
  then show ?thesis using writeAtomic_tidy [OF 2] t3 t4 pruneRevisions_tidy [of io w4 50] spares_trans by metis
qed


subsection \<open>All or nothing\<close>

text \<open>The configuration file is neither the rule file nor inside the revision store.\<close>

definition separate :: "deploy_io \<Rightarrow> bool" where
  "separate io \<longleftrightarrow> dp_configPath io \<noteq> guiRulesPath io \<and> \<not> prefix (revisionsDir io) (dp_configPath io)"

definition view :: "deploy_io \<Rightarrow> world \<Rightarrow> string option \<times> string option" where
  "view io w = (content (dp_configPath io) w, content (guiRulesPath io) w)"

definition running_view :: "deploy_io \<Rightarrow> world \<Rightarrow> string option \<times> string option" where
  "running_view io w = (map_of (wo_running w) (dp_configPath io), map_of (wo_running w) (guiRulesPath io))"

definition requested :: "string option \<Rightarrow> string option \<Rightarrow> string option" where
  "requested rules old = (case rules of None \<Rightarrow> old | Some d \<Rightarrow> if d = [] then None else Some d)"

definition rollback_failed :: "go_error \<Rightarrow> bool" where
  "rollback_failed e =
     (case e of Wrapped msg _ _ \<Rightarrow> msg = ''candidate invalid: %v; rollback failed: %w'' \<or> msg = ''reload failed: %v; automatic rollback failed: %w''
      | _ \<Rightarrow> False)"

lemma rules_outside: "\<not> prefix (revisionsDir io) (guiRulesPath io)"
  by (simp add: revisionsDir_def guiRulesPath_def)

lemma tidy_view: "separate io \<Longrightarrow> tidy io w w1 \<Longrightarrow> view io w1 = view io w \<and> running_view io w1 = running_view io w"
  using rules_outside [of io] by (simp add: spares_def separate_def view_def running_view_def)

lemma synced_view: "wo_running w = wo_files w \<Longrightarrow> running_view io w = view io w"
  by (simp add: running_view_def view_def content_def)

lemma restore_files_step:
  assumes "restore_files io c r w = (w1, f)" "one_fault w" "separate io"
  shows "wo_running w1 = wo_running w \<and> (f = None \<longrightarrow> view io w1 = (Some c, r)) \<and> (f = None \<longrightarrow> one_fault w1) \<and> (calm w \<longrightarrow> f = None \<and> calm w1)"
proof -
  obtain w2 f2 where 2: "writeAtomic (dp_configPath io) c w = (w2, f2)" by (rule prod.exhaust)
  obtain w3 f3 where 3: "restoreOptional (guiRulesPath io) r w2 = (w3, f3)" by (rule prod.exhaust)
  have e: "w1 = w3" "f = join_err f2 f3" using assms(1) 2 3 by (simp_all add: restore_files_def)
  note s2 = writeAtomic_step [OF 2]
  have o2: "one_fault w2" "calm w \<longrightarrow> calm w2 \<and> f2 = None" using budget_next(1,2) [OF s2 [THEN conjunct2, THEN conjunct1]] assms(2) by blast+
  note s3 = restoreOptional_step [OF 3 o2(1)]
  have o3: "one_fault w3" "calm w2 \<longrightarrow> calm w3 \<and> f3 = None" using budget_next(1,2) [OF s3 [THEN conjunct2, THEN conjunct1]] o2(1) by blast+
  have n: "f = None \<longleftrightarrow> f2 = None \<and> f3 = None" unfolding e join_err_def by (auto split: option.splits)
  have "view io w3 = (Some c, r)" if "f = None"
    using that n s2 [of "dp_configPath io"] s3 [of "dp_configPath io"] s3 [of "guiRulesPath io"] assms(3) by (simp add: view_def separate_def)
  moreover have "wo_running w3 = wo_running w" using s2 s3 by simp
  moreover have "calm w \<longrightarrow> f = None \<and> calm w3" using n o2 o3 by blast
  ultimately show ?thesis using e(1) o3(1) by blast
qed

lemma change_rules_step:
  assumes "change_rules io rules w = (w1, f)" "one_fault w" "separate io"
  shows "running_view io w1 = running_view io w \<and> one_fault w1 \<and> (calm w \<longrightarrow> calm w1)
    \<and> view io w1 = (fst (view io w), if f = None then requested rules (snd (view io w)) else snd (view io w))"
proof (cases rules)
  case None
  then show ?thesis using assms by (auto simp: change_rules_def requested_def)
next
  case (Some d)
  show ?thesis
  proof (cases "d = []")
    case True
    then have "restoreOptional (guiRulesPath io) None w = (w1, f)" using assms Some by (simp add: change_rules_def restoreOptional_def)
    from restoreOptional_step [OF this assms(2)] show ?thesis using budget_one [of w f w1] True Some assms
      by (auto simp: view_def running_view_def requested_def separate_def)
  next
    case False
    show ?thesis
    proof -
      obtain w2 g where 2: "validateRuleBytes (dp_rd io) d w = (w2, g)" by (rule prod.exhaust)
      note q = validateRuleBytes_quiet [OF 2]
      have v2: "view io w2 = view io w" "running_view io w2 = running_view io w" "one_fault w2" "calm w \<longrightarrow> calm w2"
        using q assms(2) by (simp_all add: quiet_def view_def running_view_def content_def)
      show ?thesis
      proof (cases g)
        case None
        then have "writeAtomic (guiRulesPath io) d w2 = (w1, f)" using assms Some False 2 by (simp add: change_rules_def)
        from writeAtomic_step [OF this] show ?thesis unfolding v2(1,2) [symmetric] using budget_one [of w2 f w1] False Some assms(3) v2(3,4)
          by (auto simp: view_def running_view_def requested_def separate_def)
      next
        case e: (Some e)
        then have "w1 = w2" "f = Some e" using assms(1) Some False 2 by (simp_all add: change_rules_def)
        then show ?thesis using v2 by (simp add: prod_eq_iff)
      qed
    qed
  qed
qed

text \<open>What a transaction leaves: on failure the old files, with the old or the restored files running.\<close>

definition undone :: "deploy_io \<Rightarrow> world \<Rightarrow> world \<Rightarrow> bool" where
  "undone io w w1 \<longleftrightarrow> view io w1 = view io w \<and> (running_view io w1 = running_view io w \<or> running_view io w1 = view io w)"

lemma reload_step:
  assumes "reload_or_rollback io c r rv w = (w1, res)" "one_fault w" "separate io"
  shows "case res of Inr (_, restart) \<Rightarrow> view io w1 = view io w \<and> (\<not> restart \<longrightarrow> running_view io w1 = view io w) \<and> (calm w \<longrightarrow> calm w1)
    | Inl e \<Rightarrow> \<not> calm w \<and> view io w1 = (Some c, r) \<and> running_view io w1 = (Some c, r)"
proof (cases "dp_runtime io")
  case False
  then show ?thesis using assms by (auto simp: reload_or_rollback_def)
next
  case True
  obtain w2 f where c: "call_reload w = (w2, f)" by (rule prod.exhaust)
  note s = call_reload_step [OF c]
  show ?thesis
  proof (cases f)
    case None
    then have "w1 = w2" "res = Inr (rv, False)" using assms(1) c True by (simp_all add: reload_or_rollback_def)
    then show ?thesis using s None by (auto simp: view_def running_view_def content_def budget_def)
  next
    case (Some e)
    have q: "calm w2" "\<not> calm w" using budget_next(3) [OF s [THEN conjunct2, THEN conjunct2, unfolded Some]] assms(2) by blast+
    have v2: "view io w2 = view io w" using s by (simp add: view_def content_def)
    show ?thesis
    proof (cases "restartRequired io e")
      case t: True
      obtain w3 g where u: "updateRevisionMetadata io (rv\<lparr>rv_restart := True\<rparr>) w2 = (w3, g)" by (rule prod.exhaust)
      have "tidy io w2 w3" using u unfolding updateRevisionMetadata_def by (rule writeAtomic_tidy)
      then show ?thesis using assms c True Some t u v2 q tidy_view [OF assms(3), of w2 w3]
        by (auto simp: reload_or_rollback_def)
    next
      case n: False
      obtain w3 g where u: "restore_files io c r w2 = (w3, g)" by (rule prod.exhaust)
      note t = restore_files_step [OF u calm_one [OF q(1)] assms(3)]
      have g: "g = None" "calm w3" "view io w3 = (Some c, r)" using t q by simp_all
      obtain w4 h where k: "call_reload w3 = (w4, h)" by (rule prod.exhaust)
      have h: "h = None" "wo_files w4 = wo_files w3" "wo_running w4 = wo_files w4"
        using call_reload_step [OF k] g(2) by (auto simp: budget_def)
      have "view io w4 = (Some c, r)" using g(3) h(2) by (simp add: view_def content_def)
      moreover have "w1 = w4" "\<exists>x. res = Inl x" using assms(1) c True Some n u g k h by (auto simp add: reload_or_rollback_def)
      ultimately show ?thesis using synced_view [OF h(3), of io] q(2) by auto
    qed
  qed
qed

lemma install_step:
  assumes "install_config io d c r rv w = (w1, res)" "one_fault w" "separate io"
  shows "case res of Inr (_, restart) \<Rightarrow> view io w1 = (Some d, snd (view io w)) \<and> (\<not> restart \<longrightarrow> running_view io w1 = view io w1) \<and> (calm w \<longrightarrow> calm w1)
    | Inl e \<Rightarrow> (\<not> calm w \<and> rollback_failed e) \<or> (view io w1 = (Some c, r) \<and> (running_view io w1 = running_view io w \<or> running_view io w1 = (Some c, r)))"
proof -
  obtain w2 f where 2: "writeAtomic (dp_configPath io) d w = (w2, f)" by (rule prod.exhaust)
  note s = writeAtomic_step [OF 2]
  have o2: "one_fault w2" "calm w \<longrightarrow> calm w2 \<and> f = None" using budget_next(1,2) [OF s [THEN conjunct2, THEN conjunct1]] assms(2) by blast+
  have r2: "running_view io w2 = running_view io w" using s by (simp add: running_view_def)
  obtain w3 g where 3: "restore_files io c r w2 = (w3, g)" by (rule prod.exhaust)
  note t = restore_files_step [OF 3 o2(1) assms(3)]
  have r3: "running_view io w3 = running_view io w" using t r2 by (simp add: running_view_def)
  show ?thesis
  proof (cases f)
    case (Some e)
    then have "calm w2" using budget_next(3) [OF s [THEN conjunct2, THEN conjunct1, unfolded Some]] assms(2) by blast
    then have "view io w3 = (Some c, r)" using t by blast
    moreover have "w1 = w3" "res = Inl e" using assms(1) 2 3 Some by (simp_all add: install_config_def)
    ultimately show ?thesis using r3 by simp
  next
    case None
    have v2: "view io w2 = (Some d, snd (view io w))"
      using None s [of "dp_configPath io"] s [of "guiRulesPath io"] assms(3) not_sym [of "dp_configPath io" "guiRulesPath io"]
      by (simp add: view_def separate_def)
    obtain w4 v where 4: "Validate_file (dp_rd io) (dp_configPath io) w2 = (w4, v)" by (rule prod.exhaust)
    have q4: "view io w4 = view io w2" "running_view io w4 = running_view io w" "one_fault w4" "calm w \<longrightarrow> calm w4"
      using Validate_file_quiet [OF 4] o2 r2 by (simp_all add: quiet_def view_def running_view_def content_def)
    show ?thesis
    proof (cases v)
      case (Inl e)
      obtain w5 h where 5: "restore_files io c r w4 = (w5, h)" by (rule prod.exhaust)
      note t5 = restore_files_step [OF 5 q4(3) assms(3)]
      have k: "h = None \<longrightarrow> view io w5 = (Some c, r)" "h \<noteq> None \<longrightarrow> \<not> calm w" using t5 q4(4) by blast+
      have "running_view io w5 = running_view io w" using t5 q4(2) by (simp add: running_view_def)
      then show ?thesis using k assms(1) 2 4 5 None Inl
        by (cases h) (auto simp: install_config_def rollback_failed_def)
    next
      case (Inr x)
      then have "reload_or_rollback io c r rv w4 = (w1, res)" using assms(1) 2 4 None by (simp add: install_config_def)
      note z = reload_step [OF this q4(3) assms(3), unfolded q4(1) v2]
      show ?thesis
      proof (cases res)
        case (Inl e)
        then show ?thesis using z by simp
      next
        case (Inr y)
        obtain rv' b where y: "y = (rv', b)" by (rule prod.exhaust)
        show ?thesis using z q4(4) unfolding Inr y by simp
      qed
    qed
  qed
qed


lemma apply_opening:
  assumes "applyBundleLocked io d rules actor reason w = (w1, res)" "one_fault w"
  shows "(\<exists>e. res = Inl e \<and> tidy io w w1) \<or>
    (\<exists>c r rv w3 w4. view io w = (Some c, r) \<and> tidy io w w3 \<and> wo_files w3 = wo_files w
       \<and> createRevisionLocked io c r actor reason w3 = (w4, Inr rv)
       \<and> (case change_rules io rules w4 of (w5, Some e) \<Rightarrow> (w5, Inl e) | (w5, None) \<Rightarrow> install_config io d c r rv w5) = (w1, res))"
proof -
  obtain w2 r2 where 2: "ReadFile (dp_configPath io) w = (w2, r2)" by (rule prod.exhaust)
  note s2 = ReadFile_step [OF 2 assms(2)]
  have t2: "tidy io w w2" by (rule ReadFile_spares [OF 2])
  obtain w3 r3 where 3: "readOptional (guiRulesPath io) w2 = (w3, r3)" by (rule prod.exhaust)
  have "one_fault w2" using s2 by blast
  note s3 = readOptional_step [OF 3 this]
  have t3: "tidy io w w3" using t2 s3 by (auto simp: spares_def content_def)
  show ?thesis
  proof (cases "(\<exists>e. r2 = Inl e) \<or> (\<exists>e. r3 = Inl e)")
    case True
    then show ?thesis using assms(1) 2 3 t2 t3 by (cases r2) (auto simp: applyBundleLocked_def)
  next
    case False
    then obtain c r where r: "r2 = Inr c" "r3 = Inr r" by (cases r2; cases r3) auto
    have v: "view io w = (Some c, r)" using s2 s3 r by (simp add: view_def content_def)
    have f: "wo_files w3 = wo_files w" using s2 s3 by simp
    obtain w4 r4 where 4: "createRevisionLocked io c r actor reason w3 = (w4, r4)" by (rule prod.exhaust)
    show ?thesis
    proof (cases r4)
      case (Inl e)
      then show ?thesis using assms(1) 2 3 4 r spares_trans [OF t3 createRevisionLocked_tidy [OF 4]]
        by (auto simp: applyBundleLocked_def)
    next
      case (Inr rv)
      have "(case change_rules io rules w4 of (w5, Some e) \<Rightarrow> (w5, Inl e) | (w5, None) \<Rightarrow> install_config io d c r rv w5) = (w1, res)"
        using assms(1) 2 3 4 r Inr by (simp add: applyBundleLocked_def)
      then show ?thesis using v t3 f 4 [unfolded Inr] by blast
    qed
  qed
qed

lemma apply_step:
  assumes "applyBundleLocked io d rules actor reason w = (w1, res)" "one_fault w" "separate io"
  shows "case res of
      Inr (_, restart) \<Rightarrow> view io w1 = (Some d, requested rules (snd (view io w))) \<and> (\<not> restart \<longrightarrow> running_view io w1 = view io w1)
        \<and> (calm w \<longrightarrow> calm w1)
    | Inl e \<Rightarrow> (\<not> calm w \<and> rollback_failed e) \<or> undone io w w1"
  using apply_opening [OF assms(1,2)]
proof (elim disjE exE conjE)
  fix e assume "res = Inl e" "tidy io w w1"
  then show ?thesis using tidy_view [OF assms(3)] by (simp add: undone_def)
next
  fix c r rv w3 w4
  assume v: "view io w = (Some c, r)" and t3: "tidy io w w3" and 4: "createRevisionLocked io c r actor reason w3 = (w4, Inr rv)"
    and rest: "(case change_rules io rules w4 of (w5, Some e) \<Rightarrow> (w5, Inl e) | (w5, None) \<Rightarrow> install_config io d c r rv w5) = (w1, res)"
  note t4 = spares_trans [OF t3 createRevisionLocked_tidy [OF 4]]
  have v4: "view io w4 = (Some c, r)" "running_view io w4 = running_view io w" using tidy_view [OF assms(3) t4] v by simp_all
  have o4: "one_fault w4" "calm w \<longrightarrow> calm w4" using t4 assms(2) by (simp_all add: spares_def)
  obtain w5 f5 where 5: "change_rules io rules w4 = (w5, f5)" by (rule prod.exhaust)
  note s5 = change_rules_step [OF 5 o4(1) assms(3), unfolded v4 fst_conv snd_conv]
  show ?thesis
  proof (cases f5)
    case (Some e)
    then show ?thesis using rest 5 s5 v by (auto simp: undone_def)
  next
    case None
    then have "install_config io d c r rv w5 = (w1, res)" using rest 5 by simp
    note z = install_step [OF this s5 [THEN conjunct2, THEN conjunct1] assms(3)]
    have y: "view io w5 = (Some c, requested rules r)" "running_view io w5 = running_view io w" "calm w \<longrightarrow> calm w5"
      using s5 o4 None by simp_all
    show ?thesis
    proof (cases res)
      case (Inl e)
      then show ?thesis using z y v by (auto simp: undone_def)
    next
      case (Inr x)
      obtain rv' b where x: "x = (rv', b)" by (rule prod.exhaust)
      show ?thesis using z y v unfolding Inr x by simp
    qed
  qed
qed


subsection \<open>What a revision holds\<close>

lemma read_revisions_files:
  "read_revisions io ds w = (w1, rs) \<Longrightarrow> wo_files w1 = wo_files w \<and> list_all (\<lambda>rv. validArtifactID (rv_id rv)) rs"
proof (induction ds arbitrary: w rs)
  case (Cons d ds)
  obtain w' r where m: "ReadFile (revisionDir io d @ ''/metadata.json'') w = (w', r)" by (rule prod.exhaust)
  obtain w2 rs' where n: "read_revisions io ds w' = (w2, rs')" by (rule prod.exhaust)
  have w: "w2 = w1" using Cons.prems m n by simp
  obtain w3 f where k: "meet w = (w3, f)" by (rule prod.exhaust)
  have "wo_files w' = wo_files w" using m k meet_budget [OF k] by (cases f) (auto simp: ReadFile_def)
  then show ?case using Cons.IH [OF n [unfolded w]] Cons.prems m n by (auto split: sum.splits option.splits if_splits)
qed simp

lemma listRevisions_files:
  assumes "listRevisions io w = (w1, r)"
  shows "wo_files w1 = wo_files w \<and> (\<forall>rs. r = Inr rs \<longrightarrow> list_all (\<lambda>rv. validArtifactID (rv_id rv)) rs)"
proof -
  obtain w' g where m: "meet w = (w', g)" by (rule prod.exhaust)
  obtain w2 rs where n: "read_revisions io (subdirs (revisionsDir io) w') w' = (w2, rs)" by (rule prod.exhaust)
  show ?thesis using assms m n meet_budget [OF m] read_revisions_files [OF n]
    by (cases g) (auto simp: listRevisions_def list_all_iff split: if_splits)
qed

lemma no_slash: "validArtifactID v \<Longrightarrow> CHR ''/'' \<notin> set v"
  by (auto simp: validArtifactID_def list_all_iff is_lower_def is_upper_def is_digit_def byte_def)

lemma takeWhile_segment: "CHR ''/'' \<notin> set a \<Longrightarrow> takeWhile (\<lambda>c. c \<noteq> CHR ''/'') (a @ CHR ''/'' # y) = a"
  by (induction a) auto

lemma prefix_segment:
  assumes "CHR ''/'' \<notin> set a" "CHR ''/'' \<notin> set b"
  shows "prefix (a @ ''/'') (b @ CHR ''/'' # x) \<longleftrightarrow> a = b"
proof
  assume "prefix (a @ ''/'') (b @ CHR ''/'' # x)"
  then obtain y where "b @ CHR ''/'' # x = a @ CHR ''/'' # y" by (auto simp: prefix_def)
  then have "takeWhile (\<lambda>c. c \<noteq> CHR ''/'') (b @ CHR ''/'' # x) = takeWhile (\<lambda>c. c \<noteq> CHR ''/'') (a @ CHR ''/'' # y)" by simp
  then show "a = b" using assms by (simp add: takeWhile_segment)
qed simp

text \<open>A revision directory goes as a whole.\<close>

lemma removed_together:
  assumes "validArtifactID a" "validArtifactID b" "b \<noteq> ''.''" "CHR ''/'' \<notin> set x"
  shows "(revisionDir io b @ CHR ''/'' # x = revisionDir io a \<or> prefix (revisionDir io a @ ''/'') (revisionDir io b @ CHR ''/'' # x))
    \<longleftrightarrow> a = ''.'' \<or> a = b"
proof -
  have n: "revisionDir io b @ CHR ''/'' # x \<noteq> revisionDir io a"
  proof
    assume e: "revisionDir io b @ CHR ''/'' # x = revisionDir io a"
    show False
    proof (cases "a = ''.''")
      case True
      then show ?thesis using e assms(3) by (simp add: revisionDir_def)
    next
      case False
      then have "b @ CHR ''/'' # x = a" using e assms(3) by (simp add: revisionDir_def)
      then show ?thesis using no_slash [OF assms(1)] by auto
    qed
  qed
  show ?thesis
  proof (cases "a = ''.''")
    case True
    then show ?thesis using assms(3) by (simp add: revisionDir_def)
  next
    case False
    then show ?thesis using n assms(3) prefix_segment [OF no_slash [OF assms(1)] no_slash [OF assms(2)], of x]
      by (simp add: revisionDir_def)
  qed
qed

definition holds_revision :: "deploy_io \<Rightarrow> string \<Rightarrow> string \<Rightarrow> string option \<Rightarrow> world \<Rightarrow> bool" where
  "holds_revision io rid c r w \<longleftrightarrow> content (revisionDir io rid @ ''/config.json'') w \<noteq> None \<longrightarrow>
     content (revisionDir io rid @ ''/config.json'') w = Some c \<and> content (revisionDir io rid @ ''/rules.json'') w = r"

lemma prune_fold_holds:
  assumes "list_all (\<lambda>rv. validArtifactID (rv_id rv)) rs" "calm w" "holds_revision io b c r w" "validArtifactID b" "b \<noteq> ''.''"
  shows "holds_revision io b c r (foldl (\<lambda>w rv. fst (RemoveAll (revisionDir io (rv_id rv)) w)) w rs)"
  using assms(1-3)
proof (induction rs arbitrary: w)
  case (Cons rv rs)
  obtain w' g where m: "RemoveAll (revisionDir io (rv_id rv)) w = (w', g)" by (rule prod.exhaust)
  have c: "g = None" "calm w'" using RemoveAll_calm [OF m Cons.prems(2)] by blast+
  have "validArtifactID (rv_id rv)" using Cons.prems by simp
  note k = removed_together [OF this assms(4,5), of "''config.json''" io] removed_together [OF this assms(4,5), of "''rules.json''" io]
  have cc: "content q w' = (if lies_in (revisionDir io (rv_id rv)) q then None else content q w)" for q
    using RemoveAll_step [OF m, of q] c(1) by (cases "lies_in (revisionDir io (rv_id rv)) q") simp_all
  have l: "lies_in (revisionDir io (rv_id rv)) (revisionDir io b @ ''/config.json'') = (rv_id rv = ''.'' \<or> rv_id rv = b)"
    "lies_in (revisionDir io (rv_id rv)) (revisionDir io b @ ''/rules.json'') = (rv_id rv = ''.'' \<or> rv_id rv = b)"
    unfolding lies_in_def using k by simp_all
  have "holds_revision io b c r w'" using Cons.prems(3) unfolding holds_revision_def cc l by simp
  then show ?case using Cons.IH [of w'] Cons.prems(1) c(2) m by simp
qed simp

lemma pruneRevisions_holds:
  assumes "calm w" "holds_revision io b c r w" "validArtifactID b" "b \<noteq> ''.''"
  shows "holds_revision io b c r (pruneRevisions io keep w)"
proof -
  obtain w' g where m: "listRevisions io w = (w', g)" by (rule prod.exhaust)
  note f = listRevisions_files [OF m]
  have h: "holds_revision io b c r w'" using assms(2) f by (simp add: holds_revision_def content_def)
  have c: "calm w'" using listRevisions_tidy [OF m] assms(1) by (simp add: spares_def)
  show ?thesis
  proof (cases g)
    case (Inr rs)
    have "list_all (\<lambda>rv. validArtifactID (rv_id rv)) (drop keep rs)" using f Inr by (auto simp: list_all_iff dest: in_set_dropD)
    from prune_fold_holds [OF this c h assms(3,4)] show ?thesis using m Inr by (simp add: pruneRevisions_def)
  qed (use m h in \<open>simp add: pruneRevisions_def\<close>)
qed


lemma createRevisionLocked_holds:
  assumes "createRevisionLocked io c r actor reason w = (w1, Inr rv)" "validArtifactID (dp_id io)" "dp_id io \<noteq> ''.''"
    "content (revisionDir io (dp_id io) @ ''/rules.json'') w = None" "calm w"
  shows "rv_id rv = dp_id io \<and> holds_revision io (dp_id io) c r w1"
proof -
  let ?d = "revisionDir io (dp_id io)"
  obtain w2 f2 where 2: "writeAtomic (?d @ ''/config.json'') c w = (w2, f2)" by (rule prod.exhaust)
  obtain w3 f3 where 3: "(case r of Some d \<Rightarrow> writeAtomic (?d @ ''/rules.json'') d w2
      | None \<Rightarrow> writeAtomic (?d @ ''/rules.absent'') (''absent'' @ [CHR 0x0A]) w2) = (w3, f3)" by (rule prod.exhaust)
  obtain w4 f4 where 4: "updateRevisionMetadata io \<lparr>rv_id = dp_id io, rv_created = dp_now io, rv_actor = actor, rv_reason = reason, rv_restart = False, rv_rules = (r \<noteq> None)\<rparr> w3 = (w4, f4)"
    by (rule prod.exhaust)
  have e: "f2 = None" "f3 = None" "f4 = None" "w1 = pruneRevisions io 50 w4" "rv_id rv = dp_id io"
    using assms(1) 2 3 4 by (auto simp: createRevisionLocked_def Let_def split: option.splits)
  note s2 = writeAtomic_step [OF 2] and s4 = writeAtomic_step [OF 4 [unfolded updateRevisionMetadata_def]]
  have c3: "content (?d @ ''/config.json'') w3 = Some c" and r3: "content (?d @ ''/rules.json'') w3 = r"
    using 3 e(1,2) s2 [of "?d @ ''/config.json''"] s2 [of "?d @ ''/rules.json''"] assms(4)
      writeAtomic_step [of "?d @ ''/rules.json''" "the r" w2 w3 f3] writeAtomic_step [of "?d @ ''/rules.absent''" "''absent'' @ [CHR 0x0A]" w2 w3 f3]
    by (auto split: option.splits)
  have "holds_revision io (dp_id io) c r w4"
    using c3 r3 s4 [of "?d @ ''/config.json''"] s4 [of "?d @ ''/rules.json''"] by (simp add: holds_revision_def)
  moreover have "calm w4"
    using assms(5) calm_files_ops(4) [OF 2] calm_files_ops(4) [OF 4 [unfolded updateRevisionMetadata_def]] 3
    by (cases r) (auto dest: calm_files_ops(4))
  ultimately show ?thesis using pruneRevisions_holds assms(2,3) e(4,5) by simp
qed

text \<open>A transaction that succeeds touches the two files and the metadata of its revision, nothing else.\<close>

lemma install_frame:
  assumes "install_config io d c r rv w = (w1, Inr x)" "q \<noteq> dp_configPath io" "q \<noteq> revisionDir io (rv_id rv) @ ''/metadata.json''"
    "one_fault w"
  shows "content q w1 = content q w \<and> rv_id (fst x) = rv_id rv"
proof -
  obtain w2 f where 2: "writeAtomic (dp_configPath io) d w = (w2, f)" by (rule prod.exhaust)
  obtain w' v where v: "Validate_file (dp_rd io) (dp_configPath io) w2 = (w', v)" by (rule prod.exhaust)
  have f: "f = None" and l: "reload_or_rollback io c r rv w' = (w1, Inr x)"
    using assms(1) 2 v by (auto simp: install_config_def split: option.splits sum.splits prod.splits)
  have q2: "content q w' = content q w"
    using writeAtomic_step [OF 2, of q] assms(2) Validate_file_quiet [OF v] by (simp add: quiet_def content_def)
  obtain w3 g where 3: "call_reload w' = (w3, g)" by (rule prod.exhaust)
  have q3: "content q w3 = content q w'" using call_reload_step [OF 3] by (simp add: content_def)
  obtain w4 h where 4: "updateRevisionMetadata io (rv\<lparr>rv_restart := True\<rparr>) w3 = (w4, h)" by (rule prod.exhaust)
  have q4: "content q w4 = content q w3"
    using writeAtomic_step [OF 4 [unfolded updateRevisionMetadata_def], of q] assms(3) by simp
  have "(w1 = w' \<or> w1 = w3 \<or> w1 = w4) \<and> rv_id (fst x) = rv_id rv"
    using l 3 4 by (auto simp: reload_or_rollback_def split: option.splits if_splits prod.splits)
  then show ?thesis using q2 q3 q4 by auto
qed

lemma change_rules_frame:
  assumes "change_rules io rules w = (w1, f)" "q \<noteq> guiRulesPath io" "one_fault w"
  shows "content q w1 = content q w"
proof (cases rules)
  case (Some d)
  show ?thesis
  proof (cases "d = []")
    case True
    then have "restoreOptional (guiRulesPath io) None w = (w1, f)" using assms Some by (simp add: change_rules_def restoreOptional_def)
    from restoreOptional_step [OF this assms(3), of q] show ?thesis using assms(2) by simp
  next
    case False
    obtain w2 g where 2: "validateRuleBytes (dp_rd io) d w = (w2, g)" by (rule prod.exhaust)
    have "content q w2 = content q w" using validateRuleBytes_quiet [OF 2] by (simp add: quiet_def content_def)
    then show ?thesis using assms Some False 2 writeAtomic_step [of "guiRulesPath io" d w2 w1 f q]
      by (auto simp: change_rules_def split: option.splits)
  qed
qed (use assms in \<open>simp add: change_rules_def\<close>)

lemma apply_holds:
  assumes "applyBundleLocked io d rules actor reason w = (w1, Inr (rv, restart))" "calm w" "separate io"
    "validArtifactID (dp_id io)" "dp_id io \<noteq> ''.''" "content (revisionDir io (dp_id io) @ ''/rules.json'') w = None" "view io w = (Some c, r)"
  shows "holds_revision io (dp_id io) c r w1"
  using apply_opening [OF assms(1) calm_one [OF assms(2)]]
proof (elim disjE exE conjE)
  fix c' r' rv' w3 w4
  assume v: "view io w = (Some c', r')" and t3: "tidy io w w3" and f3: "wo_files w3 = wo_files w"
    and 4: "createRevisionLocked io c' r' actor reason w3 = (w4, Inr rv')"
    and rest: "(case change_rules io rules w4 of (w5, Some e) \<Rightarrow> (w5, Inl e) | (w5, None) \<Rightarrow> install_config io d c' r' rv' w5) = (w1, Inr (rv, restart))"
  have e: "c' = c" "r' = r" using v assms(7) by simp_all
  have k3: "calm w3" using t3 assms(2) by (simp add: spares_def)
  have "calm w4" using createRevisionLocked_tidy [OF 4] k3 by (simp add: spares_def)
  then have o4: "one_fault w4" by (rule calm_one)
  have h: "rv_id rv' = dp_id io \<and> holds_revision io (dp_id io) c r w4"
    using createRevisionLocked_holds [OF 4 assms(4,5) _ k3] f3 assms(6) e by (simp add: content_def)
  obtain w5 f5 where 5: "change_rules io rules w4 = (w5, f5)" by (rule prod.exhaust)
  have i: "install_config io d c' r' rv' w5 = (w1, Inr (rv, restart))" using rest 5 by (auto split: option.splits)
  have o5: "one_fault w5" using change_rules_step [OF 5 o4 assms(3)] by simp
  have out: "revisionDir io (dp_id io) @ CHR ''/'' # x \<noteq> guiRulesPath io" "revisionDir io (dp_id io) @ CHR ''/'' # x \<noteq> dp_configPath io" for x
    using rules_outside [of io] assms(3) prefix_revisionDir [of io "dp_id io" "CHR ''/'' # x"] by (auto simp: separate_def)
  have "content (revisionDir io (dp_id io) @ CHR ''/'' # x) w1 = content (revisionDir io (dp_id io) @ CHR ''/'' # x) w4" if "x \<noteq> ''metadata.json''" for x
    using install_frame [OF i out(2) _ o5, of x] change_rules_frame [OF 5 out(1) o4] h that by simp
  then show ?thesis using h by (simp add: holds_revision_def)
qed simp


subsection \<open>Properties\<close>

text \<open>
  C6. Applying a configuration is all or nothing. When at most one call to the file system or to the WAF
  process fails, either the new configuration and the requested rules are on disk (and running, unless a restart is
  asked for), or the two files are as before and what runs is what ran before or the restored files; only a
  rollback that itself met the fault is different, and then the error says so.
\<close>
theorem config_transaction:
  assumes "applyBundleLocked io d rules actor reason w = (w1, res)" "one_fault w" "separate io"
  shows "case res of
      Inr (_, restart) \<Rightarrow> view io w1 = (Some d, requested rules (snd (view io w))) \<and> (\<not> restart \<longrightarrow> running_view io w1 = view io w1)
    | Inl e \<Rightarrow> (\<not> calm w \<and> rollback_failed e) \<or> undone io w w1"
  using apply_step [OF assms] by (auto split: sum.splits)

text \<open>
  One request to apply: the faults its calls meet, the identifier and the time of its revision, the configuration, the rules, who
  and why. It is fair when at most one of its calls fails.
\<close>

type_synonym apply_request = "go_error option list \<times> string \<times> gotime \<times> string \<times> string option \<times> string \<times> string"

definition exec_apply :: "deploy_io \<Rightarrow> apply_request \<Rightarrow> world \<Rightarrow> world \<times> (go_error + revision \<times> bool)" where
  "exec_apply io = (\<lambda>(fs, i, t, d, rules, actor, reason) w.
     applyBundleLocked (io\<lparr>dp_id := i, dp_now := t\<rparr>) d rules actor reason (w\<lparr>wo_faults := fs\<rparr>))"

definition fair_apply :: "apply_request \<Rightarrow> bool" where
  "fair_apply r \<longleftrightarrow> length (filter (\<lambda>f. f \<noteq> None) (fst r)) \<le> 1 \<and> Some ErrNotExist \<notin> set (fst r)"

definition applied :: "apply_request \<Rightarrow> string option \<times> string option \<Rightarrow> string option \<times> string option" where
  "applied = (\<lambda>(fs, i, t, d, rules, actor, reason) (c, r). (Some d, requested rules r))"

lemma other_revision [simp]:
  "separate (io\<lparr>dp_id := i, dp_now := t\<rparr>) = separate io" "view (io\<lparr>dp_id := i, dp_now := t\<rparr>) = view io"
  "undone (io\<lparr>dp_id := i, dp_now := t\<rparr>) = undone io"
  by (simp_all add: separate_def view_def undone_def running_view_def guiRulesPath_def revisionsDir_def fun_eq_iff)

lemma exec_apply_step:
  assumes "exec_apply io r w = (w1, res)" "fair_apply r" "separate io"
  shows "case res of Inr _ \<Rightarrow> view io w1 = applied r (view io w) | Inl e \<Rightarrow> rollback_failed e \<or> view io w1 = view io w"
proof -
  obtain fs i t d rules actor reason where r: "r = (fs, i, t, d, rules, actor, reason)" by (metis prod.exhaust)
  let ?w = "w\<lparr>wo_faults := fs\<rparr>"
  have a: "applyBundleLocked (io\<lparr>dp_id := i, dp_now := t\<rparr>) d rules actor reason ?w = (w1, res)" using assms(1) by (simp add: exec_apply_def r)
  have f: "one_fault ?w" using assms(2) by (simp add: fair_apply_def one_fault_def r)
  have v: "view io ?w = view io w" by (simp add: view_def content_def)
  show ?thesis using apply_step [OF a f] assms(3) v by (cases "view io w"; cases res) (auto simp: applied_def r undone_def)
qed

interpretation deploys: transactional "exec_apply io" "view io" applied "\<lambda>_. separate io" fair_apply rollback_failed
proof
  show "view io w1 = applied r (view io w)" if "separate io" "fair_apply r" "exec_apply io r w = (w1, Inr a)" for w r w1 a
    using exec_apply_step [OF that(3,2,1)] by simp
  show "view io w1 = view io w" if "separate io" "fair_apply r" "exec_apply io r w = (w1, Inl e)" "\<not> rollback_failed e" for w r w1 e
    using exec_apply_step [OF that(3,2,1)] that(4) by simp
qed


lemma read_revision_step:
  assumes "read_revision io rid w = (w1, r)" "one_fault w"
  shows "quiet w w1 \<and> (\<forall>c d. r = Inr (c, d) \<longrightarrow> content (revisionDir io rid @ ''/config.json'') w = Some c
    \<and> d = (case content (revisionDir io rid @ ''/rules.json'') w of Some x \<Rightarrow> x | None \<Rightarrow> []))"
proof -
  obtain w2 a where 2: "ReadFile (revisionDir io rid @ ''/config.json'') w = (w2, a)" by (rule prod.exhaust)
  obtain w3 b where 3: "readOptional (revisionDir io rid @ ''/rules.json'') w2 = (w3, b)" by (rule prod.exhaust)
  have q2: "quiet w w2" by (rule ReadFile_quiet [OF 2])
  then have o2: "one_fault w2" "content q w2 = content q w" for q using assms(2) by (simp_all add: quiet_def content_def)
  have q3: "quiet w w3" by (rule quiet_trans [OF q2 readOptional_quiet [OF 3]])
  have a: "content (revisionDir io rid @ ''/config.json'') w = Some c" if "a = Inr c" for c using ReadFile_step [OF 2 assms(2)] that by blast
  have b: "content (revisionDir io rid @ ''/rules.json'') w = d" if "b = Inr d" for d using readOptional_step [OF 3 o2(1)] o2(2) that by simp
  have "w1 \<in> {w, w2, w3}" using assms(1) 2 3 by (auto simp: read_revision_def split: if_splits sum.splits)
  moreover have "quiet w w" by (simp add: quiet_def)
  moreover have "a = Inr c \<and> (\<exists>d'. b = Inr d' \<and> d = (case d' of Some x \<Rightarrow> x | None \<Rightarrow> []))" if "r = Inr (c, d)" for c d
    using assms(1) 2 3 that by (auto simp: read_revision_def split: if_splits sum.splits)
  ultimately show ?thesis using q2 q3 a b by blast
qed



definition sample_deploy :: deploy_io where
  "sample_deploy = \<lparr>dp_configPath = ''/c'', dp_stateDir = ''/s'', dp_now = 5, dp_id = ''r1'', dp_encode = (\<lambda>_. ''m''), dp_decode = (\<lambda>_. None),
     dp_normalize = Inr, dp_rd = sample_reader, dp_marshal = (\<lambda>_. ''conf''), dp_ruleJSON = (\<lambda>_. ''rules''), dp_runtime = True, dp_text = (\<lambda>_. ''down'')\<rparr>"

definition sample_world :: "go_error option list \<Rightarrow> world" where
  "sample_world fs = \<lparr>wo_files = [(''/c'', ''old''), (''/s/rules/gui-rules.json'', ''ru'')], wo_running = [], wo_faults = fs\<rparr>"

text \<open>The twelfth call, the reload, fails; and a candidate the validator refuses, with no fault.\<close>

theorem config_transaction_witness:
  "(\<exists>e w1. applyBundleLocked sample_deploy ''new'' (Some ''ru2'') [] [] (sample_world (replicate 11 None @ [Some (Errorf ''x'' [])])) = (w1, Inl e)
      \<and> \<not> rollback_failed e \<and> undone sample_deploy (sample_world (replicate 11 None @ [Some (Errorf ''x'' [])])) w1)
   \<and> (\<exists>e w1. applyBundleLocked sample_deploy ''bad'' (Some []) [] [] (sample_world []) = (w1, Inl e) \<and> undone sample_deploy (sample_world []) w1)"
proof
  let ?w = "sample_world (replicate 11 None @ [Some (Errorf ''x'' [])])"
  let ?a = "applyBundleLocked sample_deploy ''new'' (Some ''ru2'') [] [] ?w"
  have "case ?a of (_, Inl e) \<Rightarrow> \<not> rollback_failed e | _ \<Rightarrow> False" by code_simp
  then obtain w1 e where a: "?a = (w1, Inl e)" and n: "\<not> rollback_failed e" by (auto split: prod.splits sum.splits)
  have "one_fault ?w" "separate sample_deploy" by code_simp+
  from config_transaction [OF a this] show "\<exists>e w1. ?a = (w1, Inl e) \<and> \<not> rollback_failed e \<and> undone sample_deploy ?w w1" using a n by auto
next
  let ?w = "sample_world []"
  let ?a = "applyBundleLocked sample_deploy ''bad'' (Some []) [] [] ?w"
  have "case ?a of (_, Inl e) \<Rightarrow> True | _ \<Rightarrow> False" by code_simp
  then obtain w1 e where a: "?a = (w1, Inl e)" by (auto split: prod.splits sum.splits)
  have "one_fault ?w" "separate sample_deploy" "calm ?w" by code_simp+
  with config_transaction [OF a] show "\<exists>e w1. ?a = (w1, Inl e) \<and> undone sample_deploy ?w w1" using a by auto
qed



end
