(* ===== verification/Client.thy ===== *)
theory Client
  imports Service Deploy
begin

text \<open>
  The client of the WAF's admin interface (\<open>internal/control/client.go\<close>): the address it accepts, the token it reads from the
  environment file, and a call. Composed with the admin handler of \<open>Service\<close> it is the reload that the managers of the
  control plane make.
\<close>

subsection \<open>Client\<close>

record http_client =
  cl_base :: string
  cl_env :: string

definition NewHTTPRuntimeClient :: "golib \<Rightarrow> string \<Rightarrow> string \<Rightarrow> go_error + http_client" where
  "NewHTTPRuntimeClient L baseURL envFile =
     (let b = TrimRightByte CHR ''/'' (TrimSpace baseURL) in
      case url_parse L b of
        None \<Rightarrow> Inl (Errorf ''WAF admin URL must be an absolute HTTP URL'' [])
      | Some u \<Rightarrow>
          if u_scheme u \<noteq> ''http'' \<or> u_host u = [] then Inl (Errorf ''WAF admin URL must be an absolute HTTP URL'' [])
          else let host = url_hostname (u_host u) in
            if host \<noteq> ''localhost'' \<and> (case ParseIP host of None \<Rightarrow> True | Some ip \<Rightarrow> \<not> IsLoopback ip)
            then Inl (Errorf ''WAF admin URL must use a loopback host'' [])
            else Inr \<lparr>cl_base = b, cl_env = envFile\<rparr>)"

text \<open>An environment file: the first line that sets the variable decides, an empty value counts as missing.\<close>

definition trim_quotes :: "string \<Rightarrow> string" where
  "trim_quotes v = rev (dropWhile (\<lambda>c. c = CHR 0x22 \<or> c = CHR 0x27) (rev (dropWhile (\<lambda>c. c = CHR 0x22 \<or> c = CHR 0x27) v)))"

fun environment_value :: "string \<Rightarrow> string list \<Rightarrow> string option" where
  "environment_value key [] = None"
| "environment_value key (l # ls) =
     (let ln = TrimSpace l in
      if ln = [] \<or> HasPrefix ln ''#'' then environment_value key ls
      else case Cut ln CHR ''='' of (k, v, found) \<Rightarrow>
        if TrimSpace k \<noteq> key \<or> \<not> found then environment_value key ls
        else let x = trim_quotes (TrimSpace v) in if x = [] then None else Some x)"

definition readEnvironmentValue :: "string \<Rightarrow> string \<Rightarrow> world \<Rightarrow> world \<times> (go_error + string)" where
  "readEnvironmentValue path key w =
     (case ReadFile path w of
        (w1, Inl e) \<Rightarrow> (w1, Inl (Wrapped ''read CherryWAF environment: %w'' [] [e]))
      | (w1, Inr data) \<Rightarrow>
          (w1, case environment_value key (Split data CHR 0x0A) of
             Some v \<Rightarrow> Inr v
           | None \<Rightarrow> Inl (Errorf ''%s is missing'' [key])))"

definition readAdminToken :: "string \<Rightarrow> world \<Rightarrow> world \<times> (go_error + string)" where
  "readAdminToken path w = readEnvironmentValue path ''CHERRYWAF_ADMIN_TOKEN'' w"

definition ReadSetupToken :: "string \<Rightarrow> world \<Rightarrow> world \<times> (go_error + string)" where
  "ReadSetupToken path w = readEnvironmentValue path ''CHERRYWAF_SETUP_TOKEN'' w"

text \<open>The answer of the server as the client reads it: the status and the \<open>error\<close> field of the JSON body.\<close>

type_synonym answer = "int \<times> string option"

definition client_request :: "http_client \<Rightarrow> (request \<Rightarrow> 'a \<Rightarrow> 'a \<times> (go_error + answer)) \<Rightarrow> string \<Rightarrow> string \<Rightarrow> world \<Rightarrow> 'a \<Rightarrow> world \<times> 'a \<times> go_error option" where
  "client_request cl send meth path w a =
     (case readAdminToken (cl_env cl) w of
        (w1, Inl e) \<Rightarrow> (w1, a, Some e)
      | (w1, Inr token) \<Rightarrow>
          let r = \<lparr>rq_method = meth,
                rq_url = \<lparr>u_scheme = ''http'', u_user = False, u_host = [], u_path = path, u_rawpath = [], u_rawquery = [], u_forceQuery = False, u_fragment = []\<rparr>,
                rq_requestURI = path, rq_host = cl_base cl, rq_remoteAddr = [], rq_header = header_set [] ''Authorization'' (''Bearer '' @ token),
                rq_contentLength = 0, rq_transferEncoding = [], rq_tls = False, rq_body = [], rq_getBody = None\<rparr> in
          (case send r a of
             (a1, Inl e) \<Rightarrow> (w1, a1, Some e)
           | (a1, Inr (status, err)) \<Rightarrow>
               (w1, a1,
                if status < 200 \<or> 300 \<le> status
                then (case err of
                    Some msg \<Rightarrow> if msg \<noteq> [] then Some (Errorf msg []) else Some (Errorf ''WAF admin API returned HTTP %d'' [Itoa status])
                  | None \<Rightarrow> Some (Errorf ''WAF admin API returned HTTP %d'' [Itoa status]))
                else None)))"

definition client_Reload :: "http_client \<Rightarrow> (request \<Rightarrow> 'a \<Rightarrow> 'a \<times> (go_error + answer)) \<Rightarrow> world \<Rightarrow> 'a \<Rightarrow> world \<times> 'a \<times> go_error option" where
  "client_Reload cl send w a = client_request cl send ''POST'' ''/api/v1/reload'' w a"

definition client_Status :: "http_client \<Rightarrow> (request \<Rightarrow> 'a \<Rightarrow> 'a \<times> (go_error + answer)) \<Rightarrow> world \<Rightarrow> 'a \<Rightarrow> world \<times> 'a \<times> go_error option" where
  "client_Status cl send w a = client_request cl send ''GET'' ''/api/v1/status'' w a"

subsection \<open>The admin interface as the server\<close>

definition answer_of :: "(go_error \<Rightarrow> string) \<Rightarrow> admin_reply \<Rightarrow> answer" where
  "answer_of txt out =
     (case out of
        Unauthorized \<Rightarrow> (401, Some ''unauthorized'')
      | ReloadError e \<Rightarrow> (400, Some (txt e))
      | MethodNotAllowed \<Rightarrow> (405, None)
      | NotReady \<Rightarrow> (503, None)
      | _ \<Rightarrow> (200, None))"

definition admin_server :: "(go_error \<Rightarrow> string) \<Rightarrow> env \<Rightarrow> (string \<Rightarrow> string) \<Rightarrow> (int \<Rightarrow> string) \<Rightarrow> string \<Rightarrow> go_error + config
    \<Rightarrow> request \<Rightarrow> app \<Rightarrow> app \<times> (go_error + answer)" where
  "admin_server txt E getenv fmt dir conf r a =
     (case adminHandler E getenv fmt dir conf a r of (a1, out) \<Rightarrow> (a1, Inr (answer_of txt out)))"

subsection \<open>The reload\<close>

definition token_known :: "http_client \<Rightarrow> (string \<Rightarrow> string) \<Rightarrow> runtime \<Rightarrow> world \<Rightarrow> bool" where
  "token_known cl getenv rt w \<longleftrightarrow> (case content (cl_env cl) w of
      None \<Rightarrow> False
    | Some data \<Rightarrow> (case environment_value ''CHERRYWAF_ADMIN_TOKEN'' (Split data CHR 0x0A) of
        None \<Rightarrow> False
      | Some tok \<Rightarrow> TrimSpace tok \<noteq> [] \<and> TrimSpace tok = TrimSpace (TrimSpace (getenv (ad_tokenEnv (c_admin (rt_config rt)))))))"

lemma restart_message:
  "Contains (ToLower L ''listener enablement, listen addresses, and max_header_bytes require a service restart'') ''require a service restart''"
  by code_simp

lemma compatible_message:
  "compatibleForHotReload x y = Some e \<Longrightarrow>
     e = Errorf ''listener enablement, listen addresses, and max_header_bytes require a service restart'' []"
  by (auto simp: compatibleForHotReload_def Let_def split: option.splits if_splits)

lemma token_read:
  assumes "token_known cl getenv rt w" "calm w"
  obtains w1 tok where "readAdminToken (cl_env cl) w = (w1, Inr tok)" "TrimSpace tok \<noteq> []"
    "TrimSpace tok = TrimSpace (TrimSpace (getenv (ad_tokenEnv (c_admin (rt_config rt)))))"
proof -
  obtain data tok where d: "content (cl_env cl) w = Some data" "environment_value ''CHERRYWAF_ADMIN_TOKEN'' (Split data CHR 0x0A) = Some tok"
    "TrimSpace tok \<noteq> []" "TrimSpace tok = TrimSpace (TrimSpace (getenv (ad_tokenEnv (c_admin (rt_config rt)))))"
    using assms(1) by (auto simp: token_known_def split: option.splits)
  obtain w1 r where 1: "ReadFile (cl_env cl) w = (w1, r)" by (rule prod.exhaust)
  have "r = (case content (cl_env cl) w of Some d \<Rightarrow> Inr d | None \<Rightarrow> Inl ErrNotExist)"
    using ReadFile_step [OF 1 calm_one [OF assms(2)]] assms(2) by blast
  then have "r = Inr data" using d(1) by simp
  then show thesis using that d 1 by (simp add: readAdminToken_def readEnvironmentValue_def)
qed

lemma bearer_authorized:
  assumes "a_current a = Some (rt, lg)" "TrimSpace tok \<noteq> []" "TrimSpace tok = TrimSpace (TrimSpace (getenv (ad_tokenEnv (c_admin (rt_config rt)))))"
    "rq_header r = header_set [] ''Authorization'' (''Bearer '' @ tok)"
  shows "authorized getenv a r"
  using assms by (simp add: authorized_def Let_def TrimPrefix_def HasPrefix_def)


text \<open>A reload with another listen address: the service keeps running and the manager is told to ask for a restart.\<close>

definition moved_config :: config where
  "moved_config = sample_tls_config\<lparr>c_http := (c_http sample_tls_config)\<lparr>h_listen := '':8080''\<rparr>\<rparr>"

definition plain_text :: deploy_io where
  "plain_text = sample_deploy\<lparr>dp_text := (\<lambda>e. case e of Errorf m _ \<Rightarrow> m | _ \<Rightarrow> ''error'')\<rparr>"

definition token_world :: world where
  "token_world = \<lparr>wo_files = [(''/env'', ''# admin'' @ [CHR 0x0A] @ ''CHERRYWAF_ADMIN_TOKEN = secret '')], wo_running = [], wo_faults = []\<rparr>"


end
