(* ===== verification/Rules.thy ===== *)
theory Rules
  imports Deploy
begin

text \<open>
  The rules manager (\<open>internal/control/rules_manager.go\<close>): the rule file of the control centre, its entry in the
  configuration, applying new rules as one transaction with the configuration, and the preview of a single rule on a
  request made up by the user.
\<close>

subsection \<open>Applying rules\<close>

definition lists_gui_rules :: "deploy_io \<Rightarrow> config \<Rightarrow> bool" where
  "lists_gui_rules io c =
     list_ex (\<lambda>p. sameFilePath (cd_cwd (dp_rd io)) (ResolvePath c p) (guiRulesPath io)) (rules_files (c_rules c))"

definition with_gui_rules :: "deploy_io \<Rightarrow> config \<Rightarrow> config" where
  "with_gui_rules io c =
     (if lists_gui_rules io c then c
      else c\<lparr>c_rules := (c_rules c)\<lparr>rules_files := rules_files (c_rules c) @ [guiRulesPath io]\<rparr>\<rparr>)"

definition applyRuleBytes :: "deploy_io \<Rightarrow> string \<Rightarrow> string \<Rightarrow> world \<Rightarrow> world \<times> (go_error + revision \<times> bool)" where
  "applyRuleBytes io data actor w =
     (case Load (dp_rd io) (dp_configPath io) w of
        (w1, Inl e) \<Rightarrow> (w1, Inl e)
      | (w1, Inr c) \<Rightarrow> applyBundleLocked io (dp_marshal io (with_gui_rules io c)) (Some data) actor ''GUI rule update'' w1)"

text \<open>What the page shows: no file, a file that does not decode, or the rules and whether the configuration lists them.\<close>

definition rules_get :: "deploy_io \<Rightarrow> (string \<Rightarrow> rule_file option) \<Rightarrow> world \<Rightarrow> world \<times> (go_error + bool \<times> rule_file)" where
  "rules_get io unmarshal w =
     (case ReadFile (guiRulesPath io) w of
        (w1, Inl e) \<Rightarrow> (w1, if e = ErrNotExist then Inr (False, \<lparr>rf_version = RuleFileVersion, rf_rules = []\<rparr>) else Inl e)
      | (w1, Inr data) \<Rightarrow>
          (case unmarshal data of
             None \<Rightarrow> (w1, Inl (Errorf ''GUI rule file is invalid'' []))
           | Some f \<Rightarrow>
               (case Load (dp_rd io) (dp_configPath io) w1 of (w2, c) \<Rightarrow>
                  (w2, Inr (case c of Inl _ \<Rightarrow> False | Inr c \<Rightarrow> lists_gui_rules io c, f)))))"

subsection \<open>Preview\<close>

record rule_test =
  te_method :: string
  te_path :: string
  te_query :: string
  te_headers :: "(string \<times> string) list"
  te_body :: string

definition test_request :: "rule_test \<Rightarrow> request" where
  "test_request t =
     \<lparr>rq_method = (if TrimSpace (te_method t) = [] then ''GET'' else TrimSpace (te_method t)),
      rq_url = \<lparr>u_scheme = [], u_user = False, u_host = [], u_path = te_path t, u_rawpath = [], u_rawquery = te_query t,
        u_forceQuery = False, u_fragment = []\<rparr>,
      rq_requestURI = [], rq_host = ''test.example.invalid'', rq_remoteAddr = [],
      rq_header = foldl (\<lambda>h (k, v). header_set h k v) [] (te_headers t),
      rq_contentLength = 0, rq_transferEncoding = [], rq_tls = False, rq_body = [], rq_getBody = None\<rparr>"

definition preview_file :: "rule \<Rightarrow> rule_file" where
  "preview_file rl = \<lparr>rf_version = RuleFileVersion, rf_rules = [rl\<lparr>ru_enabled := True\<rparr>]\<rparr>"

definition rules_preview :: "deploy_io \<Rightarrow> rule \<Rightarrow> rule_test \<Rightarrow> world \<Rightarrow> world \<times> (int \<times> go_error + decision)" where
  "rules_preview io rl t w =
     (case meet w of
        (w1, Some e) \<Rightarrow> (w1, Inl (500, e))
      | (w1, None) \<Rightarrow>
          (w1, case waf_New (cd_lib (dp_rd io)) (\<lambda>_. cd_rules (dp_rd io) (dp_ruleJSON io (preview_file rl))) ''blocking'' 10 False [''.rule-test-.json''] of
               Inl e \<Rightarrow> Inl (400, e)
             | Inr engine \<Rightarrow> Inr (waf_Inspect (cd_lib (dp_rd io)) engine (Some (test_request t)) (te_body t))))"

subsection \<open>The preview predicts the engine\<close>

definition match_of :: "(string \<Rightarrow> string) \<Rightarrow> compiled_rule \<Rightarrow> rule_match list" where
  "match_of T c = d_matches (inspect_rule T no_decision c)"

lemma inspect_rule_matches: "d_matches (inspect_rule T d c) = d_matches d @ match_of T c"
  by (simp add: match_of_def inspect_rule_def no_decision_def Let_def split: option.splits prod.splits)

lemma inspect_rules_matches: "d_matches (foldl (inspect_rule T) d cs) = d_matches d @ concat (map (match_of T) cs)"
  by (induction cs arbitrary: d) (simp_all add: inspect_rule_matches)

lemma match_of_id: "m \<in> set (match_of T c) \<Longrightarrow> m_ruleID m = rule_key c"
  by (auto simp: match_of_def inspect_rule_def no_decision_def rule_key_def Let_def split: option.splits prod.splits)

lemma own_matches:
  assumes "distinct (map rule_key cs)" "c \<in> set cs"
  shows "filter (\<lambda>m. m_ruleID m = rule_key c) (concat (map (match_of T) cs)) = match_of T c"
  using assms
proof (induction cs)
  case (Cons a cs)
  have own: "filter (\<lambda>m. m_ruleID m = rule_key c) (match_of T b) = (if rule_key b = rule_key c then match_of T b else [])" for b
    using match_of_id [of _ T b] by (auto simp: filter_empty_conv filter_id_conv)
  have none: "filter (\<lambda>m. m_ruleID m = rule_key c) (concat (map (match_of T) cs)) = []" if "c = a"
    unfolding filter_empty_conv
  proof
    fix m assume "m \<in> set (concat (map (match_of T) cs))"
    then obtain b where b: "b \<in> set cs" "m \<in> set (match_of T b)" by auto
    have "rule_key a \<notin> rule_key ` set cs" using Cons.prems(1) by simp
    then have "rule_key b \<noteq> rule_key c" using b(1) that by (metis image_eqI)
    then show "m_ruleID m \<noteq> rule_key c" using match_of_id [OF b(2)] by simp
  qed
  show ?case
  proof (cases "c = a")
    case True
    then show ?thesis using own [of a] none by simp
  next
    case False
    then have "c \<in> set cs" "rule_key a \<noteq> rule_key c" using Cons.prems by auto
    then show ?thesis using Cons own [of a] by simp
  qed
qed simp

lemma rules_of_engine:
  assumes "waf_New L rio mode th b files = Inr e" "load_rules rio b files = Inr rules" "rl \<in> set rules" "ru_enabled rl"
  obtains c where "c \<in> set (e_rules e)" "cr_rule c = rl" "rx_compile L (ru_pattern rl) = Some (cr_rx c)" "distinct (map rule_key (e_rules e))"
proof -
  obtain rules' cs where l: "load_rules rio b files = Inr rules'" "e = \<lparr>e_mode = mode, e_threshold = th, e_rules = sort_key rule_key cs\<rparr>"
    "map cr_rule cs = filter ru_enabled rules'" "distinct (map rule_key cs)"
    "list_all (\<lambda>c. valid_rule (cr_rule c) \<and> rx_compile L (ru_pattern (cr_rule c)) = Some (cr_rx c)) cs"
    by (rule waf_New_built [OF assms(1)])
  have "rl \<in> set (map cr_rule cs)" using l(1,3) assms(2-4) by simp
  then obtain c where c: "c \<in> set cs" "cr_rule c = rl" by auto
  have "distinct (map rule_key (sort_key rule_key cs))"
    using l(4) by (simp add: distinct_map)
  then show thesis using that [of c] c l(2,5) by (auto simp: list_all_iff)
qed

lemma same_targets:
  assumes "rq_method r = rq_method r'" "rq_url r = rq_url r'" "rq_header r = rq_header r'"
  shows "requestTargets L r body = requestTargets L r' body"
  using assms by (simp add: requestTargets_def Cookies_def fun_eq_iff)

lemma Inspect_matches:
  assumes "\<not> ambiguous_framing r"
  shows "d_matches (waf_Inspect L e (Some r) body) = concat (map (match_of (requestTargets L r body)) (e_rules e))"
  using assms by (simp add: waf_Inspect_def Let_def inspect_rules_matches no_decision_def)

lemma preview_engine:
  assumes "waf_New L (\<lambda>_. Inr \<lparr>rf_version = RuleFileVersion, rf_rules = [rl]\<rparr>) mode th False [f] = Inr e" "ru_enabled rl"
  obtains c where "e_rules e = [c]" "cr_rule c = rl" "rx_compile L (ru_pattern rl) = Some (cr_rx c)"
proof -
  obtain rules cs where l: "load_rules (\<lambda>_. Inr \<lparr>rf_version = RuleFileVersion, rf_rules = [rl]\<rparr>) False [f] = Inr rules"
    "e = \<lparr>e_mode = mode, e_threshold = th, e_rules = sort_key rule_key cs\<rparr>" "map cr_rule cs = filter ru_enabled rules"
    "list_all (\<lambda>c. valid_rule (cr_rule c) \<and> rx_compile L (ru_pattern (cr_rule c)) = Some (cr_rx c)) cs"
    by (rule waf_New_built [OF assms(1)])
  have "rules = [rl]" using l(1) by (simp add: load_rules_def loadRuleFile_def)
  then obtain c where "cs = [c]" "cr_rule c = rl" using l(3) assms(2) by auto
  then show thesis using that [of c] l(2,4) by simp
qed

subsection \<open>The configuration of the new rules\<close>

lemma Load_decoded_kept:
  assumes "Load_decoded L dir c = Inr c2"
  shows "c_rules c2 = c_rules c \<and> c_baseDir c2 = dir"
  using assms by (auto simp: Load_decoded_def Validate_def applyDefaults_def Let_def split: prod.splits if_splits)

lemma load_bytes_decoded:
  assumes "load_bytes rd path d = Inr c"
  obtains p x where "cd_json rd d = Inr x" "Abs (cd_cwd rd) path = Some p" "Load_decoded (cd_lib rd) (Dir p) x = Inr c"
  using assms by (auto simp: load_bytes_def split: sum.splits option.splits)

lemma sameFilePath_refl: "sameFilePath cwd p p"
  by (simp add: sameFilePath_def split: option.splits)

lemma with_gui_rules_listed:
  assumes "c_rules c2 = c_rules (with_gui_rules io c)" "c_baseDir c2 = c_baseDir c" "IsAbs (guiRulesPath io)"
  shows "lists_gui_rules io c2 \<and> prefix (rules_files (c_rules c)) (rules_files (c_rules c2))"
proof -
  have "ResolvePath c2 = ResolvePath c" using assms(2) by (simp add: ResolvePath_def fun_eq_iff)
  moreover have "sameFilePath x (ResolvePath c (guiRulesPath io)) (guiRulesPath io)" for x
    using assms(3) by (auto simp: ResolvePath_def sameFilePath_refl sameFilePath_def Abs_def)
  ultimately show ?thesis using assms(1) by (auto simp: with_gui_rules_def lists_gui_rules_def)
qed

text \<open>What was applied passed the validation.\<close>

lemma apply_validated:
  assumes "applyBundleLocked io d rules actor reason w = (w1, Inr x)"
  shows "\<not> isl (load_bytes (dp_rd io) (dp_configPath io) d)"
proof -
  obtain oldConfig oldRules rv w4 where "install_config io d oldConfig oldRules rv w4 = (w1, Inr x)"
    using assms by (auto simp: applyBundleLocked_def split: prod.splits sum.splits option.splits)
  then obtain w5 w6 v where 5: "writeAtomic (dp_configPath io) d w4 = (w5, None)"
    and 6: "Validate_file (dp_rd io) (dp_configPath io) w5 = (w6, Inr v)"
    by (auto simp: install_config_def split: prod.splits sum.splits option.splits)
  obtain w7 c where 7: "Load (dp_rd io) (dp_configPath io) w5 = (w7, Inr c)"
    using 6 by (auto simp: Validate_file_def split: prod.splits sum.splits)
  obtain w8 d' where 8: "ReadFile (dp_configPath io) w5 = (w8, Inr d')" and l: "load_bytes (dp_rd io) (dp_configPath io) d' = Inr c"
    using 7 by (auto simp: Load_def split: prod.splits sum.splits)
  have "content (dp_configPath io) w5 = Some d" using writeAtomic_step [OF 5, of "dp_configPath io"] by simp
  then have "d' = d" using 8 by (auto simp: ReadFile_def content_def meet_def split: list.splits option.splits prod.splits)
  then show ?thesis using l by simp
qed

subsection \<open>Properties\<close>

text \<open>
  C35. The preview predicts the engine: what the preview reports for a rule is exactly what any engine that was built with
  the rule reports for it on a request with the same method, URL, headers and body, excerpts included.
\<close>
theorem preview_predicts:
  assumes "rules_preview io rl t w = (w1, Inr d)" "cd_rules (dp_rd io) (dp_ruleJSON io (preview_file rl)) = Inr (preview_file rl)"
    and "waf_New (cd_lib (dp_rd io)) rio mode th b files = Inr e" "load_rules rio b files = Inr rules" "rl\<lparr>ru_enabled := True\<rparr> \<in> set rules"
    and "rq_method r = rq_method (test_request t)" "rq_url r = rq_url (test_request t)" "rq_header r = rq_header (test_request t)"
      "\<not> ambiguous_framing r"
  shows "d_matches d = filter (\<lambda>m. m_ruleID m = ru_id rl) (d_matches (waf_Inspect (cd_lib (dp_rd io)) e (Some r) (te_body t)))"
proof -
  let ?L = "cd_lib (dp_rd io)" and ?rl = "rl\<lparr>ru_enabled := True\<rparr>" and ?T = "requestTargets (cd_lib (dp_rd io)) r (te_body t)"
  obtain p where p: "waf_New ?L (\<lambda>_. Inr (preview_file rl)) ''blocking'' 10 False [''.rule-test-.json''] = Inr p"
    and d: "d = waf_Inspect ?L p (Some (test_request t)) (te_body t)"
    using assms(1) by (auto simp: rules_preview_def assms(2) split: prod.splits option.splits sum.splits)
  obtain c where c: "e_rules p = [c]" "cr_rule c = ?rl" "rx_compile ?L (ru_pattern ?rl) = Some (cr_rx c)"
    by (rule preview_engine [OF p [unfolded preview_file_def]]) simp
  obtain c' where c': "c' \<in> set (e_rules e)" "cr_rule c' = ?rl" "rx_compile ?L (ru_pattern ?rl) = Some (cr_rx c')" "distinct (map rule_key (e_rules e))"
    by (rule rules_of_engine [OF assms(3,4,5)]) simp
  have "c' = c" using c c' by (cases c; cases c') simp
  moreover have "requestTargets ?L (test_request t) (te_body t) = ?T" using same_targets [OF assms(6-8)] by simp
  moreover have "\<not> ambiguous_framing (test_request t)" by (simp add: ambiguous_framing_def test_request_def)
  moreover have "rule_key c = ru_id rl" using c(2) by (simp add: rule_key_def)
  ultimately show ?thesis using own_matches [OF c'(4,1), of ?T] Inspect_matches assms(9) c(1) d by simp
qed


text \<open>The preview of a rule in the engine of the sample rule files.\<close>

definition sample_rules_deploy :: deploy_io where
  "sample_rules_deploy = sample_deploy\<lparr>dp_rd := sample_reader\<lparr>cd_rules := (\<lambda>d. if d = ''rules'' then Inr (preview_file traversal_rule) else Inl (Errorf [] [])),
     cd_json := (\<lambda>d. Inr (if d = ''conf'' then (with_gui_rules sample_deploy empty_config)\<lparr>c_baseDir := []\<rparr> else empty_config))\<rparr>\<rparr>"

definition sample_test :: rule_test where
  "sample_test = \<lparr>te_method = [], te_path = ''/a/../b'', te_query = [], te_headers = [(''X-A'', ''1'')], te_body = []\<rparr>"

theorem preview_predicts_witness:
  "\<exists>d e. rules_preview sample_rules_deploy traversal_rule sample_test (sample_world []) = (sample_world [], Inr d)
     \<and> waf_New plain_lib sample_rules ''detect'' 5 False [''b.json'', ''a.json''] = Inr e
     \<and> d_matches d = filter (\<lambda>m. m_ruleID m = ''T-1'') (d_matches (waf_Inspect plain_lib e (Some (test_request sample_test)) []))"
proof -
  let ?p = "rules_preview sample_rules_deploy traversal_rule sample_test (sample_world [])"
  let ?n = "waf_New plain_lib sample_rules ''detect'' 5 False [''b.json'', ''a.json'']"
  have "\<not> isl (snd ?p) \<and> fst ?p = sample_world [] \<and> \<not> isl ?n" by code_simp
  then have c: "\<not> isl (snd ?p)" "fst ?p = sample_world []" "\<not> isl ?n" by blast+
  obtain d where d: "?p = (sample_world [], Inr d)" using c(1,2) by (cases ?p; cases "snd ?p") auto
  obtain e where e: "?n = Inr e" using c(3) by (cases ?n) auto
  have f: "cd_rules (dp_rd sample_rules_deploy) (dp_ruleJSON sample_rules_deploy (preview_file traversal_rule)) = Inr (preview_file traversal_rule)"
    "cd_lib (dp_rd sample_rules_deploy) = plain_lib" "te_body sample_test = []"
    by (simp_all add: sample_rules_deploy_def sample_deploy_def sample_reader_def sample_test_def)
  have l: "load_rules sample_rules False [''b.json'', ''a.json''] = Inr [union_rule, traversal_rule\<lparr>ru_enabled := False\<rparr>, traversal_rule]"
    by code_simp
  have "traversal_rule\<lparr>ru_enabled := True\<rparr> = traversal_rule" by (simp add: traversal_rule_def)
  moreover have "\<not> ambiguous_framing (test_request sample_test)" by (simp add: ambiguous_framing_def test_request_def)
  ultimately have "d_matches d = filter (\<lambda>m. m_ruleID m = ru_id traversal_rule) (d_matches (waf_Inspect plain_lib e (Some (test_request sample_test)) []))"
    using preview_predicts [OF d f(1), unfolded f(2,3), OF e l, of "test_request sample_test"] by simp
  then show ?thesis using d e by simp
qed


end
