(* ===== verification/Backup.thy ===== *)
theory Backup
  imports Deploy
begin

text \<open>
  Backups (\<open>internal/control/backup.go\<close>): an archive of the configuration and the rules with a manifest, its
  metadata, the list of backups, restoring one as a configuration transaction and deleting one. The ZIP format and JSON are
  the record \<open>backup_io\<close>: an archive is written from named contents and read as a list of entries, each with the size
  it declares and the outcome of reading it.
\<close>

subsection \<open>State and parameters\<close>

record zip_entry =
  ze_name :: string
  ze_size :: int
  ze_data :: "go_error + string"

record backup_manifest =
  bm_version :: int
  bm_id :: string
  bm_created :: gotime
  bm_actor :: string
  bm_rules :: bool
  bm_includes :: "string list"
  bm_note :: string

record backup_info =
  bi_id :: string
  bi_created :: gotime
  bi_actor :: string
  bi_size :: int

record backup_io =
  bk_id :: string
  bk_now :: gotime
  bk_zip :: "(string \<times> string) list \<Rightarrow> string"
  bk_unzip :: "string \<Rightarrow> go_error + zip_entry list"
  bk_manifest :: "backup_manifest \<Rightarrow> string"
  bk_readManifest :: "string \<Rightarrow> backup_manifest option"
  bk_info :: "backup_info \<Rightarrow> string"
  bk_readInfo :: "string \<Rightarrow> backup_info option"

definition maxBackupEntryBytes :: int where "maxBackupEntryBytes = 8388608"

definition configEntry :: string where "configEntry = ''config/cherrywaf.json''"
definition rulesEntry :: string where "rulesEntry = ''rules/gui-rules.json''"
definition manifestEntry :: string where "manifestEntry = ''manifest.json''"

definition backupsDir :: "deploy_io \<Rightarrow> string" where
  "backupsDir io = dp_stateDir io @ ''/backups''"

definition zipPath :: "deploy_io \<Rightarrow> string \<Rightarrow> string" where
  "zipPath io bid = backupsDir io @ ''/'' @ bid @ ''.zip''"

definition infoPath :: "deploy_io \<Rightarrow> string \<Rightarrow> string" where
  "infoPath io bid = backupsDir io @ ''/'' @ bid @ ''.json''"

subsection \<open>Creating\<close>

definition new_manifest :: "backup_io \<Rightarrow> string \<Rightarrow> string option \<Rightarrow> backup_manifest" where
  "new_manifest bk actor rules =
     \<lparr>bm_version = 1, bm_id = bk_id bk, bm_created = bk_now bk, bm_actor = actor, bm_rules = (rules \<noteq> None),
      bm_includes = [configEntry, manifestEntry] @ (if rules \<noteq> None then [rulesEntry] else []),
      bm_note = ''Certificate private keys, password hashes, audit logs, and session tokens are excluded by design.''\<rparr>"

definition archive_of :: "backup_io \<Rightarrow> string \<Rightarrow> string \<Rightarrow> string option \<Rightarrow> (string \<times> string) list" where
  "archive_of bk actor configData rules =
     (configEntry, configData) # (case rules of Some d \<Rightarrow> [(rulesEntry, d)] | None \<Rightarrow> [])
     @ [(manifestEntry, bk_manifest bk (new_manifest bk actor rules))]"

definition write_backup :: "deploy_io \<Rightarrow> backup_io \<Rightarrow> string \<Rightarrow> string \<Rightarrow> world \<Rightarrow> world \<times> (go_error + backup_info)" where
  "write_backup io bk actor archive w =
     (let info = \<lparr>bi_id = bk_id bk, bi_created = bk_now bk, bi_actor = actor, bi_size = int (length archive)\<rparr> in
      case writeAtomic (zipPath io (bk_id bk)) archive w of
        (w1, Some e) \<Rightarrow> (w1, Inl e)
      | (w1, None) \<Rightarrow>
          (case writeAtomic (infoPath io (bk_id bk)) (bk_info bk info) w1 of
             (w2, Some e) \<Rightarrow> (fst (Remove (zipPath io (bk_id bk)) w2), Inl e)
           | (w2, None) \<Rightarrow> (w2, Inr info)))"

definition createBackup :: "deploy_io \<Rightarrow> backup_io \<Rightarrow> string \<Rightarrow> world \<Rightarrow> world \<times> (go_error + backup_info)" where
  "createBackup io bk actor w =
     (case meet w of
        (w1, Some e) \<Rightarrow> (w1, Inl e)
      | (w1, None) \<Rightarrow>
          (case ReadFile (dp_configPath io) w1 of
             (w2, Inl e) \<Rightarrow> (w2, Inl e)
           | (w2, Inr configData) \<Rightarrow>
               (case readOptional (guiRulesPath io) w2 of
                  (w3, Inl e) \<Rightarrow> (w3, Inl e)
                | (w3, Inr rules) \<Rightarrow> write_backup io bk actor (bk_zip bk (archive_of bk actor configData rules)) w3)))"

definition decode_info :: "backup_io \<Rightarrow> string \<Rightarrow> backup_info option" where
  "decode_info bk data =
     (case bk_readInfo bk data of Some bi \<Rightarrow> if validArtifactID (bi_id bi) then Some bi else None | None \<Rightarrow> None)"

definition listBackups :: "deploy_io \<Rightarrow> backup_io \<Rightarrow> world \<Rightarrow> world \<times> (go_error + backup_info list)" where
  "listBackups io bk w =
     (case meet w of
        (w1, Some e) \<Rightarrow> (w1, if e = ErrNotExist then Inr [] else Inl e)
      | (w1, None) \<Rightarrow>
          (case read_records (decode_info bk) (backupsDir io) (entries (backupsDir io) w1) w1 of (w2, bs) \<Rightarrow>
             (w2, Inr (sort_key (\<lambda>bi. - bi_created bi) bs))))"

subsection \<open>Restoring\<close>

fun read_entries :: "zip_entry list \<Rightarrow> (string \<times> string) list \<Rightarrow> go_error + (string \<times> string) list" where
  "read_entries [] es = Inr es"
| "read_entries (f # fs) es =
     (if maxBackupEntryBytes < ze_size f then Inl (Errorf ''backup entry %s is too large'' [ze_name f])
      else if ze_name f \<noteq> configEntry \<and> ze_name f \<noteq> rulesEntry \<and> ze_name f \<noteq> manifestEntry
      then Inl (Errorf ''backup contains unsupported entry %q'' [ze_name f])
      else case ze_data f of
        Inl e \<Rightarrow> Inl e
      | Inr data \<Rightarrow>
          if maxBackupEntryBytes < int (length data) then Inl (Errorf ''backup entry %s is too large'' [ze_name f])
          else read_entries fs ((ze_name f, data) # es))"

definition entry :: "(string \<times> string) list \<Rightarrow> string \<Rightarrow> string" where
  "entry es name = (case map_of es name of Some d \<Rightarrow> d | None \<Rightarrow> [])"

definition backup_rules :: "deploy_io \<Rightarrow> (string \<times> string) list \<Rightarrow> backup_manifest \<Rightarrow> world \<Rightarrow> world \<times> (go_error + string)" where
  "backup_rules io es m w =
     (if \<not> bm_rules m then (w, Inr [])
      else if entry es rulesEntry = [] then (w, Inl (Errorf ''backup manifest expects GUI rules but the file is missing'' []))
      else case validateRuleBytes (dp_rd io) (entry es rulesEntry) w of
        (w1, Some e) \<Rightarrow> (w1, Inl (Wrapped ''backup rules are invalid: %w'' [] [e]))
      | (w1, None) \<Rightarrow> (w1, Inr (entry es rulesEntry)))"

definition restore_entries :: "deploy_io \<Rightarrow> backup_io \<Rightarrow> string \<Rightarrow> string \<Rightarrow> (string \<times> string) list \<Rightarrow> world \<Rightarrow> world \<times> (go_error + revision \<times> bool)" where
  "restore_entries io bk bid actor es w =
     (if entry es configEntry = [] then (w, Inl (Errorf ''backup does not contain a configuration'' []))
      else case bk_readManifest bk (entry es manifestEntry) of
        None \<Rightarrow> (w, Inl (Errorf ''backup manifest is missing or invalid'' []))
      | Some m \<Rightarrow>
          if bm_version m \<noteq> 1 then (w, Inl (Errorf ''backup manifest is missing or invalid'' []))
          else (case normalizeJSON io (entry es configEntry) maxConfigBytes of
              Inl e \<Rightarrow> (w, Inl (Wrapped ''backup configuration is invalid: %w'' [] [e]))
            | Inr pretty \<Rightarrow>
                (case backup_rules io es m w of
                   (w1, Inl e) \<Rightarrow> (w1, Inl e)
                 | (w1, Inr rules) \<Rightarrow> applyBundleLocked io pretty (Some rules) actor (''Restore backup '' @ bid) w1)))"

definition restoreBackup :: "deploy_io \<Rightarrow> backup_io \<Rightarrow> string \<Rightarrow> string \<Rightarrow> world \<Rightarrow> world \<times> (go_error + revision \<times> bool)" where
  "restoreBackup io bk bid actor w =
     (case ReadFile (zipPath io bid) w of
        (w1, Inl e) \<Rightarrow> (w1, Inl (if e = ErrNotExist then Errorf ''backup not found'' [] else e))
      | (w1, Inr archive) \<Rightarrow>
          (case bk_unzip bk archive of
             Inl e \<Rightarrow> (w1, Inl e)
           | Inr fs \<Rightarrow>
               (case read_entries fs [] of
                  Inl e \<Rightarrow> (w1, Inl e)
                | Inr es \<Rightarrow> restore_entries io bk bid actor es w1)))"

text \<open>Deleting answers with a status and a text when it fails.\<close>

definition deleteBackup :: "deploy_io \<Rightarrow> string \<Rightarrow> world \<Rightarrow> world \<times> (int \<times> go_error) option" where
  "deleteBackup io bid w =
     (if \<not> validArtifactID bid then (w, Some (400, Errorf ''invalid backup ID'' []))
      else case Stat (zipPath io bid) w of
        (w1, r) \<Rightarrow>
          if r = Some ErrNotExist then (w1, Some (404, Errorf ''backup not found'' []))
          else (case Remove (zipPath io bid) w1 of
              (w2, Some e) \<Rightarrow> (w2, Some (500, e))
            | (w2, None) \<Rightarrow> (fst (Remove (infoPath io bid) w2), None)))"

subsection \<open>Steps\<close>

definition fresh_backup :: "deploy_io \<Rightarrow> backup_io \<Rightarrow> world \<Rightarrow> bool" where
  "fresh_backup io bk w \<longleftrightarrow> content (zipPath io (bk_id bk)) w = None \<and> content (infoPath io (bk_id bk)) w = None"

lemma zip_not_info: "zipPath io b \<noteq> infoPath io b" "infoPath io b \<noteq> zipPath io b"
  by (simp_all add: zipPath_def infoPath_def)

lemma write_backup_step:
  assumes "write_backup io bk actor a w = (w1, r)" "one_fault w" "fresh_backup io bk w"
  shows "wo_running w1 = wo_running w \<and> (case r of
      Inr info \<Rightarrow> bi_id info = bk_id bk \<and> content (zipPath io (bk_id bk)) w1 = Some a \<and> content (infoPath io (bk_id bk)) w1 = Some (bk_info bk info)
        \<and> (\<forall>q. q \<noteq> zipPath io (bk_id bk) \<longrightarrow> q \<noteq> infoPath io (bk_id bk) \<longrightarrow> content q w1 = content q w)
    | Inl e \<Rightarrow> \<not> calm w \<and> (\<forall>q. content q w1 = content q w))"
proof -
  let ?z = "zipPath io (bk_id bk)" and ?i = "infoPath io (bk_id bk)"
  let ?info = "\<lparr>bi_id = bk_id bk, bi_created = bk_now bk, bi_actor = actor, bi_size = int (length a)\<rparr>"
  obtain w2 f where 2: "writeAtomic ?z a w = (w2, f)" by (rule prod.exhaust)
  note s2 = write_only [OF 2 assms(2)]
  obtain w3 g where 3: "writeAtomic ?i (bk_info bk ?info) w2 = (w3, g)" by (rule prod.exhaust)
  have o2: "one_fault w2" using s2 by blast
  note s3 = write_only [OF 3 o2]
  obtain w4 h where 4: "Remove ?z w3 = (w4, h)" by (rule prod.exhaust)
  show ?thesis
  proof (cases f)
    case (Some e)
    then have "w1 = w2" "r = Inl e" using assms(1) 2 by (simp_all add: write_backup_def Let_def)
    then show ?thesis using s2 Some by simp
  next
    case f: None
    show ?thesis
    proof (cases g)
      case None
      then have "w1 = w3" "r = Inr ?info" using assms(1) 2 3 f by (simp_all add: write_backup_def Let_def)
      then show ?thesis using s2 s3 f None zip_not_info by simp
    next
      case (Some e)
      then have e: "w1 = w4" "r = Inl e" using assms(1) 2 3 4 f by (simp_all add: write_backup_def Let_def)
      have c3: "calm w3" "\<not> calm w2" "content ?z w3 = Some a" using s2 s3 f Some by auto
      have "\<not> calm w" using s2 f c3(2) by blast
      moreover have "h = None" using Remove_step [OF 4, of ?z] c3 calm_one [OF c3(1)] by auto
      moreover have "content q w4 = content q w" for q
        using Remove_step [OF 4, of q] \<open>h = None\<close> s2 s3 f Some assms(3) by (auto simp: fresh_backup_def)
      moreover have "wo_running w4 = wo_running w" using Remove_step [OF 4] s2 s3 by simp
      ultimately show ?thesis using e by simp
    qed
  qed
qed

lemma createBackup_step:
  assumes "createBackup io bk actor w = (w1, r)" "one_fault w" "fresh_backup io bk w"
  shows "wo_running w1 = wo_running w \<and> (case r of
      Inr info \<Rightarrow> bi_id info = bk_id bk \<and> (\<exists>c rules. view io w = (Some c, rules)
          \<and> content (zipPath io (bk_id bk)) w1 = Some (bk_zip bk (archive_of bk actor c rules)))
        \<and> content (infoPath io (bk_id bk)) w1 = Some (bk_info bk info)
        \<and> (\<forall>q. q \<noteq> zipPath io (bk_id bk) \<longrightarrow> q \<noteq> infoPath io (bk_id bk) \<longrightarrow> content q w1 = content q w)
    | Inl e \<Rightarrow> \<forall>q. content q w1 = content q w)"
proof -
  obtain w2 f where 2: "meet w = (w2, f)" by (rule prod.exhaust)
  obtain w3 c where 3: "ReadFile (dp_configPath io) w2 = (w3, c)" by (rule prod.exhaust)
  obtain w4 rules where 4: "readOptional (guiRulesPath io) w3 = (w4, rules)" by (rule prod.exhaust)
  have q: "quiet w w2" "quiet w w3" "quiet w w4"
    using meet_quiet [OF 2] ReadFile_quiet [OF 3] readOptional_quiet [OF 4] quiet_trans by blast+
  have o: "one_fault w2" "one_fault w3" "one_fault w4" using q assms(2) by (simp_all add: quiet_def)
  have k: "content p w2 = content p w" "content p w3 = content p w" "content p w4 = content p w" "wo_running w2 = wo_running w"
    "wo_running w3 = wo_running w" "wo_running w4 = wo_running w" for p
    using q by (simp_all add: quiet_def content_def)
  have fr: "fresh_backup io bk w4" using assms(3) k by (simp add: fresh_backup_def)
  show ?thesis
  proof (cases "f = None \<and> (\<exists>d. c = Inr d) \<and> (\<exists>d. rules = Inr d)")
    case False
    then have "(\<exists>e. r = Inl e) \<and> (w1 = w2 \<or> w1 = w3 \<or> w1 = w4)"
      using assms(1) 2 3 4 by (cases f; cases c; cases rules) (auto simp: createBackup_def)
    then show ?thesis using k by auto
  next
    case True
    then obtain d ru where f: "f = None" and d: "c = Inr d" "rules = Inr ru" by blast
    have v: "view io w = (Some d, ru)"
      using ReadFile_step [OF 3 o(1), THEN conjunct2, THEN conjunct2, THEN conjunct2, THEN conjunct2, THEN conjunct1, rule_format, OF d(1)]
        readOptional_step [OF 4 o(2), THEN conjunct2, THEN conjunct2, THEN conjunct2, THEN conjunct2, THEN conjunct1, rule_format, OF d(2)] k
      by (simp add: view_def)
    have "write_backup io bk actor (bk_zip bk (archive_of bk actor d ru)) w4 = (w1, r)"
      using assms(1) 2 3 4 f d by (simp add: createBackup_def)
    from write_backup_step [OF this o(3) fr] show ?thesis using v k by (cases r) auto
  qed
qed

text \<open>Reading an archive back.\<close>

definition stored :: "string \<times> string \<Rightarrow> zip_entry" where
  "stored = (\<lambda>(n, d). \<lparr>ze_name = n, ze_size = int (length d), ze_data = Inr d\<rparr>)"

lemma read_stored:
  assumes "\<forall>(n, d)\<in>set es. n \<in> {configEntry, rulesEntry, manifestEntry} \<and> int (length d) \<le> maxBackupEntryBytes"
  shows "read_entries (map stored es) acc = Inr (rev es @ acc)"
  using assms by (induction es arbitrary: acc) (auto simp: stored_def)

lemma entry_names: "configEntry \<noteq> rulesEntry" "configEntry \<noteq> manifestEntry" "rulesEntry \<noteq> manifestEntry"
  by (simp_all add: configEntry_def rulesEntry_def manifestEntry_def)

lemma archive_entries:
  "entry (rev (archive_of bk actor c rules)) configEntry = c"
  "entry (rev (archive_of bk actor c rules)) manifestEntry = bk_manifest bk (new_manifest bk actor rules)"
  "rules = Some d \<Longrightarrow> entry (rev (archive_of bk actor c rules)) rulesEntry = d"
  using entry_names by (auto simp: archive_of_def entry_def split: option.splits)

lemma archive_fits:
  assumes "int (length c) \<le> maxBackupEntryBytes" "\<And>d. rules = Some d \<Longrightarrow> int (length d) \<le> maxBackupEntryBytes"
    "int (length (bk_manifest bk (new_manifest bk actor rules))) \<le> maxBackupEntryBytes"
  shows "\<forall>(n, d)\<in>set (archive_of bk actor c rules). n \<in> {configEntry, rulesEntry, manifestEntry} \<and> int (length d) \<le> maxBackupEntryBytes"
  using assms by (auto simp: archive_of_def split: option.splits)

lemma backup_rules_quiet: "backup_rules io es m w = (w1, r) \<Longrightarrow> quiet w w1"
  by (auto simp: backup_rules_def quiet_def dest: validateRuleBytes_quiet split: if_splits prod.splits option.splits)

subsection \<open>Properties\<close>

text \<open>
  Creating a backup is all or nothing: with at most one failing call there is the archive with its metadata and every
  other file is as it was, or no file has changed at all; what the service runs is never touched.
\<close>
theorem backup_created_or_not:
  assumes "createBackup io bk actor w = (w1, r)" "one_fault w" "fresh_backup io bk w"
  shows "wo_running w1 = wo_running w \<and> (case r of
      Inr info \<Rightarrow> bi_id info = bk_id bk \<and> content (zipPath io (bk_id bk)) w1 \<noteq> None
        \<and> content (infoPath io (bk_id bk)) w1 = Some (bk_info bk info)
        \<and> (\<forall>q. q \<noteq> zipPath io (bk_id bk) \<longrightarrow> q \<noteq> infoPath io (bk_id bk) \<longrightarrow> content q w1 = content q w)
    | Inl _ \<Rightarrow> \<forall>q. content q w1 = content q w)"
  using createBackup_step [OF assms] by (cases r) auto

text \<open>With the archive of a backup in place, restoring it is the apply of what the archive was made of, unless reading fails.\<close>

lemma restoreBackup_archive:
  assumes "restoreBackup io bk bid actor' w = (w3, res)" "one_fault w"
    and z: "content (zipPath io bid) w = Some (bk_zip bk (archive_of bk actor c rules))"
    and zip: "bk_unzip bk (bk_zip bk (archive_of bk actor c rules)) = Inr (map stored (archive_of bk actor c rules))"
    and manifest: "bk_readManifest bk (bk_manifest bk (new_manifest bk actor rules)) = Some (new_manifest bk actor rules)"
    and sizes: "int (length c) \<le> maxConfigBytes" "\<And>d. rules = Some d \<Longrightarrow> int (length d) \<le> maxBackupEntryBytes"
      "int (length (bk_manifest bk (new_manifest bk actor rules))) \<le> maxBackupEntryBytes"
    and c: "c \<noteq> []" "normalizeJSON io c maxConfigBytes = Inr c"
  shows "\<exists>w5. quiet w w5 \<and> ((\<exists>e. res = Inl e) \<and> w3 = w5
    \<or> applyBundleLocked io c (Some (case rules of Some d \<Rightarrow> d | None \<Rightarrow> [])) actor' (''Restore backup '' @ bid) w5 = (w3, res))"
proof -
  let ?a = "archive_of bk actor c rules" and ?m = "new_manifest bk actor rules"
  obtain w4 x where 4: "ReadFile (zipPath io bid) w = (w4, x)" by (rule prod.exhaust)
  obtain w5 y where 5: "backup_rules io (rev ?a) ?m w4 = (w5, y)" by (rule prod.exhaust)
  have q: "quiet w w4" "quiet w w5" using ReadFile_quiet [OF 4] quiet_trans [OF _ backup_rules_quiet [OF 5]] by blast+
  have es: "read_entries (map stored ?a) [] = Inr (rev ?a)"
    using read_stored [OF archive_fits [of c rules bk actor], of "[]"] sizes by (simp add: maxConfigBytes_def maxBackupEntryBytes_def)
  show ?thesis
  proof (cases x)
    case (Inl e)
    then have "(\<exists>e. res = Inl e) \<and> w3 = w4" using assms(1) 4 by (auto simp: restoreBackup_def)
    then show ?thesis using q(1) by blast
  next
    case (Inr d)
    then have "d = bk_zip bk ?a" using ReadFile_step [OF 4 assms(2)] z by auto
    then have r: "(case y of Inl e \<Rightarrow> (w5, Inl e) | Inr u \<Rightarrow> applyBundleLocked io c (Some u) actor' (''Restore backup '' @ bid) w5) = (w3, res)"
      using assms(1) 4 Inr 5 zip es c manifest by (cases y) (simp_all add: restoreBackup_def restore_entries_def archive_entries new_manifest_def)
    have "u = (case rules of Some d \<Rightarrow> d | None \<Rightarrow> [])" if "y = Inr u" for u using 5 that archive_entries(3) [of rules]
      by (cases rules) (auto simp: backup_rules_def new_manifest_def split: if_splits prod.splits option.splits)
    then show ?thesis using r q(2) by (cases y) auto
  qed
qed

text \<open>
  C9. A backup brings back what it was made of. Whatever happened to the configuration and the rules since, when restoring
  the backup succeeds, configuration and rules are those of the moment the backup was made (and running, unless a
  restart is asked for); when it is refused, with at most one failing call, they are as before the attempt, unless
  the error reports a failed rollback. The ZIP library returns the entries it was given and JSON decoding the manifest; the configuration is in normal
  form and no entry exceeds the limit.
\<close>
theorem backup_restores:
  assumes "createBackup io bk actor w = (w1, Inr info)" "one_fault w" "fresh_backup io bk w"
    and view: "view io w = (Some c, rules)" "rules \<noteq> Some []" "c \<noteq> []" "dp_normalize io c = Inr c"
    and zip: "bk_unzip bk (bk_zip bk (archive_of bk actor c rules)) = Inr (map stored (archive_of bk actor c rules))"
    and manifest: "bk_readManifest bk (bk_manifest bk (new_manifest bk actor rules)) = Some (new_manifest bk actor rules)"
    and sizes: "int (length c) \<le> maxConfigBytes" "\<And>d. rules = Some d \<Longrightarrow> int (length d) \<le> maxBackupEntryBytes"
      "int (length (bk_manifest bk (new_manifest bk actor rules))) \<le> maxBackupEntryBytes"
    and later: "content (zipPath io (bi_id info)) w2 = content (zipPath io (bi_id info)) w1" "one_fault w2" "separate io"
      "restoreBackup (io\<lparr>dp_id := i, dp_now := t\<rparr>) bk (bi_id info) actor' w2 = (w3, res)"
  shows "case res of
      Inr (_, restart) \<Rightarrow> view io w3 = view io w \<and> (\<not> restart \<longrightarrow> running_view io w3 = view io w)
    | Inl e \<Rightarrow> (\<not> calm w2 \<and> rollback_failed e) \<or> undone io w2 w3"
proof -
  let ?io = "io\<lparr>dp_id := i, dp_now := t\<rparr>" and ?rules = "Some (case rules of Some d \<Rightarrow> d | None \<Rightarrow> [])"
  have q [simp]: "view ?io = view io" "running_view ?io = running_view io" "undone ?io = undone io" "separate ?io = separate io"
    "zipPath ?io = zipPath io" "normalizeJSON ?io = normalizeJSON io"
    by (simp_all add: view_def running_view_def undone_def separate_def guiRulesPath_def revisionsDir_def zipPath_def backupsDir_def normalizeJSON_def fun_eq_iff)
  have z: "content (zipPath ?io (bi_id info)) w2 = Some (bk_zip bk (archive_of bk actor c rules))"
    using createBackup_step [OF assms(1-3)] view(1) later(1) by auto
  have n: "normalizeJSON ?io c maxConfigBytes = Inr c" using view(3,4) sizes(1) by (simp add: normalizeJSON_def)
  obtain w5 where q5: "quiet w2 w5" and
    r: "(\<exists>e. res = Inl e) \<and> w3 = w5 \<or> applyBundleLocked ?io c ?rules actor' (''Restore backup '' @ bi_id info) w5 = (w3, res)"
    using restoreBackup_archive [OF later(4) later(2) z zip manifest sizes view(3) n] by blast
  have o5: "one_fault w5" "calm w2 \<longrightarrow> calm w5" "view io w5 = view io w2" "running_view io w5 = running_view io w2"
    using q5 later(2) by (simp_all add: quiet_def view_def running_view_def content_def)
  have rq: "requested ?rules z = rules" for z using view(2) by (cases rules) (auto simp: requested_def)
  from r show ?thesis
  proof (elim disjE)
    assume "(\<exists>e. res = Inl e) \<and> w3 = w5"
    then show ?thesis using o5 by (auto simp: undone_def)
  next
    assume a: "applyBundleLocked ?io c ?rules actor' (''Restore backup '' @ bi_id info) w5 = (w3, res)"
    note st = apply_step [OF a o5(1), unfolded q rq, OF later(3)]
    show ?thesis
    proof (cases res)
      case (Inl e)
      then show ?thesis using st o5 by (auto simp: undone_def)
    next
      case (Inr x)
      obtain rv b where x: "x = (rv, b)" by (rule prod.exhaust)
      show ?thesis using st view(1) unfolding Inr x by simp
    qed
  qed
qed

subsection \<open>Witnesses\<close>

text \<open>A backup of the sample files; its archive is a text that the sample library reads back.\<close>

definition sample_bk :: backup_io where
  "sample_bk = \<lparr>bk_id = ''b1'', bk_now = 7, bk_zip = (\<lambda>_. ''zip''),
     bk_unzip = (\<lambda>_. Inr [stored (configEntry, ''old''), stored (rulesEntry, ''ru''), stored (manifestEntry, ''man'')]),
     bk_manifest = (\<lambda>_. ''man''),
     bk_readManifest = (\<lambda>_. Some \<lparr>bm_version = 1, bm_id = ''b1'', bm_created = 7, bm_actor = ''ann'', bm_rules = True,
       bm_includes = [configEntry, manifestEntry, rulesEntry],
       bm_note = ''Certificate private keys, password hashes, audit logs, and session tokens are excluded by design.''\<rparr>),
     bk_info = (\<lambda>_. ''info''), bk_readInfo = (\<lambda>_. None)\<rparr>"

text \<open>The fifth call, which writes the metadata, fails.\<close>

theorem backup_created_or_not_witness:
  "\<exists>e w1. createBackup sample_deploy sample_bk ''ann'' (sample_world (replicate 4 None @ [Some (Errorf ''x'' [])])) = (w1, Inl e)
     \<and> content (zipPath sample_deploy ''b1'') w1 = None"
proof -
  let ?w = "sample_world (replicate 4 None @ [Some (Errorf ''x'' [])])"
  let ?c = "createBackup sample_deploy sample_bk ''ann'' ?w"
  have "isl (snd ?c)" by code_simp
  then obtain w1 e where c: "?c = (w1, Inl e)" by (cases ?c; cases "snd ?c") auto
  have h: "one_fault ?w" "fresh_backup sample_deploy sample_bk ?w" "content (zipPath sample_deploy ''b1'') ?w = None" by code_simp+
  from backup_created_or_not [OF c h(1,2)] show ?thesis using c h(3) by auto
qed

definition changed_world :: "world \<Rightarrow> world" where
  "changed_world w = w\<lparr>wo_files := filter (\<lambda>(p, _). p \<noteq> ''/s/rules/gui-rules.json'') (wo_files w), wo_running := []\<rparr>"

theorem backup_restores_witness:
  "\<exists>w1 info w3 rv restart. createBackup sample_deploy sample_bk ''ann'' (sample_world []) = (w1, Inr info)
     \<and> restoreBackup (sample_deploy\<lparr>dp_id := ''r2'', dp_now := 9\<rparr>) sample_bk ''b1'' ''ann'' (changed_world w1) = (w3, Inr (rv, restart))
     \<and> view sample_deploy (changed_world w1) = (Some ''old'', None) \<and> view sample_deploy w3 = (Some ''old'', Some ''ru'')"
proof -
  let ?io = "sample_deploy" and ?w = "sample_world []" and ?io2 = "sample_deploy\<lparr>dp_id := ''r2'', dp_now := 9\<rparr>"
  let ?c = "createBackup ?io sample_bk ''ann'' ?w"
  let ?r = "restoreBackup ?io2 sample_bk ''b1'' ''ann'' (changed_world (fst ?c))"
  have "\<not> isl (snd ?c) \<and> bi_id (projr (snd ?c)) = ''b1'' \<and> \<not> isl (snd ?r)
    \<and> content (zipPath ?io ''b1'') (changed_world (fst ?c)) = content (zipPath ?io ''b1'') (fst ?c) \<and> one_fault (changed_world (fst ?c))
    \<and> view ?io (changed_world (fst ?c)) = (Some ''old'', None)"
    by code_simp
  then have g: "\<not> isl (snd ?c)" "bi_id (projr (snd ?c)) = ''b1''" "\<not> isl (snd ?r)"
    "content (zipPath ?io ''b1'') (changed_world (fst ?c)) = content (zipPath ?io ''b1'') (fst ?c)" "one_fault (changed_world (fst ?c))"
    "view ?io (changed_world (fst ?c)) = (Some ''old'', None)"
    by blast+
  obtain w1 info where c: "?c = (w1, Inr info)" using g(1) by (cases ?c; cases "snd ?c") auto
  have i: "bi_id info = ''b1''" using g(2) c by simp
  obtain w3 rv restart where r: "?r = (w3, Inr (rv, restart))" using g(3) by (cases ?r; cases "snd ?r") auto
  have h: "one_fault ?w" "fresh_backup ?io sample_bk ?w" "view ?io ?w = (Some ''old'', Some ''ru'')" "dp_normalize ?io ''old'' = Inr ''old''" "separate ?io"
    "bk_unzip sample_bk (bk_zip sample_bk (archive_of sample_bk ''ann'' ''old'' (Some ''ru''))) = Inr (map stored (archive_of sample_bk ''ann'' ''old'' (Some ''ru'')))"
    "bk_readManifest sample_bk (bk_manifest sample_bk (new_manifest sample_bk ''ann'' (Some ''ru''))) = Some (new_manifest sample_bk ''ann'' (Some ''ru''))"
    "int (length (bk_manifest sample_bk (new_manifest sample_bk ''ann'' (Some ''ru'')))) \<le> maxBackupEntryBytes"
    "int (length ''old'') \<le> maxConfigBytes" "int (length ''ru'') \<le> maxBackupEntryBytes"
    by code_simp+
  have "case Inr (rv, restart) of
      Inr (_, restart) \<Rightarrow> view ?io w3 = view ?io ?w \<and> (\<not> restart \<longrightarrow> running_view ?io w3 = view ?io ?w)
    | Inl e \<Rightarrow> (\<not> calm (changed_world w1) \<and> rollback_failed e) \<or> undone ?io (changed_world w1) w3"
    by (rule backup_restores [OF c h(1,2,3) _ _ h(4,6,7,9) _ h(8)]) (use i g(4,5) c r h(5,10) in auto)
  then show ?thesis using c r g(6) h(3) by auto
qed

end
