(* ===== verification/Yaml.thy ===== *)
theory Yaml
  imports Prelude
begin

text \<open>
  A reader of the part of YAML that netplan documents use: block mappings and block sequences by indentation, and plain scalars,
  after the rules of YAML 1.2 for these: a colon at the end of a line or before a space ends a key, a dash before a space starts an
  item, and indentation nests. What the reader accepts has the meaning that YAML gives it; it refuses quotes, flow
  collections, comments, anchors, tags and repeated keys. The lemmas show that it reads back what is
  written for a tree of plain texts.
\<close>

datatype yaml = Scalar string | Mapping "(string \<times> yaml) list" | Sequence "yaml list"

subsection \<open>Lines\<close>

definition space :: char where "space = CHR 0x20"

definition plain_text :: "string \<Rightarrow> bool" where
  "plain_text t \<longleftrightarrow> list_all (\<lambda>c. 32 \<le> byte c \<and> byte c < 127 \<and> c \<notin> set ''#&*!|>%@`{}[],?'' \<and> c \<noteq> CHR 0x22 \<and> c \<noteq> CHR 0x27 \<and> c \<noteq> CHR 0x5C) t"

text \<open>How a plain scalar may start: a dash or a colon only with another character behind it.\<close>

definition plain_start :: "string \<Rightarrow> bool" where
  "plain_start t \<longleftrightarrow> t \<noteq> [] \<and> hd t \<noteq> space \<and> (hd t \<in> {CHR ''-'', CHR '':''} \<longrightarrow> tl t \<noteq> [] \<and> hd (tl t) \<noteq> space)"

fun split_key :: "string \<Rightarrow> (string \<times> string) option" where
  "split_key [] = None"
| "split_key (c # cs) =
     (if c = CHR '':'' \<and> (cs = [] \<or> hd cs = space) then Some ([], dropWhile (\<lambda>c. c = space) cs)
      else map_option (\<lambda>(k, v). (c # k, v)) (split_key cs))"

definition is_scalar :: "string \<Rightarrow> bool" where
  "is_scalar t \<longleftrightarrow> plain_text t \<and> plain_start t \<and> last t \<noteq> space \<and> split_key t = None"

definition is_item :: "string \<Rightarrow> bool" where
  "is_item t \<longleftrightarrow> prefix [CHR ''-'', space] t"

definition to_line :: "string \<Rightarrow> nat \<times> string" where
  "to_line s = (length (takeWhile (\<lambda>c. c = space) s), dropWhile (\<lambda>c. c = space) s)"

subsection \<open>Reading\<close>

text \<open>The entries of a block at an indentation, each with the lines below it.\<close>

function split_blocks :: "nat \<Rightarrow> (nat \<times> string) list \<Rightarrow> (string \<times> (nat \<times> string) list) list option" where
  "split_blocks n [] = Some []"
| "split_blocks n ((i, t) # ls) =
     (if i \<noteq> n then None
      else map_option (Cons (t, takeWhile (\<lambda>(j, _). n < j) ls)) (split_blocks n (dropWhile (\<lambda>(j, _). n < j) ls)))"
  by pat_completeness auto
termination by (relation "measure (length \<circ> snd)") (simp_all add: less_Suc_eq_le length_dropWhile_le)

fun all_some :: "'a option list \<Rightarrow> 'a list option" where
  "all_some [] = Some []"
| "all_some (x # xs) = (case x of None \<Rightarrow> None | Some y \<Rightarrow> map_option (Cons y) (all_some xs))"

definition as_mapping :: "(string \<times> yaml) list \<Rightarrow> yaml option" where
  "as_mapping kvs = (if distinct (map fst kvs) then Some (Mapping kvs) else None)"

definition read_entry :: "((nat \<times> string) list \<Rightarrow> yaml option) \<Rightarrow> string \<times> (nat \<times> string) list \<Rightarrow> (string \<times> yaml) option" where
  "read_entry rd = (\<lambda>(t, inner).
     case split_key t of
       None \<Rightarrow> None
     | Some (key, v) \<Rightarrow>
         if is_item t \<or> key = [] \<or> \<not> plain_text t \<or> \<not> plain_start t then None
         else if v \<noteq> [] then (if inner = [] \<and> is_scalar v then Some (key, Scalar v) else None)
         else if inner = [] then Some (key, Scalar [])
         else map_option (Pair key) (rd inner))"

definition read_item :: "((nat \<times> string) list \<Rightarrow> yaml option) \<Rightarrow> nat \<Rightarrow> string \<times> (nat \<times> string) list \<Rightarrow> yaml option" where
  "read_item rd n = (\<lambda>(t, inner). rd ((n + 2, drop 2 t) # inner))"

definition read_level :: "((nat \<times> string) list \<Rightarrow> yaml option) \<Rightarrow> (nat \<times> string) list \<Rightarrow> yaml option" where
  "read_level rd ls =
     (case ls of
        [] \<Rightarrow> None
      | (n, t) # rest \<Rightarrow>
          if rest = [] \<and> is_scalar t then Some (Scalar t)
          else (case split_blocks n ls of
              None \<Rightarrow> None
            | Some bs \<Rightarrow>
                if is_item t then (if list_all (is_item \<circ> fst) bs then map_option Sequence (all_some (map (read_item rd n) bs)) else None)
                else Option.bind (all_some (map (read_entry rd) bs)) as_mapping))"

text \<open>The fuel bounds the nesting; a level of nesting takes a character, so the length of the document is enough.\<close>

primrec read_block :: "nat \<Rightarrow> (nat \<times> string) list \<Rightarrow> yaml option" where
  "read_block 0 = (\<lambda>_. None)"
| "read_block (Suc k) = read_level (read_block k)"

definition read_yaml :: "string \<Rightarrow> yaml option" where
  "read_yaml doc = read_block (length doc) (map to_line (filter (\<lambda>l. \<exists>c\<in>set l. c \<noteq> space) (Split doc CHR 0x0A)))"

subsection \<open>Writing\<close>

definition itemize :: "nat \<Rightarrow> (nat \<times> string) list \<Rightarrow> string \<times> (nat \<times> string) list" where
  "itemize n ls = (''- '' @ snd (hd ls), tl ls)"

fun yaml_lines :: "nat \<Rightarrow> yaml \<Rightarrow> (nat \<times> string) list" where
  "yaml_lines n (Scalar s) = [(n, s)]"
| "yaml_lines n (Mapping kvs) =
     concat (map (\<lambda>(k, v). case v of Scalar s \<Rightarrow> [(n, k @ '': '' @ s)] | _ \<Rightarrow> (n, k @ '':'') # yaml_lines (n + 2) v) kvs)"
| "yaml_lines n (Sequence xs) = concat (map (\<lambda>x. case itemize n (yaml_lines (n + 2) x) of (t, ls) \<Rightarrow> (n, t) # ls) xs)"

definition is_key :: "string \<Rightarrow> bool" where
  "is_key k \<longleftrightarrow> k \<noteq> [] \<and> plain_text k \<and> CHR '':'' \<notin> set k \<and> space \<notin> set k"

fun plain_yaml :: "yaml \<Rightarrow> bool" where
  "plain_yaml (Scalar s) = is_scalar s"
| "plain_yaml (Mapping kvs) = (kvs \<noteq> [] \<and> distinct (map fst kvs) \<and> list_all (\<lambda>(k, v). is_key k \<and> plain_yaml v) kvs)"
| "plain_yaml (Sequence xs) = (xs \<noteq> [] \<and> list_all plain_yaml xs)"

fun height :: "yaml \<Rightarrow> nat" where
  "height (Scalar s) = 0"
| "height (Mapping kvs) = Suc (foldr (\<lambda>(k, v) m. max (height v) m) kvs 0)"
| "height (Sequence xs) = Suc (foldr (\<lambda>v m. max (height v) m) xs 0)"

subsection \<open>Reading back\<close>

lemma split_key_None:
  assumes "space \<notin> set t" "t \<noteq> [] \<longrightarrow> last t \<noteq> CHR '':''"
  shows "split_key t = None"
  using assms by (induction t) (auto split: if_splits dest: hd_in_set)

lemma split_key_entry:
  assumes "CHR '':'' \<notin> set k" "v = [] \<or> hd v = space"
  shows "split_key (k @ CHR '':'' # v) = Some (k, dropWhile (\<lambda>c. c = space) v)"
  using assms by (induction k) auto

lemma all_some_map: "(\<And>x. x \<in> set xs \<Longrightarrow> f x = Some (g x)) \<Longrightarrow> all_some (map f xs) = Some (map g xs)"
  by (induction xs) auto

lemma split_blocks_concat:
  assumes "\<And>t inner l. (t, inner) \<in> set bs \<Longrightarrow> l \<in> set inner \<Longrightarrow> n < fst l"
  shows "split_blocks n (concat (map (\<lambda>(t, inner). (n, t) # inner) bs)) = Some bs"
  using assms
proof (induction bs)
  case (Cons b bs)
  obtain t inner where b: "b = (t, inner)" by (rule prod.exhaust)
  let ?rest = "concat (map (\<lambda>(t, inner). (n, t) # inner) bs)"
  have i: "\<forall>l\<in>set inner. case l of (j, _) \<Rightarrow> n < j" using Cons.prems [of t inner] b by auto
  have r: "?rest = [] \<or> \<not> (case hd ?rest of (j, _) \<Rightarrow> n < j)" by (cases bs) auto
  have "takeWhile (\<lambda>(j, _). n < j) (inner @ ?rest) = inner" "dropWhile (\<lambda>(j, _). n < j) (inner @ ?rest) = ?rest"
    using i r by (auto simp: takeWhile_append2 dropWhile_append2 takeWhile_eq_Nil_iff dropWhile_eq_self_iff)
  moreover have "split_blocks n ?rest = Some bs" by (rule Cons.IH) (use Cons.prems in auto)
  ultimately show ?case using b by simp
qed simp

text \<open>The entry of a mapping as it is written and as it is read.\<close>

definition entry_of :: "nat \<Rightarrow> string \<times> yaml \<Rightarrow> string \<times> (nat \<times> string) list" where
  "entry_of n kv = (case kv of (k, v) \<Rightarrow> (case v of Scalar s \<Rightarrow> (k @ '': '' @ s, []) | _ \<Rightarrow> (k @ '':'', yaml_lines (n + 2) v)))"

lemma mapping_lines: "yaml_lines n (Mapping kvs) = concat (map (\<lambda>(t, inner). (n, t) # inner) (map (entry_of n) kvs))"
  by (auto simp: entry_of_def comp_def intro!: arg_cong [where f = concat] map_cong split: yaml.splits prod.splits)

lemma sequence_lines: "yaml_lines n (Sequence xs) = concat (map (\<lambda>(t, inner). (n, t) # inner) (map (\<lambda>x. itemize n (yaml_lines (n + 2) x)) xs))"
  by (simp add: comp_def)

declare yaml_lines.simps(2,3) [simp del]

lemma yaml_lines_indent: "l \<in> set (yaml_lines n t) \<Longrightarrow> n \<le> fst l"
proof (induction t arbitrary: n l)
  case (Mapping kvs)
  from Mapping.prems obtain k v where kv: "(k, v) \<in> set kvs" "l \<in> set (case entry_of n (k, v) of (t, inner) \<Rightarrow> (n, t) # inner)"
    unfolding mapping_lines set_concat set_map by auto
  have "n + 2 \<le> fst l" if "l \<in> set (yaml_lines (n + 2) v)" using Mapping.IH [OF kv(1) _ that] by simp
  then show ?case using kv(2) by (cases v) (auto simp: entry_of_def)
next
  case (Sequence xs)
  from Sequence.prems obtain x where x: "x \<in> set xs" "l \<in> set (case itemize n (yaml_lines (n + 2) x) of (t, inner) \<Rightarrow> (n, t) # inner)"
    unfolding sequence_lines set_concat set_map by auto
  have "n + 2 \<le> fst l" if "l \<in> set (tl (yaml_lines (n + 2) x))" using Sequence.IH [OF x(1)] that by (cases "yaml_lines (n + 2) x") auto
  then show ?case using x(2) by (auto simp: itemize_def)
qed simp

lemma yaml_lines_head: "plain_yaml t \<Longrightarrow> yaml_lines n t = (n, snd (hd (yaml_lines n t))) # tl (yaml_lines n t)"
proof (cases t)
  case (Mapping kvs)
  moreover assume "plain_yaml t"
  ultimately obtain k v rest where "kvs = (k, v) # rest" by (cases kvs) auto
  then show ?thesis using Mapping by (cases v) (auto simp: yaml_lines.simps)
next
  case (Sequence xs)
  moreover assume "plain_yaml t"
  ultimately obtain x rest where "xs = x # rest" by (cases xs) auto
  then show ?thesis using Sequence by (simp add: itemize_def yaml_lines.simps)
qed simp

lemma height_part:
  "(k, v) \<in> set kvs \<Longrightarrow> height v < height (Mapping kvs)" "x \<in> set xs \<Longrightarrow> height x < height (Sequence xs)"
proof -
  have "height v \<le> foldr (\<lambda>(k, v) m. max (height v) m) kvs 0" if "(k, v) \<in> set kvs" for kvs using that by (induction kvs) auto
  then show "(k, v) \<in> set kvs \<Longrightarrow> height v < height (Mapping kvs)" by (simp add: le_imp_less_Suc)
  have "height x \<le> foldr (\<lambda>v m. max (height v) m) xs 0" if "x \<in> set xs" for xs using that by (induction xs) auto
  then show "x \<in> set xs \<Longrightarrow> height x < height (Sequence xs)" by (simp add: le_imp_less_Suc)
qed

lemma scalar_facts: "is_scalar s \<Longrightarrow> s \<noteq> [] \<and> hd s \<noteq> space \<and> plain_text s \<and> \<not> is_item s"
  by (cases s; cases "tl s") (auto simp: is_scalar_def plain_start_def is_item_def space_def)

lemma key_start:
  assumes "is_key k"
  shows "plain_start (k @ CHR '':'' # v)" "\<not> is_item (k @ CHR '':'' # v)"
  using assms by (cases k; cases "tl k"; auto simp: is_key_def plain_start_def is_item_def space_def)+

lemma entry_below:
  assumes "(t, inner) = entry_of n kv" "l \<in> set inner"
  shows "n < fst l"
  using assms yaml_lines_indent [of l "n + 2" "snd kv"] by (cases kv; cases "snd kv") (auto simp: entry_of_def)

lemma item_below:
  assumes "(t, inner) = itemize n (yaml_lines (n + 2) x)" "l \<in> set inner"
  shows "n < fst l"
  using assms yaml_lines_indent [of l "n + 2" x] by (cases "yaml_lines (n + 2) x") (auto simp: itemize_def)

lemma plain_text_append: "plain_text (s @ t) \<longleftrightarrow> plain_text s \<and> plain_text t" by (simp add: plain_text_def)

lemma colon_plain: "plain_text '': ''" "plain_text '':''" by (simp_all add: plain_text_def byte_def)

lemma entry_text:
  assumes "is_key key" "plain_yaml v" "entry_of n (key, v) = (t, inner)"
  shows "split_key t = Some (key, case v of Scalar s \<Rightarrow> s | _ \<Rightarrow> [])" "\<not> is_item t" "plain_text t" "plain_start t"
proof -
  have "\<exists>w. t = key @ CHR '':'' # w \<and> (w = [] \<or> hd w = space) \<and> plain_text (CHR '':'' # w)
      \<and> dropWhile (\<lambda>c. c = space) w = (case v of Scalar s \<Rightarrow> s | _ \<Rightarrow> [])"
  proof (cases v)
    case (Scalar s)
    then have s: "s \<noteq> []" "hd s \<noteq> space" "plain_text s" using assms(2) scalar_facts by simp_all
    have "dropWhile (\<lambda>c. c = space) (space # s) = s" using s(1,2) by (cases s) simp_all
    moreover have "plain_text (CHR '':'' # space # s)" using s(3) colon_plain(1) by (simp add: plain_text_def space_def)
    moreover have "t = key @ CHR '':'' # space # s" using assms(3) Scalar by (simp add: entry_of_def space_def)
    ultimately show ?thesis using Scalar by (intro exI [of _ "space # s"]) simp
  next
    case (Mapping kvs)
    then show ?thesis using assms(3) colon_plain(2) by (intro exI [of _ "[]"]) (simp add: entry_of_def)
  next
    case (Sequence xs)
    then show ?thesis using assms(3) colon_plain(2) by (intro exI [of _ "[]"]) (simp add: entry_of_def)
  qed
  then obtain w where w: "t = key @ CHR '':'' # w" "w = [] \<or> hd w = space" "plain_text (CHR '':'' # w)"
    "dropWhile (\<lambda>c. c = space) w = (case v of Scalar s \<Rightarrow> s | _ \<Rightarrow> [])" by blast
  show "split_key t = Some (key, case v of Scalar s \<Rightarrow> s | _ \<Rightarrow> [])" using split_key_entry [of key w] assms(1) w by (simp add: is_key_def)
  show "\<not> is_item t" "plain_start t" using key_start [OF assms(1)] w(1) by simp_all
  show "plain_text t" using assms(1) w(1,3) plain_text_append [of key "CHR '':'' # w"] by (simp add: is_key_def)
qed

lemma read_entry_written:
  assumes "is_key key" "plain_yaml v" "\<And>m. read (yaml_lines m v) = Some v"
  shows "read_entry read (entry_of n (key, v)) = Some (key, v)"
proof -
  obtain t inner where e: "entry_of n (key, v) = (t, inner)" by (rule prod.exhaust)
  note x = entry_text [OF assms(1,2) e]
  show ?thesis
  proof (cases v)
    case (Scalar s)
    then show ?thesis using e x assms(1,2) scalar_facts [of s] by (auto simp: read_entry_def entry_of_def is_key_def)
  next
    case (Mapping kvs)
    then have "inner = yaml_lines (n + 2) v" using e by (simp add: entry_of_def)
    then show ?thesis using e x assms yaml_lines_head [OF assms(2), of "n + 2"] Mapping by (auto simp: read_entry_def is_key_def)
  next
    case (Sequence xs)
    then have "inner = yaml_lines (n + 2) v" using e by (simp add: entry_of_def)
    then show ?thesis using e x assms yaml_lines_head [OF assms(2), of "n + 2"] Sequence by (auto simp: read_entry_def is_key_def)
  qed
qed

lemma read_item_written:
  assumes "plain_yaml x" "\<And>m. read (yaml_lines m x) = Some x"
  shows "read_item read n (itemize n (yaml_lines (n + 2) x)) = Some x"
  using assms(2) [of "n + 2"] yaml_lines_head [OF assms(1), of "n + 2"] by (simp add: read_item_def itemize_def)

lemma split_blocks_head: "split_blocks n ((n, u) # rest) = Some bs \<Longrightarrow> \<exists>b bs'. bs = b # bs' \<and> fst b = u"
  by auto

text \<open>What is written for a tree of plain texts is read as that tree.\<close>

lemma read_block_lines: "plain_yaml t \<Longrightarrow> height t < k \<Longrightarrow> read_block k (yaml_lines n t) = Some t"
proof (induction k arbitrary: t n)
  case (Suc k)
  obtain u rest where l: "yaml_lines n t = (n, u) # rest" using yaml_lines_head [OF Suc.prems(1)] by blast
  show ?case
  proof (cases t)
    case (Scalar s)
    then show ?thesis using Suc.prems(1) by (simp add: read_level_def)
  next
    case (Mapping kvs)
    let ?bs = "map (entry_of n) kvs"
    have b: "split_blocks n ((n, u) # rest) = Some ?bs"
      unfolding l [symmetric] unfolding Mapping mapping_lines by (rule split_blocks_concat) (use entry_below in auto)
    have kv: "is_key key" "plain_yaml v" "height v < k" if "(key, v) \<in> set kvs" for key v
      using Suc.prems Mapping that height_part(1) [OF that] by (auto simp: list_all_iff)
    obtain key v kvs' where k: "kvs = (key, v) # kvs'" "fst (entry_of n (key, v)) = u" using split_blocks_head [OF b] by auto
    then have m: "(key, v) \<in> set kvs" by simp
    have u: "\<not> is_item u" "\<not> is_scalar u"
      using entry_text(1,2) [OF kv(1) [OF m] kv(2) [OF m] prod.collapse [symmetric], of n] k(2) by (simp_all add: is_scalar_def)
    have "read_entry (read_block k) (entry_of n x) = Some x" if "x \<in> set kvs" for x
      using read_entry_written [OF kv(1,2), of "fst x" "snd x"] Suc.IH [OF kv(2,3)] that by (cases x) auto
    then have "all_some (map (read_entry (read_block k)) ?bs) = Some kvs" using all_some_map [of kvs _ id] by (simp add: comp_def)
    then show ?thesis unfolding read_block.simps read_level_def l list.case prod.case b option.case
      using u Suc.prems(1) Mapping by (simp add: as_mapping_def)
  next
    case (Sequence xs)
    let ?bs = "map (\<lambda>x. itemize n (yaml_lines (n + 2) x)) xs"
    have b: "split_blocks n ((n, u) # rest) = Some ?bs"
      unfolding l [symmetric] unfolding Sequence sequence_lines by (rule split_blocks_concat) (use item_below in auto)
    have x: "plain_yaml x" "height x < k" if "x \<in> set xs" for x
      using Suc.prems Sequence that height_part(2) [OF that] by (auto simp: list_all_iff)
    have i: "is_item (fst (itemize n ls))" for ls by (simp add: itemize_def is_item_def space_def)
    have "is_item u" using split_blocks_head [OF b] i by (metis map_eq_Cons_D)
    then have u: "is_item u" "\<not> is_scalar u" using scalar_facts by blast+
    have "read_item (read_block k) n (itemize n (yaml_lines (n + 2) y)) = Some y" if "y \<in> set xs" for y
      by (rule read_item_written [OF x(1) [OF that]]) (rule Suc.IH [OF x(1) [OF that] x(2) [OF that]])
    then have "all_some (map (read_item (read_block k) n) ?bs) = Some xs" using all_some_map [of xs _ id] by (simp add: comp_def)
    then show ?thesis unfolding read_block.simps read_level_def l list.case prod.case b option.case
      using u i Sequence by (simp add: list_all_iff)
  qed
qed simp

subsection \<open>Documents\<close>

definition yaml_line :: "nat \<times> string \<Rightarrow> string" where
  "yaml_line = (\<lambda>(n, t). replicate n space @ t @ [CHR 0x0A])"

definition write_yaml :: "yaml \<Rightarrow> string" where
  "write_yaml t = concat (map yaml_line (yaml_lines 0 t))"

definition good_line :: "string \<Rightarrow> bool" where
  "good_line t \<longleftrightarrow> t \<noteq> [] \<and> hd t \<noteq> space \<and> plain_text t"

lemma yaml_lines_good: "plain_yaml t \<Longrightarrow> l \<in> set (yaml_lines n t) \<Longrightarrow> good_line (snd l)"
proof (induction t arbitrary: n l)
  case (Scalar s)
  then show ?case using scalar_facts by (auto simp: good_line_def)
next
  case (Mapping kvs)
  from Mapping.prems(2) obtain k v where kv: "(k, v) \<in> set kvs" "l \<in> set (case entry_of n (k, v) of (t, inner) \<Rightarrow> (n, t) # inner)"
    unfolding mapping_lines set_concat set_map by auto
  have p: "is_key k" "plain_yaml v" using Mapping.prems(1) kv(1) by (auto simp: list_all_iff)
  obtain t inner where e: "entry_of n (k, v) = (t, inner)" by (rule prod.exhaust)
  have "good_line t" using entry_text(3,4) [OF p e] by (simp add: good_line_def plain_start_def)
  moreover have "good_line (snd l)" if "l \<in> set inner"
    using Mapping.IH [OF kv(1), of v l "n + 2"] p(2) e that by (cases v) (auto simp: entry_of_def)
  ultimately show ?case using kv(2) e by auto
next
  case (Sequence xs)
  from Sequence.prems(2) obtain x where x: "x \<in> set xs" "l \<in> set (case itemize n (yaml_lines (n + 2) x) of (t, inner) \<Rightarrow> (n, t) # inner)"
    unfolding sequence_lines set_concat set_map by auto
  have p: "plain_yaml x" using Sequence.prems(1) x(1) by (auto simp: list_all_iff)
  obtain t rest where h: "yaml_lines (n + 2) x = (n + 2, t) # rest" using yaml_lines_head [OF p, of "n + 2"] by blast
  have g: "good_line (snd l')" if "l' \<in> set (yaml_lines (n + 2) x)" for l' using Sequence.IH [OF x(1) p that] .
  have "good_line (''- '' @ t)" using g [of "(n + 2, t)"] h by (simp add: good_line_def plain_text_def byte_def space_def)
  then show ?case using x(2) h g [of l] by (auto simp: itemize_def)
qed

lemma to_line_written:
  assumes "good_line t"
  shows "to_line (replicate n space @ t) = (n, t)" "\<exists>c\<in>set (replicate n space @ t). c \<noteq> space" "CHR 0x0A \<notin> set (replicate n space @ t)"
proof -
  obtain c cs where t: "t = c # cs" "c \<noteq> space" using assms by (cases t) (auto simp: good_line_def)
  have "takeWhile (\<lambda>c. c = space) (replicate n space @ t) = replicate n space" "dropWhile (\<lambda>c. c = space) (replicate n space @ t) = t"
    unfolding t(1) using t(2) by (induction n) auto
  then show "to_line (replicate n space @ t) = (n, t)" by (simp add: to_line_def)
  show "\<exists>c\<in>set (replicate n space @ t). c \<noteq> space" using t by simp
  have "32 \<le> byte c" if "c \<in> set t" for c using assms that by (simp add: good_line_def plain_text_def list_all_iff)
  moreover have "\<not> 32 \<le> byte (CHR 0x0A)" "space \<noteq> CHR 0x0A" by (simp_all add: byte_def space_def)
  ultimately show "CHR 0x0A \<notin> set (replicate n space @ t)" by (metis Un_iff in_set_replicate set_append)
qed

lemma read_lines_written:
  assumes "\<forall>l\<in>set ls. good_line (snd l)"
  shows "map to_line (filter (\<lambda>l. \<exists>c\<in>set l. c \<noteq> space) (Split (concat (map yaml_line ls)) CHR 0x0A)) = ls"
  using assms
proof (induction ls)
  case (Cons l ls)
  obtain n t where l: "l = (n, t)" by (rule prod.exhaust)
  note w = to_line_written [of t n]
  have "Split (yaml_line l @ concat (map yaml_line ls)) CHR 0x0A = (replicate n space @ t) # Split (concat (map yaml_line ls)) CHR 0x0A"
    using Split_append [of "replicate n space @ t" "CHR 0x0A" "concat (map yaml_line ls)"] Split_no_sep [OF w(3)] Cons.prems l by (simp add: yaml_line_def)
  then show ?case using Cons w l by simp
qed simp

lemma read_write_yaml: "plain_yaml t \<Longrightarrow> height t < length (write_yaml t) \<Longrightarrow> read_yaml (write_yaml t) = Some t"
  using read_lines_written [of "yaml_lines 0 t"] yaml_lines_good [of t] read_block_lines [of t "length (write_yaml t)" 0]
  by (simp add: read_yaml_def write_yaml_def)

end
