(* ===== verification/Network.thy ===== *)
theory Network
  imports GoNet Yaml "HOL-Library.Sublist"
begin

text \<open>
  Network settings of the control plane (\<open>internal/control/network.go\<close>): the plan an administrator submits, its
  validation, and the netplan document rendered from it. The lemmas show which characters the validated texts can hold, and
  that a reader of the document gets back exactly the plan that was validated.
\<close>

subsection \<open>Plans\<close>

record network_plan =
  np_version :: int
  np_interface :: string
  np_dhcp4 :: bool
  np_addresses :: "string list"
  np_gateway4 :: string
  np_nameservers :: "string list"
  np_mtu :: int

definition validInterfaceName :: "string \<Rightarrow> bool" where
  "validInterfaceName v =
     (v \<noteq> [] \<and> length v \<le> 15 \<and> \<not> Contains v ''..''
      \<and> list_all (\<lambda>c. is_lower c \<or> is_upper c \<or> is_digit c \<or> c = CHR ''-'' \<or> c = CHR ''_'' \<or> c = CHR ''.'') v)"

definition validNetworkToken :: "string \<Rightarrow> bool" where
  "validNetworkToken v = (length v = 32 \<and> list_all (\<lambda>c. 97 \<le> byte c \<and> byte c \<le> 102 \<or> is_digit c) v)"

definition is_IPv4 :: "string \<Rightarrow> bool" where
  "is_IPv4 s = (case ParseIP s of None \<Rightarrow> False | Some ip \<Rightarrow> to4 ip \<noteq> None)"

definition check_addressing :: "network_plan \<Rightarrow> go_error option" where
  "check_addressing p =
     (if np_dhcp4 p then
        (if np_addresses p \<noteq> [] \<or> np_gateway4 p \<noteq> []
         then Some (Errorf ''DHCP mode cannot define static addresses or gateway'' []) else None)
      else if np_addresses p = [] then Some (Errorf ''at least one static address is required when DHCP is disabled'' [])
      else case find (\<lambda>v. ParseCIDR v = None) (np_addresses p) of
        Some v \<Rightarrow> Some (Errorf ''invalid CIDR address %q'' [v])
      | None \<Rightarrow> if np_gateway4 p \<noteq> [] \<and> \<not> is_IPv4 (np_gateway4 p)
          then Some (Errorf ''gateway4 must be a valid IPv4 address'' []) else None)"

text \<open>\<open>known\<close>: the names of the interfaces of the machine, or \<open>None\<close> for no check.\<close>

definition ValidateNetworkPlan :: "network_plan \<Rightarrow> string list option \<Rightarrow> go_error option" where
  "ValidateNetworkPlan p known =
     (if (if np_version p = 0 then 1 else np_version p) \<noteq> 1 then Some (Errorf ''unsupported network plan version'' [])
      else if \<not> validInterfaceName (np_interface p) then Some (Errorf ''invalid network interface name'' [])
      else if np_interface p = ''lo'' then Some (Errorf ''loopback interface cannot be configured'' [])
      else if (case known of None \<Rightarrow> False | Some names \<Rightarrow> np_interface p \<notin> set names)
        then Some (Errorf ''network interface %q does not exist'' [np_interface p])
      else if np_mtu p \<noteq> 0 \<and> (np_mtu p < 576 \<or> 9216 < np_mtu p) then Some (Errorf ''MTU must be between 576 and 9216'' [])
      else case check_addressing p of
        Some e \<Rightarrow> Some e
      | None \<Rightarrow>
          if 6 < length (np_nameservers p) then Some (Errorf ''a maximum of six DNS servers is supported'' [])
          else map_option (\<lambda>v. Errorf ''invalid DNS server %q'' [v]) (find (\<lambda>v. ParseIP v = None) (np_nameservers p)))"

subsection \<open>The document\<close>

abbreviation newline :: char where "newline \<equiv> CHR 0x0A"

definition line :: "string \<Rightarrow> string" where
  "line s = s @ [newline]"

definition FormatBool :: "bool \<Rightarrow> string" where
  "FormatBool b = (if b then ''true'' else ''false'')"

definition render_addressing :: "network_plan \<Rightarrow> string" where
  "render_addressing p =
     (if np_dhcp4 p then []
      else line ''      addresses:'' @ concat (map (\<lambda>a. ''        - '' @ line a) (np_addresses p))
        @ (if np_gateway4 p = [] then []
           else line ''      routes:'' @ line ''        - to: default'' @ ''          via: '' @ line (np_gateway4 p)))"

definition RenderNetplan :: "network_plan \<Rightarrow> go_error + string" where
  "RenderNetplan p =
     (case ValidateNetworkPlan p None of
        Some e \<Rightarrow> Inl e
      | None \<Rightarrow> Inr (
          line ''network:'' @ line ''  version: 2'' @ line ''  renderer: networkd'' @ line ''  ethernets:'' @ ''    '' @ np_interface p @ line '':''
          @ ''      dhcp4: '' @ line (FormatBool (np_dhcp4 p)) @ line ''      dhcp6: false''
          @ (if np_mtu p = 0 then [] else ''      mtu: '' @ line (Itoa (np_mtu p)))
          @ render_addressing p
          @ (if np_nameservers p = [] then []
             else line ''      nameservers:'' @ line ''        addresses:'' @ concat (map (\<lambda>a. ''          - '' @ line a) (np_nameservers p)))))"

subsection \<open>What the document says\<close>

text \<open>The plan as a tree: the keys of netplan with the texts of the plan.\<close>

definition plan_settings :: "network_plan \<Rightarrow> (string \<times> yaml) list" where
  "plan_settings p =
     [(''dhcp4'', Scalar (FormatBool (np_dhcp4 p))), (''dhcp6'', Scalar ''false'')]
     @ (if np_mtu p = 0 then [] else [(''mtu'', Scalar (Itoa (np_mtu p)))])
     @ (if np_addresses p = [] then [] else [(''addresses'', Sequence (map Scalar (np_addresses p)))])
     @ (if np_gateway4 p = [] then [] else [(''routes'', Sequence [Mapping [(''to'', Scalar ''default''), (''via'', Scalar (np_gateway4 p))]])])
     @ (if np_nameservers p = [] then [] else [(''nameservers'', Mapping [(''addresses'', Sequence (map Scalar (np_nameservers p)))])])"

definition netplan_tree :: "network_plan \<Rightarrow> yaml" where
  "netplan_tree p = Mapping [(''network'', Mapping [(''version'', Scalar ''2''), (''renderer'', Scalar ''networkd''),
     (''ethernets'', Mapping [(np_interface p, Mapping (plan_settings p))])])]"

subsection \<open>Characters of validated texts\<close>

definition addr_char :: "char \<Rightarrow> bool" where
  "addr_char c \<longleftrightarrow> is_hex c \<or> c = CHR ''.'' \<or> c = CHR '':''"

lemma digit_hex: "is_digit c \<Longrightarrow> is_hex c" by (simp add: is_hex_def hex_digit_def)

lemma set_Split: "set s \<subseteq> insert sep (\<Union> (set ` set (Split s sep)))"
proof (induction s)
  case (Cons c s)
  then show ?case by (cases "Split s sep") (auto split: list.splits if_splits)
qed simp

lemma octet_digits: "octet s = Some n \<Longrightarrow> list_all is_digit s"
  by (simp add: octet_def split: if_splits)

lemma parse_octets_chars:
  assumes "parse_octets s = Some q"
  shows "list_all addr_char s"
proof -
  have "list_all (\<lambda>x. \<exists>n. octet x = Some n) (Split s CHR ''.'')"
    using assms by (auto simp: parse_octets_def map_eq_Cons_conv split: list.splits option.splits)
  then have "\<forall>x\<in>set (Split s CHR ''.''). list_all is_digit x" unfolding list_all_iff using octet_digits [unfolded list_all_iff] by blast
  then show ?thesis using set_Split [of s "CHR ''.''"] by (fastforce simp: list_all_iff addr_char_def digit_hex)
qed

text \<open>One round of the loop: the text is a group and what is left of it, which is read by the next round or is the end.\<close>

lemma parse_groups_round:
  assumes "parse_groups gs ell s = Some q" "length gs < 8" "dropWhile is_hex s = c # r1" "c \<noteq> CHR ''.''"
  shows "c = CHR '':'' \<and> (\<exists>t gs' ell'. (r1 = t \<or> r1 = CHR '':'' # t) \<and> (t = [] \<or> parse_groups gs' ell' t = Some q))"
proof -
  have e: "c = CHR '':'' \<and> r1 \<noteq> [] \<and> (if hd r1 = CHR '':'' then tl r1 = []
         \<or> parse_groups (gs @ [hex_val (takeWhile is_hex s)]) (Some (length (gs @ [hex_val (takeWhile is_hex s)]))) (tl r1) = Some q
       else parse_groups (gs @ [hex_val (takeWhile is_hex s)]) ell r1 = Some q)"
    using assms by (subst (asm) parse_groups.simps) (auto simp: Let_def split: if_splits)
  then have "r1 = hd r1 # tl r1" by simp
  then show ?thesis using e by (metis (full_types))
qed

lemma parse_groups_chars: "parse_groups gs ell s = Some q \<Longrightarrow> list_all addr_char s"
proof (induction "length s" arbitrary: gs ell s rule: less_induct)
  case less
  let ?h = "takeWhile is_hex s" and ?r = "dropWhile is_hex s"
  have h: "list_all addr_char ?h" by (auto simp: list_all_iff addr_char_def dest: set_takeWhileD)
  show ?case
  proof (cases "8 \<le> length gs")
    case True
    then show ?thesis using less(2) by (subst (asm) parse_groups.simps) (simp split: if_splits)
  next
    case False
    show ?thesis
    proof (cases ?r)
      case Nil
      then have "?h = s" using takeWhile_dropWhile_id [of is_hex s] by (metis append_Nil2)
      then show ?thesis using h by metis
    next
      case (Cons c r1)
      show ?thesis
      proof (cases "c = CHR ''.''")
        case True
        then have "\<exists>q. parse_octets s = Some q" using less(2) False Cons
          by (subst (asm) parse_groups.simps) (auto simp: Let_def split: if_splits)
        then show ?thesis using parse_octets_chars by blast
      next
        case c: False
        obtain t gs' ell' where t: "c = CHR '':''" "r1 = t \<or> r1 = CHR '':'' # t" "t = [] \<or> parse_groups gs' ell' t = Some q"
          using parse_groups_round [OF less(2) _ Cons c] False by auto
        have "length t < length s" using t(2) dropWhile_shorter(1) [OF Cons] by auto
        then have "list_all addr_char t" using t(3) less(1) by auto
        then have "list_all addr_char ?r" using Cons t(1,2) by (auto simp: addr_char_def)
        then show ?thesis using h takeWhile_dropWhile_id [of is_hex s] list_all_append [of addr_char ?h ?r] by simp
      qed
    qed
  qed
qed

lemma Cut_missing: "Cut s c = (a, z, False) \<Longrightarrow> a = s"
  by (induction s arbitrary: a) (auto split: if_splits prod.splits)

lemma parseIPv6_cases:
  assumes "parseIPv6 s = Some a" "\<not> has_zone a"
  shows "s = ''::'' \<or> (HasPrefix s ''::'' \<and> (\<exists>q. parse_groups [] (Some 0) (drop 2 s) = Some q)) \<or> (\<exists>q. parse_groups [] None s = Some q)"
proof -
  obtain t z f where cut: "Cut s CHR ''%'' = (t, z, f)" by (rule prod_cases3)
  have "z = [] \<and> \<not> f" using assms cut by (auto simp: parseIPv6_def split: if_splits)
  then have t: "Cut s CHR ''%'' = (s, [], False)" using cut Cut_missing by metis
  show ?thesis
  proof (cases "HasPrefix s ''::''")
    case True
    then have "length s = 2 \<Longrightarrow> s = ''::''" by (auto simp: HasPrefix_def prefix_def)
    then show ?thesis using assms(1) t True by (cases "length s = 2") (simp_all add: parseIPv6_def bind_eq_Some_conv, blast)
  next
    case False
    then show ?thesis using assms(1) t by (simp add: parseIPv6_def bind_eq_Some_conv) blast
  qed
qed

lemma ParseAddr_chars:
  assumes "ParseAddr s = Some a" "\<not> has_zone a"
  shows "list_all addr_char s"
proof -
  have "(\<exists>q. parse_octets s = Some q) \<or> parseIPv6 s = Some a"
    using assms(1) by (auto simp: ParseAddr_def parseIPv4_def split: option.splits if_splits)
  then consider "\<exists>q. parse_octets s = Some q" | "s = ''::''" | "HasPrefix s ''::''" "\<exists>q. parse_groups [] (Some 0) (drop 2 s) = Some q"
    | "\<exists>q. parse_groups [] None s = Some q"
    using parseIPv6_cases [OF _ assms(2)] by blast
  then show ?thesis
  proof cases
    case 2
    then show ?thesis by (simp add: addr_char_def)
  next
    case 3
    then have "s = CHR '':'' # CHR '':'' # drop 2 s" by (auto simp: HasPrefix_def prefix_def)
    moreover have "list_all addr_char (drop 2 s)" using 3(2) parse_groups_chars by blast
    ultimately show ?thesis by (metis addr_char_def list.pred_inject(2))
  qed (use parse_octets_chars parse_groups_chars in blast)+
qed

lemma ParseIP_chars: "ParseIP s = Some ip \<Longrightarrow> list_all addr_char s"
  by (auto simp: ParseIP_def split: option.splits addr.splits if_splits intro: ParseAddr_chars)

lemma ParseCIDR_chars:
  assumes "ParseCIDR s = Some r"
  shows "list_all (\<lambda>c. addr_char c \<or> c = CHR ''/'') s"
proof -
  obtain ip mk f where cut: "Cut s CHR ''/'' = (ip, mk, f)" by (rule prod_cases3)
  have f: "f" "list_all is_digit mk" and "\<exists>a. ParseAddr ip = Some a \<and> \<not> has_zone a"
    using assms cut by (auto simp: ParseCIDR_def split: if_splits option.splits addr.splits)
  then have "list_all addr_char ip" using ParseAddr_chars by blast
  moreover have "s = ip @ CHR ''/'' # mk" using cut f(1) by (induction s arbitrary: ip) (auto split: if_splits prod.splits)
  ultimately show ?thesis using f(2) by (auto simp: list_all_iff addr_char_def digit_hex)
qed


subsection \<open>The document as a tree\<close>

lemma valid_parts:
  assumes "ValidateNetworkPlan p known = None"
  shows "validInterfaceName (np_interface p)" "np_mtu p = 0 \<or> (576 \<le> np_mtu p \<and> np_mtu p \<le> 9216)" "np_version p \<in> {0, 1}"
    "np_dhcp4 p \<longleftrightarrow> np_addresses p = []" "np_dhcp4 p \<longrightarrow> np_gateway4 p = []"
    "list_all (\<lambda>a. \<exists>r. ParseCIDR a = Some r) (np_addresses p)" "np_gateway4 p = [] \<or> (\<exists>ip. ParseIP (np_gateway4 p) = Some ip)"
    "list_all (\<lambda>a. \<exists>r. ParseIP a = Some r) (np_nameservers p)"
proof -
  have c: "check_addressing p = None" and n: "find (\<lambda>v. ParseIP v = None) (np_nameservers p) = None"
    using assms by (auto simp: ValidateNetworkPlan_def split: if_splits option.splits)
  show "list_all (\<lambda>a. \<exists>r. ParseIP a = Some r) (np_nameservers p)" using n by (auto simp: find_None_iff list_all_iff)
  show "np_dhcp4 p \<longleftrightarrow> np_addresses p = []" "np_dhcp4 p \<longrightarrow> np_gateway4 p = []"
    using c by (auto simp: check_addressing_def split: if_splits option.splits)
  show "list_all (\<lambda>a. \<exists>r. ParseCIDR a = Some r) (np_addresses p)"
    using c by (auto simp: check_addressing_def find_None_iff list_all_iff split: if_splits option.splits)
  show "np_gateway4 p = [] \<or> (\<exists>ip. ParseIP (np_gateway4 p) = Some ip)"
    using c by (auto simp: check_addressing_def is_IPv4_def split: if_splits option.splits)
qed (use assms in \<open>auto simp: ValidateNetworkPlan_def split: if_splits\<close>)

lemma yaml_line_text: "yaml_line (n, t) = replicate n space @ line t" by (simp add: yaml_line_def line_def)

lemma sequence_written:
  "concat (map yaml_line (yaml_lines n (Sequence (map Scalar xs)))) = concat (map (\<lambda>x. replicate n space @ ''- '' @ line x) xs)"
  by (induction xs) (simp_all add: yaml_lines.simps itemize_def yaml_line_text line_def)

lemma rendered:
  assumes "RenderNetplan p = Inr doc"
  shows "ValidateNetworkPlan p None = None \<and> doc = write_yaml (netplan_tree p)"
proof -
  have v: "ValidateNetworkPlan p None = None" using assms by (simp add: RenderNetplan_def split: option.splits)
  have d: "np_dhcp4 p \<longleftrightarrow> np_addresses p = []" "np_dhcp4 p \<longrightarrow> np_gateway4 p = []" using valid_parts(4,5) [OF v] by simp_all
  have "doc = write_yaml (netplan_tree p)" using assms d
    unfolding RenderNetplan_def v option.case sum.inject
    by (auto simp: write_yaml_def netplan_tree_def plan_settings_def render_addressing_def yaml_lines.simps(2) yaml_lines.simps(3) [of _ "[_]"]
        itemize_def yaml_line_text sequence_written line_def space_def)
  then show ?thesis using v by simp
qed

subsection \<open>Numbers\<close>

lemma digit_char: "0 \<le> n \<Longrightarrow> n < 10 \<Longrightarrow> is_digit (char_of (48 + n)) \<and> byte (char_of (48 + n)) = 48 + n"
  by (simp add: is_digit_def byte_def)

lemma nat_str_digits: "0 \<le> n \<Longrightarrow> list_all is_digit (nat_str n) \<and> nat_str n \<noteq> [] \<and> dec_val (nat_str n) = n"
proof (induction n rule: nat_str.induct)
  case (1 n)
  show ?case
  proof (cases "n < 10")
    case True
    then show ?thesis using 1 digit_char [of n] by (simp add: nat_str.simps [of n] dec_val_def)
  next
    case False
    then show ?thesis using 1 digit_char [of "n mod 10"] by (simp add: nat_str.simps [of n] dec_val_def)
  qed
qed

lemma Atoi_Itoa:
  assumes "0 \<le> n" "n < 2 ^ 63"
  shows "Atoi (Itoa n) = Some n" "newline \<notin> set (Itoa n)"
proof -
  have d: "list_all is_digit (nat_str n)" "nat_str n \<noteq> []" "dec_val (nat_str n) = n" using nat_str_digits [OF assms(1)] by simp_all
  then obtain c cs where "nat_str n = c # cs" by (cases "nat_str n") auto
  moreover from this have "c \<noteq> CHR ''-''" "c \<noteq> CHR ''+''" using d(1) by (auto simp: is_digit_def byte_def)
  ultimately show "Atoi (Itoa n) = Some n" using d assms by (simp add: Itoa_def Atoi_def)
  show "newline \<notin> set (Itoa n)" using d(1) assms(1) by (auto simp: Itoa_def list_all_iff is_digit_def byte_def)
qed


subsection \<open>Plain texts\<close>

text \<open>The characters of addresses, names and numbers.\<close>

definition net_char :: "char \<Rightarrow> bool" where
  "net_char c \<longleftrightarrow> is_lower c \<or> is_upper c \<or> is_digit c \<or> c \<in> {CHR ''.'', CHR '':'', CHR ''/'', CHR ''-'', CHR ''_''}"

lemma net_plain: "list_all net_char s \<Longrightarrow> plain_text s \<and> space \<notin> set s"
proof -
  have "\<not> net_char c" if "c = space \<or> c \<in> set ''#&*!|>%@`{}[],?'' \<or> c = CHR 0x22 \<or> c = CHR 0x27 \<or> c = CHR 0x5C" for c
    using that by (auto simp: net_char_def is_lower_def is_upper_def is_digit_def byte_def space_def)
  moreover have "32 \<le> byte c \<and> byte c < 127" if "net_char c" for c
    using that by (auto simp: net_char_def is_lower_def is_upper_def is_digit_def byte_def)
  ultimately show "list_all net_char s \<Longrightarrow> plain_text s \<and> space \<notin> set s" unfolding plain_text_def list_all_iff by blast
qed

lemma addr_net: "addr_char c \<Longrightarrow> net_char c"
  by (auto simp: addr_char_def net_char_def is_hex_def hex_digit_def is_lower_def is_upper_def split: if_splits)

lemma addr_no_dash: "addr_char c \<Longrightarrow> c \<noteq> CHR ''-''"
  by (auto simp: addr_char_def is_hex_def hex_digit_def is_digit_def byte_def split: if_splits)

lemma net_scalar:
  assumes "s \<noteq> []" "list_all net_char s" "last s \<noteq> CHR '':''" "hd s \<noteq> CHR ''-''"
  shows "is_scalar s"
proof -
  note p = net_plain [OF assms(2)]
  have "last s \<noteq> space" "hd s \<noteq> space" using p assms(1) last_in_set hd_in_set by metis+
  moreover have "hd s = CHR '':'' \<Longrightarrow> tl s \<noteq> []" using assms(1,3) by (cases s) auto
  moreover have "tl s \<noteq> [] \<Longrightarrow> hd (tl s) \<noteq> space" using p assms(1) by (metis hd_in_set list.set_sel(2))
  moreover have "split_key s = None" using split_key_None p assms(3) by blast
  ultimately show ?thesis using assms(1,4) p by (auto simp: is_scalar_def plain_start_def)
qed

lemma addr_scalar: "s \<noteq> [] \<Longrightarrow> list_all addr_char s \<Longrightarrow> last s \<noteq> CHR '':'' \<Longrightarrow> is_scalar s"
  by (rule net_scalar) (auto simp: list_all_iff addr_net addr_no_dash)

lemma cidr_scalar:
  assumes "ParseCIDR s = Some r"
  shows "is_scalar s"
proof -
  obtain ip mk f where cut: "Cut s CHR ''/'' = (ip, mk, f)" by (rule prod_cases3)
  have f: "f" "list_all is_digit mk" using assms cut by (auto simp: ParseCIDR_def split: if_splits option.splits)
  have s: "s = ip @ CHR ''/'' # mk" using cut f(1) by (induction s arbitrary: ip) (auto split: if_splits prod.splits)
  note c = ParseCIDR_chars [OF assms]
  have "list_all net_char s" using c addr_net by (auto simp: list_all_iff net_char_def)
  moreover have "hd s \<noteq> CHR ''-''" using c s addr_no_dash by (cases ip) auto
  moreover have "last (CHR ''/'' # mk) \<noteq> CHR '':''" using f(2) by (cases mk rule: rev_cases) (auto simp: is_digit_def byte_def)
  ultimately show ?thesis using s by (intro net_scalar) auto
qed

lemma number_scalar:
  assumes "0 \<le> n" "n < 2 ^ 63"
  shows "is_scalar (Itoa n)"
proof -
  have d: "list_all is_digit (nat_str n)" "nat_str n \<noteq> []" using nat_str_digits [OF assms(1)] by simp_all
  have "is_digit (hd (nat_str n))" "is_digit (last (nat_str n))" using d by (auto simp: list_all_iff)
  then have "hd (nat_str n) \<noteq> CHR ''-''" "last (nat_str n) \<noteq> CHR '':''" by (auto simp: is_digit_def byte_def)
  then show ?thesis using d assms(1) by (auto simp: Itoa_def list_all_iff net_char_def intro!: net_scalar)
qed

lemma name_key: "validInterfaceName s \<Longrightarrow> is_key s"
  using net_plain [of s] by (auto simp: validInterfaceName_def is_key_def list_all_iff net_char_def is_lower_def is_upper_def is_digit_def byte_def)

lemma FormatBool_scalar: "is_scalar (FormatBool b)" by (cases b) (simp_all add: FormatBool_def, code_simp+)

lemma fixed_texts:
  "is_scalar ''false''" "is_scalar ''2''" "is_scalar ''networkd''" "is_scalar ''default''"
  "list_all is_key [''network'', ''version'', ''renderer'', ''ethernets'', ''dhcp4'', ''dhcp6'', ''mtu'', ''addresses'', ''routes'', ''nameservers'', ''to'', ''via'']"
  by code_simp+

lemma ParseIP_nonempty: "ParseIP s = Some ip \<Longrightarrow> s \<noteq> []"
proof -
  have "ParseIP [] = None" by code_simp
  then show "ParseIP s = Some ip \<Longrightarrow> s \<noteq> []" by auto
qed

text \<open>No address to be written as it is ends in a colon.\<close>

definition no_open_colon :: "network_plan \<Rightarrow> bool" where
  "no_open_colon p \<longleftrightarrow> list_all (\<lambda>a. a = [] \<or> last a \<noteq> CHR '':'') (np_gateway4 p # np_nameservers p)"

lemma plain_tree:
  assumes "ValidateNetworkPlan p known = None" "no_open_colon p"
  shows "plain_yaml (netplan_tree p)"
proof -
  note v = valid_parts [OF assms(1)]
  have k: "is_key (np_interface p)" by (rule name_key [OF v(1)])
  have a: "list_all is_scalar (np_addresses p)" using v(6) cidr_scalar unfolding list_all_iff by blast
  have ip: "is_scalar x" if "ParseIP x = Some y" "x = [] \<or> last x \<noteq> CHR '':''" for x y
    using addr_scalar [OF ParseIP_nonempty [OF that(1)] ParseIP_chars [OF that(1)]] ParseIP_nonempty [OF that(1)] that(2) by blast
  have n: "list_all is_scalar (np_nameservers p)" using v(8) assms(2) ip unfolding no_open_colon_def list_all_iff list.set by blast
  have g: "is_scalar (np_gateway4 p)" if "np_gateway4 p \<noteq> []"
    using v(7) that assms(2) ip unfolding no_open_colon_def list.pred_inject by blast
  have m: "is_scalar (Itoa (np_mtu p))" if "np_mtu p \<noteq> 0" using v(2) that by (intro number_scalar) auto
  have s: "list_all plain_yaml (map Scalar xs) = list_all is_scalar xs" for xs by (induction xs) simp_all
  have t: "plain_yaml (Mapping (plan_settings p))"
    using a n g m FormatBool_scalar fixed_texts by (simp add: plan_settings_def s)
  show ?thesis using k t fixed_texts by (simp add: netplan_tree_def)
qed

lemma tree_small: "height (netplan_tree p) < length (write_yaml (netplan_tree p))"
proof -
  have "foldr (\<lambda>v m. max (height v) m) (map Scalar xs) 0 = 0" for xs by (induction xs) simp_all
  then have "height (netplan_tree p) \<le> 7" by (simp add: netplan_tree_def plan_settings_def)
  moreover have "8 \<le> length (write_yaml (netplan_tree p))" by (simp add: write_yaml_def netplan_tree_def yaml_lines.simps(2) yaml_line_text line_def)
  ultimately show ?thesis by simp
qed


definition sample_plan :: network_plan where
  "sample_plan = \<lparr>np_version = 0, np_interface = ''eth0'', np_dhcp4 = False, np_addresses = [''10.0.0.2/24'', ''fd00::2/64''],
     np_gateway4 = ''10.0.0.1'', np_nameservers = [''1.1.1.1''], np_mtu = 1500\<rparr>"


text \<open>
  The colon matters: the name server \<open>fe80::\<close> is accepted, and the document has in its place a mapping with the key \<open>fe80:\<close>.
\<close>
theorem open_colon_misread:
  "\<exists>doc t. RenderNetplan (sample_plan\<lparr>np_nameservers := [''fe80::'']\<rparr>) = Inr doc \<and> read_yaml doc = Some t
     \<and> t \<noteq> netplan_tree (sample_plan\<lparr>np_nameservers := [''fe80::'']\<rparr>)"
proof -
  let ?p = "sample_plan\<lparr>np_nameservers := [''fe80::'']\<rparr>"
  have "case RenderNetplan ?p of Inr doc \<Rightarrow> (case read_yaml doc of Some t \<Rightarrow> t \<noteq> netplan_tree ?p | None \<Rightarrow> False) | Inl _ \<Rightarrow> False" by code_simp
  then show ?thesis by (auto split: sum.splits option.splits)
qed

end
