(* ===== verification/Certs.thy ===== *)
theory Certs
  imports Loading Network
begin

text \<open>
  Managed certificates of the control plane (\<open>internal/control/certificates.go\<close>) and the PEM loop of
  \<open>internal/certstore/store.go\<close>: upload as a transaction on three files, removal, listing, the test whether the
  configuration refers to a certificate. PEM and X.509 parsing and JSON are parameters.
\<close>

subsection \<open>The first certificate of a PEM text\<close>

text \<open>
  The parameter is \<open>pem.Decode\<close>: type and bytes of the next block and the rest. The loop ends because every block that is
  decoded shortens the text; the fuel is the length of the text.
\<close>

type_synonym pem_decode = "string \<Rightarrow> (string \<times> string \<times> string) option"

fun parse_leaf :: "pem_decode \<Rightarrow> (string \<Rightarrow> go_error + leaf) \<Rightarrow> nat \<Rightarrow> string \<Rightarrow> (go_error + leaf) option" where
  "parse_leaf dec parse fuel data =
     (case dec data of
        None \<Rightarrow> Some (Inl (Errorf ''certificate PEM block not found'' []))
      | Some (ty, bytes, rest) \<Rightarrow>
          if ty = ''CERTIFICATE'' then Some (parse bytes)
          else (case fuel of 0 \<Rightarrow> None | Suc n \<Rightarrow> parse_leaf dec parse n rest))"

declare parse_leaf.simps [simp del]

definition ParseLeafCertificate :: "pem_decode \<Rightarrow> (string \<Rightarrow> go_error + leaf) \<Rightarrow> string \<Rightarrow> go_error + leaf" where
  "ParseLeafCertificate dec parse data =
     (case parse_leaf dec parse (length data) data of Some r \<Rightarrow> r | None \<Rightarrow> Inl (Errorf ''out of fuel'' []))"

subsection \<open>State and parameters\<close>

record certs_io =
  cm_rd :: config_reader
  cm_stateDir :: string
  cm_configPath :: string
  cm_tmp :: string
  cm_runtime :: bool
  cm_pem :: pem_decode
  cm_x509 :: "string \<Rightarrow> go_error + leaf"
  cm_encode :: "string \<Rightarrow> gotime \<Rightarrow> string"
  cm_decode :: "string \<Rightarrow> string option"

record managed_certificate =
  mc_domain :: string
  mc_info :: cert_info
  mc_cert :: string
  mc_key :: string
  mc_inUse :: bool

definition certificatesDir :: "certs_io \<Rightarrow> string" where
  "certificatesDir cm = cm_stateDir cm @ ''/certificates''"

definition slug_char :: "char \<Rightarrow> char" where
  "slug_char c = (if is_lower c \<or> is_digit c \<or> c = CHR ''.'' \<or> c = CHR ''-'' then c else CHR ''_'')"

definition certificateSlug :: "string \<Rightarrow> string" where
  "certificateSlug domain =
     (if HasPrefix domain ''*.'' then ''wildcard-'' @ map slug_char (TrimPrefix domain ''*.'')
      else ''exact-'' @ map slug_char domain)"

definition certDir :: "certs_io \<Rightarrow> string \<Rightarrow> string" where
  "certDir cm domain = certificatesDir cm @ ''/'' @ certificateSlug domain"

definition finalCert :: "certs_io \<Rightarrow> string \<Rightarrow> string" where
  "finalCert cm domain = certDir cm domain @ ''/fullchain.pem''"

definition finalKey :: "certs_io \<Rightarrow> string \<Rightarrow> string" where
  "finalKey cm domain = certDir cm domain @ ''/privkey.pem''"

definition metaPath :: "certs_io \<Rightarrow> string \<Rightarrow> string" where
  "metaPath cm domain = certDir cm domain @ ''/metadata.json''"

definition tmpDir :: "certs_io \<Rightarrow> string" where
  "tmpDir cm = certificatesDir cm @ ''/.cert-candidate-'' @ cm_tmp cm"

definition refers_to :: "certs_io \<Rightarrow> string \<Rightarrow> config \<Rightarrow> virtual_host \<Rightarrow> bool" where
  "refers_to cm domain c v =
     (sameFilePath (cd_cwd (cm_rd cm)) (ResolvePath c (ft_cert (vh_frontTLS v))) (finalCert cm domain)
      \<or> sameFilePath (cd_cwd (cm_rd cm)) (ResolvePath c (ft_key (vh_frontTLS v))) (finalKey cm domain))"

definition certificateInUse :: "certs_io \<Rightarrow> string \<Rightarrow> world \<Rightarrow> world \<times> (go_error + bool)" where
  "certificateInUse cm domain w =
     (case Load (cm_rd cm) (cm_configPath cm) w of
        (w1, Inl e) \<Rightarrow> (w1, Inl e)
      | (w1, Inr c) \<Rightarrow> (w1, Inr (list_ex (refers_to cm domain c) (c_vhosts c))))"

subsection \<open>Upload\<close>

text \<open>The candidate is checked in a directory of its own before anything of the store is touched.\<close>

definition check_candidate :: "certs_io \<Rightarrow> string \<Rightarrow> string \<Rightarrow> string \<Rightarrow> world \<Rightarrow> world \<times> (go_error + cert_info)" where
  "check_candidate cm domain certData keyData w =
     (case writeAtomic (tmpDir cm @ ''/fullchain.pem'') certData w of
        (w1, Some e) \<Rightarrow> (w1, Inl e)
      | (w1, None) \<Rightarrow>
          (case writeAtomic (tmpDir cm @ ''/privkey.pem'') keyData w1 of
             (w2, Some e) \<Rightarrow> (w2, Inl e)
           | (w2, None) \<Rightarrow>
               (w2, case ValidatePair (files_cert_io (cm_rd cm) w2) (tmpDir cm @ ''/fullchain.pem'') (tmpDir cm @ ''/privkey.pem'') (cd_now (cm_rd cm)) of
                  Inl e \<Rightarrow> Inl e
                | Inr info \<Rightarrow>
                    (case ParseLeafCertificate (cm_pem cm) (cm_x509 cm) certData of
                       Inl e \<Rightarrow> Inl e
                     | Inr lf \<Rightarrow>
                         if VerifyDomain (cd_lib (cm_rd cm)) (files_cert_io (cm_rd cm) w2) (Some lf) domain then Inr info
                         else Inl (Errorf ''certificate does not cover %s: %w'' [domain])))))"

type_synonym cert_files = "string option \<times> string option \<times> string option"

definition restore_cert :: "certs_io \<Rightarrow> string \<Rightarrow> cert_files \<Rightarrow> world \<Rightarrow> world \<times> go_error option" where
  "restore_cert cm domain old w =
     (case old of (c, k, m) \<Rightarrow>
        if c = None \<and> k = None \<and> m = None then RemoveAll (certDir cm domain) w
        else (case restoreOptional (finalCert cm domain) c w of (w1, e1) \<Rightarrow>
              (case restoreOptional (finalKey cm domain) k w1 of (w2, e2) \<Rightarrow>
               (case restoreOptional (metaPath cm domain) m w2 of (w3, e3) \<Rightarrow> (w3, join_err (join_err e1 e2) e3)))))"

definition read_cert_files :: "certs_io \<Rightarrow> string \<Rightarrow> world \<Rightarrow> world \<times> (go_error + cert_files)" where
  "read_cert_files cm domain w =
     (case readOptional (finalCert cm domain) w of
        (w1, Inl e) \<Rightarrow> (w1, Inl e)
      | (w1, Inr c) \<Rightarrow>
          (case readOptional (finalKey cm domain) w1 of
             (w2, Inl e) \<Rightarrow> (w2, Inl e)
           | (w2, Inr k) \<Rightarrow>
               (case readOptional (metaPath cm domain) w2 of
                  (w3, Inl e) \<Rightarrow> (w3, Inl e)
                | (w3, Inr m) \<Rightarrow>
                    if (c = None) \<noteq> (k = None)
                    then (w3, Inl (Errorf ''existing managed certificate is incomplete; repair or remove it before replacement'' []))
                    else (w3, Inr (c, k, m)))))"

text \<open>The three files of the certificate; from the second on a failure takes back what was written.\<close>

definition write_cert_files :: "certs_io \<Rightarrow> string \<Rightarrow> string \<Rightarrow> string \<Rightarrow> cert_files \<Rightarrow> world \<Rightarrow> world \<times> go_error option" where
  "write_cert_files cm domain certData keyData old w =
     (case meet w of
        (w1, Some e) \<Rightarrow> (w1, Some e)
      | (w1, None) \<Rightarrow>
          (case writeAtomic (finalCert cm domain) certData w1 of
             (w2, Some e) \<Rightarrow> (w2, Some e)
           | (w2, None) \<Rightarrow>
               (case writeAtomic (finalKey cm domain) keyData w2 of
                  (w3, Some e) \<Rightarrow> (fst (restore_cert cm domain old w3), Some e)
                | (w3, None) \<Rightarrow>
                    (case writeAtomic (metaPath cm domain) (cm_encode cm domain (cd_now (cm_rd cm))) w3 of
                       (w4, Some e) \<Rightarrow> (fst (restore_cert cm domain old w4), Some e)
                     | (w4, None) \<Rightarrow> (w4, None)))))"

definition activate_cert :: "certs_io \<Rightarrow> string \<Rightarrow> cert_files \<Rightarrow> cert_info \<Rightarrow> world \<Rightarrow> world \<times> (go_error + managed_certificate)" where
  "activate_cert cm domain old info w =
     (case certificateInUse cm domain w of
        (w1, Inl e) \<Rightarrow> (fst (restore_cert cm domain old w1), Inl e)
      | (w1, Inr used) \<Rightarrow>
          (let mc = \<lparr>mc_domain = domain, mc_info = info, mc_cert = finalCert cm domain, mc_key = finalKey cm domain, mc_inUse = used\<rparr> in
           if \<not> (used \<and> cm_runtime cm) then (w1, Inr mc)
           else case call_reload w1 of
             (w2, None) \<Rightarrow> (w2, Inr mc)
           | (w2, Some e) \<Rightarrow>
               (case restore_cert cm domain old w2 of
                  (w3, Some e2) \<Rightarrow> (w3, Inl (Wrapped ''certificate reload failed: %v; rollback failed: %w'' [] [e, e2]))
                | (w3, None) \<Rightarrow>
                    (case (if fst old \<noteq> None then call_reload w3 else (w3, None)) of
                       (w4, Some e2) \<Rightarrow> (w4, Inl (Wrapped ''certificate reload failed: %v; rollback failed: %w'' [] [e, e2]))
                     | (w4, None) \<Rightarrow> (w4, Inl (Wrapped ''certificate reload failed and replacement was rolled back: %w'' [] [e]))))))"

definition install_checked :: "certs_io \<Rightarrow> string \<Rightarrow> string \<Rightarrow> string \<Rightarrow> world \<Rightarrow> world \<times> (go_error + managed_certificate)" where
  "install_checked cm domain certData keyData w =
     (case check_candidate cm domain certData keyData w of
        (w1, Inl e) \<Rightarrow> (w1, Inl e)
      | (w1, Inr info) \<Rightarrow>
          (case read_cert_files cm domain w1 of
             (w2, Inl e) \<Rightarrow> (w2, Inl e)
           | (w2, Inr old) \<Rightarrow>
               (case write_cert_files cm domain certData keyData old w2 of
                  (w3, Some e) \<Rightarrow> (w3, Inl e)
                | (w3, None) \<Rightarrow> activate_cert cm domain old info w3)))"

text \<open>The candidate directory is removed on every way out, whatever that removal returns.\<close>

definition installCertificate :: "certs_io \<Rightarrow> string \<Rightarrow> string \<Rightarrow> string \<Rightarrow> world \<Rightarrow> world \<times> (go_error + managed_certificate)" where
  "installCertificate cm domain certData keyData w =
     (case meet w of
        (w1, Some e) \<Rightarrow> (w1, Inl e)
      | (w1, None) \<Rightarrow>
          (case meet w1 of
             (w2, Some e) \<Rightarrow> (w2, Inl e)
           | (w2, None) \<Rightarrow>
               (case install_checked cm domain certData keyData w2 of (w3, r) \<Rightarrow> (fst (RemoveAll (tmpDir cm) w3), r))))"

subsection \<open>Removal and listing\<close>

definition dir_exists :: "string \<Rightarrow> world \<Rightarrow> bool" where
  "dir_exists dir w = list_ex (\<lambda>(p, _). prefix (dir @ ''/'') p) (wo_files w)"

text \<open>\<open>Inl\<close> holds the status and the text of the answer.\<close>

definition deleteCertificate :: "certs_io \<Rightarrow> string \<Rightarrow> world \<Rightarrow> world \<times> (int \<times> go_error) option" where
  "deleteCertificate cm domain w =
     (case certificateInUse cm domain w of
        (w1, Inl e) \<Rightarrow> (w1, Some (500, e))
      | (w1, Inr True) \<Rightarrow> (w1, Some (409, Errorf ''certificate is referenced by a configured virtual host'' []))
      | (w1, Inr False) \<Rightarrow>
          (case meet w1 of
             (w2, e) \<Rightarrow>
               if e = Some ErrNotExist \<or> (e = None \<and> \<not> dir_exists (certDir cm domain) w2) then (w2, Some (404, Errorf ''certificate not found'' []))
               else (case RemoveAll (certDir cm domain) w2 of (w3, e3) \<Rightarrow> (w3, map_option (\<lambda>e. (500, e)) e3))))"

fun list_certs :: "certs_io \<Rightarrow> string list \<Rightarrow> world \<Rightarrow> world \<times> managed_certificate list" where
  "list_certs cm [] w = (w, [])"
| "list_certs cm (n # ns) w =
     (let dir = certificatesDir cm @ ''/'' @ n in
      case ReadFile (dir @ ''/metadata.json'') w of
        (w1, Inl _) \<Rightarrow> list_certs cm ns w1
      | (w1, Inr data) \<Rightarrow>
          (case cm_decode cm data of
             None \<Rightarrow> list_certs cm ns w1
           | Some domain \<Rightarrow>
               if domain = [] then list_certs cm ns w1
               else (case ValidatePair (files_cert_io (cm_rd cm) w1) (dir @ ''/fullchain.pem'') (dir @ ''/privkey.pem'') (cd_now (cm_rd cm)) of
                   Inl _ \<Rightarrow> list_certs cm ns w1
                 | Inr info \<Rightarrow>
                     (case certificateInUse cm domain w1 of (w2, used) \<Rightarrow>
                      (case list_certs cm ns w2 of (w3, rest) \<Rightarrow>
                        (w3, \<lparr>mc_domain = domain, mc_info = info, mc_cert = dir @ ''/fullchain.pem'', mc_key = dir @ ''/privkey.pem'',
                              mc_inUse = (used = Inr True)\<rparr> # rest))))))"


definition listCertificates :: "certs_io \<Rightarrow> world \<Rightarrow> world \<times> (go_error + managed_certificate list)" where
  "listCertificates cm w =
     (case meet w of
        (w1, Some e) \<Rightarrow> (w1, if e = ErrNotExist then Inr [] else Inl e)
      | (w1, None) \<Rightarrow> (case list_certs cm (subdirs (certificatesDir cm) w1) w1 of (w2, cs) \<Rightarrow> (w2, Inr (sort_key mc_domain cs))))"

subsection \<open>Paths\<close>

definition cert_view :: "certs_io \<Rightarrow> string \<Rightarrow> world \<Rightarrow> cert_files" where
  "cert_view cm domain w = (content (finalCert cm domain) w, content (finalKey cm domain) w, content (metaPath cm domain) w)"

definition running_cert :: "certs_io \<Rightarrow> string \<Rightarrow> world \<Rightarrow> string option \<times> string option" where
  "running_cert cm domain w = (map_of (wo_running w) (finalCert cm domain), map_of (wo_running w) (finalKey cm domain))"

definition the_pair :: "cert_files \<Rightarrow> string option \<times> string option" where
  "the_pair = (\<lambda>(c, k, m). (c, k))"

lemma final_apart:
  "finalCert cm d \<noteq> finalKey cm d" "finalCert cm d \<noteq> metaPath cm d" "finalKey cm d \<noteq> metaPath cm d"
  "finalKey cm d \<noteq> finalCert cm d" "metaPath cm d \<noteq> finalCert cm d" "metaPath cm d \<noteq> finalKey cm d"
  by (simp_all add: finalCert_def finalKey_def metaPath_def)

lemma tmp_apart: "\<not> prefix (tmpDir cm) (certDir cm d @ x)"
proof -
  have "hd (certificateSlug d @ x) \<in> {CHR ''e'', CHR ''w''}" "certificateSlug d @ x \<noteq> []"
    by (auto simp: certificateSlug_def split: if_splits)
  then show ?thesis by (cases "certificateSlug d @ x") (auto simp: tmpDir_def certDir_def)
qed

lemma spares_view:
  assumes "spares (tmpDir cm) w w1"
  shows "cert_view cm d w1 = cert_view cm d w \<and> running_cert cm d w1 = running_cert cm d w"
  using assms tmp_apart [of cm d] by (simp add: spares_def cert_view_def running_cert_def finalCert_def finalKey_def metaPath_def)

lemma quiet_view: "quiet w w1 \<Longrightarrow> cert_view cm d w1 = cert_view cm d w \<and> running_cert cm d w1 = running_cert cm d w"
  by (rule spares_view [OF quiet_spares])

lemma synced_cert: "wo_running w = wo_files w \<Longrightarrow> running_cert cm d w = the_pair (cert_view cm d w)"
  by (simp add: running_cert_def the_pair_def cert_view_def content_def)

subsection \<open>Steps of an upload\<close>

lemma check_candidate_spares:
  assumes "check_candidate cm d c k w = (w1, r)"
  shows "spares (tmpDir cm) w w1"
proof -
  obtain w2 f2 where 2: "writeAtomic (tmpDir cm @ ''/fullchain.pem'') c w = (w2, f2)" by (rule prod.exhaust)
  obtain w3 f3 where 3: "writeAtomic (tmpDir cm @ ''/privkey.pem'') k w2 = (w3, f3)" by (rule prod.exhaust)
  have "spares (tmpDir cm) w w2" by (rule writeAtomic_spares [OF 2]) simp
  moreover have "spares (tmpDir cm) w2 w3" by (rule writeAtomic_spares [OF 3]) simp
  ultimately show ?thesis using assms 2 3 spares_trans [of "tmpDir cm" w w2 w3]
    by (cases f2; cases f3) (auto simp: check_candidate_def)
qed

lemma read_cert_files_step:
  assumes "read_cert_files cm d w = (w1, r)" "one_fault w"
  shows "quiet w w1 \<and> (\<forall>old. r = Inr old \<longrightarrow> cert_view cm d w = old \<and> (fst old = None \<longleftrightarrow> fst (snd old) = None))"
proof -
  obtain w2 c where 2: "readOptional (finalCert cm d) w = (w2, c)" by (rule prod.exhaust)
  note q2 = readOptional_quiet [OF 2]
  obtain w3 k where 3: "readOptional (finalKey cm d) w2 = (w3, k)" by (rule prod.exhaust)
  note q3 = quiet_trans [OF q2 readOptional_quiet [OF 3]]
  obtain w4 m where 4: "readOptional (metaPath cm d) w3 = (w4, m)" by (rule prod.exhaust)
  note q4 = quiet_trans [OF q3 readOptional_quiet [OF 4]]
  have o: "one_fault w2" "one_fault w3" using q2 q3 assms(2) by (auto simp: quiet_def)
  have v: "\<forall>x. c = Inr x \<longrightarrow> content (finalCert cm d) w = x" "\<forall>x. k = Inr x \<longrightarrow> content (finalKey cm d) w2 = x"
    "\<forall>x. m = Inr x \<longrightarrow> content (metaPath cm d) w3 = x"
    using readOptional_step [OF 2 assms(2)] readOptional_step [OF 3 o(1)] readOptional_step [OF 4 o(2)] by blast+
  have e: "content q w2 = content q w" "content q w3 = content q w" for q using q2 q3 by (simp_all add: quiet_def content_def)
  show ?thesis using assms(1) 2 3 4 q2 q3 q4 v e
    by (cases c; cases k; cases m) (auto simp: read_cert_files_def cert_view_def split: if_splits)
qed

lemma restore_cert_step:
  assumes "restore_cert cm d old w = (w1, f)" "one_fault w"
  shows "wo_running w1 = wo_running w \<and> (f = None \<longrightarrow> cert_view cm d w1 = old) \<and> one_fault w1 \<and> (calm w \<longrightarrow> f = None \<and> calm w1)"
proof -
  obtain c k m where old: "old = (c, k, m)" by (rule prod_cases3)
  show ?thesis
  proof (cases "c = None \<and> k = None \<and> m = None")
    case True
    then have r: "RemoveAll (certDir cm d) w = (w1, f)" using assms(1) old by (simp add: restore_cert_def)
    note s = RemoveAll_step [OF r]
    have v: "f = None \<longrightarrow> cert_view cm d w1 = old"
      using s [of "finalCert cm d"] s [of "finalKey cm d"] s [of "metaPath cm d"] True old
      by (simp add: cert_view_def lies_in_def finalCert_def finalKey_def metaPath_def)
    have b: "budget w f w1" "wo_running w1 = wo_running w" using s by blast+
    show ?thesis using v b(2) budget_next(1,2) [OF b(1)] assms(2) by blast
  next
    case False
    obtain w2 e2 where 2: "restoreOptional (finalCert cm d) c w = (w2, e2)" by (rule prod.exhaust)
    obtain w3 e3 where 3: "restoreOptional (finalKey cm d) k w2 = (w3, e3)" by (rule prod.exhaust)
    obtain w4 e4 where 4: "restoreOptional (metaPath cm d) m w3 = (w4, e4)" by (rule prod.exhaust)
    have e: "w1 = w4" "f = join_err (join_err e2 e3) e4" using assms(1) old False 2 3 4 by (simp_all add: restore_cert_def)
    have n: "f = None \<longleftrightarrow> e2 = None \<and> e3 = None \<and> e4 = None" unfolding e join_err_def by (auto split: option.splits)
    note s2 = restore_only [OF 2 assms(2)]
    note s3 = restore_only [OF 3 s2 [THEN conjunct2, THEN conjunct1]]
    note s4 = restore_only [OF 4 s3 [THEN conjunct2, THEN conjunct1]]
    show ?thesis using s2 s3 s4 e(1) n old final_apart [of cm d] by (simp add: cert_view_def)
  qed
qed


lemma write_cert_files_step:
  assumes "write_cert_files cm d c k old w = (w1, f)" "one_fault w" "cert_view cm d w = old"
  shows "wo_running w1 = wo_running w \<and> one_fault w1 \<and> (f \<noteq> None \<longrightarrow> cert_view cm d w1 = old)
    \<and> (f = None \<longrightarrow> cert_view cm d w1 = (Some c, Some k, Some (cm_encode cm d (cd_now (cm_rd cm)))) \<and> (calm w \<longrightarrow> calm w1)) \<and> (f \<noteq> None \<longrightarrow> \<not> calm w)"
proof -
  note ne = final_apart [of cm d]
  obtain w2 f2 where 2: "meet w = (w2, f2)" by (rule prod.exhaust)
  note q2 = meet_quiet [OF 2]
  have o2: "one_fault w2" "calm w \<longrightarrow> calm w2 \<and> f2 = None" using q2 assms(2) budget_next(2) [of w f2 w2] meet_budget [OF 2] by (auto simp: quiet_def)
  have v2: "cert_view cm d w2 = old" "wo_running w2 = wo_running w" using quiet_view [OF q2] q2 assms(3) by (auto simp: quiet_def)
  obtain w3 f3 where 3: "writeAtomic (finalCert cm d) c w2 = (w3, f3)" by (rule prod.exhaust)
  note s3 = write_only [OF 3 o2(1)]
  obtain w4 f4 where 4: "writeAtomic (finalKey cm d) k w3 = (w4, f4)" by (rule prod.exhaust)
  note s4 = write_only [OF 4 s3 [THEN conjunct2, THEN conjunct1]]
  obtain w5 f5 where 5: "writeAtomic (metaPath cm d) (cm_encode cm d (cd_now (cm_rd cm))) w4 = (w5, f5)" by (rule prod.exhaust)
  note s5 = write_only [OF 5 s4 [THEN conjunct2, THEN conjunct1]]
  have undo: ?thesis if "calm x" "wo_running x = wo_running w" "\<not> calm w" "w1 = fst (restore_cert cm d old x)" "f \<noteq> None" for x
    using restore_cert_step [OF _ calm_one [OF that(1)], of cm d old "fst (restore_cert cm d old x)" "snd (restore_cert cm d old x)"] that by auto
  consider "f2 \<noteq> None" | "f2 = None" "f3 \<noteq> None" | "f2 = None" "f3 = None" "f4 \<noteq> None" | "f2 = None" "f3 = None" "f4 = None" "f5 \<noteq> None"
    | "f2 = None" "f3 = None" "f4 = None" "f5 = None" by blast
  then show ?thesis
  proof cases
    case 1
    then show ?thesis using assms(1) 2 o2 v2 by (auto simp: write_cert_files_def)
  next
    case c: 2
    then show ?thesis using assms(1) 2 3 o2 v2 s3 by (auto simp: write_cert_files_def cert_view_def)
  next
    case c: 3
    have "calm w4" "\<not> calm w" using s4 c(3) s3 c(2) o2 by blast+
    then show ?thesis using undo [of w4] assms(1) 2 3 4 c s3 s4 v2 by (auto simp: write_cert_files_def)
  next
    case c: 4
    have "calm w5" "\<not> calm w" using s5 c(4) s4 c(3) s3 c(2) o2 by blast+
    then show ?thesis using undo [of w5] assms(1) 2 3 4 5 c s3 s4 s5 v2 by (auto simp: write_cert_files_def)
  next
    case c: 5
    have "w1 = w5" "f = None" using assms(1) 2 3 4 5 c by (simp_all add: write_cert_files_def)
    then show ?thesis using s3 s4 s5 c o2 v2(2) ne by (simp add: cert_view_def)
  qed
qed

text \<open>The configuration file is there and loads.\<close>

definition config_loads :: "certs_io \<Rightarrow> world \<Rightarrow> bool" where
  "config_loads cm w = loads (cm_rd cm) (cm_configPath cm) w"

lemma inUse_quiet: "certificateInUse cm d w = (w1, r) \<Longrightarrow> quiet w w1"
  by (auto simp: certificateInUse_def intro: Load_quiet split: prod.splits sum.splits)

lemma inUse_fails:
  assumes "certificateInUse cm d w = (w1, Inl e)" "one_fault w" "config_loads cm w"
  shows "calm w1 \<and> \<not> calm w"
proof -
  have "Load (cm_rd cm) (cm_configPath cm) w = (w1, Inl e)"
    using assms(1) by (auto simp: certificateInUse_def split: prod.splits sum.splits)
  from Load_fails [OF this assms(2)] show ?thesis using assms(3) by (simp add: config_loads_def)
qed

lemma activate_cert_step:
  assumes "activate_cert cm d old info w = (w1, r)" "one_fault w" "config_loads cm w"
  shows "case r of
      Inr mc \<Rightarrow> cert_view cm d w1 = cert_view cm d w \<and> (mc_inUse mc \<and> cm_runtime cm \<longrightarrow> running_cert cm d w1 = the_pair (cert_view cm d w))
    | Inl e \<Rightarrow> \<not> calm w \<and> cert_view cm d w1 = old \<and> (running_cert cm d w1 = running_cert cm d w \<or> running_cert cm d w1 = the_pair old)"
proof -
  obtain w2 u where 2: "certificateInUse cm d w = (w2, u)" by (rule prod.exhaust)
  note q2 = inUse_quiet [OF 2]
  have o2: "one_fault w2" using q2 assms(2) by (simp add: quiet_def)
  have v2: "cert_view cm d w2 = cert_view cm d w" "running_cert cm d w2 = running_cert cm d w" using quiet_view [OF q2] by simp_all
  have undo: "snd (restore_cert cm d old x) = None \<and> calm (fst (restore_cert cm d old x)) \<and> cert_view cm d (fst (restore_cert cm d old x)) = old
      \<and> running_cert cm d (fst (restore_cert cm d old x)) = running_cert cm d x" if "calm x" for x
    using restore_cert_step [OF _ calm_one [OF that], of cm d old "fst (restore_cert cm d old x)" "snd (restore_cert cm d old x)"] that
    by (simp add: running_cert_def)
  show ?thesis
  proof (cases u)
    case (Inl e)
    have "calm w2" "\<not> calm w" using inUse_fails [OF 2 [unfolded Inl] assms(2,3)] by blast+
    then show ?thesis using undo [of w2] assms(1) 2 Inl v2 by (auto simp: activate_cert_def)
  next
    case u: (Inr used)
    show ?thesis
    proof (cases "used \<and> cm_runtime cm")
      case False
      then show ?thesis using assms(1) 2 u v2 by (auto simp: activate_cert_def Let_def)
    next
      case True
      obtain w3 f3 where 3: "call_reload w2 = (w3, f3)" by (rule prod.exhaust)
      note s3 = call_reload_step [OF 3]
      have b3: "budget w2 f3 w3" using s3 by blast
      have v3: "cert_view cm d w3 = cert_view cm d w" using s3 v2 by (simp add: cert_view_def content_def)
      show ?thesis
      proof (cases f3)
        case None
        then have "running_cert cm d w3 = the_pair (cert_view cm d w3)" using s3 by (intro synced_cert) simp
        then show ?thesis using assms(1) 2 u True 3 None v3 by (auto simp: activate_cert_def Let_def)
      next
        case (Some e)
        have k: "calm w3" "\<not> calm w" using budget_next(3) [OF b3 [unfolded Some] o2] q2 by (auto simp: quiet_def)
        have r3: "running_cert cm d w3 = running_cert cm d w" using s3 Some v2 by (simp add: running_cert_def)
        obtain w4 f4 where 4: "restore_cert cm d old w3 = (w4, f4)" by (rule prod.exhaust)
        have b4: "f4 = None" "calm w4" "cert_view cm d w4 = old" "running_cert cm d w4 = running_cert cm d w" using undo [OF k(1)] 4 r3 by simp_all
        obtain w5 f5 where 5: "call_reload w4 = (w5, f5)" by (rule prod.exhaust)
        have f5: "f5 = None" using budget_next(2) [of w4 f5 w5] call_reload_step [OF 5] b4(2) by blast
        then have v5: "cert_view cm d w5 = old" "running_cert cm d w5 = the_pair old"
          using call_reload_step [OF 5] b4(3) synced_cert [of w5 cm d] by (simp_all add: cert_view_def content_def)
        show ?thesis using assms(1) 2 u True 3 Some 4 b4 5 f5 v5 k(2) by (auto simp: activate_cert_def Let_def split: if_splits)
      qed
    qed
  qed
qed

text \<open>The configuration file is outside the directory of the certificates.\<close>

definition certs_separate :: "certs_io \<Rightarrow> bool" where
  "certs_separate cm \<longleftrightarrow> \<not> prefix (certificatesDir cm) (cm_configPath cm)"

lemma write_cert_files_spares:
  assumes "write_cert_files cm d c k old w = (w1, None)"
  shows "spares (certificatesDir cm) w w1"
proof -
  have p: "prefix (certificatesDir cm) (finalCert cm d)" "prefix (certificatesDir cm) (finalKey cm d)" "prefix (certificatesDir cm) (metaPath cm d)"
    by (simp_all add: finalCert_def finalKey_def metaPath_def certDir_def)
  obtain w2 f2 where 2: "meet w = (w2, f2)" by (rule prod.exhaust)
  obtain w3 f3 where 3: "writeAtomic (finalCert cm d) c w2 = (w3, f3)" by (rule prod.exhaust)
  obtain w4 f4 where 4: "writeAtomic (finalKey cm d) k w3 = (w4, f4)" by (rule prod.exhaust)
  obtain w5 f5 where 5: "writeAtomic (metaPath cm d) (cm_encode cm d (cd_now (cm_rd cm))) w4 = (w5, f5)" by (rule prod.exhaust)
  have "w1 = w5" using assms 2 3 4 5 by (auto simp: write_cert_files_def split: option.splits)
  then show ?thesis
    using spares_trans [OF meet_spares [OF 2] spares_trans [OF writeAtomic_spares [OF 3 p(1)] spares_trans [OF writeAtomic_spares [OF 4 p(2)] writeAtomic_spares [OF 5 p(3)]]]]
    by simp
qed

lemma spares_wider: "spares (dir @ x) w w1 \<Longrightarrow> spares dir w w1"
  unfolding spares_def using append_prefixD by blast

lemma spares_loads: "spares (certificatesDir cm) w w1 \<Longrightarrow> certs_separate cm \<Longrightarrow> config_loads cm w1 = config_loads cm w"
  by (simp add: spares_def certs_separate_def config_loads_def loads_def)


lemma install_checked_step:
  assumes "install_checked cm d c k w = (w1, r)" "one_fault w" "config_loads cm w" "certs_separate cm"
  shows "case r of
      Inr mc \<Rightarrow> cert_view cm d w1 = (Some c, Some k, Some (cm_encode cm d (cd_now (cm_rd cm)))) \<and> (mc_inUse mc \<and> cm_runtime cm \<longrightarrow> running_cert cm d w1 = (Some c, Some k))
    | Inl e \<Rightarrow> cert_view cm d w1 = cert_view cm d w \<and> (running_cert cm d w1 = running_cert cm d w \<or> running_cert cm d w1 = the_pair (cert_view cm d w))"
proof -
  obtain w2 i where 2: "check_candidate cm d c k w = (w2, i)" by (rule prod.exhaust)
  note p2 = check_candidate_spares [OF 2]
  have o2: "one_fault w2" using p2 assms(2) by (simp add: spares_def)
  have v2: "cert_view cm d w2 = cert_view cm d w" "running_cert cm d w2 = running_cert cm d w" using spares_view [OF p2] by simp_all
  obtain w3 r3 where 3: "read_cert_files cm d w2 = (w3, r3)" by (rule prod.exhaust)
  note s3 = read_cert_files_step [OF 3 o2]
  have q3: "quiet w2 w3" using s3 by blast
  have o3: "one_fault w3" using q3 o2 by (simp add: quiet_def)
  have v3: "cert_view cm d w3 = cert_view cm d w" "running_cert cm d w3 = running_cert cm d w" using quiet_view [OF q3] v2 by simp_all
  show ?thesis
  proof (cases "isl i \<or> isl r3")
    case True
    then show ?thesis using assms(1) 2 3 v2 v3 by (cases i; cases r3) (auto simp: install_checked_def)
  next
    case False
    then obtain info old where e: "i = Inr info" "r3 = Inr old" by (cases i; cases r3) auto
    have old: "cert_view cm d w = old" using s3 e(2) v2(1) by simp
    obtain w4 f4 where 4: "write_cert_files cm d c k old w3 = (w4, f4)" by (rule prod.exhaust)
    have "cert_view cm d w3 = old" using v3 old by simp
    note s4 = write_cert_files_step [OF 4 o3 this]
    have r4: "running_cert cm d w4 = running_cert cm d w" using s4 v3 by (simp add: running_cert_def)
    show ?thesis
    proof (cases f4)
      case (Some x)
      then show ?thesis using assms(1) 2 3 4 e s4 r4 old by (auto simp: install_checked_def)
    next
      case None
      have "spares (certificatesDir cm) w w4"
        using spares_trans [OF spares_trans [OF spares_wider quiet_spares [OF q3]] write_cert_files_spares [OF 4 [unfolded None]]] p2 unfolding tmpDir_def by blast
      then have l4: "config_loads cm w4" using spares_loads assms(3,4) by blast
      have a: "activate_cert cm d old info w4 = (w1, r)" using assms(1) 2 3 4 e None by (simp add: install_checked_def)
      have o4: "one_fault w4" using s4 by blast
      show ?thesis using activate_cert_step [OF a o4 l4] s4 None old r4 by (auto simp: the_pair_def split: sum.splits)
    qed
  qed
qed

lemma installCertificate_step:
  assumes "installCertificate cm d c k w = (w1, r)" "one_fault w" "config_loads cm w" "certs_separate cm"
  shows "case r of
      Inr mc \<Rightarrow> cert_view cm d w1 = (Some c, Some k, Some (cm_encode cm d (cd_now (cm_rd cm)))) \<and> (mc_inUse mc \<and> cm_runtime cm \<longrightarrow> running_cert cm d w1 = (Some c, Some k))
    | Inl e \<Rightarrow> cert_view cm d w1 = cert_view cm d w \<and> (running_cert cm d w1 = running_cert cm d w \<or> running_cert cm d w1 = the_pair (cert_view cm d w))"
proof -
  obtain w2 f2 where 2: "meet w = (w2, f2)" by (rule prod.exhaust)
  obtain w3 f3 where 3: "meet w2 = (w3, f3)" by (rule prod.exhaust)
  note q2 = meet_quiet [OF 2] and q3 = quiet_trans [OF meet_quiet [OF 2] meet_quiet [OF 3]]
  obtain w4 r4 where 4: "install_checked cm d c k w3 = (w4, r4)" by (rule prod.exhaust)
  obtain w5 f5 where 5: "RemoveAll (tmpDir cm) w4 = (w5, f5)" by (rule prod.exhaust)
  note v5 = spares_view [OF RemoveAll_spares [OF 5 prefix_order.refl], of d]
  show ?thesis
  proof (cases "f2 = None \<and> f3 = None")
    case False
    then show ?thesis using assms(1) 2 3 quiet_view [OF q2, of cm d] quiet_view [OF q3, of cm d] by (cases f2; cases f3) (auto simp: installCertificate_def)
  next
    case True
    have k3: "one_fault w3" "config_loads cm w3" using q3 assms(2,3) by (simp_all add: quiet_def config_loads_def loads_def content_def)
    have e: "w1 = w5" "r = r4" using assms(1) 2 3 4 5 True by (simp_all add: installCertificate_def)
    show ?thesis using install_checked_step [OF 4 k3 assms(4)] quiet_view [OF q3, of cm d] v5 unfolding e by (cases r4) simp_all
  qed
qed

text \<open>
  C25. Installing a certificate is all or nothing. When the active configuration loads and at most one call
  fails, either the certificate, its key and its metadata are the uploaded ones, and they run when a virtual host refers to them, or
  all three files are as before, and what runs is what ran or the restored files.
\<close>
theorem certificate_transaction:
  assumes "installCertificate cm d c k w = (w1, r)" "one_fault w" "config_loads cm w" "certs_separate cm"
  shows "case r of
      Inr mc \<Rightarrow> cert_view cm d w1 = (Some c, Some k, Some (cm_encode cm d (cd_now (cm_rd cm)))) \<and> (mc_inUse mc \<and> cm_runtime cm \<longrightarrow> running_cert cm d w1 = (Some c, Some k))
    | Inl e \<Rightarrow> cert_view cm d w1 = cert_view cm d w \<and> (running_cert cm d w1 = running_cert cm d w \<or> running_cert cm d w1 = the_pair (cert_view cm d w))"
  by (rule installCertificate_step [OF assms])

subsection \<open>Runs of uploads\<close>

text \<open>Without faults an upload touches the three files of its domain and the candidate directory, nothing else.\<close>

definition elsewhere :: "certs_io \<Rightarrow> string \<Rightarrow> string \<Rightarrow> bool" where
  "elsewhere cm d q \<longleftrightarrow> q \<noteq> finalCert cm d \<and> q \<noteq> finalKey cm d \<and> q \<noteq> metaPath cm d \<and> \<not> prefix (tmpDir cm) q"

lemma write_cert_files_calm:
  assumes "write_cert_files cm d c k old w = (w1, f)" "calm w"
  shows "f = None \<and> calm w1 \<and> (\<forall>q. elsewhere cm d q \<longrightarrow> content q w1 = content q w)"
proof -
  obtain w2 f2 where 2: "meet w = (w2, f2)" by (rule prod.exhaust)
  obtain w3 f3 where 3: "writeAtomic (finalCert cm d) c w2 = (w3, f3)" by (rule prod.exhaust)
  obtain w4 f4 where 4: "writeAtomic (finalKey cm d) k w3 = (w4, f4)" by (rule prod.exhaust)
  obtain w5 f5 where 5: "writeAtomic (metaPath cm d) (cm_encode cm d (cd_now (cm_rd cm))) w4 = (w5, f5)" by (rule prod.exhaust)
  have c2: "calm w2" "f2 = None" using calm_files_ops(1) [OF 2 assms(2)] by blast+
  have c3: "calm w3" "f3 = None" using calm_files_ops(4) [OF 3 c2(1)] by blast+
  have c4: "calm w4" "f4 = None" using calm_files_ops(4) [OF 4 c3(1)] by blast+
  have c5: "calm w5" "f5 = None" using calm_files_ops(4) [OF 5 c4(1)] by blast+
  have r: "w1 = w5" "f = None" using assms(1) 2 3 4 5 c2 c3 c4 c5 by (simp_all add: write_cert_files_def)
  have "content q w5 = content q w" if "elsewhere cm d q" for q
    using writeAtomic_step [OF 3, of q] writeAtomic_step [OF 4, of q] writeAtomic_step [OF 5, of q] meet_quiet [OF 2] that
    by (auto simp: elsewhere_def quiet_def content_def)
  then show ?thesis using r c5 by simp
qed

lemma activate_cert_calm:
  assumes "activate_cert cm d old info w = (w1, r)" "calm w" "config_loads cm w"
  shows "calm w1 \<and> wo_files w1 = wo_files w"
proof -
  obtain w2 u where 2: "certificateInUse cm d w = (w2, u)" by (rule prod.exhaust)
  obtain x where u: "u = Inr x" using inUse_fails [of cm d w w2] 2 calm_one [OF assms(2)] assms(2,3) by (cases u) auto
  have c2: "calm w2" "wo_files w2 = wo_files w" using inUse_quiet [OF 2] assms(2) by (simp_all add: quiet_def)
  obtain w3 f where 3: "call_reload w2 = (w3, f)" by (rule prod.exhaust)
  have c3: "calm w3" "f = None" "wo_files w3 = wo_files w2" using calm_files_ops(6) [OF 3 c2(1)] call_reload_step [OF 3] by blast+
  show ?thesis using assms(1) 2 u 3 c2 c3 by (auto simp: activate_cert_def Let_def split: if_splits)
qed

lemma install_checked_calm:
  assumes "install_checked cm d c k w = (w1, r)" "calm w" "config_loads cm w" "certs_separate cm"
  shows "calm w1 \<and> (\<forall>q. elsewhere cm d q \<longrightarrow> content q w1 = content q w)"
proof -
  obtain w2 i where 2: "check_candidate cm d c k w = (w2, i)" by (rule prod.exhaust)
  obtain w3 o' where 3: "read_cert_files cm d w2 = (w3, o')" by (rule prod.exhaust)
  have c2: "calm w2" "\<And>q. elsewhere cm d q \<Longrightarrow> content q w2 = content q w" "config_loads cm w2"
    using check_candidate_spares [OF 2] assms(2-4) spares_loads [OF spares_wider, of cm _ w w2] by (auto simp: spares_def elsewhere_def tmpDir_def)
  have q3: "quiet w2 w3" using read_cert_files_step [OF 3 calm_one [OF c2(1)]] by blast
  then have c3: "calm w3" "\<And>q. content q w3 = content q w2" using c2(1) by (simp_all add: quiet_def content_def)
  show ?thesis
  proof (cases "isl i \<or> isl o'")
    case True
    then show ?thesis using assms(1) 2 3 c2 c3 by (cases i; cases o') (auto simp: install_checked_def)
  next
    case False
    then obtain info old where e: "i = Inr info" "o' = Inr old" by (cases i; cases o') auto
    obtain w4 f where 4: "write_cert_files cm d c k old w3 = (w4, f)" by (rule prod.exhaust)
    note s4 = write_cert_files_calm [OF 4 c3(1)]
    have l4: "config_loads cm w4" using c2(3) spares_loads [OF write_cert_files_spares assms(4)] spares_loads [OF quiet_spares [OF q3] assms(4)] 4 s4 by blast
    have "activate_cert cm d old info w4 = (w1, r)" using assms(1) 2 3 4 e s4 by (simp add: install_checked_def)
    from activate_cert_calm [OF this _ l4] s4 c2 c3 show ?thesis by (simp add: content_def)
  qed
qed

lemma installCertificate_calm:
  assumes "installCertificate cm d c k w = (w1, r)" "calm w" "config_loads cm w" "certs_separate cm"
  shows "calm w1 \<and> config_loads cm w1 \<and> (\<forall>q. elsewhere cm d q \<longrightarrow> content q w1 = content q w)"
proof -
  obtain w2 f2 where 2: "meet w = (w2, f2)" by (rule prod.exhaust)
  obtain w3 f3 where 3: "meet w2 = (w3, f3)" by (rule prod.exhaust)
  obtain w4 r4 where 4: "install_checked cm d c k w3 = (w4, r4)" by (rule prod.exhaust)
  obtain w5 f5 where 5: "RemoveAll (tmpDir cm) w4 = (w5, f5)" by (rule prod.exhaust)
  have c: "f2 = None" "f3 = None" "calm w3" "wo_files w3 = wo_files w"
    using calm_files_ops(1) [OF 2 assms(2)] calm_files_ops(1) [OF 3] quiet_trans [OF meet_quiet [OF 2] meet_quiet [OF 3]] by (auto simp: quiet_def)
  have l3: "config_loads cm w3" using assms(3) c(4) by (simp add: config_loads_def loads_def content_def)
  note s4 = install_checked_calm [OF 4 c(3) l3 assms(4)]
  have s5: "spares (tmpDir cm) w4 w5" by (rule RemoveAll_spares [OF 5]) simp
  have w: "w1 = w5" using assms(1) 2 3 4 5 c by (simp add: installCertificate_def)
  have q: "content q w5 = content q w" if "elsewhere cm d q" for q
    using that s4 s5 c(4) by (simp add: elsewhere_def spares_def content_def)
  have "elsewhere cm d (cm_configPath cm)" using assms(4) append_prefixD
    by (auto simp: elsewhere_def certs_separate_def finalCert_def finalKey_def metaPath_def certDir_def tmpDir_def)
  then have "config_loads cm w5" using q assms(3) by (simp add: config_loads_def loads_def)
  then show ?thesis using q s4 s5 w by (simp add: spares_def)
qed

lemma slug_no_slash: "CHR ''/'' \<notin> set (certificateSlug d)"
  by (auto simp: certificateSlug_def slug_char_def is_lower_def is_digit_def byte_def)

lemma same_slug: "certificateSlug d' = certificateSlug d \<Longrightarrow> cert_view cm d' = cert_view cm d"
  by (simp add: cert_view_def finalCert_def finalKey_def metaPath_def certDir_def fun_eq_iff)

lemma other_slug:
  assumes "certificateSlug d' \<noteq> certificateSlug d" "x \<in> {finalCert cm d', finalKey cm d', metaPath cm d'}"
  shows "elsewhere cm d x"
proof -
  have first: "takeWhile (\<lambda>c. c \<noteq> CHR ''/'') (certificateSlug e @ CHR ''/'' # y) = certificateSlug e" for e y
    using slug_no_slash [of e] by (auto simp: takeWhile_append)
  have n: "certificateSlug d' @ CHR ''/'' # y \<noteq> certificateSlug d @ CHR ''/'' # z" for y z
    using assms(1) first [of d' y] first [of d z] by auto
  then show ?thesis using assms(2) tmp_apart [of cm d']
    by (auto simp: elsewhere_def finalCert_def finalKey_def metaPath_def certDir_def)
qed

definition uploaded :: "certs_io \<Rightarrow> string \<times> string \<times> string \<Rightarrow> (string \<Rightarrow> cert_files) \<Rightarrow> string \<Rightarrow> cert_files" where
  "uploaded cm = (\<lambda>(d, c, k) v d'. if certificateSlug d' = certificateSlug d
     then (Some c, Some k, Some (cm_encode cm d (cd_now (cm_rd cm)))) else v d')"

definition exec_upload :: "certs_io \<Rightarrow> string \<times> string \<times> string \<Rightarrow> world \<Rightarrow> world \<times> (go_error + managed_certificate)" where
  "exec_upload cm = (\<lambda>(d, c, k). installCertificate cm d c k)"

lemma exec_upload_step:
  assumes "exec_upload cm u w = (w1, r)" "calm w" "config_loads cm w" "certs_separate cm"
  shows "(\<lambda>d'. cert_view cm d' w1) = (if isl r then (\<lambda>d'. cert_view cm d' w) else uploaded cm u (\<lambda>d'. cert_view cm d' w))"
proof
  fix d'
  obtain d c k where u: "u = (d, c, k)" by (metis prod.exhaust)
  have i: "installCertificate cm d c k w = (w1, r)" using assms(1) by (simp add: exec_upload_def u)
  show "cert_view cm d' w1 = (if isl r then (\<lambda>d'. cert_view cm d' w) else uploaded cm u (\<lambda>d'. cert_view cm d' w)) d'"
  proof (cases "certificateSlug d' = certificateSlug d")
    case True
    then show ?thesis using installCertificate_step [OF i calm_one [OF assms(2)] assms(3,4)] same_slug [OF True]
      by (cases r) (auto simp: uploaded_def u)
  next
    case False
    then have "cert_view cm d' w1 = cert_view cm d' w"
      using installCertificate_calm [OF i assms(2-4)] other_slug [OF False] by (simp add: cert_view_def)
    then show ?thesis using False by (simp add: uploaded_def u)
  qed
qed

interpretation uploads: transactional "exec_upload cm" "\<lambda>w d'. cert_view cm d' w" "uploaded cm" "\<lambda>w. calm w \<and> config_loads cm w \<and> certs_separate cm"
  "\<lambda>_. True" "\<lambda>_. False"
proof
  show "calm w1 \<and> config_loads cm w1 \<and> certs_separate cm" if "calm w \<and> config_loads cm w \<and> certs_separate cm" "exec_upload cm u w = (w1, r)" for w u w1 r
    using that installCertificate_calm by (cases u) (auto simp: exec_upload_def)
  show "(\<lambda>d'. cert_view cm d' w1) = uploaded cm u (\<lambda>d'. cert_view cm d' w)"
    if "calm w \<and> config_loads cm w \<and> certs_separate cm" "exec_upload cm u w = (w1, Inr a)" for w u w1 a
    using exec_upload_step [OF that(2)] that(1) by simp
  show "(\<lambda>d'. cert_view cm d' w1) = (\<lambda>d'. cert_view cm d' w)"
    if "calm w \<and> config_loads cm w \<and> certs_separate cm" "exec_upload cm u w = (w1, Inl e)" for w u w1 e
    using exec_upload_step [OF that(2)] that(1) by simp
qed

text \<open>
  A run of uploads, for any domains and some of them refused, leaves with every domain the files of the last accepted upload for its
  directory, or those it had: uploads for one domain do not touch another's.
\<close>
theorem upload_history:
  assumes "run_requests (exec_upload cm) us w = (w1, outs)" "calm w" "config_loads cm w" "certs_separate cm"
  shows "map fst outs = us \<and> cert_view cm d w1 = (case find (\<lambda>(d', _, _). certificateSlug d' = certificateSlug d) (rev (accepted_of outs)) of
      Some (d', c, k) \<Rightarrow> (Some c, Some k, Some (cm_encode cm d' (cd_now (cm_rd cm)))) | None \<Rightarrow> cert_view cm d w)"
proof -
  have "(\<lambda>d'. cert_view cm d' w1) = fold (uploaded cm) (accepted_of outs) (\<lambda>d'. cert_view cm d' w)"
    using uploads.run_view [OF _ _ assms(1)] assms(2-4) by (simp add: list_all_iff)
  then have "cert_view cm d w1 = fold (uploaded cm) (accepted_of outs) (\<lambda>d'. cert_view cm d' w) d" by (rule fun_cong)
  also have "\<dots> = (case find (\<lambda>(d', _, _). certificateSlug d' = certificateSlug d) (rev acc) of
      Some (d', c, k) \<Rightarrow> (Some c, Some k, Some (cm_encode cm d' (cd_now (cm_rd cm)))) | None \<Rightarrow> cert_view cm d w)" if "acc = accepted_of outs" for acc
    unfolding that [symmetric] by (induction acc rule: rev_induct) (auto simp: uploaded_def split: prod.splits)
  finally show ?thesis using run_requests_answers [of "exec_upload cm" us w] assms(1) by simp
qed


subsection \<open>Directories\<close>

definition plain_char :: "char \<Rightarrow> bool" where
  "plain_char c \<longleftrightarrow> is_lower c \<or> is_digit c \<or> c = CHR ''.'' \<or> c = CHR ''-'' \<or> c = CHR '':''"

lemma set_strip_sub: "set (strip encs s) \<subseteq> set s"
proof (induction encs s rule: strip.induct)
  case (1 encs s)
  then show ?case by (cases "head_rune encs s") (auto simp: strip.simps [of encs s] dest: in_set_dropD)
qed

lemma set_TrimSpace: "set (TrimSpace s) \<subseteq> set s"
  using set_strip_sub [of space_runes s] set_strip_sub [of "map rev space_runes" "rev (TrimLeftSpace s)"]
  by (auto simp: TrimSpace_def TrimRightSpace_def TrimLeftSpace_def)

lemma lower_not_upper: "\<not> is_upper (ascii_lower c)"
  by (auto simp: ascii_lower_def is_upper_def byte_def)

text \<open>A normal form of plain ASCII has no capitals.\<close>

lemma normalized_lower:
  assumes "NormalizeDomain L d = d" "list_all is_ascii d" "c \<in> set d"
  shows "\<not> is_upper c"
proof -
  have "list_all is_ascii (TrimSpace d)" using assms(2) set_TrimSpace by (auto simp: list_all_iff)
  then have "d = TrimSuffix (map ascii_lower (TrimSpace d)) ''.''" using assms(1) by (simp add: NormalizeDomain_def ToLower_def)
  then have "set d \<subseteq> set (map ascii_lower (TrimSpace d))" by (metis TrimSuffix_def order_refl set_take_subset)
  then show ?thesis using assms(3) lower_not_upper by auto
qed

lemma addr_plain_char: "addr_char c \<Longrightarrow> \<not> is_upper c \<Longrightarrow> plain_char c"
  by (auto simp: addr_char_def plain_char_def is_hex_def hex_digit_def is_lower_def is_upper_def split: if_splits)

lemma addr_ascii: "addr_char c \<Longrightarrow> is_ascii c"
  by (auto simp: addr_char_def is_hex_def hex_digit_def is_digit_def is_ascii_def byte_def split: if_splits)

lemma first_error_None: "first_error f xs = None \<longleftrightarrow> list_all (\<lambda>x. f x = None) xs"
  by (induction xs) (auto split: option.splits)

lemma domain_chars:
  assumes "ValidateDomainPattern L d = None" "NormalizeDomain L d = d"
  shows "list_all plain_char (if HasPrefix d ''*.'' then TrimPrefix d ''*.'' else d)"
proof -
  let ?b = "if HasPrefix d ''*.'' then TrimPrefix d ''*.'' else d"
  consider "d = ''localhost''" | ip where "ParseIP d = Some ip" | "first_error check_label (Split ?b CHR ''.'') = None"
    using assms by (auto simp: ValidateDomainPattern_def Let_def split: if_splits option.splits)
  then show ?thesis
  proof cases
    case 1
    moreover have "list_all plain_char ''localhost''" "\<not> HasPrefix ''localhost'' ''*.''" by code_simp+
    ultimately show ?thesis by simp
  next
    case (2 ip)
    have a: "list_all addr_char d" by (rule ParseIP_chars [OF 2])
    then have "list_all is_ascii d" using addr_ascii by (auto simp: list_all_iff)
    then have p: "list_all plain_char d" using a normalized_lower [OF assms(2)] addr_plain_char by (auto simp: list_all_iff)
    moreover have "\<not> HasPrefix d ''*.''" using p by (auto simp: HasPrefix_def prefix_def plain_char_def is_lower_def is_digit_def byte_def)
    ultimately show ?thesis by simp
  next
    case 3
    then have "\<forall>x\<in>set (Split ?b CHR ''.''). list_all domain_char x" by (auto simp: first_error_None list_all_iff check_label_def split: if_splits)
    then show ?thesis using set_Split [of ?b "CHR ''.''"] unfolding list_all_iff plain_char_def domain_char_def by blast
  qed
qed

lemma slug_char_plain: "plain_char c \<Longrightarrow> slug_char c = (if c = CHR '':'' then CHR ''_'' else c)"
  by (auto simp: plain_char_def slug_char_def is_lower_def is_digit_def byte_def)

lemma slug_char_inj: "plain_char a \<Longrightarrow> plain_char b \<Longrightarrow> slug_char a = slug_char b \<Longrightarrow> a = b"
proof -
  have "\<not> plain_char CHR ''_''" by code_simp
  then show "plain_char a \<Longrightarrow> plain_char b \<Longrightarrow> slug_char a = slug_char b \<Longrightarrow> a = b" by (auto simp: slug_char_plain split: if_splits)
qed

lemma slug_map_inj:
  assumes "list_all plain_char a" "list_all plain_char b" "map slug_char a = map slug_char b"
  shows "a = b"
  by (rule map_inj_on [OF assms(3)]) (use assms(1,2) slug_char_inj in \<open>auto simp: inj_on_def list_all_iff\<close>)

text \<open>
  Managed certificates of different domains never share a directory: on the domain names that the
  upload accepts, in normal form, the directory name determines the domain, for host names, wildcards and addresses.
\<close>
theorem certificateSlug_injective:
  assumes "ValidateDomainPattern L d = None" "NormalizeDomain L d = d" "ValidateDomainPattern L e = None" "NormalizeDomain L e = e"
    "certificateSlug d = certificateSlug e"
  shows "d = e"
proof -
  note d = domain_chars [OF assms(1,2)] and e = domain_chars [OF assms(3,4)]
  have same: "HasPrefix d ''*.'' = HasPrefix e ''*.''" using assms(5) by (auto simp: certificateSlug_def split: if_splits)
  show ?thesis
  proof (cases "HasPrefix d ''*.''")
    case True
    then have "TrimPrefix d ''*.'' = TrimPrefix e ''*.''" using slug_map_inj d e same assms(5) by (simp add: certificateSlug_def)
    then show ?thesis using TrimPrefix_inj True same by blast
  next
    case False
    then show ?thesis using slug_map_inj d e same assms(5) by (simp add: certificateSlug_def)
  qed
qed

subsection \<open>The PEM loop\<close>

text \<open>The blocks of a text in order, as \<open>pem.Decode\<close> finds them.\<close>

inductive blocks :: "pem_decode \<Rightarrow> string \<Rightarrow> (string \<times> string) list \<Rightarrow> bool" for dec :: pem_decode where
  no_block: "dec data = None \<Longrightarrow> blocks dec data []"
| a_block: "dec data = Some (ty, bytes, rest) \<Longrightarrow> blocks dec rest bs \<Longrightarrow> blocks dec data ((ty, bytes) # bs)"

inductive_cases blocks_NoneE: "blocks dec data []"
inductive_cases blocks_ConsE: "blocks dec data (b # bs)"

lemma parse_leaf_blocks:
  assumes "\<And>s ty b rest. dec s = Some (ty, b, rest) \<Longrightarrow> length rest < length s" "length data \<le> fuel"
  shows "\<exists>bs. blocks dec data bs \<and> parse_leaf dec parse fuel data = Some (case find (\<lambda>(ty, _). ty = ''CERTIFICATE'') bs of
      Some (_, bytes) \<Rightarrow> parse bytes | None \<Rightarrow> Inl (Errorf ''certificate PEM block not found'' []))"
  using assms(2)
proof (induction fuel arbitrary: data)
  case 0
  then show ?case using assms(1) [of data] by (cases "dec data") (auto simp: parse_leaf.simps intro!: exI [of _ "[]"] no_block)
next
  case (Suc n)
  show ?case
  proof (cases "dec data")
    case None
    then show ?thesis by (intro exI [of _ "[]"]) (simp add: parse_leaf.simps no_block)
  next
    case (Some t)
    obtain ty b rest where t: "t = (ty, b, rest)" by (rule prod_cases3)
    have "length rest \<le> n" using assms(1) [OF Some [unfolded t]] Suc.prems by simp
    from Suc.IH [OF this] obtain bs where bs: "blocks dec rest bs" "parse_leaf dec parse n rest = Some (case find (\<lambda>(ty, _). ty = ''CERTIFICATE'') bs of
      Some (_, bytes) \<Rightarrow> parse bytes | None \<Rightarrow> Inl (Errorf ''certificate PEM block not found'' []))" by blast
    show ?thesis by (rule exI [of _ "(ty, b) # bs"]) (use Some t bs in \<open>simp add: a_block parse_leaf.simps [of _ _ "Suc n"]\<close>)
  qed
qed

text \<open>
  C26. The PEM loop ends: as every block that is decoded leaves a shorter text, the loop has its answer after at most
  as many rounds as the text is long, and it is the first certificate block of the text, or the error when there is none.
\<close>
theorem ParseLeafCertificate_terminates:
  assumes "\<And>s ty b rest. dec s = Some (ty, b, rest) \<Longrightarrow> length rest < length s"
  shows "\<exists>bs. blocks dec data bs \<and> ParseLeafCertificate dec parse data = (case find (\<lambda>(ty, _). ty = ''CERTIFICATE'') bs of
      Some (_, bytes) \<Rightarrow> parse bytes | None \<Rightarrow> Inl (Errorf ''certificate PEM block not found'' []))"
proof -
  obtain bs where "blocks dec data bs" "parse_leaf dec parse (length data) data = Some (case find (\<lambda>(ty, _). ty = ''CERTIFICATE'') bs of
      Some (_, bytes) \<Rightarrow> parse bytes | None \<Rightarrow> Inl (Errorf ''certificate PEM block not found'' []))"
    using parse_leaf_blocks [where dec = dec and data = data and fuel = "length data" and parse = parse] assms by blast
  then show ?thesis by (auto simp: ParseLeafCertificate_def)
qed


subsection \<open>Witnesses\<close>

definition sample_pem :: pem_decode where
  "sample_pem s = (case s of [] \<Rightarrow> None | c # cs \<Rightarrow> Some (if c = CHR ''c'' then ''CERTIFICATE'' else ''KEY'', [c], cs))"

definition sample_cm_leaf :: leaf where
  "sample_cm_leaf = \<lparr>lf_subject = ''s'', lf_issuer = ''i'', lf_serial = ''1'', lf_notBefore = 0, lf_notAfter = 100\<rparr>"

definition sample_cm :: certs_io where
  "sample_cm = \<lparr>cm_rd = sample_reader, cm_stateDir = ''/s'', cm_configPath = ''/c'', cm_tmp = ''1'', cm_runtime = True,
     cm_pem = sample_pem, cm_x509 = (\<lambda>_. Inr sample_cm_leaf), cm_encode = (\<lambda>_ _. ''m''), cm_decode = Some\<rparr>"

definition sample_cm_world :: "go_error option list \<Rightarrow> world" where
  "sample_cm_world fs = \<lparr>wo_files = [(''/c'', ''conf''), (''/s/certificates/exact-a.b/fullchain.pem'', ''c0''), (''/s/certificates/exact-a.b/privkey.pem'', ''k0'')],
     wo_running = [], wo_faults = fs\<rparr>"

text \<open>The eleventh call, which writes the metadata, fails.\<close>

theorem certificate_transaction_witness:
  "\<exists>w1 e. installCertificate sample_cm ''a.b'' ''kc'' ''k1'' (sample_cm_world (replicate 10 None @ [Some (Errorf ''x'' [])])) = (w1, Inl e)
     \<and> cert_view sample_cm ''a.b'' w1 = (Some ''c0'', Some ''k0'', None)"
proof -
  let ?w = "sample_cm_world (replicate 10 None @ [Some (Errorf ''x'' [])])"
  have "case installCertificate sample_cm ''a.b'' ''kc'' ''k1'' ?w of (_, Inl e) \<Rightarrow> e = Errorf ''x'' [] | _ \<Rightarrow> False" by code_simp
  then obtain w1 e where i: "installCertificate sample_cm ''a.b'' ''kc'' ''k1'' ?w = (w1, Inl e)" by (auto split: prod.splits sum.splits)
  have h: "one_fault ?w" "config_loads sample_cm ?w" "certs_separate sample_cm" "cert_view sample_cm ''a.b'' ?w = (Some ''c0'', Some ''k0'', None)"
    by code_simp+
  from certificate_transaction [OF i h(1-3)] show ?thesis using i h(4) by auto
qed

theorem certificateSlug_injective_witness:
  "certificateSlug ''*.a.b'' \<noteq> certificateSlug ''a.b'' \<and> certificateSlug ''::1'' = ''exact-__1''"
proof -
  have v: "ValidateDomainPattern plain_lib ''*.a.b'' = None" "NormalizeDomain plain_lib ''*.a.b'' = ''*.a.b''"
    "ValidateDomainPattern plain_lib ''a.b'' = None" "NormalizeDomain plain_lib ''a.b'' = ''a.b''" "certificateSlug ''::1'' = ''exact-__1''"
    by code_simp+
  from certificateSlug_injective [OF v(1-4)] show ?thesis using v(5) by auto
qed

theorem ParseLeafCertificate_terminates_witness:
  "\<exists>bs. blocks sample_pem ''kc'' bs \<and> ParseLeafCertificate sample_pem (\<lambda>_. Inr sample_cm_leaf) ''kc'' = (case find (\<lambda>(ty, _). ty = ''CERTIFICATE'') bs of
      Some _ \<Rightarrow> Inr sample_cm_leaf | None \<Rightarrow> Inl (Errorf ''certificate PEM block not found'' []))
     \<and> ParseLeafCertificate sample_pem (\<lambda>_. Inr sample_cm_leaf) ''kc'' = Inr sample_cm_leaf"
proof -
  have s: "\<And>s ty b rest. sample_pem s = Some (ty, b, rest) \<Longrightarrow> length rest < length s" by (auto simp: sample_pem_def split: list.splits)
  have e: "ParseLeafCertificate sample_pem (\<lambda>_. Inr sample_cm_leaf) ''kc'' = Inr sample_cm_leaf" by code_simp
  obtain bs where "blocks sample_pem ''kc'' bs" "ParseLeafCertificate sample_pem (\<lambda>_. Inr sample_cm_leaf) ''kc'' = (case find (\<lambda>(ty, _). ty = ''CERTIFICATE'') bs of
      Some (_, bytes) \<Rightarrow> Inr sample_cm_leaf | None \<Rightarrow> Inl (Errorf ''certificate PEM block not found'' []))"
    using ParseLeafCertificate_terminates [where dec = sample_pem and data = "''kc''" and parse = "\<lambda>_. Inr sample_cm_leaf"] s by blast
  then show ?thesis using e by (auto split: option.splits)
qed

theorem upload_history_witness:
  "\<exists>w1 outs. run_requests (exec_upload sample_cm) [(''a.b'', ''kc'', ''k1''), (''x.y'', [], []), (''c.d'', ''kc'', ''k2'')] (sample_cm_world []) = (w1, outs)
     \<and> cert_view sample_cm ''c.d'' w1 = (Some ''kc'', Some ''k2'', Some (cm_encode sample_cm ''c.d'' (cd_now (cm_rd sample_cm))))"
proof -
  let ?us = "[(''a.b'', ''kc'', ''k1''), (''x.y'', [], []), (''c.d'', ''kc'', ''k2'')]"
  let ?r = "run_requests (exec_upload sample_cm) ?us (sample_cm_world [])"
  have c: "last (accepted_of (snd ?r)) = (''c.d'', ''kc'', ''k2'') \<and> accepted_of (snd ?r) \<noteq> []" by code_simp
  have h: "calm (sample_cm_world [])" "config_loads sample_cm (sample_cm_world [])" "certs_separate sample_cm" by code_simp+
  obtain w1 outs where r: "?r = (w1, outs)" by (rule prod.exhaust)
  obtain ys where a: "accepted_of outs = ys @ [(''c.d'', ''kc'', ''k2'')]" using c r by (metis append_butlast_last_id snd_conv)
  from upload_history [OF r h, of "''c.d''"] have "cert_view sample_cm ''c.d'' w1 = (Some ''kc'', Some ''k2'', Some (cm_encode sample_cm ''c.d'' (cd_now (cm_rd sample_cm))))"
    by (simp add: a)
  then show ?thesis using r by blast
qed

end
