(* ===== verification/Netd.thy ===== *)
theory Netd
  imports Files Network
begin

text \<open>
  The privileged network daemon (\<open>cmd/cherrywaf-netd/main.go\<close>): applying a plan with a backup and a rollback timer,
  confirming, rolling back, recovery, the authorization of the caller. Files and faults are those of theory \<open>Files\<close>;
  the running network is what the files said at the last successful \<open>netplan apply\<close>. A command either succeeds or fails without effect.
  JSON, the clock and the random token are parameters.
\<close>

subsection \<open>State\<close>

record netd_conf =
  nc_dataDir :: string
  nc_netplan :: string
  nc_dryRun :: bool
  nc_allowedUID :: "32 word"

record pending_change =
  pc_token :: string
  pc_created :: gotime
  pc_confirmBy :: gotime
  pc_plan :: network_plan

record netd_io =
  no_now :: gotime
  no_token :: "go_error + string"
  no_encode :: "pending_change \<Rightarrow> string"
  no_decode :: "string \<Rightarrow> pending_change option"

text \<open>The machine: files, running network and faults, and the tokens whose rollback timer is set.\<close>

record netd =
  nd_world :: world
  nd_timers :: "string list"

definition rollbackSeconds :: int where "rollbackSeconds = 60"

definition json_path :: "netd_conf \<Rightarrow> string \<Rightarrow> string" where
  "json_path nc tok = nc_dataDir nc @ ''/'' @ tok @ ''.json''"

definition yaml_path :: "netd_conf \<Rightarrow> string \<Rightarrow> string" where
  "yaml_path nc tok = nc_dataDir nc @ ''/backups/'' @ tok @ ''.yaml''"

definition absent_path :: "netd_conf \<Rightarrow> string \<Rightarrow> string" where
  "absent_path nc tok = nc_dataDir nc @ ''/backups/'' @ tok @ ''.absent''"

definition validToken :: "string \<Rightarrow> bool" where
  "validToken v = (length v = 32 \<and> list_all (\<lambda>c. 97 \<le> byte c \<and> byte c \<le> 102 \<or> is_digit c) v)"

subsection \<open>Files of a change\<close>

text \<open>A command without effect on files, and the test that a file exists.\<close>

definition runCommand :: "world \<Rightarrow> world \<times> go_error option" where
  "runCommand w = meet w"

text \<open>\<open>os.Remove\<close> where a missing file is no error.\<close>

definition remove_present :: "string \<Rightarrow> world \<Rightarrow> world \<times> go_error option" where
  "remove_present path w = (case Remove path w of (w1, e) \<Rightarrow> (w1, if e = Some ErrNotExist then None else e))"

definition restoreFiles :: "netd_conf \<Rightarrow> string \<Rightarrow> world \<Rightarrow> world \<times> go_error option" where
  "restoreFiles nc tok w =
     (case ReadFile (yaml_path nc tok) w of
        (w1, Inr data) \<Rightarrow> writeAtomic (nc_netplan nc) data w1
      | (w1, Inl e) \<Rightarrow>
          if e \<noteq> ErrNotExist then (w1, Some e)
          else (case Stat (absent_path nc tok) w1 of
              (w2, None) \<Rightarrow> remove_present (nc_netplan nc) w2
            | (w2, Some _) \<Rightarrow> (w2, Some (Errorf ''network rollback backup not found'' []))))"

fun remove_all :: "string list \<Rightarrow> world \<Rightarrow> world \<times> go_error option" where
  "remove_all [] w = (w, None)"
| "remove_all (p # ps) w = (case remove_present p w of (w1, Some e) \<Rightarrow> (w1, Some e) | (w1, None) \<Rightarrow> remove_all ps w1)"

definition cleanupChange :: "netd_conf \<Rightarrow> string \<Rightarrow> world \<Rightarrow> world \<times> go_error option" where
  "cleanupChange nc tok w = remove_all [json_path nc tok, yaml_path nc tok, absent_path nc tok] w"

definition decode_pending :: "netd_io \<Rightarrow> string \<Rightarrow> pending_change option" where
  "decode_pending io data =
     (case no_decode io data of Some pc \<Rightarrow> if validToken (pc_token pc) then Some pc else None | None \<Rightarrow> None)"

definition pendingChanges :: "netd_conf \<Rightarrow> netd_io \<Rightarrow> world \<Rightarrow> world \<times> (go_error + pending_change list)" where
  "pendingChanges nc io w =
     (case meet w of
        (w1, Some e) \<Rightarrow> (w1, if e = ErrNotExist then Inr [] else Inl e)
      | (w1, None) \<Rightarrow>
          (case read_records (decode_pending io) (nc_dataDir nc) (entries (nc_dataDir nc) w1) w1 of (w2, ps) \<Rightarrow>
             (w2, Inr (sort_key (\<lambda>pc. - pc_created pc) ps))))"

subsection \<open>Apply, confirm, roll back\<close>

definition discardPreparedChange :: "netd_conf \<Rightarrow> string \<Rightarrow> world \<Rightarrow> world \<times> go_error option" where
  "discardPreparedChange nc tok w =
     (case restoreFiles nc tok w of (w1, Some e) \<Rightarrow> (w1, Some e) | (w1, None) \<Rightarrow> cleanupChange nc tok w1)"

text \<open>\<open>netplan generate\<close>, then \<open>netplan apply\<close>; nothing in a dry run.\<close>

definition generate_and_apply :: "netd_conf \<Rightarrow> (go_error \<Rightarrow> go_error) \<Rightarrow> (go_error \<Rightarrow> go_error) \<Rightarrow> world \<Rightarrow> world \<times> go_error option" where
  "generate_and_apply nc f g w =
     (if nc_dryRun nc then (w, None)
      else case runCommand w of
        (w1, Some e) \<Rightarrow> (w1, Some (f e))
      | (w1, None) \<Rightarrow> (case call_reload w1 of (w2, e) \<Rightarrow> (w2, map_option g e)))"

definition recoverAppliedChange :: "netd_conf \<Rightarrow> string \<Rightarrow> world \<Rightarrow> world \<times> go_error option" where
  "recoverAppliedChange nc tok w =
     (case restoreFiles nc tok w of
        (w1, Some e) \<Rightarrow> (w1, Some e)
      | (w1, None) \<Rightarrow>
          (case generate_and_apply nc (\<lambda>e. Wrapped ''validate restored Netplan: %w'' [] [e]) (\<lambda>e. Wrapped ''apply restored Netplan: %w'' [] [e]) w1 of
             (w2, Some e) \<Rightarrow> (w2, Some e)
           | (w2, None) \<Rightarrow> cleanupChange nc tok w2))"

text \<open>Stopping the timer: three commands whose errors are ignored; the first one takes the timer away.\<close>

definition cancelRollbackTimer :: "string \<Rightarrow> netd \<Rightarrow> netd" where
  "cancelRollbackTimer tok d =
     (case runCommand (nd_world d) of (w1, e) \<Rightarrow>
      (case runCommand w1 of (w2, _) \<Rightarrow>
       (case runCommand w2 of (w3, _) \<Rightarrow>
         d\<lparr>nd_world := w3, nd_timers := (if e = None then removeAll tok (nd_timers d) else nd_timers d)\<rparr>)))"

definition save_current :: "netd_conf \<Rightarrow> string \<Rightarrow> world \<Rightarrow> world \<times> go_error option" where
  "save_current nc tok w =
     (case ReadFile (nc_netplan nc) w of
        (w1, Inr current) \<Rightarrow> writeAtomic (yaml_path nc tok) current w1
      | (w1, Inl e) \<Rightarrow> if e = ErrNotExist then writeAtomic (absent_path nc tok) (''absent'' @ [newline]) w1 else (w1, Some e))"

text \<open>The commands of an apply, each with its way back.\<close>

definition activate :: "netd_conf \<Rightarrow> string \<Rightarrow> netd \<Rightarrow> netd \<times> go_error option" where
  "activate nc tok d =
     (if nc_dryRun nc then (d, None)
      else case runCommand (nd_world d) of
        (w1, Some e) \<Rightarrow>
          (case discardPreparedChange nc tok w1 of
             (w2, Some e2) \<Rightarrow> (d\<lparr>nd_world := w2\<rparr>, Some (Wrapped ''netplan validation failed: %v; cleanup failed: %w'' [] [e, e2]))
           | (w2, None) \<Rightarrow> (d\<lparr>nd_world := w2\<rparr>, Some (Wrapped ''netplan validation failed: %w'' [] [e])))
      | (w1, None) \<Rightarrow>
          (case runCommand w1 of
             (w2, Some e) \<Rightarrow>
               (case discardPreparedChange nc tok w2 of
                  (w3, Some e2) \<Rightarrow> (d\<lparr>nd_world := w3\<rparr>, Some (Wrapped ''schedule network rollback: %v; cleanup failed: %w'' [] [e, e2]))
                | (w3, None) \<Rightarrow> (d\<lparr>nd_world := w3\<rparr>, Some (Wrapped ''schedule network rollback: %w'' [] [e])))
           | (w2, None) \<Rightarrow>
               (case call_reload w2 of
                  (w3, None) \<Rightarrow> (d\<lparr>nd_world := w3, nd_timers := tok # nd_timers d\<rparr>, None)
                | (w3, Some e) \<Rightarrow>
                    (let d1 = cancelRollbackTimer tok (d\<lparr>nd_world := w3, nd_timers := tok # nd_timers d\<rparr>) in
                     case recoverAppliedChange nc tok (nd_world d1) of
                       (w4, Some e2) \<Rightarrow> (d1\<lparr>nd_world := w4\<rparr>, Some (Wrapped ''apply netplan: %v; automatic recovery failed: %w'' [] [e, e2]))
                     | (w4, None) \<Rightarrow> (d1\<lparr>nd_world := w4\<rparr>, Some (Wrapped ''apply netplan failed and the previous configuration was restored: %w'' [] [e]))))))"

definition write_change :: "netd_conf \<Rightarrow> netd_io \<Rightarrow> network_plan \<Rightarrow> string \<Rightarrow> string \<Rightarrow> world \<Rightarrow> world \<times> go_error option" where
  "write_change nc io plan tok yaml w =
     (case save_current nc tok w of
        (w1, Some e) \<Rightarrow> (w1, Some e)
      | (w1, None) \<Rightarrow>
          (case writeAtomic (nc_netplan nc) yaml w1 of
             (w2, Some e) \<Rightarrow> (fst (cleanupChange nc tok w2), Some e)
           | (w2, None) \<Rightarrow>
               (case writeAtomic (json_path nc tok) (no_encode io
                    \<lparr>pc_token = tok, pc_created = no_now io, pc_confirmBy = no_now io + rollbackSeconds * second, pc_plan = plan\<rparr>) w2 of
                  (w3, Some e) \<Rightarrow> (fst (restoreFiles nc tok w3), Some e)
                | (w3, None) \<Rightarrow> (w3, None))))"

definition netd_apply :: "netd_conf \<Rightarrow> netd_io \<Rightarrow> network_plan \<Rightarrow> netd \<Rightarrow> netd \<times> (go_error + string)" where
  "netd_apply nc io plan d =
     (case pendingChanges nc io (nd_world d) of
        (w1, Inl e) \<Rightarrow> (d\<lparr>nd_world := w1\<rparr>, Inl e)
      | (w1, Inr ps) \<Rightarrow>
          if ps \<noteq> [] then (d\<lparr>nd_world := w1\<rparr>, Inl (Errorf ''another network change is awaiting confirmation or rollback'' []))
          else (case meet w1 of
              (w2, Some e) \<Rightarrow> (d\<lparr>nd_world := w2\<rparr>, Inl e)
            | (w2, None) \<Rightarrow>
                (case no_token io of
                   Inl e \<Rightarrow> (d\<lparr>nd_world := w2\<rparr>, Inl e)
                 | Inr tok \<Rightarrow>
                     (case RenderNetplan plan of
                        Inl e \<Rightarrow> (d\<lparr>nd_world := w2\<rparr>, Inl e)
                      | Inr yaml \<Rightarrow>
                          (case write_change nc io plan tok yaml w2 of
                             (w3, Some e) \<Rightarrow> (d\<lparr>nd_world := w3\<rparr>, Inl e)
                           | (w3, None) \<Rightarrow>
                               (case activate nc tok (d\<lparr>nd_world := w3\<rparr>) of
                                  (d1, Some e) \<Rightarrow> (d1, Inl e)
                                | (d1, None) \<Rightarrow> (d1, Inr tok)))))))"

definition confirm :: "netd_conf \<Rightarrow> string \<Rightarrow> netd \<Rightarrow> netd \<times> go_error option" where
  "confirm nc tok d =
     (if \<not> validToken tok then (d, Some (Errorf ''invalid network token'' []))
      else case Stat (json_path nc tok) (nd_world d) of
        (w1, Some e) \<Rightarrow> (d\<lparr>nd_world := w1\<rparr>, Some (if e = ErrNotExist then Errorf ''pending network change not found'' [] else e))
      | (w1, None) \<Rightarrow>
          (let d1 = (if nc_dryRun nc then d\<lparr>nd_world := w1\<rparr> else cancelRollbackTimer tok (d\<lparr>nd_world := w1\<rparr>)) in
           case cleanupChange nc tok (nd_world d1) of (w2, e) \<Rightarrow> (d1\<lparr>nd_world := w2\<rparr>, e)))"

text \<open>The second half of a rollback, after the files are restored.\<close>

definition rollback_finish :: "netd_conf \<Rightarrow> string \<Rightarrow> world \<Rightarrow> world \<times> go_error option" where
  "rollback_finish nc tok w =
     (case generate_and_apply nc id id w of
        (w1, Some e) \<Rightarrow> (w1, Some e)
      | (w1, None) \<Rightarrow> cleanupChange nc tok w1)"

definition rollback :: "netd_conf \<Rightarrow> string \<Rightarrow> world \<Rightarrow> world \<times> go_error option" where
  "rollback nc tok w =
     (if \<not> validToken tok then (w, Some (Errorf ''invalid network token'' []))
      else case restoreFiles nc tok w of (w1, Some e) \<Rightarrow> (w1, Some e) | (w1, None) \<Rightarrow> rollback_finish nc tok w1)"

subsection \<open>Requests\<close>

datatype netd_call = StatusCall | ApplyCall "go_error + network_plan" | ConfirmCall "go_error + string" | RollbackCall "go_error + string" | RestartCall

datatype netd_reply = Forbidden | NetdError int go_error | Ready "pending_change list" | Accepted string | Confirmed string | RolledBack string | Restarted

definition netd_authorized :: "netd_conf \<Rightarrow> 32 word option \<Rightarrow> bool" where
  "netd_authorized nc peer = (case peer of None \<Rightarrow> False | Some uid \<Rightarrow> uid = 0 \<or> uid = nc_allowedUID nc)"

definition handleTokenAction :: "netd_conf \<Rightarrow> bool \<Rightarrow> go_error + string \<Rightarrow> netd \<Rightarrow> netd \<times> netd_reply" where
  "handleTokenAction nc conf body d =
     (case body of
        Inl e \<Rightarrow> (d, NetdError 400 e)
      | Inr tok \<Rightarrow>
          if conf then (case confirm nc tok d of (d1, Some e) \<Rightarrow> (d1, NetdError 400 e) | (d1, None) \<Rightarrow> (d1, Confirmed tok))
          else (case rollback nc tok (nd_world d) of
              (w1, Some e) \<Rightarrow> (d\<lparr>nd_world := w1\<rparr>, NetdError 400 e)
            | (w1, None) \<Rightarrow> (d\<lparr>nd_world := w1\<rparr>, RolledBack tok)))"

definition netd_handleApply :: "netd_conf \<Rightarrow> netd_io \<Rightarrow> go_error + string list \<Rightarrow> go_error + network_plan \<Rightarrow> netd \<Rightarrow> netd \<times> netd_reply" where
  "netd_handleApply nc io known body d =
     (case body of
        Inl e \<Rightarrow> (d, NetdError 400 e)
      | Inr plan \<Rightarrow>
          (case known of
             Inl e \<Rightarrow> (d, NetdError 500 e)
           | Inr names \<Rightarrow>
               (case ValidateNetworkPlan plan (Some names) of
                  Some e \<Rightarrow> (d, NetdError 400 e)
                | None \<Rightarrow>
                    (case netd_apply nc io plan d of
                       (d1, Inl e) \<Rightarrow> (d1, NetdError 400 e)
                     | (d1, Inr tok) \<Rightarrow> (d1, Accepted tok)))))"

definition netd_handleStatus :: "netd_conf \<Rightarrow> netd_io \<Rightarrow> netd \<Rightarrow> netd \<times> netd_reply" where
  "netd_handleStatus nc io d =
     (case pendingChanges nc io (nd_world d) of (w1, r) \<Rightarrow>
        (d\<lparr>nd_world := w1\<rparr>, Ready (case r of Inl _ \<Rightarrow> [] | Inr ps \<Rightarrow> ps)))"

definition handleRestartWAF :: "netd_conf \<Rightarrow> netd \<Rightarrow> netd \<times> netd_reply" where
  "handleRestartWAF nc d =
     (if nc_dryRun nc then (d, Restarted)
      else case runCommand (nd_world d) of
        (w1, Some e) \<Rightarrow> (d\<lparr>nd_world := w1\<rparr>, NetdError 500 e)
      | (w1, None) \<Rightarrow> (d\<lparr>nd_world := w1\<rparr>, Restarted))"

definition netd_serve :: "netd_conf \<Rightarrow> netd_io \<Rightarrow> go_error + string list \<Rightarrow> 32 word option \<Rightarrow> netd_call \<Rightarrow> netd \<Rightarrow> netd \<times> netd_reply" where
  "netd_serve nc io known peer call d =
     (if \<not> netd_authorized nc peer then (d, Forbidden)
      else case call of
        StatusCall \<Rightarrow> netd_handleStatus nc io d
      | ApplyCall body \<Rightarrow> netd_handleApply nc io known body d
      | ConfirmCall body \<Rightarrow> handleTokenAction nc True body d
      | RollbackCall body \<Rightarrow> handleTokenAction nc False body d
      | RestartCall \<Rightarrow> handleRestartWAF nc d)"


subsection \<open>Paths\<close>

text \<open>The netplan file is not in the data directory of the daemon.\<close>

definition netd_separate :: "netd_conf \<Rightarrow> bool" where
  "netd_separate nc \<longleftrightarrow> \<not> prefix (nc_dataDir nc @ ''/'') (nc_netplan nc)"

definition change_paths :: "netd_conf \<Rightarrow> string \<Rightarrow> string set" where
  "change_paths nc tok = {json_path nc tok, yaml_path nc tok, absent_path nc tok}"

lemma paths_apart:
  "json_path nc tok \<noteq> yaml_path nc tok" "json_path nc tok \<noteq> absent_path nc tok" "yaml_path nc tok \<noteq> absent_path nc tok"
proof -
  have "length (json_path nc tok) < length (yaml_path nc tok)" "length (yaml_path nc tok) < length (absent_path nc tok)"
    by (simp_all add: json_path_def yaml_path_def absent_path_def)
  then show "json_path nc tok \<noteq> yaml_path nc tok" "json_path nc tok \<noteq> absent_path nc tok" "yaml_path nc tok \<noteq> absent_path nc tok"
    by (metis less_irrefl less_trans)+
qed

lemma netplan_apart:
  assumes "netd_separate nc"
  shows "nc_netplan nc \<notin> change_paths nc tok"
proof -
  have "prefix (nc_dataDir nc @ ''/'') x" if "x \<in> change_paths nc tok" for x
    using that by (auto simp: change_paths_def json_path_def yaml_path_def absent_path_def prefix_def)
  then show ?thesis using assms unfolding netd_separate_def by blast
qed

lemma netplan_ne:
  assumes "netd_separate nc"
  shows "nc_netplan nc \<noteq> json_path nc tok" "nc_netplan nc \<noteq> yaml_path nc tok" "nc_netplan nc \<noteq> absent_path nc tok"
    "json_path nc tok \<noteq> nc_netplan nc" "yaml_path nc tok \<noteq> nc_netplan nc" "absent_path nc tok \<noteq> nc_netplan nc"
  using netplan_apart [OF assms, of tok] by (auto simp: change_paths_def)

subsection \<open>Without faults\<close>

lemma remove_present_optional: "remove_present p w = restoreOptional p None w"
  by (auto simp: remove_present_def restoreOptional_def split: prod.splits option.splits)

lemma remove_done: "calm w \<Longrightarrow> done_with w (\<lambda>q. if q = p then None else content q w) (remove_present p w)"
  unfolding remove_present_optional
  by (cases "restoreOptional p None w") (simp only:, rule done_withI [OF restoreOptional_step], auto intro: calm_one)

lemma remove_all_done: "calm w \<Longrightarrow> done_with w (\<lambda>q. if q \<in> set ps then None else content q w) (remove_all ps w)"
proof (induction ps arbitrary: w)
  case Nil
  then show ?case by (simp add: done_with_def)
next
  case (Cons p ps)
  obtain w1 f where r: "remove_present p w = (w1, f)" by (rule prod.exhaust)
  have d: "f = None" "calm w1" "wo_running w1 = wo_running w" "content q w1 = (if q = p then None else content q w)" for q
    using remove_done [OF Cons.prems, of p] r by (simp_all add: done_with_def)
  show ?case using Cons.IH [OF d(2)] r d by (auto simp: done_with_def)
qed

lemma cleanup_done: "calm w \<Longrightarrow> done_with w (\<lambda>q. if q \<in> change_paths nc tok then None else content q w) (cleanupChange nc tok w)"
  using remove_all_done [of w "[json_path nc tok, yaml_path nc tok, absent_path nc tok]"] by (simp add: cleanupChange_def change_paths_def)

text \<open>The backup of a change holds the former netplan file, or says that there was none.\<close>

definition saved :: "netd_conf \<Rightarrow> string \<Rightarrow> string option \<Rightarrow> world \<Rightarrow> bool" where
  "saved nc tok old w \<longleftrightarrow> content (yaml_path nc tok) w = old \<and> (old = None \<longrightarrow> content (absent_path nc tok) w \<noteq> None)"

lemma Stat_calm:
  assumes "calm w"
  shows "\<exists>w1. Stat p w = (w1, if content p w = None then Some ErrNotExist else None) \<and> calm w1 \<and> wo_running w1 = wo_running w \<and> wo_files w1 = wo_files w"
proof -
  obtain w1 f where m: "meet w = (w1, f)" by (rule prod.exhaust)
  note s = meet_budget [OF m]
  then have "f = None" "calm w1" using budget_next(2) assms by blast+
  then show ?thesis using s m by (simp add: Stat_def content_def)
qed

lemma restore_done:
  assumes "calm w" "saved nc tok old w"
  shows "done_with w (\<lambda>q. if q = nc_netplan nc then old else content q w) (restoreFiles nc tok w)"
proof -
  obtain w1 where r: "ReadFile (yaml_path nc tok) w = (w1, case old of Some d \<Rightarrow> Inr d | None \<Rightarrow> Inl ErrNotExist)"
    "calm w1" "wo_running w1 = wo_running w" "wo_files w1 = wo_files w"
    using ReadFile_calm [OF assms(1), of "yaml_path nc tok"] assms(2) by (auto simp: saved_def)
  have c: "content q w1 = content q w" for q using r(4) by (simp add: content_def)
  show ?thesis
  proof (cases old)
    case (Some d)
    then show ?thesis using write_done [OF r(2), of "nc_netplan nc" d] r c by (simp add: restoreFiles_def done_with_def)
  next
    case None
    obtain w2 where s: "Stat (absent_path nc tok) w1 = (w2, None)" "calm w2" "wo_running w2 = wo_running w1" "wo_files w2 = wo_files w1"
      using Stat_calm [OF r(2), of "absent_path nc tok"] assms(2) None c by (auto simp: saved_def)
    have "content q w2 = content q w" for q using s(4) c by (simp add: content_def)
    then show ?thesis using remove_done [OF s(2), of "nc_netplan nc"] r s None by (simp add: restoreFiles_def done_with_def)
  qed
qed


lemma discard_done:
  assumes "calm w" "saved nc tok old w" "netd_separate nc"
  shows "done_with w (\<lambda>q. if q = nc_netplan nc then old else if q \<in> change_paths nc tok then None else content q w) (discardPreparedChange nc tok w)"
proof -
  obtain w1 f where r: "restoreFiles nc tok w = (w1, f)" by (rule prod.exhaust)
  have d: "f = None" "calm w1" "wo_running w1 = wo_running w" "\<And>q. content q w1 = (if q = nc_netplan nc then old else content q w)"
    using restore_done [OF assms(1,2)] r by (simp_all add: done_with_def)
  show ?thesis using cleanup_done [OF d(2), of nc tok] r d netplan_apart [OF assms(3), of tok]
    by (auto simp: discardPreparedChange_def done_with_def)
qed

lemma generate_and_apply_calm:
  assumes "calm w"
  shows "\<exists>w1. generate_and_apply nc f g w = (w1, None) \<and> calm w1 \<and> wo_files w1 = wo_files w
    \<and> wo_running w1 = (if nc_dryRun nc then wo_running w else wo_files w)"
proof (cases "nc_dryRun nc")
  case True
  then show ?thesis using assms by (simp add: generate_and_apply_def)
next
  case False
  obtain w1 e where m: "meet w = (w1, e)" by (rule prod.exhaust)
  have 1: "e = None" "calm w1" using budget_next(2) meet_budget [OF m] assms by blast+
  obtain w2 e2 where c: "call_reload w1 = (w2, e2)" by (rule prod.exhaust)
  have 2: "e2 = None" "calm w2" using budget_next(2) call_reload_step [OF c] 1(2) by blast+
  show ?thesis using False m c 1 2 meet_budget [OF m] call_reload_step [OF c] by (simp add: generate_and_apply_def runCommand_def)
qed

text \<open>What a change that failed leaves: the netplan file as it was, no pending record of the token.\<close>

definition undone_change :: "netd_conf \<Rightarrow> string \<Rightarrow> string option \<Rightarrow> world \<Rightarrow> bool" where
  "undone_change nc tok old w \<longleftrightarrow> content (nc_netplan nc) w = old \<and> content (json_path nc tok) w = None"

definition running_netplan :: "netd_conf \<Rightarrow> world \<Rightarrow> string option" where
  "running_netplan nc w = map_of (wo_running w) (nc_netplan nc)"

lemma done_undone:
  assumes "done_with w (\<lambda>q. if q = nc_netplan nc then old else if q \<in> change_paths nc tok then None else content q w) r" "netd_separate nc"
  shows "snd r = None \<and> calm (fst r) \<and> undone_change nc tok old (fst r) \<and> running_netplan nc (fst r) = running_netplan nc w"
  using assms netplan_ne [OF assms(2)] by (auto simp: done_with_def undone_change_def running_netplan_def change_paths_def)

lemma recover_calm:
  assumes "calm w" "saved nc tok old w" "netd_separate nc" "\<not> nc_dryRun nc"
  shows "\<exists>w1. recoverAppliedChange nc tok w = (w1, None) \<and> calm w1 \<and> undone_change nc tok old w1 \<and> running_netplan nc w1 = old"
proof -
  obtain w1 f where r: "restoreFiles nc tok w = (w1, f)" by (rule prod.exhaust)
  have d: "f = None" "calm w1" "\<And>q. content q w1 = (if q = nc_netplan nc then old else content q w)"
    using restore_done [OF assms(1,2)] r by (simp_all add: done_with_def)
  let ?g = "generate_and_apply nc (\<lambda>e. Wrapped ''validate restored Netplan: %w'' [] [e]) (\<lambda>e. Wrapped ''apply restored Netplan: %w'' [] [e]) w1"
  obtain w2 where g: "?g = (w2, None)" "calm w2" "wo_files w2 = wo_files w1" "wo_running w2 = wo_files w1"
    using generate_and_apply_calm [OF d(2)] assms(4) by metis
  obtain w3 e where c: "cleanupChange nc tok w2 = (w3, e)" by (rule prod.exhaust)
  have k: "e = None" "calm w3" "wo_running w3 = wo_running w2" "\<And>q. content q w3 = (if q \<in> change_paths nc tok then None else content q w2)"
    using cleanup_done [OF g(2), of nc tok] c by (simp_all add: done_with_def)
  have "content (nc_netplan nc) w3 = old" using k(4) d(3) g(3) netplan_apart [OF assms(3)] by (simp add: content_def)
  moreover have "content (json_path nc tok) w3 = None" using k(4) by (simp add: change_paths_def)
  moreover have "running_netplan nc w3 = old" using k(3) g(4) d(3) [of "nc_netplan nc"] by (simp add: running_netplan_def content_def)
  ultimately show ?thesis using r d(1) g(1) c k(1,2) by (simp add: recoverAppliedChange_def undone_change_def)
qed

subsection \<open>Writing a change\<close>

definition fresh_token :: "netd_conf \<Rightarrow> string \<Rightarrow> world \<Rightarrow> bool" where
  "fresh_token nc tok w \<longleftrightarrow> content (json_path nc tok) w = None \<and> content (yaml_path nc tok) w = None \<and> content (absent_path nc tok) w = None"

lemma save_current_step:
  assumes "save_current nc tok w = (w1, f)" "one_fault w" "fresh_token nc tok w" "netd_separate nc"
  shows "wo_running w1 = wo_running w \<and> one_fault w1 \<and> (calm w \<longrightarrow> calm w1) \<and> (f = None \<longrightarrow> saved nc tok (content (nc_netplan nc) w) w1)
    \<and> content (nc_netplan nc) w1 = content (nc_netplan nc) w \<and> content (json_path nc tok) w1 = None"
proof -
  obtain w2 r where m: "ReadFile (nc_netplan nc) w = (w2, r)" by (rule prod.exhaust)
  from ReadFile_step [OF m assms(2)] have r: "wo_files w2 = wo_files w" "wo_running w2 = wo_running w" "one_fault w2" "calm w \<longrightarrow> calm w2"
    and v: "\<forall>d. r = Inr d \<longrightarrow> content (nc_netplan nc) w = Some d" "r = Inl ErrNotExist \<longrightarrow> content (nc_netplan nc) w = None" by blast+
  have c: "content q w2 = content q w" for q using r(1) by (simp add: content_def)
  note ne = netplan_ne [OF assms(4), of tok] paths_apart [of nc tok]
  have wr: ?thesis if "writeAtomic p d w2 = (w1, f)" "p \<in> {yaml_path nc tok, absent_path nc tok}"
    "f = None \<longrightarrow> saved nc tok (content (nc_netplan nc) w) w1" for p d
    using write_only [OF that(1) r(3)] that(2,3) r c ne assms(3) by (auto simp: fresh_token_def)
  show ?thesis
  proof (cases r)
    case (Inr d)
    then have e: "writeAtomic (yaml_path nc tok) d w2 = (w1, f)" using assms(1) m by (simp add: save_current_def)
    show ?thesis by (rule wr [OF e]) (use write_only [OF e r(3)] v(1) Inr in \<open>simp_all add: saved_def\<close>)
  next
    case (Inl x)
    show ?thesis
    proof (cases "x = ErrNotExist")
      case True
      then have e: "writeAtomic (absent_path nc tok) (''absent'' @ [newline]) w2 = (w1, f)" using assms(1) m Inl by (simp add: save_current_def)
      show ?thesis by (rule wr [OF e]) (use write_only [OF e r(3)] v(2) Inl True c assms(3) ne in \<open>simp_all add: saved_def fresh_token_def\<close>)
    next
      case False
      then show ?thesis using assms(1,3) m Inl r c by (auto simp: save_current_def fresh_token_def)
    qed
  qed
qed

lemma write_change_step:
  assumes "write_change nc io plan tok yaml w = (w1, f)" "one_fault w" "fresh_token nc tok w" "netd_separate nc"
  shows "wo_running w1 = wo_running w \<and> (f \<noteq> None \<longrightarrow> undone_change nc tok (content (nc_netplan nc) w) w1)
    \<and> (f = None \<longrightarrow> one_fault w1 \<and> (calm w \<longrightarrow> calm w1) \<and> saved nc tok (content (nc_netplan nc) w) w1
         \<and> content (nc_netplan nc) w1 = Some yaml \<and> content (json_path nc tok) w1 \<noteq> None)"
proof -
  let ?old = "content (nc_netplan nc) w"
  note ne = netplan_ne [OF assms(4), of tok] paths_apart [of nc tok]
  obtain w2 f2 where 2: "save_current nc tok w = (w2, f2)" by (rule prod.exhaust)
  note s2 = save_current_step [OF 2 assms(2-4)]
  obtain w3 f3 where 3: "writeAtomic (nc_netplan nc) yaml w2 = (w3, f3)" by (rule prod.exhaust)
  note s3 = write_only [OF 3 s2 [THEN conjunct2, THEN conjunct1]]
  let ?j = "no_encode io \<lparr>pc_token = tok, pc_created = no_now io, pc_confirmBy = no_now io + rollbackSeconds * second, pc_plan = plan\<rparr>"
  obtain w4 f4 where 4: "writeAtomic (json_path nc tok) ?j w3 = (w4, f4)" by (rule prod.exhaust)
  note s4 = write_only [OF 4 s3 [THEN conjunct2, THEN conjunct1]]
  consider e where "f2 = Some e" | e where "f2 = None" "f3 = Some e" | e where "f2 = None" "f3 = None" "f4 = Some e" | "f2 = None" "f3 = None" "f4 = None"
    by fastforce
  then show ?thesis
  proof cases
    case 1
    then show ?thesis using assms(1) 2 s2 by (auto simp: write_change_def undone_change_def)
  next
    case (2 e)
    have k: "calm w3" using s3 2(2) by blast
    have w1: "w1 = fst (cleanupChange nc tok w3)" "f = Some e" using assms(1) \<open>save_current nc tok w = (w2, f2)\<close> 3 2 by (simp_all add: write_change_def)
    show ?thesis using cleanup_done [OF k, of nc tok] s2 s3 2(2) w1 ne by (simp add: done_with_def undone_change_def change_paths_def)
  next
    case (3 e)
    have k: "calm w4" using s4 3(3) by blast
    have w1: "w1 = fst (restoreFiles nc tok w4)" "f = Some e"
      using assms(1) 2 \<open>writeAtomic (nc_netplan nc) yaml w2 = (w3, f3)\<close> 4 3 by (simp_all add: write_change_def)
    have "saved nc tok ?old w4" using s2 s3 s4 3 ne by (simp add: saved_def)
    from restore_done [OF k this] show ?thesis using s2 s3 s4 3 w1 ne by (simp add: done_with_def undone_change_def)
  next
    case c: 4
    have w1: "w1 = w4" "f = None" using assms(1) 2 3 4 c by (simp_all add: write_change_def)
    have "saved nc tok ?old w4" using s2 s3 s4 c ne by (simp add: saved_def)
    then show ?thesis using s2 s3 s4 c w1 ne by simp
  qed
qed


subsection \<open>Activating a change\<close>

lemma cancel_calm:
  assumes "calm (nd_world d)"
  shows "\<exists>w1. cancelRollbackTimer tok d = d\<lparr>nd_world := w1, nd_timers := removeAll tok (nd_timers d)\<rparr> \<and> calm w1
    \<and> wo_files w1 = wo_files (nd_world d) \<and> wo_running w1 = wo_running (nd_world d)"
proof -
  have m: "\<exists>w1. runCommand w = (w1, None) \<and> calm w1 \<and> wo_files w1 = wo_files w \<and> wo_running w1 = wo_running w" if "calm w" for w
  proof -
    obtain w1 e where m: "meet w = (w1, e)" by (rule prod.exhaust)
    then show ?thesis using budget_next(2) meet_budget [OF m] that unfolding runCommand_def by blast
  qed
  obtain w1 where 1: "runCommand (nd_world d) = (w1, None)" "calm w1" "wo_files w1 = wo_files (nd_world d)" "wo_running w1 = wo_running (nd_world d)"
    using m [OF assms] by blast
  obtain w2 where 2: "runCommand w1 = (w2, None)" "calm w2" "wo_files w2 = wo_files w1" "wo_running w2 = wo_running w1" using m [OF 1(2)] by blast
  obtain w3 where 3: "runCommand w2 = (w3, None)" "calm w3" "wo_files w3 = wo_files w2" "wo_running w3 = wo_running w2" using m [OF 2(2)] by blast
  show ?thesis by (rule exI [of _ w3]) (use 1 2 3 in \<open>simp add: cancelRollbackTimer_def\<close>)
qed

lemma command_next:
  assumes "runCommand w = (w1, f)" "one_fault w"
  shows "wo_files w1 = wo_files w" "wo_running w1 = wo_running w" "f = None \<longrightarrow> one_fault w1" "f \<noteq> None \<longrightarrow> calm w1 \<and> \<not> calm w" "calm w \<longrightarrow> calm w1"
proof -
  note s = meet_budget [OF assms(1) [unfolded runCommand_def]]
  show "wo_files w1 = wo_files w" "wo_running w1 = wo_running w" using s by blast+
  show "f = None \<longrightarrow> one_fault w1" "calm w \<longrightarrow> calm w1" using s budget_next(1,2) assms(2) by blast+
  show "f \<noteq> None \<longrightarrow> calm w1 \<and> \<not> calm w" using s budget_next(3) assms(2) by blast
qed

lemma saved_files: "wo_files w1 = wo_files w \<Longrightarrow> saved nc tok old w1 = saved nc tok old w"
  by (simp add: saved_def content_def)

text \<open>A failed \<open>netplan apply\<close>: the timer is taken back, the files are restored and applied.\<close>

lemma give_back:
  assumes "calm w" "saved nc tok old w" "netd_separate nc" "\<not> nc_dryRun nc" "tok \<notin> set (nd_timers d)"
  shows "let d1 = cancelRollbackTimer tok (d\<lparr>nd_world := w, nd_timers := tok # nd_timers d\<rparr>) in
    nd_timers d1 = nd_timers d \<and> (\<exists>w1. recoverAppliedChange nc tok (nd_world d1) = (w1, None) \<and> undone_change nc tok old w1 \<and> running_netplan nc w1 = old)"
proof -
  let ?d = "d\<lparr>nd_world := w, nd_timers := tok # nd_timers d\<rparr>"
  obtain w1 where 1: "cancelRollbackTimer tok ?d = ?d\<lparr>nd_world := w1, nd_timers := removeAll tok (nd_timers ?d)\<rparr>" "calm w1" "wo_files w1 = wo_files w"
    using cancel_calm [of ?d tok] assms(1) by auto
  have "saved nc tok old w1" using assms(2) saved_files [OF 1(3)] by simp
  from recover_calm [OF 1(2) this assms(3,4)] show ?thesis using 1(1) assms(5) by (auto simp: Let_def)
qed

lemma activate_step:
  assumes "activate nc tok d = (d1, f)" "one_fault (nd_world d)" "saved nc tok old (nd_world d)" "netd_separate nc" "tok \<notin> set (nd_timers d)"
  shows "case f of
      None \<Rightarrow> wo_files (nd_world d1) = wo_files (nd_world d) \<and> (calm (nd_world d) \<longrightarrow> calm (nd_world d1))
        \<and> (\<not> nc_dryRun nc \<longrightarrow> tok \<in> set (nd_timers d1) \<and> wo_running (nd_world d1) = wo_files (nd_world d))
    | Some e \<Rightarrow> undone_change nc tok old (nd_world d1) \<and> nd_timers d1 = nd_timers d
        \<and> (running_netplan nc (nd_world d1) = running_netplan nc (nd_world d) \<or> running_netplan nc (nd_world d1) = old)"
proof (cases "nc_dryRun nc")
  case True
  then show ?thesis using assms(1) by (auto simp: activate_def)
next
  case False
  obtain w1 f1 where 1: "runCommand (nd_world d) = (w1, f1)" by (rule prod.exhaust)
  note s1 = command_next [OF 1 assms(2)]
  have dis: ?thesis if "calm w" "wo_files w = wo_files (nd_world d)" "wo_running w = wo_running (nd_world d)" "f \<noteq> None"
    "d1 = d\<lparr>nd_world := fst (discardPreparedChange nc tok w)\<rparr>" for w
    using done_undone [OF discard_done [OF that(1) _ assms(4), of tok old] assms(4)] that assms(3) saved_files [OF that(2)]
    by (auto simp: running_netplan_def)
  show ?thesis
  proof (cases f1)
    case (Some e)
    show ?thesis by (rule dis [OF _ s1(1,2)]) (use assms(1) False 1 Some s1(4) in \<open>auto simp: activate_def split: prod.splits option.splits\<close>)
  next
    case n1: None
    then have o1: "one_fault w1" using s1 by blast
    obtain w2 f2 where 2: "runCommand w1 = (w2, f2)" by (rule prod.exhaust)
    note s2 = command_next [OF 2 o1]
    have e2: "wo_files w2 = wo_files (nd_world d)" "wo_running w2 = wo_running (nd_world d)" using s1 s2 by simp_all
    show ?thesis
    proof (cases f2)
      case (Some e)
      show ?thesis by (rule dis [OF _ e2]) (use assms(1) False 1 n1 2 Some s2(4) in \<open>auto simp: activate_def split: prod.splits option.splits\<close>)
    next
      case n2: None
      then have o2: "one_fault w2" using s2 by blast
      obtain w3 f3 where 3: "call_reload w2 = (w3, f3)" by (rule prod.exhaust)
      note s3 = call_reload_step [OF 3]
      have b3: "budget w2 f3 w3" using s3 by blast
      show ?thesis
      proof (cases f3)
        case None
        then show ?thesis using assms(1) False 1 n1 2 n2 3 s1(5) s2(5) s3 e2 budget_next(2) [OF b3] by (auto simp: activate_def)
      next
        case (Some e)
        have k3: "calm w3" using budget_next(3) [OF b3 [unfolded Some] o2] by blast
        have "saved nc tok old w3" using assms(3) saved_files [of w3 "nd_world d" nc tok old] s3 e2 by simp
        from give_back [OF k3 this assms(4) False assms(5)] show ?thesis using assms(1) False 1 n1 2 n2 3 Some by (auto simp: activate_def Let_def)
      qed
    qed
  qed
qed


subsection \<open>The daemon\<close>

lemma pendingChanges_quiet:
  assumes "pendingChanges nc io w = (w1, r)"
  shows "quiet w w1"
proof -
  obtain w2 f where 2: "meet w = (w2, f)" by (rule prod.exhaust)
  obtain w3 ps where 3: "read_records (decode_pending io) (nc_dataDir nc) (entries (nc_dataDir nc) w2) w2 = (w3, ps)" by (rule prod.exhaust)
  have "quiet w w2" "quiet w w3" using meet_quiet [OF 2] quiet_trans [OF meet_quiet [OF 2] read_records_quiet [OF 3]] by blast+
  then show ?thesis using assms 2 3 by (cases f) (auto simp: pendingChanges_def)
qed

lemma quiet_facts:
  assumes "quiet w w1"
  shows "content q w1 = content q w" "running_netplan nc w1 = running_netplan nc w" "fresh_token nc tok w1 = fresh_token nc tok w"
    "one_fault w \<Longrightarrow> one_fault w1" "calm w \<longrightarrow> calm w1"
  using assms by (simp_all add: quiet_def content_def running_netplan_def fresh_token_def)

text \<open>An apply ends before it writes anything, or writes the change and activates it.\<close>

lemma netd_apply_cases:
  assumes "netd_apply nc io plan d = (d1, res)" "no_token io = Inr tok"
  shows "(\<exists>e w1. res = Inl e \<and> d1 = d\<lparr>nd_world := w1\<rparr> \<and> quiet (nd_world d) w1) \<or>
    (\<exists>w1 yaml w2 f. quiet (nd_world d) w1 \<and> RenderNetplan plan = Inr yaml \<and> write_change nc io plan tok yaml w1 = (w2, f)
       \<and> (case f of Some e \<Rightarrow> d1 = d\<lparr>nd_world := w2\<rparr> \<and> res = Inl e
          | None \<Rightarrow> \<exists>g. activate nc tok (d\<lparr>nd_world := w2\<rparr>) = (d1, g) \<and> res = (case g of Some e \<Rightarrow> Inl e | None \<Rightarrow> Inr tok)))"
proof -
  obtain w1 r where 1: "pendingChanges nc io (nd_world d) = (w1, r)" by (rule prod.exhaust)
  note q1 = pendingChanges_quiet [OF 1]
  obtain w2 f where 2: "meet w1 = (w2, f)" by (rule prod.exhaust)
  note q2 = quiet_trans [OF q1 meet_quiet [OF 2]]
  show ?thesis
  proof (cases "r = Inr [] \<and> f = None \<and> (\<exists>yaml. RenderNetplan plan = Inr yaml)")
    case False
    then show ?thesis using assms 1 2 q1 q2
      by (cases r; cases f; cases "RenderNetplan plan") (auto simp: netd_apply_def split: if_splits intro: sym)
  next
    case True
    then obtain yaml where y: "r = Inr []" "f = None" "RenderNetplan plan = Inr yaml" by blast
    obtain w3 g where 3: "write_change nc io plan tok yaml w2 = (w3, g)" by (rule prod.exhaust)
    obtain d2 h where 4: "activate nc tok (d\<lparr>nd_world := w3\<rparr>) = (d2, h)" by (rule prod.exhaust)
    have "case g of Some e \<Rightarrow> d1 = d\<lparr>nd_world := w3\<rparr> \<and> res = Inl e
        | None \<Rightarrow> \<exists>h. activate nc tok (d\<lparr>nd_world := w3\<rparr>) = (d1, h) \<and> res = (case h of Some e \<Rightarrow> Inl e | None \<Rightarrow> Inr tok)"
      using assms 1 2 3 4 y by (auto simp: netd_apply_def split: option.splits)
    then show ?thesis using q2 y(3) 3 by blast
  qed
qed

lemma netd_apply_step:
  assumes "netd_apply nc io plan d = (d1, res)" "one_fault (nd_world d)" "netd_separate nc"
    "no_token io = Inr tok" "fresh_token nc tok (nd_world d)" "tok \<notin> set (nd_timers d)"
  shows "case res of
      Inr t \<Rightarrow> t = tok \<and> saved nc tok (content (nc_netplan nc) (nd_world d)) (nd_world d1) \<and> content (json_path nc tok) (nd_world d1) \<noteq> None
        \<and> (\<exists>yaml. RenderNetplan plan = Inr yaml \<and> content (nc_netplan nc) (nd_world d1) = Some yaml
             \<and> (\<not> nc_dryRun nc \<longrightarrow> tok \<in> set (nd_timers d1) \<and> running_netplan nc (nd_world d1) = Some yaml))
        \<and> (calm (nd_world d) \<longrightarrow> calm (nd_world d1))
    | Inl e \<Rightarrow> undone_change nc tok (content (nc_netplan nc) (nd_world d)) (nd_world d1) \<and> nd_timers d1 = nd_timers d
        \<and> (running_netplan nc (nd_world d1) = running_netplan nc (nd_world d) \<or> running_netplan nc (nd_world d1) = content (nc_netplan nc) (nd_world d))"
  using netd_apply_cases [OF assms(1,4)]
proof (elim disjE exE conjE)
  fix e w1 assume "res = Inl e" "d1 = d\<lparr>nd_world := w1\<rparr>" and q: "quiet (nd_world d) w1"
  then show ?thesis using quiet_facts(1-3) [OF q] assms(5) by (simp add: undone_change_def fresh_token_def)
next
  fix w1 yaml w2 f
  assume q: "quiet (nd_world d) w1" and y: "RenderNetplan plan = Inr yaml" and w: "write_change nc io plan tok yaml w1 = (w2, f)"
    and rest: "case f of Some e \<Rightarrow> d1 = d\<lparr>nd_world := w2\<rparr> \<and> res = Inl e
      | None \<Rightarrow> \<exists>g. activate nc tok (d\<lparr>nd_world := w2\<rparr>) = (d1, g) \<and> res = (case g of Some e \<Rightarrow> Inl e | None \<Rightarrow> Inr tok)"
  let ?old = "content (nc_netplan nc) (nd_world d)"
  have fr: "fresh_token nc tok w1" using quiet_facts(3) [OF q] assms(5) by blast
  note s = write_change_step [OF w quiet_facts(4) [OF q assms(2)] fr assms(3), unfolded quiet_facts(1) [OF q]]
  have rn: "running_netplan nc w2 = running_netplan nc (nd_world d)" using s quiet_facts(2) [OF q, of nc] by (simp add: running_netplan_def)
  show ?thesis
  proof (cases f)
    case (Some e)
    then show ?thesis using rest s rn by simp
  next
    case None
    then obtain g where g: "activate nc tok (d\<lparr>nd_world := w2\<rparr>) = (d1, g)" "res = (case g of Some e \<Rightarrow> Inl e | None \<Rightarrow> Inr tok)"
      using rest by auto
    have k: "one_fault w2" "saved nc tok ?old w2" "content (nc_netplan nc) w2 = Some yaml" "content (json_path nc tok) w2 \<noteq> None" "calm (nd_world d) \<longrightarrow> calm w2"
      using s None quiet_facts(5) [OF q] by blast+
    note a = activate_step [OF g(1) _ _ assms(3), of ?old, simplified, OF k(1,2) assms(6)]
    show ?thesis
    proof (cases g)
      case None
      then have e: "wo_files (nd_world d1) = wo_files w2" using a by simp
      then have "content q (nd_world d1) = content q w2" for q by (simp add: content_def)
      then show ?thesis using a g(2) None k y saved_files [OF e] by (auto simp: running_netplan_def content_def)
    qed (use a g(2) rn in simp)
  qed
qed


text \<open>The files that a rollback of the change needs are gone after a confirmation.\<close>

lemma remove_present_gone:
  assumes "remove_present p w = (w1, None)" "one_fault w"
  shows "content q w1 = (if q = p then None else content q w) \<and> one_fault w1 \<and> wo_running w1 = wo_running w"
  using restoreOptional_step [of p None w w1 None q] assms budget_next(1) unfolding remove_present_optional by auto

lemma remove_all_gone:
  assumes "remove_all ps w = (w1, None)" "one_fault w"
  shows "content q w1 = (if q \<in> set ps then None else content q w) \<and> wo_running w1 = wo_running w"
  using assms
proof (induction ps arbitrary: w)
  case (Cons p ps)
  obtain w2 f where 2: "remove_present p w = (w2, f)" by (rule prod.exhaust)
  have f: "f = None" "remove_all ps w2 = (w1, None)" using Cons.prems(1) 2 by (auto split: option.splits)
  show ?case using remove_present_gone [OF 2 [unfolded f(1)] Cons.prems(2)] Cons.IH [OF f(2)] by auto
qed simp

lemma cancel_quiet: "quiet (nd_world d) (nd_world (cancelRollbackTimer tok d))"
proof -
  obtain w1 f1 where 1: "meet (nd_world d) = (w1, f1)" by (rule prod.exhaust)
  obtain w2 f2 where 2: "meet w1 = (w2, f2)" by (rule prod.exhaust)
  obtain w3 f3 where 3: "meet w2 = (w3, f3)" by (rule prod.exhaust)
  show ?thesis using quiet_trans [OF meet_quiet [OF 1] quiet_trans [OF meet_quiet [OF 2] meet_quiet [OF 3]]] 1 2 3
    by (simp add: cancelRollbackTimer_def runCommand_def)
qed

lemma Stat_exists: "Stat p w = (w1, None) \<Longrightarrow> content p w \<noteq> None"
  by (auto simp: Stat_def meet_def content_def split: list.splits option.splits if_splits)

lemma confirm_step:
  assumes "confirm nc tok d = (d1, None)" "one_fault (nd_world d)"
  shows "content q (nd_world d1) = (if q \<in> change_paths nc tok then None else content q (nd_world d)) \<and> wo_running (nd_world d1) = wo_running (nd_world d)
    \<and> content (json_path nc tok) (nd_world d) \<noteq> None \<and> validToken tok"
proof -
  obtain w1 f where 1: "Stat (json_path nc tok) (nd_world d) = (w1, f)" by (rule prod.exhaust)
  have v: "validToken tok" "f = None" using assms(1) 1 by (auto simp: confirm_def split: if_splits option.splits)
  let ?d = "if nc_dryRun nc then d\<lparr>nd_world := w1\<rparr> else cancelRollbackTimer tok (d\<lparr>nd_world := w1\<rparr>)"
  have q: "quiet (nd_world d) (nd_world ?d)" using quiet_trans [OF Stat_quiet [OF 1]] cancel_quiet [of "d\<lparr>nd_world := w1\<rparr>" tok] Stat_quiet [OF 1] by simp
  obtain w2 e where c: "cleanupChange nc tok (nd_world ?d) = (w2, e)" by (rule prod.exhaust)
  have d: "d1 = ?d\<lparr>nd_world := w2\<rparr>" "e = None" using assms(1) 1 v c by (simp_all add: confirm_def Let_def)
  from remove_all_gone [OF c [unfolded cleanupChange_def d(2)] quiet_facts(4) [OF q assms(2)], of q]
  have "content q (nd_world d1) = (if q \<in> change_paths nc tok then None else content q (nd_world d)) \<and> wo_running (nd_world d1) = wo_running (nd_world d)"
    using q quiet_facts(1) [OF q] unfolding d(1) by (simp add: change_paths_def quiet_def)
  then show ?thesis using v(1) Stat_exists [OF 1 [unfolded v(2)]] by blast
qed

lemma rollback_refused:
  assumes "content (yaml_path nc tok) w = None" "content (absent_path nc tok) w = None" "rollback nc tok w = (w1, f)"
  shows "f \<noteq> None \<and> wo_files w1 = wo_files w \<and> wo_running w1 = wo_running w"
proof (cases "validToken tok")
  case False
  then show ?thesis using assms(3) by (auto simp: rollback_def)
next
  case True
  obtain w2 r where 2: "ReadFile (yaml_path nc tok) w = (w2, r)" by (rule prod.exhaust)
  note q2 = ReadFile_quiet [OF 2]
  have r: "\<exists>e. r = Inl e" using 2 assms(1) by (auto simp: ReadFile_def meet_def content_def split: option.splits prod.splits list.splits)
  obtain w3 g where 3: "Stat (absent_path nc tok) w2 = (w3, g)" by (rule prod.exhaust)
  note q3 = quiet_trans [OF q2 Stat_quiet [OF 3]]
  have g: "g \<noteq> None" using 3 assms(2) quiet_facts(1) [OF q2] by (auto simp: Stat_def meet_def content_def split: option.splits prod.splits list.splits if_splits)
  show ?thesis using assms(3) True 2 3 r g q2 q3 by (auto simp: rollback_def restoreFiles_def quiet_def split: if_splits)
qed


subsection \<open>Properties\<close>

text \<open>
  C21. Applying a network plan is all or nothing. With at most one failing call or command, an apply either leaves the rendered
  plan in the netplan file, with the former file in the backup, the record of the pending change, the rollback timer set
  and the plan running, or the netplan file is as it was, no change is pending, no timer is set and what runs is what
  ran or the former file.
\<close>
theorem netd_apply_transaction:
  assumes "netd_apply nc io plan d = (d1, res)" "one_fault (nd_world d)" "netd_separate nc"
    "no_token io = Inr tok" "fresh_token nc tok (nd_world d)" "tok \<notin> set (nd_timers d)"
  shows "case res of
      Inr t \<Rightarrow> t = tok \<and> saved nc tok (content (nc_netplan nc) (nd_world d)) (nd_world d1) \<and> content (json_path nc tok) (nd_world d1) \<noteq> None
        \<and> (\<exists>yaml. RenderNetplan plan = Inr yaml \<and> content (nc_netplan nc) (nd_world d1) = Some yaml
             \<and> (\<not> nc_dryRun nc \<longrightarrow> tok \<in> set (nd_timers d1) \<and> running_netplan nc (nd_world d1) = Some yaml))
    | Inl e \<Rightarrow> undone_change nc tok (content (nc_netplan nc) (nd_world d)) (nd_world d1) \<and> nd_timers d1 = nd_timers d
        \<and> (running_netplan nc (nd_world d1) = running_netplan nc (nd_world d) \<or> running_netplan nc (nd_world d1) = content (nc_netplan nc) (nd_world d))"
  using netd_apply_step [OF assms] by (auto split: sum.splits)

lemma rollback_calm:
  assumes "calm w" "saved nc tok old w" "netd_separate nc" "validToken tok"
  shows "\<exists>w1. rollback nc tok w = (w1, None) \<and> calm w1 \<and> content (nc_netplan nc) w1 = old \<and> fresh_token nc tok w1
    \<and> (\<not> nc_dryRun nc \<longrightarrow> running_netplan nc w1 = old)"
proof -
  obtain w1 f where r: "restoreFiles nc tok w = (w1, f)" by (rule prod.exhaust)
  have d: "f = None" "calm w1" "\<And>q. content q w1 = (if q = nc_netplan nc then old else content q w)"
    using restore_done [OF assms(1,2)] r by (simp_all add: done_with_def)
  obtain w2 where g: "generate_and_apply nc id id w1 = (w2, None)" "calm w2" "wo_files w2 = wo_files w1"
    "wo_running w2 = (if nc_dryRun nc then wo_running w1 else wo_files w1)"
    using generate_and_apply_calm [OF d(2)] by metis
  obtain w3 e where c: "cleanupChange nc tok w2 = (w3, e)" by (rule prod.exhaust)
  have k: "e = None" "calm w3" "wo_running w3 = wo_running w2" "\<And>q. content q w3 = (if q \<in> change_paths nc tok then None else content q w2)"
    using cleanup_done [OF g(2), of nc tok] c by (simp_all add: done_with_def)
  have "content (nc_netplan nc) w3 = old" using k(4) d(3) g(3) netplan_apart [OF assms(3)] by (simp add: content_def)
  moreover have "fresh_token nc tok w3" using k(4) by (simp add: change_paths_def fresh_token_def)
  moreover have "\<not> nc_dryRun nc \<longrightarrow> running_netplan nc w3 = old"
    using k(3) g(4) d(3) [of "nc_netplan nc"] by (simp add: running_netplan_def content_def)
  ultimately show ?thesis using r d(1) g(1) c k(1,2) assms(4) by (simp add: rollback_def rollback_finish_def)
qed

text \<open>
  A change that nobody confirms goes away: after an apply that succeeded the timer is set, and the rollback it
  runs (while no call fails) succeeds, brings back the former netplan file or its absence, runs it, and leaves
  no trace of the change, so that the next apply is not refused on its account.
\<close>
theorem unconfirmed_change_undone:
  assumes "netd_apply nc io plan d = (d1, Inr tok)" "calm (nd_world d)" "netd_separate nc" "\<not> nc_dryRun nc"
    "no_token io = Inr tok" "validToken tok" "fresh_token nc tok (nd_world d)" "tok \<notin> set (nd_timers d)"
  shows "tok \<in> set (nd_timers d1) \<and> (\<exists>w. rollback nc tok (nd_world d1) = (w, None)
    \<and> content (nc_netplan nc) w = content (nc_netplan nc) (nd_world d) \<and> running_netplan nc w = content (nc_netplan nc) (nd_world d)
    \<and> fresh_token nc tok w)"
proof -
  note s = netd_apply_step [OF assms(1) calm_one [OF assms(2)] assms(3,5,7,8), unfolded sum.case]
  have "calm (nd_world d1)" "saved nc tok (content (nc_netplan nc) (nd_world d)) (nd_world d1)" using s assms(2) by blast+
  from rollback_calm [OF this assms(3,6)] show ?thesis using s assms(4) by blast
qed

text \<open>
  C23. A confirmation is final: once it succeeded, a rollback of the change, from the timer or by request, under any
  faults, is refused and leaves the files and the running network as they are.
\<close>
theorem confirmed_change_stays:
  assumes "confirm nc tok d = (d1, None)" "one_fault (nd_world d)" "wo_files w = wo_files (nd_world d1)" "rollback nc tok w = (w1, f)"
  shows "f \<noteq> None \<and> wo_files w1 = wo_files w \<and> wo_running w1 = wo_running w"
proof -
  have "content q w = None" if "q \<in> change_paths nc tok" for q
    using confirm_step [OF assms(1,2), of q] that assms(3) by (simp add: content_def)
  then show ?thesis using rollback_refused [OF _ _ assms(4)] by (simp add: change_paths_def)
qed

text \<open>
  The timer runs in another process, which the daemon's mutex does not stop. When a confirmation comes between the
  two halves of that rollback, after the files are restored, it is answered as a success, and the network
  ends up on the former configuration.
\<close>
theorem confirm_races_rollback:
  assumes "netd_apply nc io plan d = (d1, Inr tok)" "calm (nd_world d)" "netd_separate nc" "\<not> nc_dryRun nc"
    "no_token io = Inr tok" "validToken tok" "fresh_token nc tok (nd_world d)" "tok \<notin> set (nd_timers d)"
  shows "\<exists>w1 d2 w3. restoreFiles nc tok (nd_world d1) = (w1, None) \<and> confirm nc tok (d1\<lparr>nd_world := w1\<rparr>) = (d2, None)
    \<and> rollback_finish nc tok (nd_world d2) = (w3, None) \<and> running_netplan nc w3 = content (nc_netplan nc) (nd_world d)"
proof -
  let ?old = "content (nc_netplan nc) (nd_world d)"
  note s = netd_apply_step [OF assms(1) calm_one [OF assms(2)] assms(3,5,7,8), unfolded sum.case]
  obtain w1 f where r: "restoreFiles nc tok (nd_world d1) = (w1, f)" by (rule prod.exhaust)
  have cs: "calm (nd_world d1)" "saved nc tok ?old (nd_world d1)" using s assms(2) by blast+
  have 1: "f = None" "calm w1" "\<And>q. content q w1 = (if q = nc_netplan nc then ?old else content q (nd_world d1))"
    using restore_done [OF cs] r by (simp_all add: done_with_def)
  have j: "content (json_path nc tok) w1 \<noteq> None" using s 1(3) netplan_ne [OF assms(3)] by simp
  obtain w2 where 2: "Stat (json_path nc tok) w1 = (w2, None)" "calm w2" "wo_files w2 = wo_files w1" using Stat_calm [OF 1(2), of "json_path nc tok"] j by auto
  let ?d = "cancelRollbackTimer tok (d1\<lparr>nd_world := w2\<rparr>)"
  have q: "quiet w2 (nd_world ?d)" using cancel_quiet [of "d1\<lparr>nd_world := w2\<rparr>" tok] by simp
  obtain w3 e where c: "cleanupChange nc tok (nd_world ?d) = (w3, e)" by (rule prod.exhaust)
  have 3: "e = None" "calm w3" "\<And>q. content q w3 = (if q \<in> change_paths nc tok then None else content q (nd_world ?d))"
    using cleanup_done [of "nd_world ?d" nc tok] quiet_facts(5) [OF q] 2(2) c by (simp_all add: done_with_def)
  have cf: "confirm nc tok (d1\<lparr>nd_world := w1\<rparr>) = (?d\<lparr>nd_world := w3\<rparr>, None)"
    using assms(4,6) 2(1) c 3(1) by (simp add: confirm_def Let_def)
  obtain w4 where g: "generate_and_apply nc id id w3 = (w4, None)" "calm w4" "wo_files w4 = wo_files w3" "wo_running w4 = wo_files w3"
    using generate_and_apply_calm [OF 3(2)] assms(4) by metis
  obtain w5 e' where c': "cleanupChange nc tok w4 = (w5, e')" by (rule prod.exhaust)
  have 5: "e' = None" "wo_running w5 = wo_running w4" using cleanup_done [OF g(2), of nc tok] c' by (simp_all add: done_with_def)
  have "content (nc_netplan nc) w3 = ?old"
    using 3(3) netplan_apart [OF assms(3)] quiet_facts(1) [OF q] 2(3) 1(3) by (simp add: content_def)
  then have "running_netplan nc w5 = ?old" using 5(2) g(4) by (simp add: running_netplan_def content_def)
  then show ?thesis using r 1(1) cf g(1) c' 5(1) by (auto simp: rollback_finish_def)
qed

text \<open>
  Only root and the configured account reach the daemon, and a plan that does not validate against the
  interfaces of the machine changes nothing.
\<close>
theorem netd_serve_guarded:
  assumes "netd_serve nc io known peer call d = (d1, out)" "d1 \<noteq> d"
  shows "(peer = Some 0 \<or> peer = Some (nc_allowedUID nc)) \<and> (\<forall>body. call = ApplyCall body \<longrightarrow>
    (\<exists>plan names. body = Inr plan \<and> known = Inr names \<and> ValidateNetworkPlan plan (Some names) = None \<and> np_interface plan \<in> set names))"
proof -
  have a: "netd_authorized nc peer" using assms by (auto simp: netd_serve_def split: if_splits)
  have "np_interface plan \<in> set names" if "ValidateNetworkPlan plan (Some names) = None" for plan names
    using that by (auto simp: ValidateNetworkPlan_def split: if_splits)
  then have "\<exists>plan names. body = Inr plan \<and> known = Inr names \<and> ValidateNetworkPlan plan (Some names) = None \<and> np_interface plan \<in> set names"
    if "call = ApplyCall body" for body
    using assms a that by (auto simp: netd_serve_def netd_handleApply_def split: sum.splits option.splits prod.splits)
  then show ?thesis using a by (auto simp: netd_authorized_def split: option.splits)
qed


subsection \<open>Witnesses\<close>

definition sample_nc :: netd_conf where
  "sample_nc = \<lparr>nc_dataDir = ''/d'', nc_netplan = ''/n'', nc_dryRun = False, nc_allowedUID = 990\<rparr>"

definition sample_token :: string where
  "sample_token = replicate 32 CHR ''a''"

definition sample_netd_io :: netd_io where
  "sample_netd_io = \<lparr>no_now = 5, no_token = Inr sample_token, no_encode = (\<lambda>_. ''p''), no_decode = (\<lambda>_. None)\<rparr>"

definition sample_netd :: "go_error option list \<Rightarrow> netd" where
  "sample_netd fs = \<lparr>nd_world = \<lparr>wo_files = [(''/n'', ''old'')], wo_running = [(''/n'', ''old'')], wo_faults = fs\<rparr>, nd_timers = []\<rparr>"

text \<open>The eighth call, which sets the timer, fails.\<close>

definition no_timer :: "go_error option list" where
  "no_timer = replicate 7 None @ [Some (Errorf ''x'' [])]"

lemma sample_netd_facts:
  "one_fault (nd_world (sample_netd no_timer))" "calm (nd_world (sample_netd []))" "netd_separate sample_nc" "no_token sample_netd_io = Inr sample_token"
  "fresh_token sample_nc sample_token (nd_world (sample_netd fs))" "sample_token \<notin> set (nd_timers (sample_netd fs))" "\<not> nc_dryRun sample_nc" "validToken sample_token"
  "content (nc_netplan sample_nc) (nd_world (sample_netd fs)) = Some ''old''" "running_netplan sample_nc (nd_world (sample_netd fs)) = Some ''old''"
proof -
  show "one_fault (nd_world (sample_netd no_timer))" "calm (nd_world (sample_netd []))" "netd_separate sample_nc" "validToken sample_token" by code_simp+
qed (simp_all add: sample_netd_io_def fresh_token_def sample_netd_def content_def json_path_def yaml_path_def absent_path_def sample_nc_def running_netplan_def)

lemma sample_applied:
  obtains d1 where "netd_apply sample_nc sample_netd_io sample_plan (sample_netd []) = (d1, Inr sample_token)"
proof -
  have "case netd_apply sample_nc sample_netd_io sample_plan (sample_netd []) of (_, Inr t) \<Rightarrow> t = sample_token | _ \<Rightarrow> False" by code_simp
  then show thesis using that by (auto split: prod.splits sum.splits)
qed

theorem netd_apply_transaction_witness:
  "\<exists>d1 e. netd_apply sample_nc sample_netd_io sample_plan (sample_netd no_timer) = (d1, Inl e)
     \<and> content ''/n'' (nd_world d1) = Some ''old'' \<and> nd_timers d1 = []"
proof -
  have "case netd_apply sample_nc sample_netd_io sample_plan (sample_netd no_timer) of (_, Inl e) \<Rightarrow> True | _ \<Rightarrow> False" by code_simp
  then obtain d1 e where a: "netd_apply sample_nc sample_netd_io sample_plan (sample_netd no_timer) = (d1, Inl e)"
    by (auto split: prod.splits sum.splits)
  from netd_apply_transaction [OF a sample_netd_facts(1,3,4,5,6)] show ?thesis
    using a sample_netd_facts(9) by (auto simp: undone_change_def sample_nc_def sample_netd_def)
qed

theorem unconfirmed_change_undone_witness:
  "\<exists>d1 w. netd_apply sample_nc sample_netd_io sample_plan (sample_netd []) = (d1, Inr sample_token)
     \<and> rollback sample_nc sample_token (nd_world d1) = (w, None) \<and> content (nc_netplan sample_nc) w = Some ''old''"
proof -
  obtain d1 where a: "netd_apply sample_nc sample_netd_io sample_plan (sample_netd []) = (d1, Inr sample_token)" by (rule sample_applied)
  from unconfirmed_change_undone [OF a sample_netd_facts(2,3,7,4,8,5,6)] show ?thesis using a sample_netd_facts(9) by auto
qed

theorem confirmed_change_stays_witness:
  "\<exists>d1 d2 w e. netd_apply sample_nc sample_netd_io sample_plan (sample_netd []) = (d1, Inr sample_token)
     \<and> confirm sample_nc sample_token d1 = (d2, None) \<and> rollback sample_nc sample_token (nd_world d2) = (w, Some e)
     \<and> wo_files w = wo_files (nd_world d2)"
proof -
  have "case netd_apply sample_nc sample_netd_io sample_plan (sample_netd []) of (d1, Inr t) \<Rightarrow> t = sample_token \<and> one_fault (nd_world d1)
      \<and> (case confirm sample_nc sample_token d1 of (_, None) \<Rightarrow> True | _ \<Rightarrow> False) | _ \<Rightarrow> False" by code_simp
  then obtain d1 d2 where a: "netd_apply sample_nc sample_netd_io sample_plan (sample_netd []) = (d1, Inr sample_token)" "one_fault (nd_world d1)"
    and c: "confirm sample_nc sample_token d1 = (d2, None)" by (auto split: prod.splits sum.splits option.splits)
  obtain w f where r: "rollback sample_nc sample_token (nd_world d2) = (w, f)" by (rule prod.exhaust)
  from confirmed_change_stays [OF c a(2) refl r] show ?thesis using a(1) c r by blast
qed

theorem confirm_races_rollback_witness:
  "\<exists>d1 w1 d2 w3. netd_apply sample_nc sample_netd_io sample_plan (sample_netd []) = (d1, Inr sample_token)
     \<and> restoreFiles sample_nc sample_token (nd_world d1) = (w1, None) \<and> confirm sample_nc sample_token (d1\<lparr>nd_world := w1\<rparr>) = (d2, None)
     \<and> rollback_finish sample_nc sample_token (nd_world d2) = (w3, None) \<and> running_netplan sample_nc w3 = Some ''old''"
proof -
  obtain d1 where a: "netd_apply sample_nc sample_netd_io sample_plan (sample_netd []) = (d1, Inr sample_token)" by (rule sample_applied)
  from confirm_races_rollback [OF a sample_netd_facts(2,3,7,4,8,5,6), unfolded sample_netd_facts(9)] show ?thesis using a by blast
qed

theorem netd_serve_guarded_witness:
  "\<exists>d1 out. netd_serve sample_nc sample_netd_io (Inr [''eth0'']) (Some 990) (ApplyCall (Inr sample_plan)) (sample_netd []) = (d1, out)
     \<and> d1 \<noteq> sample_netd [] \<and> np_interface sample_plan \<in> set [''eth0'']"
proof -
  let ?s = "netd_serve sample_nc sample_netd_io (Inr [''eth0'']) (Some 990) (ApplyCall (Inr sample_plan)) (sample_netd [])"
  obtain d1 out where s: "?s = (d1, out)" by (rule prod.exhaust)
  have "nd_timers (fst ?s) \<noteq> []" by code_simp
  then have n: "d1 \<noteq> sample_netd []" using s by (auto simp: sample_netd_def)
  from netd_serve_guarded [OF s n] show ?thesis using s n by auto
qed

end
