(* ===== verification/Plane.thy ===== *)
theory Plane
  imports Rules Backup Certs Netd
begin

text \<open>
  The handlers behind the gate of \<open>Control\<close> (\<open>config_manager.go\<close>, \<open>rules_manager.go\<close>, \<open>certificates.go\<close>,
  \<open>backup.go\<close>, \<open>network.go\<close> and \<open>controller.go\<close> in \<open>internal/control\<close>) and the calls of the controller to the
  network daemon: what each answers, what it writes to the audit log and which operation of the managers it runs. The
  state they work on is the machine of the control plane and the machine of the daemon. Decoded inputs and the
  JSON text of an answer are parameters.
\<close>

subsection \<open>State and parameters\<close>

record plane =
  pl_world :: world
  pl_netd :: netd

record upload =
  up_domain :: string
  up_file :: "string \<Rightarrow> (go_error + string) option"

datatype plane_body =
    ConfigBody string | ValidBody validation_result | AppliedBody revision bool validation_result | RevisionsBody "revision list"
  | RestoredBody revision bool | RulesBody bool rule_file | RulesAppliedBody revision nat bool | DecisionBody decision
  | CertificatesBody "managed_certificate list" | CertificateBody managed_certificate | DeletedBody
  | NetworkBody "go_error + netd_reply" | NetplanBody string | HelperBody netd_reply
  | BackupsBody "backup_info list" | BackupBody backup_info | ArchiveBody string | BackupRestoredBody string bool
  | DashboardBody "(go_error + string) option"

record plane_io =
  po_dp :: deploy_io
  po_bk :: backup_io
  po_cm :: certs_io
  po_nc :: netd_conf
  po_no :: netd_io
  po_isJSON :: "string \<Rightarrow> bool"
  po_ruleFile :: "string \<Rightarrow> string + rule_file"
  po_looseRules :: "string \<Rightarrow> rule_file option"
  po_test :: "string \<Rightarrow> string + rule \<times> rule_test"
  po_form :: "request \<Rightarrow> string + upload"
  po_plan :: "string \<Rightarrow> string + network_plan"
  po_token :: "string \<Rightarrow> string + string"
  po_interfaces :: "go_error + string list"
  po_dial :: "go_error option"
  po_lost :: "go_error option"
  po_peer :: "32 word option"
  po_wire :: "network_plan \<Rightarrow> go_error + network_plan"
  po_status :: "(go_error + string) option"
  po_render :: "plane_body \<Rightarrow> string"

definition done_reply :: "plane_io \<Rightarrow> int \<Rightarrow> plane_body \<Rightarrow> ctl_reply" where
  "done_reply po status b = OK status (External (po_render po b))"

definition fail_details :: "ctl_io \<Rightarrow> go_error \<Rightarrow> (string \<times> string) list" where
  "fail_details io e = [(''error'', ct_errText io e)]"

subsection \<open>Configuration and revisions\<close>

definition handleConfigGet :: "ctl_io \<Rightarrow> plane_io \<Rightarrow> plane authed" where
  "handleConfigGet io po r u s p =
     (case ReadFile (dp_configPath (po_dp po)) (pl_world p) of
        (w, Inl e) \<Rightarrow> (s, p\<lparr>pl_world := w\<rparr>, APIError 500 (ct_errText io e))
      | (w, Inr data) \<Rightarrow> (s, p\<lparr>pl_world := w\<rparr>,
          if po_isJSON po data then done_reply po 200 (ConfigBody data) else APIError 500 ''active configuration is invalid JSON''))"

definition handleConfigValidate :: "ctl_io \<Rightarrow> plane_io \<Rightarrow> plane authed" where
  "handleConfigValidate io po r u s p =
     (case readBody io r (nat maxConfigBytes) of
        Inl e \<Rightarrow> (s, p, APIError 400 e)
      | Inr data \<Rightarrow>
          (case validateConfigBytes (po_dp po) data (pl_world p) of
             (w, Inl e) \<Rightarrow> (audit io r u ''config.validate'' ''configuration'' ''failure'' (fail_details io e) s, p\<lparr>pl_world := w\<rparr>, APIError 400 (ct_errText io e))
           | (w, Inr (res, _)) \<Rightarrow> (audit io r u ''config.validate'' ''configuration'' ''success'' [] s, p\<lparr>pl_world := w\<rparr>, done_reply po 200 (ValidBody res))))"

definition handleConfigApply :: "ctl_io \<Rightarrow> plane_io \<Rightarrow> plane authed" where
  "handleConfigApply io po r u s p =
     (case readBody io r (nat maxConfigBytes) of
        Inl e \<Rightarrow> (s, p, APIError 400 e)
      | Inr data \<Rightarrow>
          (case applyConfigBytes (po_dp po) data (us_name u) ''Control Center configuration update'' (pl_world p) of
             (w, Inl e) \<Rightarrow> (audit io r u ''config.apply'' ''configuration'' ''failure'' (fail_details io e) s, p\<lparr>pl_world := w\<rparr>, APIError 400 (ct_errText io e))
           | (w, Inr (rv, restart, res)) \<Rightarrow>
               (audit io r u ''config.apply'' ''configuration'' ''success'' [(''revision'', rv_id rv), (''restart_required'', FormatBool restart)] s,
                p\<lparr>pl_world := w\<rparr>, done_reply po (if restart then 202 else 200) (AppliedBody rv restart res))))"

definition handleRevisionList :: "ctl_io \<Rightarrow> plane_io \<Rightarrow> plane authed" where
  "handleRevisionList io po r u s p =
     (case listRevisions (po_dp po) (pl_world p) of
        (w, Inl e) \<Rightarrow> (s, p\<lparr>pl_world := w\<rparr>, APIError 500 (ct_errText io e))
      | (w, Inr rs) \<Rightarrow> (s, p\<lparr>pl_world := w\<rparr>, done_reply po 200 (RevisionsBody rs)))"

definition handleRevisionRestore :: "ctl_io \<Rightarrow> plane_io \<Rightarrow> string \<Rightarrow> plane authed" where
  "handleRevisionRestore io po rid r u s p =
     (case read_revision (po_dp po) rid (pl_world p) of
        (w, Inl (status, e)) \<Rightarrow> (s, p\<lparr>pl_world := w\<rparr>, APIError status (ct_errText io e))
      | (w, Inr (configData, rules)) \<Rightarrow>
          (case applyBundleLocked (po_dp po) configData (Some rules) (us_name u) (''Restore revision '' @ rid) w of
             (w1, Inl e) \<Rightarrow> (audit io r u ''config.restore'' (''revision/'' @ rid) ''failure'' (fail_details io e) s, p\<lparr>pl_world := w1\<rparr>, APIError 400 (ct_errText io e))
           | (w1, Inr (rv, restart)) \<Rightarrow>
               (audit io r u ''config.restore'' (''revision/'' @ rid) ''success'' [(''safety_revision'', rv_id rv), (''restart_required'', FormatBool restart)] s,
                p\<lparr>pl_world := w1\<rparr>, done_reply po 200 (RestoredBody rv restart))))"

subsection \<open>Rules\<close>

definition handleRulesGet :: "ctl_io \<Rightarrow> plane_io \<Rightarrow> plane authed" where
  "handleRulesGet io po r u s p =
     (case rules_get (po_dp po) (po_looseRules po) (pl_world p) of
        (w, Inl e) \<Rightarrow> (s, p\<lparr>pl_world := w\<rparr>, APIError 500 (ct_errText io e))
      | (w, Inr (active, f)) \<Rightarrow> (s, p\<lparr>pl_world := w\<rparr>, done_reply po 200 (RulesBody active f)))"

definition handleRulesApply :: "ctl_io \<Rightarrow> plane_io \<Rightarrow> plane authed" where
  "handleRulesApply io po r u s p =
     (case readBody io r (nat maxRuleFileBytes) of
        Inl e \<Rightarrow> (s, p, APIError 400 e)
      | Inr data \<Rightarrow>
          (case po_ruleFile po data of
             Inl e \<Rightarrow> (s, p, APIError 400 e)
           | Inr f0 \<Rightarrow>
               let f = (if rf_version f0 = 0 then f0\<lparr>rf_version := RuleFileVersion\<rparr> else f0); pretty = dp_ruleJSON (po_dp po) f in
               (case validateRuleBytes (dp_rd (po_dp po)) pretty (pl_world p) of
                  (w, Some e) \<Rightarrow> (audit io r u ''rules.validate'' ''rules/gui'' ''failure'' (fail_details io e) s, p\<lparr>pl_world := w\<rparr>, APIError 400 (ct_errText io e))
                | (w, None) \<Rightarrow>
                    (case applyRuleBytes (po_dp po) pretty (us_name u) w of
                       (w1, Inl e) \<Rightarrow> (audit io r u ''rules.apply'' ''rules/gui'' ''failure'' (fail_details io e) s, p\<lparr>pl_world := w1\<rparr>, APIError 400 (ct_errText io e))
                     | (w1, Inr (rv, restart)) \<Rightarrow>
                         (audit io r u ''rules.apply'' ''rules/gui'' ''success''
                            [(''revision'', rv_id rv), (''rule_count'', Itoa (int (length (rf_rules f)))), (''restart_required'', FormatBool restart)] s,
                          p\<lparr>pl_world := w1\<rparr>, done_reply po 200 (RulesAppliedBody rv (length (rf_rules f)) restart))))))"

definition handleRulesTest :: "ctl_io \<Rightarrow> plane_io \<Rightarrow> plane authed" where
  "handleRulesTest io po r u s p =
     (case decodeJSON io (po_test po) r 1048576 of
        Inl e \<Rightarrow> (s, p, APIError 400 e)
      | Inr (rl, t) \<Rightarrow>
          (case rules_preview (po_dp po) rl t (pl_world p) of
             (w, Inl (status, e)) \<Rightarrow> (s, p\<lparr>pl_world := w\<rparr>, APIError status (ct_errText io e))
           | (w, Inr d) \<Rightarrow>
               (audit io r u ''rules.test'' ''rules/preview'' ''success'' [(''matched'', Itoa (int (length (d_matches d)))), (''score'', Itoa (d_score d))] s,
                p\<lparr>pl_world := w\<rparr>, done_reply po 200 (DecisionBody d))))"

subsection \<open>Certificates\<close>

definition maxCertificatePartBytes :: int where "maxCertificatePartBytes = 2097152"

definition readMultipartPart :: "ctl_io \<Rightarrow> upload \<Rightarrow> string \<Rightarrow> int \<Rightarrow> string + string" where
  "readMultipartPart io up name limit =
     (case up_file up name of
        None \<Rightarrow> Inl (name @ '' file is required'')
      | Some (Inl e) \<Rightarrow> Inl (ct_errText io e)
      | Some (Inr data) \<Rightarrow>
          if limit < int (length data) then Inl (name @ '' file is too large'')
          else if data = [] then Inl (name @ '' file is empty'')
          else Inr data)"

definition handleCertificateList :: "ctl_io \<Rightarrow> plane_io \<Rightarrow> plane authed" where
  "handleCertificateList io po r u s p =
     (case listCertificates (po_cm po) (pl_world p) of
        (w, Inl e) \<Rightarrow> (s, p\<lparr>pl_world := w\<rparr>, APIError 500 (ct_errText io e))
      | (w, Inr cs) \<Rightarrow> (s, p\<lparr>pl_world := w\<rparr>, done_reply po 200 (CertificatesBody cs)))"

definition handleCertificateUpload :: "ctl_io \<Rightarrow> plane_io \<Rightarrow> plane authed" where
  "handleCertificateUpload io po r u s p =
     (case po_form po r of
        Inl e \<Rightarrow> (s, p, APIError 400 (''invalid multipart upload: '' @ e))
      | Inr up \<Rightarrow>
          let L = cd_lib (cm_rd (po_cm po)); domain = NormalizeDomain L (up_domain up) in
          if ValidateDomainPattern L domain \<noteq> None then (s, p, APIError 400 ''invalid domain: '')
          else (case readMultipartPart io up ''certificate'' maxCertificatePartBytes of
              Inl e \<Rightarrow> (s, p, APIError 400 e)
            | Inr certData \<Rightarrow>
                (case readMultipartPart io up ''private_key'' maxCertificatePartBytes of
                   Inl e \<Rightarrow> (s, p, APIError 400 e)
                 | Inr keyData \<Rightarrow>
                     (case installCertificate (po_cm po) domain certData keyData (pl_world p) of
                        (w, Inl e) \<Rightarrow> (audit io r u ''certificate.install'' (''certificate/'' @ domain) ''failure'' (fail_details io e) s, p\<lparr>pl_world := w\<rparr>, APIError 400 (ct_errText io e))
                      | (w, Inr item) \<Rightarrow>
                          (audit io r u ''certificate.install'' (''certificate/'' @ domain) ''success'' [(''not_after'', [])] s,
                           p\<lparr>pl_world := w\<rparr>, done_reply po 201 (CertificateBody item))))))"

definition handleCertificateDelete :: "ctl_io \<Rightarrow> plane_io \<Rightarrow> string \<Rightarrow> plane authed" where
  "handleCertificateDelete io po name r u s p =
     (let L = cd_lib (cm_rd (po_cm po)); domain = NormalizeDomain L name in
      if ValidateDomainPattern L domain \<noteq> None then (s, p, APIError 400 ''invalid domain'')
      else (case deleteCertificate (po_cm po) domain (pl_world p) of
          (w, Some (status, e)) \<Rightarrow> (s, p\<lparr>pl_world := w\<rparr>, APIError status (ct_errText io e))
        | (w, None) \<Rightarrow> (audit io r u ''certificate.delete'' (''certificate/'' @ domain) ''success'' [] s, p\<lparr>pl_world := w\<rparr>, done_reply po 200 DeletedBody)))"

subsection \<open>Backups\<close>

definition handleBackupList :: "ctl_io \<Rightarrow> plane_io \<Rightarrow> plane authed" where
  "handleBackupList io po r u s p =
     (case listBackups (po_dp po) (po_bk po) (pl_world p) of
        (w, Inl e) \<Rightarrow> (s, p\<lparr>pl_world := w\<rparr>, APIError 500 (ct_errText io e))
      | (w, Inr bs) \<Rightarrow> (s, p\<lparr>pl_world := w\<rparr>, done_reply po 200 (BackupsBody bs)))"

definition handleBackupCreate :: "ctl_io \<Rightarrow> plane_io \<Rightarrow> plane authed" where
  "handleBackupCreate io po r u s p =
     (case createBackup (po_dp po) (po_bk po) (us_name u) (pl_world p) of
        (w, Inl e) \<Rightarrow> (audit io r u ''backup.create'' ''backup'' ''failure'' (fail_details io e) s, p\<lparr>pl_world := w\<rparr>, APIError 500 (ct_errText io e))
      | (w, Inr bi) \<Rightarrow>
          (audit io r u ''backup.create'' (''backup/'' @ bi_id bi) ''success'' [(''size'', Itoa (bi_size bi))] s,
           p\<lparr>pl_world := w\<rparr>, done_reply po 201 (BackupBody bi)))"

definition handleBackupDownload :: "ctl_io \<Rightarrow> plane_io \<Rightarrow> string \<Rightarrow> plane authed" where
  "handleBackupDownload io po bid r u s p =
     (if \<not> validArtifactID bid then (s, p, APIError 400 ''invalid backup ID'')
      else case Stat (zipPath (po_dp po) bid) (pl_world p) of
        (w, Some e) \<Rightarrow> (s, p\<lparr>pl_world := w\<rparr>, if e = ErrNotExist then APIError 404 ''backup not found'' else APIError 500 ''backup is unavailable'')
      | (w, None) \<Rightarrow>
          let archive = (case content (zipPath (po_dp po) bid) w of Some d \<Rightarrow> d | None \<Rightarrow> []) in
          (audit io r u ''backup.download'' (''backup/'' @ bid) ''success'' [(''size'', Itoa (int (length archive)))] s,
           p\<lparr>pl_world := w\<rparr>, done_reply po 200 (ArchiveBody archive)))"

definition handleBackupRestore :: "ctl_io \<Rightarrow> plane_io \<Rightarrow> string \<Rightarrow> plane authed" where
  "handleBackupRestore io po bid r u s p =
     (if \<not> validArtifactID bid then (s, p, APIError 400 ''invalid backup ID'')
      else case restoreBackup (po_dp po) (po_bk po) bid (us_name u) (pl_world p) of
        (w, Inl e) \<Rightarrow> (audit io r u ''backup.restore'' (''backup/'' @ bid) ''failure'' (fail_details io e) s, p\<lparr>pl_world := w\<rparr>, APIError 400 (ct_errText io e))
      | (w, Inr (rv, restart)) \<Rightarrow>
          (audit io r u ''backup.restore'' (''backup/'' @ bid) ''success'' [(''safety_revision'', rv_id rv), (''restart_required'', FormatBool restart)] s,
           p\<lparr>pl_world := w\<rparr>, done_reply po 200 (BackupRestoredBody (rv_id rv) restart)))"

definition handleBackupDelete :: "ctl_io \<Rightarrow> plane_io \<Rightarrow> string \<Rightarrow> plane authed" where
  "handleBackupDelete io po bid r u s p =
     (case deleteBackup (po_dp po) bid (pl_world p) of
        (w, Some (status, e)) \<Rightarrow> (s, p\<lparr>pl_world := w\<rparr>, APIError status (ct_errText io e))
      | (w, None) \<Rightarrow> (audit io r u ''backup.delete'' (''backup/'' @ bid) ''success'' [] s, p\<lparr>pl_world := w\<rparr>, done_reply po 200 DeletedBody))"

subsection \<open>Network and service\<close>

text \<open>
  A call to the daemon over its socket: the connection may fail before the daemon sees the call, and the answer may be lost
  after it acted on it.
\<close>

definition networkRequest :: "plane_io \<Rightarrow> netd_call \<Rightarrow> plane \<Rightarrow> plane \<times> (go_error + netd_reply)" where
  "networkRequest po call p =
     (case po_dial po of
        Some e \<Rightarrow> (p, Inl e)
      | None \<Rightarrow>
          (case netd_serve (po_nc po) (po_no po) (po_interfaces po) (po_peer po) call (pl_netd p) of (d, answer) \<Rightarrow>
             (p\<lparr>pl_netd := d\<rparr>,
              case po_lost po of
                Some e \<Rightarrow> Inl e
              | None \<Rightarrow> (case answer of
                    Forbidden \<Rightarrow> Inl (Errorf ''unauthorized Unix peer'' [])
                  | NetdError _ e \<Rightarrow> Inl e
                  | _ \<Rightarrow> Inr answer))))"

definition handleNetworkStatus :: "ctl_io \<Rightarrow> plane_io \<Rightarrow> plane authed" where
  "handleNetworkStatus io po r u s p =
     (case po_interfaces po of
        Inl e \<Rightarrow> (s, p, APIError 500 (ct_errText io e))
      | Inr _ \<Rightarrow> (case networkRequest po StatusCall p of (p1, answer) \<Rightarrow> (s, p1, done_reply po 200 (NetworkBody answer))))"

definition handleNetworkValidate :: "ctl_io \<Rightarrow> plane_io \<Rightarrow> plane authed" where
  "handleNetworkValidate io po r u s p =
     (case decodeJSON io (po_plan po) r 262144 of
        Inl e \<Rightarrow> (s, p, APIError 400 e)
      | Inr plan \<Rightarrow>
          (case po_interfaces po of
             Inl e \<Rightarrow> (s, p, APIError 500 (ct_errText io e))
           | Inr known \<Rightarrow>
               (case ValidateNetworkPlan plan (Some known) of
                  Some e \<Rightarrow> (audit io r u ''network.validate'' (''network/'' @ np_interface plan) ''failure'' (fail_details io e) s, p, APIError 400 (ct_errText io e))
                | None \<Rightarrow>
                    (case RenderNetplan plan of
                       Inl e \<Rightarrow> (s, p, APIError 400 (ct_errText io e))
                     | Inr yaml \<Rightarrow> (audit io r u ''network.validate'' (''network/'' @ np_interface plan) ''success'' [] s, p, done_reply po 200 (NetplanBody yaml))))))"

definition handleNetworkApply :: "ctl_io \<Rightarrow> plane_io \<Rightarrow> plane authed" where
  "handleNetworkApply io po r u s p =
     (case decodeJSON io (po_plan po) r 262144 of
        Inl e \<Rightarrow> (s, p, APIError 400 e)
      | Inr plan \<Rightarrow>
          (case po_interfaces po of
             Inl e \<Rightarrow> (s, p, APIError 500 (ct_errText io e))
           | Inr known \<Rightarrow>
               (case ValidateNetworkPlan plan (Some known) of
                  Some e \<Rightarrow> (s, p, APIError 400 (ct_errText io e))
                | None \<Rightarrow>
                    (case networkRequest po (ApplyCall (po_wire po plan)) p of
                       (p1, Inl e) \<Rightarrow>
                         (audit io r u ''network.apply'' (''network/'' @ np_interface plan) ''failure'' (fail_details io e) s, p1,
                          APIError 503 (''privileged network helper failed: '' @ ct_errText io e))
                     | (p1, Inr answer) \<Rightarrow>
                         (audit io r u ''network.apply'' (''network/'' @ np_interface plan) ''success'' [(''token'', [])] s, p1, done_reply po 202 (HelperBody answer))))))"

definition handleNetworkTokenAction :: "ctl_io \<Rightarrow> plane_io \<Rightarrow> (string \<Rightarrow> netd_call) \<Rightarrow> string \<Rightarrow> plane authed" where
  "handleNetworkTokenAction io po call action r u s p =
     (case decodeJSON io (po_token po) r 65536 of
        Inl e \<Rightarrow> (s, p, APIError 400 e)
      | Inr tok \<Rightarrow>
          if \<not> validNetworkToken tok then (s, p, APIError 400 ''invalid network change token'')
          else (case networkRequest po (call tok) p of
              (p1, Inl e) \<Rightarrow> (audit io r u action ''network/change'' ''failure'' (fail_details io e) s, p1, APIError 503 (ct_errText io e))
            | (p1, Inr answer) \<Rightarrow> (audit io r u action ''network/change'' ''success'' [(''token'', tok)] s, p1, done_reply po 200 (HelperBody answer))))"

definition handleWAFRestart :: "ctl_io \<Rightarrow> plane_io \<Rightarrow> plane authed" where
  "handleWAFRestart io po r u s p =
     (case networkRequest po RestartCall p of
        (p1, Inl e) \<Rightarrow>
          (audit io r u ''service.restart'' ''service/cherrywaf'' ''failure'' (fail_details io e) s, p1,
           APIError 503 (''privileged appliance helper failed: '' @ ct_errText io e))
      | (p1, Inr answer) \<Rightarrow> (audit io r u ''service.restart'' ''service/cherrywaf'' ''success'' [] s, p1, done_reply po 200 (HelperBody answer)))"

definition handleDashboard :: "ctl_io \<Rightarrow> plane_io \<Rightarrow> plane authed" where
  "handleDashboard io po r u s p = (s, p, done_reply po 200 (DashboardBody (po_status po)))"

text \<open>The operations behind the gate; those on accounts are run by \<open>Control\<close> itself.\<close>

definition plane_ops :: "ctl_io \<Rightarrow> plane_io \<Rightarrow> plane external_ops" where
  "plane_ops io po op vals =
     (case op of
        OpDashboard \<Rightarrow> handleDashboard io po
      | OpConfigGet \<Rightarrow> handleConfigGet io po
      | OpConfigValidate \<Rightarrow> handleConfigValidate io po
      | OpConfigApply \<Rightarrow> handleConfigApply io po
      | OpRevisionList \<Rightarrow> handleRevisionList io po
      | OpRevisionRestore \<Rightarrow> handleRevisionRestore io po (hd vals)
      | OpRulesGet \<Rightarrow> handleRulesGet io po
      | OpRulesApply \<Rightarrow> handleRulesApply io po
      | OpRulesTest \<Rightarrow> handleRulesTest io po
      | OpCertificateList \<Rightarrow> handleCertificateList io po
      | OpCertificateUpload \<Rightarrow> handleCertificateUpload io po
      | OpCertificateDelete \<Rightarrow> handleCertificateDelete io po (hd vals)
      | OpNetworkStatus \<Rightarrow> handleNetworkStatus io po
      | OpNetworkValidate \<Rightarrow> handleNetworkValidate io po
      | OpNetworkApply \<Rightarrow> handleNetworkApply io po
      | OpNetworkConfirm \<Rightarrow> handleNetworkTokenAction io po (\<lambda>t. ConfirmCall (Inr t)) ''network.confirm''
      | OpNetworkRollback \<Rightarrow> handleNetworkTokenAction io po (\<lambda>t. RollbackCall (Inr t)) ''network.rollback''
      | OpWAFRestart \<Rightarrow> handleWAFRestart io po
      | OpBackupList \<Rightarrow> handleBackupList io po
      | OpBackupCreate \<Rightarrow> handleBackupCreate io po
      | OpBackupDownload \<Rightarrow> handleBackupDownload io po (hd vals)
      | OpBackupRestore \<Rightarrow> handleBackupRestore io po (hd vals)
      | OpBackupDelete \<Rightarrow> handleBackupDelete io po (hd vals)
      | _ \<Rightarrow> (\<lambda>r u s p. (s, p, APIError 404 ''not found'')))"

subsection \<open>What a handler changes\<close>

definition same_files :: "world \<Rightarrow> world \<Rightarrow> bool" where
  "same_files w w1 \<longleftrightarrow> wo_files w1 = wo_files w \<and> wo_running w1 = wo_running w"

definition same_plane :: "plane \<Rightarrow> plane \<Rightarrow> bool" where
  "same_plane p p1 \<longleftrightarrow> same_files (pl_world p) (pl_world p1) \<and> same_files (nd_world (pl_netd p)) (nd_world (pl_netd p1))
     \<and> nd_timers (pl_netd p1) = nd_timers (pl_netd p)"

text \<open>
  Every handler leaves the store alone but for one event of its account, and without an event it changes nothing; the deletion of a
  certificate alone may fail half way, with status 500, without an event, and with files of the certificate's directory gone.
\<close>

definition logged :: "ctl_io \<Rightarrow> request \<Rightarrow> user \<Rightarrow> control_store \<Rightarrow> control_store \<Rightarrow> bool" where
  "logged io r u s t \<longleftrightarrow> (\<exists>action resource outcome details. t = audit io r u action resource outcome details s)"

definition accountable :: "ctl_io \<Rightarrow> plane authed \<Rightarrow> bool" where
  "accountable io h \<longleftrightarrow> (\<forall>r u s p t p1 out. h r u s p = (t, p1, out) \<longrightarrow> t = s \<and> same_plane p p1 \<or> logged io r u s t)"

definition half_deleted :: "plane_io \<Rightarrow> string \<Rightarrow> plane \<Rightarrow> plane \<Rightarrow> ctl_reply \<Rightarrow> bool" where
  "half_deleted po domain p p1 out \<longleftrightarrow> pl_netd p1 = pl_netd p \<and> wo_running (pl_world p1) = wo_running (pl_world p) \<and> (\<exists>e. out = APIError 500 e)
     \<and> (\<forall>q. content q (pl_world p1) = content q (pl_world p) \<or> lies_in (certDir (po_cm po) domain) q \<and> content q (pl_world p1) = None)"

lemma logged_audit [simp]: "logged io r u s (audit io r u a b c d s)" by (auto simp: logged_def)

lemma same_plane_refl [simp]: "same_plane p p" by (simp add: same_plane_def same_files_def)

lemma same_plane_world: "quiet (pl_world p) w \<Longrightarrow> same_plane p (p\<lparr>pl_world := w\<rparr>)"
  by (simp add: same_plane_def same_files_def quiet_def)

lemma quiet_refl [simp]: "quiet w w" by (simp add: quiet_def)

lemma read_revisions_quiet: "read_revisions io ds w = (w1, rs) \<Longrightarrow> quiet w w1"
proof (induction ds arbitrary: w rs)
  case (Cons d ds)
  obtain w2 r where 2: "ReadFile (revisionDir io d @ ''/metadata.json'') w = (w2, r)" by (rule prod.exhaust)
  obtain w3 qs where 3: "read_revisions io ds w2 = (w3, qs)" by (rule prod.exhaust)
  have "w3 = w1" using Cons.prems 2 3 by simp
  then show ?case using quiet_trans [OF ReadFile_quiet [OF 2] Cons.IH [OF 3 [unfolded \<open>w3 = w1\<close>]]] by simp
qed simp

lemma list_certs_quiet: "list_certs cm ns w = (w1, cs) \<Longrightarrow> quiet w w1"
proof (induction ns arbitrary: w cs)
  case (Cons n ns)
  obtain w2 r where 2: "ReadFile (certificatesDir cm @ ''/'' @ n @ ''/metadata.json'') w = (w2, r)" by (rule prod.exhaust)
  note q2 = ReadFile_quiet [OF 2]
  have rest: "quiet w w1" if "list_certs cm ns x = (w1, ds)" "quiet w x" for x ds using Cons.IH [OF that(1)] quiet_trans that(2) by blast
  show ?case
    using Cons.prems 2 q2 quiet_trans [OF q2 inUse_quiet] by (auto simp: Let_def intro: rest split: sum.splits option.splits if_splits prod.splits)
qed simp

text \<open>Listing and reading change nothing.\<close>

lemma listRevisions_quiet: "listRevisions io w = (w1, r) \<Longrightarrow> quiet w w1"
  by (auto simp: listRevisions_def intro: meet_quiet quiet_trans [OF meet_quiet read_revisions_quiet] split: prod.splits option.splits)

lemma listCertificates_quiet: "listCertificates cm w = (w1, r) \<Longrightarrow> quiet w w1"
  by (auto simp: listCertificates_def intro: meet_quiet quiet_trans [OF meet_quiet list_certs_quiet] split: prod.splits option.splits)

lemma listBackups_quiet: "listBackups io bk w = (w1, r) \<Longrightarrow> quiet w w1"
  by (auto simp: listBackups_def intro: meet_quiet quiet_trans [OF meet_quiet read_records_quiet] split: prod.splits option.splits)

lemma validateConfigBytes_quiet: "validateConfigBytes io d w = (w1, r) \<Longrightarrow> quiet w w1"
  by (auto simp: validateConfigBytes_def intro: meet_quiet split: prod.splits option.splits sum.splits)

lemma read_revision_quiet: "read_revision io rid w = (w1, r) \<Longrightarrow> quiet w w1"
  by (auto simp: read_revision_def intro: ReadFile_quiet quiet_trans [OF ReadFile_quiet readOptional_quiet] split: prod.splits sum.splits if_splits)

lemma rules_get_quiet: "rules_get io dec w = (w1, r) \<Longrightarrow> quiet w w1"
  by (auto simp: rules_get_def intro: ReadFile_quiet quiet_trans [OF ReadFile_quiet Load_quiet] split: prod.splits sum.splits option.splits)

lemma rules_preview_quiet: "rules_preview io rl t w = (w1, r) \<Longrightarrow> quiet w w1"
  by (auto simp: rules_preview_def intro: meet_quiet split: prod.splits option.splits)

lemmas reading_quiet = ReadFile_quiet Stat_quiet listRevisions_quiet listCertificates_quiet listBackups_quiet validateConfigBytes_quiet
  read_revision_quiet rules_get_quiet rules_preview_quiet

text \<open>A refused deletion of a backup has deleted nothing, that of a certificate with status 500 may have deleted files of it.\<close>

lemma Remove_refused: "Remove p w = (w1, Some e) \<Longrightarrow> quiet w w1"
  by (auto simp: Remove_def intro: meet_quiet split: prod.splits option.splits if_splits)

lemma deleteBackup_refused: "deleteBackup io bid w = (w1, Some x) \<Longrightarrow> quiet w w1"
  by (auto simp: deleteBackup_def intro: Stat_quiet quiet_trans [OF Stat_quiet Remove_refused] split: prod.splits option.splits if_splits)

lemma deleteCertificate_refused:
  assumes "deleteCertificate cm d w = (w1, Some (status, e))"
  shows "quiet w w1 \<or> status = 500 \<and> wo_running w1 = wo_running w
    \<and> (\<forall>q. content q w1 = content q w \<or> lies_in (certDir cm d) q \<and> content q w1 = None)"
proof -
  obtain w2 r where 2: "certificateInUse cm d w = (w2, r)" by (rule prod.exhaust)
  obtain w3 f where 3: "meet w2 = (w3, f)" by (rule prod.exhaust)
  obtain w4 g where 4: "RemoveAll (certDir cm d) w3 = (w4, g)" by (rule prod.exhaust)
  have q: "quiet w w2" "quiet w w3" using inUse_quiet [OF 2] quiet_trans [OF inUse_quiet [OF 2] meet_quiet [OF 3]] by blast+
  have "w1 \<in> {w2, w3} \<or> w1 = w4 \<and> status = 500"
    using assms 2 3 4 by (auto simp: deleteCertificate_def split: sum.splits bool.splits if_splits)
  moreover have "wo_running w4 = wo_running w \<and> (\<forall>q. content q w4 = content q w \<or> lies_in (certDir cm d) q \<and> content q w4 = None)"
    using RemoveAll_step [OF 4] q(2) by (simp add: quiet_def content_def) blast
  ultimately show ?thesis using q by auto
qed

lemma certificate_delete_accountable:
  assumes "handleCertificateDelete io po x r u s p = (t, p1, out)"
  shows "t = s \<and> (same_plane p p1 \<or> half_deleted po (NormalizeDomain (cd_lib (cm_rd (po_cm po))) x) p p1 out) \<or> logged io r u s t"
proof (cases "ValidateDomainPattern (cd_lib (cm_rd (po_cm po))) (NormalizeDomain (cd_lib (cm_rd (po_cm po))) x)")
  case None
  obtain w f where d: "deleteCertificate (po_cm po) (NormalizeDomain (cd_lib (cm_rd (po_cm po))) x) (pl_world p) = (w, f)" by (rule prod.exhaust)
  show ?thesis
  proof (cases f)
    case f: None
    then show ?thesis using assms None d by (auto simp: handleCertificateDelete_def Let_def)
  next
    case (Some z)
    obtain status e where z: "z = (status, e)" by (rule prod.exhaust)
    have o: "t = s" "p1 = p\<lparr>pl_world := w\<rparr>" "out = APIError status (ct_errText io e)"
      using assms None d Some z by (auto simp: handleCertificateDelete_def Let_def)
    show ?thesis using deleteCertificate_refused [OF d [unfolded Some z]] same_plane_world [of p w] o by (auto simp: half_deleted_def)
  qed
qed (use assms in \<open>simp add: handleCertificateDelete_def Let_def\<close>)

lemma status_quiet:
  assumes "networkRequest po StatusCall p = (p1, r)"
  shows "same_plane p p1"
proof -
  obtain w1 x where "pendingChanges (po_nc po) (po_no po) (nd_world (pl_netd p)) = (w1, x)" by (rule prod.exhaust)
  moreover from this have "quiet (nd_world (pl_netd p)) w1" by (rule pendingChanges_quiet)
  ultimately show ?thesis using assms
    by (auto simp: networkRequest_def netd_serve_def netd_handleStatus_def same_plane_def same_files_def quiet_def split: option.splits if_splits)
qed

lemma handlers_accountable:
  "accountable io (handleDashboard io po)"
  "accountable io (handleConfigGet io po)"
  "accountable io (handleConfigValidate io po)"
  "accountable io (handleConfigApply io po)"
  "accountable io (handleRevisionList io po)"
  "accountable io (handleRevisionRestore io po x)"
  "accountable io (handleRulesGet io po)"
  "accountable io (handleRulesApply io po)"
  "accountable io (handleRulesTest io po)"
  "accountable io (handleCertificateList io po)"
  "accountable io (handleCertificateUpload io po)"
  "accountable io (handleBackupList io po)"
  "accountable io (handleBackupCreate io po)"
  "accountable io (handleBackupDownload io po x)"
  "accountable io (handleBackupRestore io po x)"
  "accountable io (handleBackupDelete io po x)"
  "accountable io (handleNetworkStatus io po)"
  "accountable io (handleNetworkValidate io po)"
  "accountable io (handleNetworkApply io po)"
  "accountable io (handleNetworkTokenAction io po call y)"
  "accountable io (handleWAFRestart io po)"
  by (auto simp: accountable_def handleDashboard_def handleConfigGet_def handleConfigValidate_def handleConfigApply_def handleRevisionList_def handleRevisionRestore_def handleRulesGet_def handleRulesApply_def handleRulesTest_def handleCertificateList_def handleCertificateUpload_def handleBackupList_def handleBackupCreate_def handleBackupDownload_def handleBackupRestore_def handleBackupDelete_def handleNetworkStatus_def handleNetworkValidate_def handleNetworkApply_def handleNetworkTokenAction_def handleWAFRestart_def
      Let_def intro!: same_plane_world intro: reading_quiet deleteBackup_refused status_quiet
      split: prod.splits sum.splits option.splits if_splits)

lemma plane_ops_accountable: "op \<noteq> OpCertificateDelete \<Longrightarrow> accountable io (plane_ops io po op vals)"
  by (cases op) (simp_all add: plane_ops_def handlers_accountable, simp_all add: accountable_def)

text \<open>Routes open to viewers and operators run operations that change nothing, the rules apart.\<close>

definition reading_op :: "api_op \<Rightarrow> bool" where
  "reading_op op \<longleftrightarrow> op \<in> {OpLogout, OpMe, OpDashboard, OpConfigGet, OpConfigValidate, OpRevisionList, OpRulesGet, OpRulesTest,
     OpCertificateList, OpNetworkStatus, OpUsersList, OpUsersCreate, OpUsersUpdate, OpUsersDelete, OpAuditList}"

lemma reading_routes:
  assumes "a \<in> set api_routes" "\<not> reading_op (ar_op a)"
  shows "ar_csrf a \<or> ar_op a = OpBackupList \<or> ar_op a = OpBackupDownload" "ar_role a = RoleAdmin \<or> ar_op a = OpRulesApply \<and> ar_role a = RoleOperator"
proof -
  have "list_all (\<lambda>a. reading_op (ar_op a) \<or> (ar_csrf a \<or> ar_op a = OpBackupList \<or> ar_op a = OpBackupDownload)
      \<and> (ar_role a = RoleAdmin \<or> ar_op a = OpRulesApply \<and> ar_role a = RoleOperator)) api_routes"
    by code_simp
  then show "ar_csrf a \<or> ar_op a = OpBackupList \<or> ar_op a = OpBackupDownload" "ar_role a = RoleAdmin \<or> ar_op a = OpRulesApply \<and> ar_role a = RoleOperator"
    using assms by (auto simp: list_all_iff)
qed

lemma reading_op_changes_nothing:
  assumes "run_op io (plane_ops io po) op vals r u s p = (t, p1, out)" "reading_op op \<or> op = OpBackupList \<or> op = OpBackupDownload"
  shows "same_plane p p1"
  using assms
  by (auto simp: run_op_def plane_ops_def reading_op_def on_store_def handleDashboard_def handleConfigGet_def handleConfigValidate_def handleRevisionList_def
      handleRulesGet_def handleRulesTest_def handleCertificateList_def handleNetworkStatus_def handleBackupList_def handleBackupDownload_def Let_def
      intro!: same_plane_world intro: reading_quiet status_quiet split: prod.splits sum.splits option.splits if_splits)

lemma run_op_accountable:
  assumes "run_op io (plane_ops io po) op vals r u s p = (t, p1, out)" "\<not> same_plane p p1"
  shows "logged io r u s t
    \<or> op = OpCertificateDelete \<and> t = s \<and> half_deleted po (NormalizeDomain (cd_lib (cm_rd (po_cm po))) (hd vals)) p p1 out"
proof -
  have "p1 \<noteq> p" using assms(2) by auto
  then have r: "plane_ops io po op vals r u s p = (t, p1, out)" using assms(1) by (cases op) (auto simp: run_op_def on_store_def split: prod.splits)
  show ?thesis
  proof (cases "op = OpCertificateDelete")
    case True
    then show ?thesis using certificate_delete_accountable [of io po "hd vals" r u s p t p1 out] r assms(2) by (simp add: plane_ops_def) blast
  next
    case False
    then show ?thesis using plane_ops_accountable [OF False, of io po vals] r assms(2) unfolding accountable_def by blast
  qed
qed

lemma require_ran:
  assumes "require io m c nxt r s w = (t, w1, out)" "w1 \<noteq> w"
  obtains s1 u sn where "ctl_principal io r s = (s1, Some (u, sn))" "roleLevel m \<le> roleLevel (us_role u)" "nxt r u s1 w = (t, w1, out)"
    "c \<Longrightarrow> sn_csrf sn \<noteq> [] \<and> TrimSpace (header_get (rq_header r) ''X-CSRF-Token'') = sn_csrf sn"
  using assms by (auto simp: require_def Let_def split: prod.splits option.splits if_splits)

subsection \<open>Properties\<close>


subsection \<open>Paths of artifacts\<close>

lemma Join_snoc: "xs \<noteq> [] \<Longrightarrow> Join (xs @ [x]) sep = Join xs sep @ sep @ x"
  by (induction xs sep rule: Join.induct) auto

lemma JoinPath_segment:
  assumes "IsAbs d" "Clean d = d" "d \<noteq> ''/''" "CHR ''/'' \<notin> set x" "x \<notin> {[], ''.'', ''..''}"
  shows "JoinPath d x = d @ ''/'' @ x"
proof -
  let ?st = "foldl (clean_elem True) [] (Split d CHR ''/'')"
  have r: "IsAbs (d @ y)" for y using assms(1) by (cases d) (auto simp: IsAbs_def HasPrefix_def)
  have body: "d = CHR ''/'' # Join ?st ''/''" using assms(1,2) by (simp add: Clean_def Let_def)
  have ne: "?st \<noteq> []" using body assms(3) by auto
  have "Split (d @ ''/'' @ x) CHR ''/'' = Split d CHR ''/'' @ [x]"
    using Split_append [of d "CHR ''/''" x] Split_no_sep [of "CHR ''/''" x] assms(4) by simp
  then have "Clean (d @ ''/'' @ x) = CHR ''/'' # Join (?st @ [x]) ''/''"
    using r [of "''/'' @ x"] assms(5) by (simp add: Clean_def Let_def clean_elem_def)
  also have "\<dots> = d @ ''/'' @ x" using body Join_snoc [OF ne] by (metis append_Cons)
  finally show ?thesis using assms(5) body by (auto simp: JoinPath_def)
qed

lemma Clean_dot:
  assumes "IsAbs d" "Clean d = d"
  shows "JoinPath d ''.'' = d"
proof -
  have r: "IsAbs (d @ y)" for y using assms(1) by (cases d) (auto simp: IsAbs_def HasPrefix_def)
  have "Split (d @ ''/'' @ ''.'') CHR ''/'' = Split d CHR ''/'' @ [''.'']"
    using Split_append [of d "CHR ''/''" "''.''"] by simp
  then have "Clean (d @ ''/'' @ ''.'') = Clean d"
    using r [of "''/.''"] assms(1) by (simp add: Clean_def Let_def clean_elem_def)
  then show ?thesis using assms by (auto simp: JoinPath_def IsAbs_def HasPrefix_def)
qed

lemma slug_plain: "CHR ''/'' \<notin> set (certificateSlug d)" "certificateSlug d \<notin> {[], ''.'', ''..''}"
proof -
  have c: "slug_char c \<noteq> CHR ''/''" for c by (auto simp: slug_char_def is_lower_def is_digit_def byte_def)
  have "CHR ''/'' \<notin> set (map slug_char s)" for s using c by (metis ex_map_conv)
  then show "CHR ''/'' \<notin> set (certificateSlug d)" "certificateSlug d \<notin> {[], ''.'', ''..''}"
    by (simp_all add: certificateSlug_def)
qed


subsection \<open>Witness\<close>

definition sample_plane_io :: plane_io where
  "sample_plane_io = \<lparr>po_dp = sample_deploy, po_bk = sample_bk, po_cm = sample_cm, po_nc = sample_nc, po_no = sample_netd_io, po_isJSON = (\<lambda>_. True),
     po_ruleFile = (\<lambda>_. Inl []), po_looseRules = (\<lambda>_. None), po_test = (\<lambda>_. Inl []), po_form = (\<lambda>_. Inl []), po_plan = (\<lambda>_. Inl []), po_token = (\<lambda>_. Inl []),
     po_interfaces = Inr [], po_dial = None, po_lost = None, po_peer = Some 0, po_wire = Inr, po_status = None, po_render = (\<lambda>_. [])\<rparr>"

definition sample_plane :: plane where
  "sample_plane = \<lparr>pl_world = sample_world [], pl_netd = sample_netd []\<rparr>"

definition backup_request :: request where
  "backup_request = delete_request\<lparr>rq_method := ''POST'', rq_url := (rq_url delete_request)\<lparr>u_path := ''/api/v1/backups''\<rparr>\<rparr>"



text \<open>
  The exception is real: the fourth call of this deletion, which unlinks the key, fails. The certificate is gone, the key is left, the answer is an
  error, and the audit log says nothing.
\<close>
theorem deletion_unrecorded:
  "\<exists>t p1 e. Handler sample_ctl (plane_ops sample_ctl sample_plane_io)
       (delete_request\<lparr>rq_url := (rq_url delete_request)\<lparr>u_path := ''/api/v1/certificates/a.b''\<rparr>\<rparr>) busy_store
       (sample_plane\<lparr>pl_world := sample_cm_world [None, None, None, Some (Errorf ''x'' [])]\<rparr>) = (t, p1, APIError 500 e)
     \<and> content ''/s/certificates/exact-a.b/fullchain.pem'' (pl_world p1) = None
     \<and> content ''/s/certificates/exact-a.b/privkey.pem'' (pl_world p1) = Some ''k0'' \<and> cs_audit t = cs_audit busy_store"
proof -
  let ?run = "Handler sample_ctl (plane_ops sample_ctl sample_plane_io)
       (delete_request\<lparr>rq_url := (rq_url delete_request)\<lparr>u_path := ''/api/v1/certificates/a.b''\<rparr>\<rparr>) busy_store
       (sample_plane\<lparr>pl_world := sample_cm_world [None, None, None, Some (Errorf ''x'' [])]\<rparr>)"
  have "case ?run of (t, p1, out) \<Rightarrow> (case out of APIError s _ \<Rightarrow> s = 500 | OK _ _ \<Rightarrow> False)
     \<and> content ''/s/certificates/exact-a.b/fullchain.pem'' (pl_world p1) = None
     \<and> content ''/s/certificates/exact-a.b/privkey.pem'' (pl_world p1) = Some ''k0'' \<and> cs_audit t = cs_audit busy_store" by code_simp
  then show ?thesis by (auto split: prod.splits ctl_reply.splits)
qed


end
