(* ===== verification/CtlTool.thy ===== *)
theory CtlTool
  imports Certs
begin

text \<open>
  The command line tool (\<open>cmd/cherrywafctl/main.go\<close>): checking and installing a certificate pair, and adding a
  virtual host to the configuration. Flags arrive as the arguments of the functions; printing is left out. File modes and the
  account database are parameters.
\<close>

record tool_io =
  tl_rd :: config_reader
  tl_pem :: pem_decode
  tl_x509 :: "string \<Rightarrow> go_error + leaf"
  tl_perm :: "string \<Rightarrow> int option"
  tl_owner :: "string \<Rightarrow> go_error + int \<times> int"
  tl_group :: "string \<Rightarrow> go_error + int"
  tl_marshal :: "config \<Rightarrow> string"

definition tool_cert_io :: "tool_io \<Rightarrow> world \<Rightarrow> cert_io" where
  "tool_cert_io tx w = (files_cert_io (tl_rd tx) w)\<lparr>ci_perm := tl_perm tx\<rparr>"

subsection \<open>Certificates\<close>

definition covers :: "tool_io \<Rightarrow> string \<Rightarrow> string \<Rightarrow> (go_error \<Rightarrow> go_error) \<Rightarrow> world \<Rightarrow> world \<times> go_error option" where
  "covers tx certPath domain wrapped w =
     (case ReadFile certPath w of
        (w1, Inl e) \<Rightarrow> (w1, Some e)
      | (w1, Inr data) \<Rightarrow>
          (w1, case ParseLeafCertificate (tl_pem tx) (tl_x509 tx) data of
             Inl e \<Rightarrow> Some e
           | Inr lf \<Rightarrow> if VerifyDomain (cd_lib (tl_rd tx)) (tool_cert_io tx w1) (Some lf) domain then None
                     else Some (wrapped (Errorf ''certificate does not cover the domain'' []))))"

definition validatePair :: "tool_io \<Rightarrow> string \<Rightarrow> string \<Rightarrow> string \<Rightarrow> world \<Rightarrow> world \<times> (go_error + cert_info)" where
  "validatePair tx certPath keyPath domain w =
     (if certPath = [] \<or> keyPath = [] then (w, Inl (Errorf ''--cert and --key are required'' []))
      else case ValidatePair (tool_cert_io tx w) certPath keyPath (cd_now (tl_rd tx)) of
        Inl e \<Rightarrow> (w, Inl e)
      | Inr info \<Rightarrow>
          if domain = [] then (w, Inr info)
          else (case covers tx certPath domain (\<lambda>e. Wrapped ''certificate does not cover %q: %w'' [domain] [e]) w of
              (w1, Some e) \<Rightarrow> (w1, Inl e)
            | (w1, None) \<Rightarrow> (w1, Inr info)))"

definition validatePairSilent :: "tool_io \<Rightarrow> string \<Rightarrow> string \<Rightarrow> string \<Rightarrow> world \<Rightarrow> world \<times> go_error option" where
  "validatePairSilent tx certPath keyPath domain w =
     (if certPath = [] \<or> keyPath = [] then (w, Some (Errorf ''--cert and --key are required'' []))
      else case ValidatePair (tool_cert_io tx w) certPath keyPath (cd_now (tl_rd tx)) of
        Inl e \<Rightarrow> (w, Some e)
      | Inr _ \<Rightarrow> covers tx certPath domain (\<lambda>e. e) w)"

definition atomicCopy :: "string \<Rightarrow> string \<Rightarrow> world \<Rightarrow> world \<times> go_error option" where
  "atomicCopy source destination w =
     (case ReadFile source w of
        (w1, Inl e) \<Rightarrow> (w1, Some e)
      | (w1, Inr data) \<Rightarrow> writeAtomic destination data w1)"

definition resolveOwnership :: "tool_io \<Rightarrow> string \<Rightarrow> string \<Rightarrow> go_error + int \<times> int" where
  "resolveOwnership tx ownerName groupName =
     (case (if ownerName = [] then Inr (-1, -1) else tl_owner tx ownerName) of
        Inl e \<Rightarrow> Inl e
      | Inr (uid, ownGid) \<Rightarrow>
          if groupName = [] then Inr (uid, if ownerName = [] then -1 else ownGid)
          else (case tl_group tx groupName of Inl e \<Rightarrow> Inl e | Inr gid \<Rightarrow> Inr (uid, gid)))"

fun chown_all :: "string list \<Rightarrow> world \<Rightarrow> world \<times> go_error option" where
  "chown_all [] w = (w, None)"
| "chown_all (p # ps) w =
     (case meet w of
        (w1, Some e) \<Rightarrow> (w1, Some (Wrapped ''chown %s: %w'' [p] [e]))
      | (w1, None) \<Rightarrow> chown_all ps w1)"

definition set_owner :: "tool_io \<Rightarrow> string \<Rightarrow> string \<Rightarrow> string list \<Rightarrow> world \<Rightarrow> world \<times> go_error option" where
  "set_owner tx ownerName groupName paths w =
     (if ownerName = [] \<and> groupName = [] then (w, None)
      else case resolveOwnership tx ownerName groupName of
        Inl e \<Rightarrow> (w, Some e)
      | Inr _ \<Rightarrow> chown_all paths w)"

definition destination :: "string \<Rightarrow> string \<Rightarrow> string" where
  "destination dir domain = JoinPath dir domain"

definition copy_pair :: "string \<Rightarrow> string \<Rightarrow> string \<Rightarrow> world \<Rightarrow> world \<times> go_error option" where
  "copy_pair certPath keyPath dest w =
     (case atomicCopy certPath (dest @ ''/fullchain.pem'') w of
        (w1, Some e) \<Rightarrow> (w1, Some e)
      | (w1, None) \<Rightarrow> atomicCopy keyPath (dest @ ''/privkey.pem'') w1)"

definition installPair :: "tool_io \<Rightarrow> string \<Rightarrow> string \<Rightarrow> string \<Rightarrow> string \<Rightarrow> string \<Rightarrow> string \<Rightarrow> world \<Rightarrow> world \<times> go_error option" where
  "installPair tx certPath keyPath domain dir ownerName groupName w =
     (let dom = NormalizeDomain (cd_lib (tl_rd tx)) domain; dest = destination dir dom in
      case ValidateDomainPattern (cd_lib (tl_rd tx)) dom of
        Some _ \<Rightarrow> (w, Some (Errorf ''invalid --domain: %w'' []))
      | None \<Rightarrow>
          (case validatePairSilent tx certPath keyPath dom w of
             (w1, Some e) \<Rightarrow> (w1, Some e)
           | (w1, None) \<Rightarrow>
               (case meet w1 of
                  (w2, Some e) \<Rightarrow> (w2, Some e)
                | (w2, None) \<Rightarrow>
                    (case copy_pair certPath keyPath dest w2 of
                       (w3, Some e) \<Rightarrow> (w3, Some e)
                     | (w3, None) \<Rightarrow>
                         set_owner tx ownerName groupName [dest, dest @ ''/fullchain.pem'', dest @ ''/privkey.pem''] w3))))"

subsection \<open>Virtual hosts\<close>

record upsert_args =
  ua_config :: string
  ua_name :: string
  ua_domain :: string
  ua_upstream :: string
  ua_cert :: string
  ua_key :: string
  ua_originName :: string
  ua_preserveHost :: bool
  ua_redirect :: bool

text \<open>The virtual host as the tool fills it in; every other field has Go's zero value.\<close>

definition upsert_vhost :: "upsert_args \<Rightarrow> string \<Rightarrow> virtual_host" where
  "upsert_vhost ua domain =
     \<lparr>vh_name = ua_name ua, vh_enabled = True, vh_domains = [domain], vh_action = [], vh_upstream = ua_upstream ua, vh_pool = [],
      vh_redirect = \<lparr>rd_url = [], rd_status = 0\<rparr>, vh_discard = 0, vh_preserveHost = ua_preserveHost ua,
      vh_frontTLS = \<lparr>ft_cert = ua_cert ua, ft_key = ua_key ua\<rparr>,
      vh_originTLS = \<lparr>ot_serverName = ua_originName ua, ot_caFile = [], ot_insecure = False\<rparr>,
      vh_persistence = \<lparr>ps_mode = [], ps_cookie = [], ps_ttl = 0\<rparr>,
      vh_waf = \<lparr>wp_mode = [], wp_threshold = 0, wp_maxBody = 0, wp_builtins = None, wp_ruleFiles = [], wp_rateLimit = None,
        wp_failMode = [], wp_allow = [], wp_deny = []\<rparr>,
      vh_bot = \<lparr>bp_enabled = False, bp_mode = [], bp_rpm = 0, bp_burst = 0, bp_bad = [], bp_allow = []\<rparr>,
      vh_routes = [], vh_reqHeaders = [], vh_respHeaders = [(''X-Content-Type-Options'', ''nosniff'')]\<rparr>"

fun put_vhost :: "virtual_host \<Rightarrow> virtual_host list \<Rightarrow> virtual_host list" where
  "put_vhost v [] = [v]"
| "put_vhost v (x # xs) = (if vh_name x = vh_name v then v # xs else x # put_vhost v xs)"

definition upsert_config :: "upsert_args \<Rightarrow> string \<Rightarrow> config \<Rightarrow> config" where
  "upsert_config ua domain c =
     c\<lparr>c_vhosts := put_vhost (upsert_vhost ua domain) (c_vhosts c),
       c_https := (c_https c)\<lparr>hs_enabled := True\<rparr>, c_http := (c_http c)\<lparr>h_redirect := ua_redirect ua\<rparr>\<rparr>"

text \<open>\<open>Inr\<close> tells whether a restart is required.\<close>

definition vhostUpsert :: "tool_io \<Rightarrow> upsert_args \<Rightarrow> world \<Rightarrow> world \<times> (go_error + bool)" where
  "vhostUpsert tx ua w =
     (let L = cd_lib (tl_rd tx); dom = NormalizeDomain L (ua_domain ua) in
      if ua_name ua = [] \<or> ua_domain ua = [] \<or> ua_upstream ua = [] \<or> ua_cert ua = [] \<or> ua_key ua = []
      then (w, Inl (Errorf ''--name, --domain, --upstream, --cert, and --key are required'' []))
      else case ValidateDomainPattern L dom of
        Some _ \<Rightarrow> (w, Inl (Errorf ''invalid --domain: %w'' []))
      | None \<Rightarrow>
          (case validatePairSilent tx (ua_cert ua) (ua_key ua) dom w of
             (w1, Some e) \<Rightarrow> (w1, Inl e)
           | (w1, None) \<Rightarrow>
               (case Load (tl_rd tx) (ua_config ua) w1 of
                  (w2, Inl e) \<Rightarrow> (w2, Inl e)
                | (w2, Inr c) \<Rightarrow>
                    (case Validate L (upsert_config ua dom c) of
                       (c', errs) \<Rightarrow>
                         if errs \<noteq> [] then (w2, Inl (Wrapped [] [] errs))
                         else (case writeAtomic (ua_config ua) (tl_marshal tx c') w2 of
                             (w3, Some e) \<Rightarrow> (w3, Inl e)
                           | (w3, None) \<Rightarrow> (w3, Inr (\<not> hs_enabled (c_https c))))))))"

subsection \<open>Lemmas\<close>

lemma covers_quiet: "covers tx c d g w = (w1, r) \<Longrightarrow> quiet w w1"
  by (auto simp: covers_def dest: ReadFile_quiet split: prod.splits sum.splits)

lemma silent_quiet: "validatePairSilent tx c k d w = (w1, r) \<Longrightarrow> quiet w w1"
  by (auto simp: validatePairSilent_def quiet_def dest: covers_quiet split: if_splits sum.splits)

lemma chown_quiet: "chown_all ps w = (w1, r) \<Longrightarrow> quiet w w1"
  by (induction ps arbitrary: w) (auto simp: quiet_def dest!: meet_quiet split: prod.splits option.splits)

lemma set_owner_quiet: "set_owner tx u g ps w = (w1, r) \<Longrightarrow> quiet w w1"
  by (auto simp: set_owner_def quiet_def dest: chown_quiet split: if_splits sum.splits)

lemma put_vhost_in: "v \<in> set (put_vhost v vs)"
  by (induction vs) auto

lemma validated_actions:
  "collect (validate_vhost L c pn) ivs st = (ivs', st', errs) \<Longrightarrow>
     map (\<lambda>v. (vh_action v, vh_enabled v)) (map snd ivs') = map (\<lambda>v. (vh_action v, vh_enabled v)) (map snd ivs)"
proof (induction ivs arbitrary: st ivs' st' errs)
  case (Cons iv ivs)
  obtain x s es where f: "validate_vhost L c pn iv st = (x, s, es)" by (rule prod_cases3)
  obtain y t fs where r: "collect (validate_vhost L c pn) ivs s = (y, t, fs)" by (rule prod_cases3)
  have "vh_action (snd x) = vh_action (snd iv)" "vh_enabled (snd x) = vh_enabled (snd iv)"
    using f by (auto simp: validate_vhost_def Let_def split: prod.splits if_splits)
  moreover have "ivs' = x # y" using Cons.prems f r by simp
  ultimately show ?case using Cons.IH [OF r] by simp
qed simp

lemma enabled_action_needed:
  assumes "v \<in> set (c_vhosts c)" "vh_enabled v" "vh_action v = []" "Validate L c = (c', errs)"
  shows "errs \<noteq> []"
proof
  assume "errs = []"
  then have "Validate L c = (c', [])" using assms(4) by simp
  then obtain pn where ok: "list_all (vhost_ok L c pn) (c_vhosts c')" by (rule Validate_clean)
  obtain pn' ivs st e3 where col: "collect (validate_vhost L c pn') (enumerate 0 (c_vhosts c)) ([], []) = (ivs, st, e3)"
    and c': "c_vhosts c' = map snd ivs"
    using assms(4) by (rule Validate_vhosts)
  have "map (\<lambda>v. (vh_action v, vh_enabled v)) (c_vhosts c') = map (\<lambda>v. (vh_action v, vh_enabled v)) (map snd (enumerate 0 (c_vhosts c)))"
    using validated_actions [OF col] unfolding c' .
  then have "([], True) \<in> set (map (\<lambda>v. (vh_action v, vh_enabled v)) (c_vhosts c'))"
    using assms(1-3) by (force simp: image_iff)
  then obtain u where "u \<in> set (c_vhosts c')" "vh_action u = []" "vh_enabled u" by auto
  then show False using ok by (auto simp: list_all_iff vhost_ok_def validate_service_def validate_action_def)
qed

lemma ReadFile_found:
  assumes "ReadFile p w = (w1, Inr d)"
  shows "content p w = Some d" "content q w1 = content q w"
  using assms ReadFile_quiet [OF assms]
  by (auto simp: ReadFile_def meet_def content_def quiet_def split: prod.splits list.splits option.splits)

lemma atomicCopy_done:
  assumes "atomicCopy a b w = (w1, None)"
  obtains d where "content a w = Some d" "\<And>q. content q w1 = (if q = b then Some d else content q w)"
proof -
  obtain w2 d where 2: "ReadFile a w = (w2, Inr d)" and 3: "writeAtomic b d w2 = (w1, None)"
    using assms by (auto simp: atomicCopy_def split: prod.splits sum.splits)
  show thesis using that [of d] ReadFile_found [OF 2] writeAtomic_step [OF 3] by simp
qed

subsection \<open>Properties\<close>

text \<open>
  An installed pair is the pair that was checked: when the installation reports success, the certificate and the key
  in the directory of the normalized domain are byte for byte the files that passed the pair check and whose certificate
  covers the domain, and no other file has changed.
\<close>
theorem installed_pair_checked:
  assumes "installPair tx certPath keyPath domain dir ownerName groupName w = (w1, None)"
    and "dest = destination dir (NormalizeDomain (cd_lib (tl_rd tx)) domain)" "keyPath \<noteq> dest @ ''/fullchain.pem''"
  shows "\<exists>a b info lf. content certPath w = Some a \<and> content keyPath w = Some b
    \<and> ValidatePair (tool_cert_io tx w) certPath keyPath (cd_now (tl_rd tx)) = Inr info
    \<and> ParseLeafCertificate (tl_pem tx) (tl_x509 tx) a = Inr lf
    \<and> VerifyDomain (cd_lib (tl_rd tx)) (tool_cert_io tx w) (Some lf) (NormalizeDomain (cd_lib (tl_rd tx)) domain)
    \<and> content (dest @ ''/fullchain.pem'') w1 = Some a \<and> content (dest @ ''/privkey.pem'') w1 = Some b
    \<and> (\<forall>q. q \<noteq> dest @ ''/fullchain.pem'' \<longrightarrow> q \<noteq> dest @ ''/privkey.pem'' \<longrightarrow> content q w1 = content q w)"
proof -
  let ?L = "cd_lib (tl_rd tx)" and ?dom = "NormalizeDomain (cd_lib (tl_rd tx)) domain"
  obtain w2 w3 w4 w5 where 2: "validatePairSilent tx certPath keyPath ?dom w = (w2, None)" and 3: "meet w2 = (w3, None)"
    and 4: "atomicCopy certPath (dest @ ''/fullchain.pem'') w3 = (w4, None)" and 5: "atomicCopy keyPath (dest @ ''/privkey.pem'') w4 = (w5, None)"
    and 6: "set_owner tx ownerName groupName [dest, dest @ ''/fullchain.pem'', dest @ ''/privkey.pem''] w5 = (w1, None)"
    using assms(1) unfolding assms(2) by (auto simp: installPair_def copy_pair_def Let_def split: prod.splits option.splits)
  have q: "content p w3 = content p w" "content p w1 = content p w5" for p
    using quiet_trans [OF silent_quiet [OF 2] meet_quiet [OF 3]] set_owner_quiet [OF 6] by (simp_all add: quiet_def content_def)
  obtain info where v: "ValidatePair (tool_cert_io tx w) certPath keyPath (cd_now (tl_rd tx)) = Inr info"
    and c: "covers tx certPath ?dom (\<lambda>e. e) w = (w2, None)"
    using 2 by (auto simp: validatePairSilent_def split: if_splits sum.splits)
  obtain w6 a lf where 7: "ReadFile certPath w = (w6, Inr a)" and lf: "ParseLeafCertificate (tl_pem tx) (tl_x509 tx) a = Inr lf"
    and d: "VerifyDomain ?L (tool_cert_io tx w6) (Some lf) ?dom"
    using c by (auto simp: covers_def split: prod.splits sum.splits if_splits)
  have "tool_cert_io tx w6 = tool_cert_io tx w" using ReadFile_found(2) [OF 7] by (simp add: tool_cert_io_def files_cert_io_def)
  then have d': "VerifyDomain ?L (tool_cert_io tx w) (Some lf) ?dom" using d by simp
  obtain x where x: "content certPath w3 = Some x" "\<And>p. content p w4 = (if p = dest @ ''/fullchain.pem'' then Some x else content p w3)"
    using 4 by (rule atomicCopy_done) blast
  obtain b where b: "content keyPath w4 = Some b" "\<And>p. content p w5 = (if p = dest @ ''/privkey.pem'' then Some b else content p w4)"
    using 5 by (rule atomicCopy_done) blast
  have "x = a" using x(1) q(1) ReadFile_found(1) [OF 7] by simp
  then show ?thesis using v lf d' ReadFile_found(1) [OF 7] x b q assms(3) by auto
qed

text \<open>
  C37. The command that adds a virtual host never succeeds: the virtual host it fills in has no action, and the configuration is validated
  without the defaults that a loaded configuration gets, so every call ends with an error and leaves every file as it was.
\<close>
theorem upsert_always_refused:
  "(\<exists>e. snd (vhostUpsert tx ua w) = Inl e) \<and> content q (fst (vhostUpsert tx ua w)) = content q w"
proof -
  let ?dom = "NormalizeDomain (cd_lib (tl_rd tx)) (ua_domain ua)"
  obtain w2 r where 2: "validatePairSilent tx (ua_cert ua) (ua_key ua) ?dom w = (w2, r)" by (rule prod.exhaust)
  obtain w3 l where 3: "Load (tl_rd tx) (ua_config ua) w2 = (w3, l)" by (rule prod.exhaust)
  have k: "content q w2 = content q w" "content q w3 = content q w"
    using silent_quiet [OF 2] quiet_trans [OF silent_quiet [OF 2] Load_quiet [OF 3]] by (simp_all add: quiet_def content_def)
  have bad: "errs \<noteq> []" if "Validate (cd_lib (tl_rd tx)) (upsert_config ua ?dom c) = (c', errs)" for c c' errs
    by (rule enabled_action_needed [OF _ _ _ that, of "upsert_vhost ua ?dom"]) (simp_all add: upsert_config_def upsert_vhost_def put_vhost_in)
  show ?thesis
  proof (cases r; cases l)
    fix c assume "r = None" "l = Inr c"
    then show ?thesis using 2 3 k bad [of c] by (auto simp: vhostUpsert_def Let_def split: prod.splits option.splits)
  qed (use 2 3 k in \<open>auto simp: vhostUpsert_def Let_def split: option.splits\<close>)
qed

subsection \<open>Witnesses\<close>

definition sample_tool :: tool_io where
  "sample_tool = \<lparr>tl_rd = sample_reader, tl_pem = sample_pem, tl_x509 = (\<lambda>_. Inr sample_cm_leaf), tl_perm = (\<lambda>_. Some 384),
     tl_owner = (\<lambda>_. Inr (1, 1)), tl_group = (\<lambda>_. Inr 1), tl_marshal = (\<lambda>_. ''conf'')\<rparr>"

definition sample_pair_world :: "go_error option list \<Rightarrow> world" where
  "sample_pair_world fs = \<lparr>wo_files = [(''/a.pem'', ''c1''), (''/a.key'', ''k1''), (''/st/a.b/fullchain.pem'', ''c0''), (''/st/a.b/privkey.pem'', ''k0'')],
     wo_running = [], wo_faults = fs\<rparr>"

theorem installed_pair_checked_witness:
  "\<exists>w1. installPair sample_tool ''/a.pem'' ''/a.key'' ''A.b.'' ''/st'' ''root'' [] (sample_pair_world []) = (w1, None)
     \<and> content ''/st/a.b/fullchain.pem'' w1 = Some ''c1'' \<and> content ''/st/a.b/privkey.pem'' w1 = Some ''k1''"
proof -
  let ?w = "sample_pair_world []"
  let ?i = "installPair sample_tool ''/a.pem'' ''/a.key'' ''A.b.'' ''/st'' ''root'' [] ?w"
  have g: "snd ?i = None" "''/st/a.b'' = destination ''/st'' (NormalizeDomain (cd_lib (tl_rd sample_tool)) ''A.b.'')"
    "content ''/a.pem'' ?w = Some ''c1''" "content ''/a.key'' ?w = Some ''k1''"
    by code_simp+
  obtain w1 where i: "?i = (w1, None)" using g(1) by (cases ?i) auto
  from installed_pair_checked [OF i g(2)] show ?thesis using i g(3,4) by auto
qed

text \<open>The sixth call, which writes the key, fails: the new certificate stands beside the old key.\<close>

lemma install_torn:
  "let (w1, e) = installPair sample_tool ''/a.pem'' ''/a.key'' ''a.b'' ''/st'' [] [] (sample_pair_world (replicate 5 None @ [Some (Errorf ''x'' [])])) in
     e \<noteq> None \<and> content ''/st/a.b/fullchain.pem'' w1 = Some ''c1'' \<and> content ''/st/a.b/privkey.pem'' w1 = Some ''k0''"
  by code_simp

end
