(* ===== verification/Commands.thy ===== *)
theory Commands
  imports Flags Client Plane CtlTool
begin

text \<open>
  The four programs (\<open>cmd/cherrywaf\<close>, \<open>cmd/cherrywaf-control\<close>, \<open>cmd/cherrywaf-netd\<close>, \<open>cmd/cherrywafctl\<close>): the command
  that the arguments select, its flags, and what it does with the components of the other theories. What a
  program prints is the outcome it ends with; the network servers are reached with what they serve. The
  environment, the account database and the sockets of the host are parameters.
\<close>

subsection \<open>The command\<close>

text \<open>\<open>serve\<close> unless the first argument is a command; the service looks at the first byte, the others at the prefix.\<close>

definition waf_command :: "string list \<Rightarrow> string \<times> string list" where
  "waf_command args =
     (case args of
        a # rest \<Rightarrow> if a \<noteq> [] \<and> hd a \<noteq> CHR ''-'' then (a, rest) else (''serve'', args)
      | [] \<Rightarrow> (''serve'', []))"

definition plain_command :: "string list \<Rightarrow> string \<times> string list" where
  "plain_command args =
     (case args of
        a # rest \<Rightarrow> if \<not> HasPrefix a ''-'' then (a, rest) else (''serve'', args)
      | [] \<Rightarrow> (''serve'', []))"

definition unknown_command :: "string \<Rightarrow> go_error" where
  "unknown_command c = Errorf ''unknown command %q'' [c]"

definition helps :: "string \<Rightarrow> bool" where
  "helps c \<longleftrightarrow> c = ''help'' \<or> c = ''-h'' \<or> c = ''--help''"

subsection \<open>cherrywaf\<close>

text \<open>The file of the configuration up to decoding, as \<open>app.New\<close> and \<open>Reload\<close> read it, and the directory it is in.\<close>

definition decoded_file :: "config_reader \<Rightarrow> string \<Rightarrow> world \<Rightarrow> world \<times> (go_error + config)" where
  "decoded_file rd path w =
     (case ReadFile path w of
        (w1, Inl e) \<Rightarrow> (w1, Inl (Wrapped ''open config: %w'' [] [e]))
      | (w1, Inr data) \<Rightarrow>
          (w1, case cd_json rd data of
             Inl e \<Rightarrow> Inl (Wrapped ''decode config: %w'' [] [e])
           | Inr c \<Rightarrow> (case Abs (cd_cwd rd) path of None \<Rightarrow> Inl (Errorf ''resolve config path: %w'' []) | Some _ \<Rightarrow> Inr c)))"

definition config_dir :: "config_reader \<Rightarrow> string \<Rightarrow> string" where
  "config_dir rd path = (case Abs (cd_cwd rd) path of Some p \<Rightarrow> Dir p | None \<Rightarrow> [])"

definition service_env :: "config_reader \<Rightarrow> (string \<Rightarrow> string \<Rightarrow> string option) \<Rightarrow> world \<Rightarrow> env" where
  "service_env rd logs w = (files_env rd w)\<lparr>en_logs := logs\<rparr>"

text \<open>What the host decides: whether log files open, which addresses can be listened on, the worlds that the signals SIGHUP
  find, how serving ends and how the servers shut down.\<close>

record waf_host =
  wh_rd :: config_reader
  wh_logs :: "string \<Rightarrow> string \<Rightarrow> string option"
  wh_can :: "string \<Rightarrow> bool"
  wh_hups :: "world list"
  wh_end :: "go_error option"
  wh_shutdown :: "listener_name \<Rightarrow> go_error option"

datatype waf_outcome = WafFailed go_error | WafUsage | WafVersion | ConfigValid validation_result | PairValid cert_info
  | WafStopped app "runtime list" "go_error option"

definition default_config :: string where "default_config = ''/etc/cherrywaf/cherrywaf.json''"

definition waf_start :: "waf_host \<Rightarrow> string \<Rightarrow> world \<Rightarrow> world \<times> (go_error + app)" where
  "waf_start h path w =
     (case decoded_file (wh_rd h) path w of (w1, conf) \<Rightarrow>
        (w1, New_app (service_env (wh_rd h) (wh_logs h) w1) (config_dir (wh_rd h) path) conf))"

text \<open>SIGHUP: a reload whose error is logged.\<close>

definition on_hup :: "waf_host \<Rightarrow> string \<Rightarrow> world \<Rightarrow> app \<Rightarrow> app" where
  "on_hup h path w a =
     (case decoded_file (wh_rd h) path w of (w1, conf) \<Rightarrow>
        fst (Reload (service_env (wh_rd h) (wh_logs h) w1) (config_dir (wh_rd h) path) conf a))"

text \<open>The end of \<open>Run\<close>: every server is shut down, the first error is the result, and the runtimes are closed.\<close>

fun shutdown_all :: "(listener_name \<Rightarrow> go_error option) \<Rightarrow> listener_name list \<Rightarrow> go_error option \<Rightarrow> go_error option" where
  "shutdown_all sd [] err = err"
| "shutdown_all sd (l # ls) err =
     shutdown_all sd ls (case sd l of Some e \<Rightarrow> if err = None then Some (Wrapped ''shutdown %s server: %w'' [] [e]) else err | None \<Rightarrow> err)"

definition waf_serve :: "waf_host \<Rightarrow> string list \<Rightarrow> world \<Rightarrow> world \<times> waf_outcome" where
  "waf_serve h args w =
     (case flags_Parse [(''config'', FStr default_config)] args of
        Inl e \<Rightarrow> (w, WafFailed e)
      | Inr (fs, _) \<Rightarrow>
          let path = flag_string fs ''config'' in
          (case waf_start h path w of
             (w1, Inl e) \<Rightarrow> (w1, WafFailed e)
           | (w1, Inr a) \<Rightarrow>
               (case Run_listeners (wh_can h) a of
                  Inl (e, _) \<Rightarrow> (w1, WafFailed e)
                | Inr ls \<Rightarrow>
                    (w1, case closeRuntimes (fold (on_hup h path) (wh_hups h) a) of (b, rts) \<Rightarrow>
                       WafStopped b rts (shutdown_all (wh_shutdown h) ls (wh_end h))))))"

definition validateConfig :: "waf_host \<Rightarrow> string list \<Rightarrow> world \<Rightarrow> world \<times> waf_outcome" where
  "validateConfig h args w =
     (case flags_Parse [(''config'', FStr default_config)] args of
        Inl e \<Rightarrow> (w, WafFailed e)
      | Inr (fs, _) \<Rightarrow>
          (case Validate_file (wh_rd h) (flag_string fs ''config'') w of
             (w1, Inl e) \<Rightarrow> (w1, WafFailed e)
           | (w1, Inr r) \<Rightarrow> (w1, ConfigValid r)))"

definition validateCertificate :: "waf_host \<Rightarrow> string list \<Rightarrow> world \<Rightarrow> world \<times> waf_outcome" where
  "validateCertificate h args w =
     (case flags_Parse [(''cert'', FStr []), (''key'', FStr [])] args of
        Inl e \<Rightarrow> (w, WafFailed e)
      | Inr (fs, _) \<Rightarrow>
          (if flag_string fs ''cert'' = [] \<or> flag_string fs ''key'' = [] then (w, WafFailed (Errorf ''--cert and --key are required'' []))
           else case ValidatePair (files_cert_io (wh_rd h) w) (flag_string fs ''cert'') (flag_string fs ''key'') (cd_now (wh_rd h)) of
             Inl e \<Rightarrow> (w, WafFailed e)
           | Inr info \<Rightarrow> (w, PairValid info)))"

definition waf_run :: "waf_host \<Rightarrow> string list \<Rightarrow> world \<Rightarrow> world \<times> waf_outcome" where
  "waf_run h args w =
     (case waf_command args of (command, rest) \<Rightarrow>
        if command = ''serve'' then waf_serve h rest w
        else if command = ''validate-config'' then validateConfig h rest w
        else if command = ''validate-cert'' then validateCertificate h rest w
        else if command = ''version'' then (w, WafVersion)
        else if helps command then (w, WafUsage)
        else (w, WafFailed (unknown_command command)))"

subsection \<open>cherrywaf-control\<close>

text \<open>The end of \<open>serve\<close> in the management server and the network daemon: an error of the listening server at once, else, on a
  signal, what the shutdown returns.\<close>

definition serve_end :: "go_error option \<Rightarrow> go_error option \<Rightarrow> go_error option" where
  "serve_end failed shutdown = (case failed of Some e \<Rightarrow> Some e | None \<Rightarrow> shutdown)"

record control_host =
  ch_lib :: golib
  ch_mkdir :: "go_error option"
  ch_now :: gotime
  ch_end :: "go_error option"
  ch_shutdown :: "go_error option"
  ch_state :: "string \<Rightarrow> go_error + persistent_state option"

record control_options =
  co_configPath :: string
  co_stateDir :: string
  co_socket :: string
  co_client :: http_client
  co_setup :: string

definition control_New :: "control_host \<Rightarrow> control_options \<Rightarrow> go_error + control_options \<times> control_store" where
  "control_New h opts =
     (if TrimSpace (co_configPath opts) = [] then Inl (Errorf ''control config path is required'' [])
      else let o1 = (if TrimSpace (co_stateDir opts) = [] then opts\<lparr>co_stateDir := JoinPath (Dir (co_configPath opts)) ''control''\<rparr> else opts) in
        case openStore (co_stateDir o1) (ch_mkdir h) (ch_now h) (ch_state h (co_stateDir o1)) of
          Inl e \<Rightarrow> Inl e
        | Inr st \<Rightarrow> Inr (o1, st))"

definition control_flags :: flag_set where
  "control_flags = [(''listen'', FStr '':9443''), (''tls-cert'', FStr ''/var/lib/cherrywaf/management/fullchain.pem''),
     (''tls-key'', FStr ''/var/lib/cherrywaf/management/privkey.pem''), (''config'', FStr default_config),
     (''state-dir'', FStr ''/var/lib/cherrywaf/control''), (''waf-admin-url'', FStr ''http://127.0.0.1:9090''),
     (''waf-admin-env'', FStr ''/etc/cherrywaf/cherrywaf.env''), (''network-socket'', FStr ''/run/cherrywaf/netd.sock'')]"

datatype control_outcome = ControlFailed go_error | ControlUsage | ControlVersion | ControlStopped string control_options control_store "go_error option"

definition control_serve :: "control_host \<Rightarrow> string list \<Rightarrow> world \<Rightarrow> world \<times> control_outcome" where
  "control_serve h args w =
     (case flags_Parse control_flags args of
        Inl e \<Rightarrow> (w, ControlFailed e)
      | Inr (fs, _) \<Rightarrow>
          if SplitHostPort (flag_string fs ''listen'') = None then (w, ControlFailed (Errorf ''invalid listen address: %w'' []))
          else (case NewHTTPRuntimeClient (ch_lib h) (flag_string fs ''waf-admin-url'') (flag_string fs ''waf-admin-env'') of
              Inl e \<Rightarrow> (w, ControlFailed e)
            | Inr cl \<Rightarrow>
                (case ReadSetupToken (flag_string fs ''waf-admin-env'') w of (w1, tok) \<Rightarrow>
                  (case control_New h \<lparr>co_configPath = flag_string fs ''config'', co_stateDir = flag_string fs ''state-dir'',
                       co_socket = flag_string fs ''network-socket'', co_client = cl, co_setup = (case tok of Inr t \<Rightarrow> t | Inl _ \<Rightarrow> [])\<rparr> of
                     Inl e \<Rightarrow> (w1, ControlFailed e)
                   | Inr (opts, st) \<Rightarrow>
                       (case meet w1 of
                          (w2, Some e) \<Rightarrow> (w2, ControlFailed e)
                        | (w2, None) \<Rightarrow> (w2, ControlStopped (flag_string fs ''listen'') opts st (serve_end (ch_end h) (ch_shutdown h))))))))"

definition control_run :: "control_host \<Rightarrow> string list \<Rightarrow> world \<Rightarrow> world \<times> control_outcome" where
  "control_run h args w =
     (case plain_command args of (command, rest) \<Rightarrow>
        if command = ''serve'' then control_serve h rest w
        else if command = ''version'' then (w, ControlVersion)
        else if helps command then (w, ControlUsage)
        else (w, ControlFailed (unknown_command command)))"

text \<open>The headers that every answer of the server starts with, before the handler adds its own.\<close>

definition quoted :: "string \<Rightarrow> string" where
  "quoted s = CHR 0x27 # s @ [CHR 0x27]"

definition securityHeaders :: "request \<Rightarrow> header" where
  "securityHeaders r =
     (let h1 = header_set [] ''X-Content-Type-Options'' ''nosniff'';
          h2 = header_set h1 ''X-Frame-Options'' ''DENY'';
          h3 = header_set h2 ''Referrer-Policy'' ''no-referrer'';
          h4 = header_set h3 ''Permissions-Policy'' ''camera=(), microphone=(), geolocation=(), payment=()'';
          h5 = header_set h4 ''Content-Security-Policy'' (''default-src '' @ quoted ''self'' @ ''; script-src '' @ quoted ''self'' @ ''; style-src '' @ quoted ''self''
            @ ''; img-src '' @ quoted ''self'' @ '' data:; connect-src '' @ quoted ''self'' @ ''; object-src '' @ quoted ''none''
            @ ''; frame-ancestors '' @ quoted ''none'' @ ''; base-uri '' @ quoted ''none'' @ ''; form-action '' @ quoted ''self'') in
      if HasPrefix (u_path (rq_url r)) ''/api/'' then header_set h5 ''Cache-Control'' ''no-store'' else h5)"

definition serve_control :: "ctl_io \<Rightarrow> 'w external_ops \<Rightarrow> request \<Rightarrow> control_store \<Rightarrow> 'w \<Rightarrow> header \<times> control_store \<times> 'w \<times> ctl_reply" where
  "serve_control io ext r s w = (securityHeaders r, Handler io ext r s w)"

subsection \<open>cherrywaf-netd\<close>

record netd_host =
  nh_getenv :: "string \<Rightarrow> string"
  nh_executable :: "go_error + string"
  nh_lookup :: "string \<Rightarrow> go_error + string"
  nh_uid :: int
  nh_euid :: int
  nh_pid :: int
  nh_fd :: "go_error option"
  nh_end :: "go_error option"
  nh_shutdown :: "go_error option"

definition envOr :: "netd_host \<Rightarrow> string \<Rightarrow> string \<Rightarrow> string" where
  "envOr h key fallback = (let v = TrimSpace (nh_getenv h key) in if v \<noteq> [] then v else fallback)"

text \<open>\<open>strconv.ParseUint(s, 10, 32)\<close>: digits only, below two to the 32.\<close>

definition ParseUint32 :: "string \<Rightarrow> go_error + 32 word" where
  "ParseUint32 s =
     (if s = [] \<or> \<not> list_all is_digit s then Inl (Errorf ''parsing %q: invalid syntax'' [s])
      else if 2 ^ 32 \<le> dec_val s then Inl (Errorf ''parsing %q: value out of range'' [s])
      else Inr (word_of_int (dec_val s)))"

definition lookupAllowedUID :: "netd_host \<Rightarrow> go_error + 32 word" where
  "lookupAllowedUID h =
     (let value = TrimSpace (nh_getenv h ''CHERRYWAF_NETD_ALLOWED_UID'') in
      if value \<noteq> [] then ParseUint32 value
      else case nh_lookup h ''cherrywaf'' of
        Inl e \<Rightarrow> if nh_getenv h ''CHERRYWAF_NETD_DRY_RUN'' = ''1'' then Inr (word_of_int (nh_uid h)) else Inl (Wrapped ''look up cherrywaf user: %w'' [] [e])
      | Inr uid \<Rightarrow> ParseUint32 uid)"

definition newDaemon :: "netd_host \<Rightarrow> go_error + netd_conf \<times> string" where
  "newDaemon h =
     (case lookupAllowedUID h of
        Inl e \<Rightarrow> Inl e
      | Inr uid \<Rightarrow>
          Inr (\<lparr>nc_dataDir = envOr h ''CHERRYWAF_NETWORK_DATA_DIR'' ''/var/lib/cherrywaf/network'',
                nc_netplan = envOr h ''CHERRYWAF_NETPLAN_PATH'' ''/etc/netplan/99-cherrywaf.yaml'',
                nc_dryRun = (nh_getenv h ''CHERRYWAF_NETD_DRY_RUN'' = ''1''), nc_allowedUID = uid\<rparr>,
               case nh_executable h of Inr p \<Rightarrow> p | Inl _ \<Rightarrow> ''/usr/local/sbin/cherrywaf-netd''))"

text \<open>The value of \<open>strconv.Atoi\<close> when its error is dropped: 0 for a syntax error, the nearest limit out of range.\<close>

definition Atoi_value :: "string \<Rightarrow> int" where
  "Atoi_value s =
     (case Atoi s of
        Some v \<Rightarrow> v
      | None \<Rightarrow>
          let neg = (s \<noteq> [] \<and> hd s = CHR ''-''); ds = (if s \<noteq> [] \<and> (hd s = CHR ''-'' \<or> hd s = CHR ''+'') then tl s else s) in
          if ds = [] \<or> \<not> list_all is_digit ds then 0 else if neg then - (2 ^ 63) else 2 ^ 63 - 1)"

text \<open>Whether systemd hands over a socket; \<open>nh_fd\<close> is the error in taking it.\<close>

definition activatedListener :: "netd_host \<Rightarrow> go_error + bool" where
  "activatedListener h =
     (if Atoi_value (nh_getenv h ''LISTEN_PID'') \<noteq> nh_pid h \<or> Atoi_value (nh_getenv h ''LISTEN_FDS'') < 1 then Inr False
      else case nh_fd h of Some e \<Rightarrow> Inl e | None \<Rightarrow> Inr True)"

definition open_socket :: "string \<Rightarrow> world \<Rightarrow> world \<times> go_error option" where
  "open_socket path w =
     (case meet w of
        (w1, Some e) \<Rightarrow> (w1, Some e)
      | (w1, None) \<Rightarrow>
          (case Remove path w1 of (w2, _) \<Rightarrow>
            (case meet w2 of
               (w3, Some e) \<Rightarrow> (w3, Some e)
             | (w3, None) \<Rightarrow> meet w3)))"

datatype netd_outcome = NetdFailed go_error | NetdUsage | NetdDone | NetdStopped netd_conf bool "go_error option"

definition netd_main_serve :: "netd_host \<Rightarrow> string list \<Rightarrow> world \<Rightarrow> world \<times> netd_outcome" where
  "netd_main_serve h args w =
     (case flags_Parse [(''socket'', FStr ''/run/cherrywaf/netd.sock'')] args of
        Inl e \<Rightarrow> (w, NetdFailed e)
      | Inr (fs, _) \<Rightarrow>
          (case newDaemon h of
             Inl e \<Rightarrow> (w, NetdFailed e)
           | Inr (nc, _) \<Rightarrow>
               if nh_euid h \<noteq> 0 \<and> \<not> nc_dryRun nc then (w, NetdFailed (Errorf ''cherrywaf-netd must run as root'' []))
               else (case activatedListener h of
                   Inl e \<Rightarrow> (w, NetdFailed e)
                 | Inr True \<Rightarrow> (w, NetdStopped nc True (serve_end (nh_end h) (nh_shutdown h)))
                 | Inr False \<Rightarrow>
                     (case open_socket (flag_string fs ''socket'') w of
                        (w1, Some e) \<Rightarrow> (w1, NetdFailed e)
                      | (w1, None) \<Rightarrow> (w1, NetdStopped nc False (serve_end (nh_end h) (nh_shutdown h)))))))"

definition netd_run :: "netd_host \<Rightarrow> string list \<Rightarrow> world \<Rightarrow> world \<times> netd_outcome" where
  "netd_run h args w =
     (case plain_command args of (command, rest) \<Rightarrow>
        if command = ''serve'' then netd_main_serve h rest w
        else if command = ''rollback'' then
          (case flags_Parse [(''token'', FStr [])] rest of
             Inl e \<Rightarrow> (w, NetdFailed e)
           | Inr (fs, _) \<Rightarrow>
               (case newDaemon h of
                  Inl e \<Rightarrow> (w, NetdFailed e)
                | Inr (nc, _) \<Rightarrow>
                    (case rollback nc (flag_string fs ''token'') w of
                       (w1, Some e) \<Rightarrow> (w1, NetdFailed e)
                     | (w1, None) \<Rightarrow> (w1, NetdDone))))
        else if helps command then (w, NetdUsage)
        else (w, NetdFailed (unknown_command command)))"

text \<open>The command that an apply gives to systemd, to run when the deadline passes.\<close>

definition rollbackUnit :: "string \<Rightarrow> string" where
  "rollbackUnit tok = ''cherrywaf-network-rollback-'' @ tok"

definition timer_arguments :: "string \<Rightarrow> string list" where
  "timer_arguments tok = [''rollback'', ''--token'', tok]"

definition timer_command :: "string \<Rightarrow> string \<Rightarrow> string list" where
  "timer_command binaryPath tok =
     [''systemd-run'', ''--quiet'', ''--unit'', rollbackUnit tok, ''--on-active'', Itoa rollbackSeconds @ ''s'', binaryPath] @ timer_arguments tok"

subsection \<open>cherrywafctl\<close>

record 'a ctl_host =
  tc_tool :: tool_io
  tc_getenv :: "string \<Rightarrow> string"
  tc_send :: "request \<Rightarrow> 'a \<Rightarrow> 'a \<times> (go_error + answer)"

datatype ctl_outcome = CtlFailed go_error | CtlUsage | CtlValid cert_info | CtlInstalled | CtlUpserted bool | CtlReloaded

definition certCommand :: "tool_io \<Rightarrow> string list \<Rightarrow> world \<Rightarrow> world \<times> ctl_outcome" where
  "certCommand tx args w =
     (case args of
        [] \<Rightarrow> (w, CtlFailed (Errorf ''cert requires validate or install'' []))
      | sub # rest \<Rightarrow>
          if sub = ''validate'' then
            (case flags_Parse [(''cert'', FStr []), (''key'', FStr []), (''domain'', FStr [])] rest of
               Inl e \<Rightarrow> (w, CtlFailed e)
             | Inr (fs, _) \<Rightarrow>
                 (case validatePair tx (flag_string fs ''cert'') (flag_string fs ''key'') (flag_string fs ''domain'') w of
                    (w1, Inl e) \<Rightarrow> (w1, CtlFailed e)
                  | (w1, Inr info) \<Rightarrow> (w1, CtlValid info)))
          else if sub = ''install'' then
            (case flags_Parse [(''cert'', FStr []), (''key'', FStr []), (''domain'', FStr []), (''store'', FStr ''/etc/cherrywaf/certs''),
                (''owner'', FStr []), (''group'', FStr [])] rest of
               Inl e \<Rightarrow> (w, CtlFailed e)
             | Inr (fs, _) \<Rightarrow>
                 (case installPair tx (flag_string fs ''cert'') (flag_string fs ''key'') (flag_string fs ''domain'') (flag_string fs ''store'')
                     (flag_string fs ''owner'') (flag_string fs ''group'') w of
                    (w1, Some e) \<Rightarrow> (w1, CtlFailed e)
                  | (w1, None) \<Rightarrow> (w1, CtlInstalled)))
          else (w, CtlFailed (Errorf ''unknown cert command %q'' [sub])))"

definition upsert_flags :: flag_set where
  "upsert_flags = [(''config'', FStr default_config), (''name'', FStr []), (''domain'', FStr []), (''upstream'', FStr []), (''cert'', FStr []),
     (''key'', FStr []), (''origin-server-name'', FStr []), (''preserve-host'', FBool True), (''redirect-http'', FBool True)]"

definition vhostCommand :: "tool_io \<Rightarrow> string list \<Rightarrow> world \<Rightarrow> world \<times> ctl_outcome" where
  "vhostCommand tx args w =
     (if args = [] \<or> hd args \<noteq> ''upsert'' then (w, CtlFailed (Errorf ''vhost requires the upsert command'' []))
      else case flags_Parse upsert_flags (tl args) of
        Inl e \<Rightarrow> (w, CtlFailed e)
      | Inr (fs, _) \<Rightarrow>
          (case vhostUpsert tx \<lparr>ua_config = flag_string fs ''config'', ua_name = flag_string fs ''name'', ua_domain = flag_string fs ''domain'',
               ua_upstream = flag_string fs ''upstream'', ua_cert = flag_string fs ''cert'', ua_key = flag_string fs ''key'',
               ua_originName = flag_string fs ''origin-server-name'', ua_preserveHost = flag_bool fs ''preserve-host'',
               ua_redirect = flag_bool fs ''redirect-http''\<rparr> w of
             (w1, Inl e) \<Rightarrow> (w1, CtlFailed e)
           | (w1, Inr restart) \<Rightarrow> (w1, CtlUpserted restart)))"

definition reload_flags :: flag_set where
  "reload_flags = [(''url'', FStr ''http://127.0.0.1:9090/api/v1/reload''), (''token-env'', FStr ''CHERRYWAF_ADMIN_TOKEN'')]"

definition reloadCommand :: "'a ctl_host \<Rightarrow> string list \<Rightarrow> 'a \<Rightarrow> 'a \<times> ctl_outcome" where
  "reloadCommand h args a =
     (case flags_Parse reload_flags args of
        Inl e \<Rightarrow> (a, CtlFailed e)
      | Inr (fs, _) \<Rightarrow>
          let token = TrimSpace (tc_getenv h (flag_string fs ''token-env'')) in
          if token = [] then (a, CtlFailed (Errorf ''environment variable %s is empty'' [flag_string fs ''token-env'']))
          else (case url_parse (cd_lib (tl_rd (tc_tool h))) (flag_string fs ''url'') of
              None \<Rightarrow> (a, CtlFailed (Errorf ''parse url'' [flag_string fs ''url'']))
            | Some u \<Rightarrow>
                (case tc_send h \<lparr>rq_method = ''POST'', rq_url = u, rq_requestURI = u_path u, rq_host = u_host u, rq_remoteAddr = [],
                     rq_header = header_set [] ''Authorization'' (''Bearer '' @ token), rq_contentLength = 0, rq_transferEncoding = [],
                     rq_tls = False, rq_body = [], rq_getBody = None\<rparr> a of
                   (a1, Inl e) \<Rightarrow> (a1, CtlFailed e)
                 | (a1, Inr (status, _)) \<Rightarrow>
                     (a1, if status < 200 \<or> 300 \<le> status then CtlFailed (Errorf ''reload failed with %s: %s'' [Itoa status]) else CtlReloaded))))"

definition ctl_run :: "'a ctl_host \<Rightarrow> string list \<Rightarrow> world \<Rightarrow> 'a \<Rightarrow> world \<times> 'a \<times> ctl_outcome" where
  "ctl_run h args w a =
     (case args of
        [] \<Rightarrow> (w, a, CtlFailed (Errorf ''a command is required'' []))
      | command # rest \<Rightarrow>
          if command = ''cert'' then (case certCommand (tc_tool h) rest w of (w1, out) \<Rightarrow> (w1, a, out))
          else if command = ''vhost'' then (case vhostCommand (tc_tool h) rest w of (w1, out) \<Rightarrow> (w1, a, out))
          else if command = ''reload'' then (case reloadCommand h rest a of (a1, out) \<Rightarrow> (w, a1, out))
          else if helps command then (w, a, CtlUsage)
          else (w, a, CtlFailed (unknown_command command)))"

subsection \<open>Starting the service\<close>

lemma service_env_parts:
  "en_lib (service_env rd logs w) = en_lib (files_env rd w)" "en_rules (service_env rd logs w) = en_rules (files_env rd w)"
  "en_fs (service_env rd logs w) = en_fs (files_env rd w)" "en_cert (service_env rd logs w) = en_cert (files_env rd w)"
  "en_ca (service_env rd logs w) = en_ca (files_env rd w)" "en_now (service_env rd logs w) = en_now (files_env rd w)"
  by (simp_all add: service_env_def)

lemma Load_as_decoded:
  assumes "Load rd path w = (w1, r)" "decoded_file rd path w = (w2, conf)" "en_lib E = cd_lib rd"
  shows "w2 = w1 \<and> Build E (config_dir rd path) conf = (case r of Inl e \<Rightarrow> Inl e | Inr c \<Rightarrow> build E c True)"
  using assms by (auto simp: Load_def decoded_file_def load_bytes_def Build_def config_dir_def split: prod.splits sum.splits option.splits)

text \<open>Where the log files go does not change what is built, only whether it is.\<close>

lemma add_route_logs: "add_route (service_env rd logs w) = add_route (files_env rd w)"
  unfolding add_route_def build_route_def buildRouteSecurity_def route_engine_def service_env_parts by (rule refl)

lemma assemble_logs: "assemble (service_env rd logs w) = assemble (files_env rd w)"
  unfolding assemble_def load_certificates_def add_route_logs service_env_parts by (rule refl)

lemma build_logs:
  assumes "\<And>a s. logs a s = None"
  shows "build (service_env rd logs w) c True = build (files_env rd w) c False"
proof -
  have o: "open_logs (service_env rd logs w) c True = open_logs (files_env rd w) c False"
    using assms by (simp add: open_logs_def service_env_def files_env_def)
  show ?thesis unfolding build_def assemble_logs service_env_parts o by (rule refl)
qed

lemma waf_start_loaded:
  assumes "Load (wh_rd h) path w = (w1, r)"
  shows "waf_start h path w = (w1, case r of Inl e \<Rightarrow> Inl e
    | Inr c \<Rightarrow> (case build (service_env (wh_rd h) (wh_logs h) w1) c True of
        Inl e \<Rightarrow> Inl e | Inr rt \<Rightarrow> Inr \<lparr>a_metrics = New_metrics, a_current = Some (rt, New_logger), a_retired = []\<rparr>))"
proof -
  obtain w2 conf where d: "decoded_file (wh_rd h) path w = (w2, conf)" by (rule prod.exhaust)
  have "en_lib (service_env (wh_rd h) (wh_logs h) w2) = cd_lib (wh_rd h)" by (simp add: service_env_def files_env_def)
  from Load_as_decoded [OF assms d this] have w: "w2 = w1"
    and b: "Build (service_env (wh_rd h) (wh_logs h) w1) (config_dir (wh_rd h) path) conf = (case r of Inl e \<Rightarrow> Inl e | Inr c \<Rightarrow> build (service_env (wh_rd h) (wh_logs h) w1) c True)"
    by auto
  show ?thesis by (cases r) (simp_all add: waf_start_def d New_app_def w b)
qed

subsection \<open>Properties\<close>


text \<open>The runtimes of a service: one for the start and one for every successful reload.\<close>

definition runtimes_kept :: "app \<Rightarrow> bool" where
  "runtimes_kept a \<longleftrightarrow> a_current a \<noteq> None \<and> of_nat (length (a_retired a)) = mt_reloads (a_metrics a)"

lemma on_hup_kept: "runtimes_kept a \<Longrightarrow> runtimes_kept (on_hup h path w a)"
  by (auto simp: on_hup_def Reload_def runtimes_kept_def metric_ReloadFailed_def metric_Reloaded_def split: prod.splits sum.splits option.splits)

lemma hups_kept: "runtimes_kept a \<Longrightarrow> runtimes_kept (fold (on_hup h path) ws a)"
  by (induction ws arbitrary: a) (simp_all add: on_hup_kept)

lemma waf_start_kept: "waf_start h path w = (w1, Inr a) \<Longrightarrow> runtimes_kept a"
  by (auto simp: waf_start_def New_app_def runtimes_kept_def New_metrics_def split: prod.splits sum.splits)

text \<open>
  Nothing is left behind when the service stops: whatever signals came and however the servers ended, the outcome closes
  every runtime that was ever built into service, one for the start and one for each reload that succeeded, each is closed,
  and no runtime is current or retired any more.
\<close>
theorem serve_closes_runtimes:
  assumes "waf_run h args w = (w1, WafStopped b rts err)"
  shows "a_current b = None \<and> a_retired b = [] \<and> list_all rt_closed rts \<and> of_nat (length rts) = mt_reloads (a_metrics b) + 1"
proof -
  obtain rest where "waf_serve h rest w = (w1, WafStopped b rts err)"
    using assms by (auto simp: waf_run_def validateConfig_def validateCertificate_def split: prod.splits if_splits sum.splits)
  then obtain path a where a: "waf_start h path w = (w1, Inr a)" "closeRuntimes (fold (on_hup h path) (wh_hups h) a) = (b, rts)"
    by (auto simp: waf_serve_def Let_def split: prod.splits sum.splits)
  have "runtimes_kept (fold (on_hup h path) (wh_hups h) a)" by (rule hups_kept [OF waf_start_kept [OF a(1)]])
  then show ?thesis using a(2) by (auto simp: closeRuntimes_def runtimes_kept_def runtime_Close_def list_all_iff)
qed


text \<open>
  The reload of the command line tool is the reload of the service: with the token that the service expects in the environment
  of the tool, and an address whose path is that of the reload, the command succeeds exactly when the service now runs the
  runtime built from the new configuration, and else the service runs what it ran.
\<close>
theorem tool_reload_end_to_end:
  assumes "reloadCommand h args a = (a1, out)" "flags_Parse reload_flags args = Inr (fs, rest)"
    and "tc_send h = admin_server txt E getenv fmt dir conf" "a_current a = Some (rt, lg)"
    and "tc_getenv h (flag_string fs ''token-env'') = getenv (ad_tokenEnv (c_admin (rt_config rt)))"
      "TrimSpace (TrimSpace (getenv (ad_tokenEnv (c_admin (rt_config rt))))) \<noteq> []"
    and "url_parse (cd_lib (tl_rd (tc_tool h))) (flag_string fs ''url'') = Some u" "u_path u = ''/api/v1/reload''"
  shows "case out of
      CtlReloaded \<Rightarrow> \<exists>new. Build E dir conf = Inr new \<and> compatibleForHotReload (Some rt) (Some new) = None \<and> a_current a1 = Some (new, New_logger)
    | CtlFailed e \<Rightarrow> a_current a1 = a_current a \<and> (\<forall>new. Build E dir conf = Inr new \<longrightarrow> compatibleForHotReload (Some rt) (Some new) \<noteq> None)
    | _ \<Rightarrow> False"
proof -
  let ?tok = "TrimSpace (getenv (ad_tokenEnv (c_admin (rt_config rt))))"
  have "TrimSpace [] = []" by code_simp
  then have n: "?tok \<noteq> []" using assms(6) by metis
  obtain a2 e where r: "Reload E dir conf a = (a2, e)" by (rule prod.exhaust)
  have z: "(case e of None \<Rightarrow> a_current a2 \<noteq> None | Some _ \<Rightarrow> True) \<Longrightarrow> a1 = a2 \<and> (e = None \<longrightarrow> out = CtlReloaded) \<and> (e \<noteq> None \<longrightarrow> (\<exists>x. out = CtlFailed x))"
    using assms(1-3,5,7,8) r n bearer_authorized [where getenv = getenv, OF assms(4,6) refl]
    by (auto simp: reloadCommand_def admin_server_def adminHandler_def answer_of_def Let_def split: option.splits)
  show ?thesis
  proof (cases "Build E dir conf")
    case (Inl b)
    then have "e = Some b" "a_current a2 = a_current a" using r by (auto simp: Reload_def)
    then show ?thesis using z Inl by auto
  next
    case (Inr new)
    show ?thesis
    proof (cases "compatibleForHotReload (Some rt) (Some new)")
      case None
      then have "e = None" "a_current a2 = Some (new, New_logger)" using r Inr assms(4) by (auto simp: Reload_def)
      then show ?thesis using z Inr None by auto
    next
      case (Some x)
      then have "e = Some x" "a_current a2 = a_current a" using r Inr assms(4) by (auto simp: Reload_def)
      then show ?thesis using z Inr Some by auto
    qed
  qed
qed

text \<open>
  The help flags of the three daemons never reach the usage text: a first argument with a dash selects \<open>serve\<close>, whose flag
  set answers them with an error, and the program ends with a failure.
\<close>
theorem help_flags_fail:
  assumes "flag \<in> {''-h'', ''--help''}"
  shows "waf_run wh [flag] w = (w, WafFailed ErrHelp) \<and> control_run ch [flag] w = (w, ControlFailed ErrHelp) \<and> netd_run nh [flag] w = (w, NetdFailed ErrHelp)"
proof -
  have p: "flags_Parse fs [flag] = Inl ErrHelp" if "map_of fs ''h'' = None" "map_of fs ''help'' = None" for fs
    using assms that by (auto simp: classify_def split_flag_def)
  have c: "waf_command [flag] = (''serve'', [flag])" "plain_command [flag] = (''serve'', [flag])"
    using assms by (auto simp: waf_command_def plain_command_def HasPrefix_def)
  have "map_of control_flags ''h'' = None" "map_of control_flags ''help'' = None" by (simp_all add: control_flags_def)
  then show ?thesis by (simp add: waf_run_def waf_serve_def control_run_def control_serve_def netd_run_def netd_main_serve_def p c del: flags_Parse.simps)
qed

definition sample_waf_host :: waf_host where
  "sample_waf_host = \<lparr>wh_rd = sample_reader, wh_logs = (\<lambda>_ _. None), wh_can = (\<lambda>_. True),
     wh_hups = [sample_world [], (sample_world [])\<lparr>wo_files := []\<rparr>], wh_end = None, wh_shutdown = (\<lambda>_. None)\<rparr>"


theorem serve_closes_runtimes_witness:
  "\<exists>w1 b rts err. waf_run sample_waf_host [''-config=/c''] (sample_world []) = (w1, WafStopped b rts err)
     \<and> length rts = 2 \<and> list_all rt_closed rts \<and> mt_reloads (a_metrics b) = 1"
proof -
  let ?r = "waf_run sample_waf_host [''-config=/c''] (sample_world [])"
  have "case snd ?r of WafStopped b rts err \<Rightarrow> length rts = 2 | _ \<Rightarrow> False" by code_simp
  then obtain w1 b rts err where r: "?r = (w1, WafStopped b rts err)" "length rts = 2" by (cases ?r) (auto split: waf_outcome.splits)
  from serve_closes_runtimes [OF r(1)] r(2) have "list_all rt_closed rts" "(2 :: 64 word) = mt_reloads (a_metrics b) + 1" by auto
  then show ?thesis using r by (metis add_diff_cancel_right' diff_numeral_special(9) one_add_one)
qed

definition sample_nh :: netd_host where
  "sample_nh = \<lparr>nh_getenv = (\<lambda>k. if k = ''CHERRYWAF_NETWORK_DATA_DIR'' then nc_dataDir sample_nc else if k = ''CHERRYWAF_NETPLAN_PATH'' then nc_netplan sample_nc else []),
     nh_executable = Inr ''/usr/local/sbin/cherrywaf-netd'', nh_lookup = (\<lambda>_. Inr ''990''), nh_uid = 0, nh_euid = 0, nh_pid = 7, nh_fd = None, nh_end = None, nh_shutdown = None\<rparr>"

lemma sample_nh_daemon: "newDaemon sample_nh = Inr (sample_nc, ''/usr/local/sbin/cherrywaf-netd'')"
  by code_simp


text \<open>
  The environment of the daemon does not travel with the timer: the command line names the token but not the directories, and a
  process without the variables looks for the change in the default directory. It fails, and the change that nobody
  confirmed stays.
\<close>
theorem timer_needs_environment:
  "\<exists>d1 w e. newDaemon sample_nh = Inr (sample_nc, ''/usr/local/sbin/cherrywaf-netd'')
     \<and> netd_apply sample_nc sample_netd_io sample_plan (sample_netd []) = (d1, Inr sample_token)
     \<and> netd_run (sample_nh\<lparr>nh_getenv := \<lambda>_. []\<rparr>) (timer_arguments sample_token) (nd_world d1) = (w, NetdFailed e)
     \<and> running_netplan sample_nc w \<noteq> Some ''old''"
proof -
  let ?h = "sample_nh\<lparr>nh_getenv := \<lambda>_. []\<rparr>"
  have "case netd_apply sample_nc sample_netd_io sample_plan (sample_netd []) of
      (d1, Inr tok) \<Rightarrow> tok = sample_token \<and> (case netd_run ?h (timer_arguments sample_token) (nd_world d1) of
          (w, NetdFailed e) \<Rightarrow> running_netplan sample_nc w \<noteq> Some ''old'' | _ \<Rightarrow> False)
    | _ \<Rightarrow> False" by code_simp
  then obtain d1 where a: "netd_apply sample_nc sample_netd_io sample_plan (sample_netd []) = (d1, Inr sample_token)"
    "case netd_run ?h (timer_arguments sample_token) (nd_world d1) of (w, NetdFailed e) \<Rightarrow> running_netplan sample_nc w \<noteq> Some ''old'' | _ \<Rightarrow> False"
    by (auto split: prod.splits sum.splits)
  then obtain w e where "netd_run ?h (timer_arguments sample_token) (nd_world d1) = (w, NetdFailed e)" "running_netplan sample_nc w \<noteq> Some ''old''"
    by (auto split: prod.splits netd_outcome.splits)
  then show ?thesis using a(1) sample_nh_daemon by blast
qed

end
