(* ===== verification/Spec2Isabelle.thy ===== *)
theory Spec2Isabelle
  imports Service Control AtomicWrite Commands
begin

text \<open>
  CherryWAF is a web application firewall in front of HTTP services with a management plane beside it. The
  program has two halves. The service (\<open>src/internal/app\<close>, \<open>core\<close>, \<open>waf\<close>, \<open>bot\<close>, \<open>ratelimit\<close>, \<open>reputation\<close>,
  \<open>proxy\<close>, \<open>certstore\<close>, \<open>netutil\<close>, \<open>logging\<close>, \<open>metrics\<close>, \<open>config\<close>) builds a runtime from a configuration file, sends
  every public request through a fixed sequence of checks and forwards what passes to a server pool. The control
  plane (\<open>src/internal/control\<close>, \<open>src/cmd/cherrywaf-control\<close>, \<open>src/cmd/cherrywaf-netd\<close>, \<open>src/cmd/cherrywafctl\<close>) keeps accounts and sessions, changes
  configuration, rules, certificates and network settings as transactions on files, and asks the service to reload over its
  admin interface.

  \<^bold>\<open>Theories and sources.\<close>
  \<^item> \<open>Prelude\<close>, \<open>GoNet\<close>, \<open>GoHTTP\<close>: the parts of Go's library the sources use (strings, paths, time, addresses and prefixes,
    headers, URL escaping), as functions on byte strings; what depends on Unicode tables, regular expressions, URL and cookie
    parsing is the record \<open>golib\<close> of parameters. \<open>Prelude\<close> also has the errors-as-values loops \<open>fold_err\<close> and
    \<open>collect\<close>, reachability, and the locale \<open>invariant_system\<close>.
  \<^item> \<open>Config\<close>, \<open>Validate\<close>: \<open>config/config.go\<close>, its structs as records, the defaults and every validator with its errors.
  \<^item> \<open>RateLimit\<close>, \<open>Bot\<close>: \<open>ratelimit/limiter.go\<close> and \<open>bot/engine.go\<close>; both are interpretations of the locale \<open>keyed_gate\<close>.
  \<^item> \<open>NetUtil\<close>, \<open>Access\<close>: \<open>netutil/clientip.go\<close>, \<open>core/policy.go\<close> and \<open>reputation/store.go\<close>.
  \<^item> \<open>WAF\<close>: the files of \<open>waf/\<close>; the two percent decoders interpret the locale \<open>percent_decoder\<close>.
  \<^item> \<open>Pool\<close>, \<open>Proxy\<close>: the files of \<open>proxy/\<close>; every balancing algorithm interprets the locale \<open>balancer\<close>.
  \<^item> \<open>Hosts\<close>, \<open>CertStore\<close>, \<open>Runtime\<close>: host tables, \<open>certstore/store.go\<close>, \<open>core/runtime.go\<close>; both host tables
    interpret the locale \<open>wildcard_table\<close>.
  \<^item> \<open>Telemetry\<close>, \<open>Geo\<close>: \<open>metrics/metrics.go\<close>, \<open>logging/logger.go\<close>, \<open>app/threatmap.go\<close>; the ring of events interprets the
    locale \<open>bounded_log\<close>.
  \<^item> \<open>App\<close>, \<open>Service\<close>: \<open>app/app.go\<close>: the public handler stage by stage, the admission table it is to implement, reload,
    the admin interface, and the application as a transition system.
  \<^item> \<open>Password\<close>, \<open>Store\<close>, \<open>Control\<close>: \<open>control/password.go\<close>, \<open>store.go\<close>, \<open>types.go\<close> and \<open>controller.go\<close>: accounts,
    sessions, lockout and audit log as a transition system, the gate in front of every operation and the routing table.
  \<^item> \<open>Files\<close>: the machine the managers work on: files by path, what the reloaded service runs, and the faults the next
    calls meet; it also has the locale \<open>transactional\<close> of operations that succeed or leave everything as it was.
    \<open>Loading\<close>: \<open>config.Load\<close> and \<open>core.Validate\<close> on those files.
  \<^item> \<open>AtomicWrite\<close>: the calls inside \<open>writeAtomic\<close> one by one, with other writers between them, failing calls and
    partial writes, and the refinement of the single step that \<open>Files\<close> takes.
  \<^item> \<open>Deploy\<close>, \<open>Rules\<close>, \<open>Certs\<close>, \<open>Backup\<close>: \<open>control/config_manager.go\<close>, \<open>rules_manager.go\<close>, \<open>certificates.go\<close>, \<open>backup.go\<close>;
    applies (\<open>Deploy\<close>) and uploads (\<open>Certs\<close>) interpret \<open>transactional\<close>.
  \<^item> \<open>Network\<close>, \<open>Netd\<close>: \<open>control/network.go\<close> and the daemon \<open>cmd/cherrywaf-netd/main.go\<close>.
  \<^item> \<open>Plane\<close>: the HTTP handlers of the managers behind the gate of \<open>Control\<close>, on the machine of the control plane and the
    machine of the daemon; \<open>Client\<close>: \<open>control/client.go\<close> composed with the admin interface of \<open>Service\<close>.
  \<^item> \<open>CtlTool\<close>: the operations of \<open>cmd/cherrywafctl/main.go\<close> on certificates and virtual hosts.
  \<^item> \<open>Flags\<close>, \<open>Commands\<close>: Go's \<open>flag\<close> package as far as the programs use it, and \<open>main.go\<close> of the four programs: the command that
    the arguments select, its flags, start, signals and the end of serving, over the components above.

  \<^bold>\<open>How the model corresponds to the code.\<close> A struct is a record, a Go error is a value of \<open>go_error\<close>, a function that may fail
  returns a sum with the error on the left, a method that changes its receiver returns it. State behind a mutex is passed
  along one operation at a time; where the code releases the lock within an operation (a login checks the password
  between two critical sections, the rollback timer is another process) the pieces are separate definitions and the theorems
  speak of their interleavings. Integers that can wrap (metrics, health counters, the round-robin counter, hashes, addresses)
  are words; the rest are bounded by validation and are \<open>int\<close>; floating-point token counts are exact rationals.

  \<^bold>\<open>Faults.\<close> Every call of the managers and the daemon to the file system, to a command or to the service takes the next
  entry of a list of faults. \<open>calm\<close> says no call fails, \<open>one_fault\<close> that at most one does. In this model a write is one step;
  \<open>AtomicWrite\<close> shows that the calls of \<open>writeAtomic\<close> (directory, temporary file, mode, data, sync, close, rename) amount to that step, and that
  concurrent writes take effect one after the other at their renames. File modes and owners are not part of the state.

  \<^bold>\<open>What the lemmas show.\<close> The service: what is forwarded passed every check in order (\<open>Service\<close>), the WAF score and decision,
  what is decoded before inspection (\<open>WAF\<close>), rates (\<open>RateLimit\<close>), fairness and soundness of member selection, retries and health
  (\<open>Pool\<close>, \<open>Proxy\<close>), routing and certificates as configured (\<open>Runtime\<close>), reload as a transaction. The control plane: sessions, roles
  and CSRF in front of every change (\<open>Control\<close>), every change on record (\<open>Plane\<close>), an administrator always left (\<open>Store\<close>), the bound on
  guessed passwords, configuration, rules, certificates, backups and network settings all or nothing under a fault with
  their round trips, what a history of accepted and refused changes amounts to, linearizable writes (\<open>AtomicWrite\<close>), the
  dead-man's switch of the network daemon down to the command line its timer runs (\<open>Netd\<close>, \<open>Commands\<close>), and the reload end to end
  (\<open>Client\<close>). The programs: the verdict of \<open>validate-config\<close> is the one of the service that starts, and a service that stops has
  closed every runtime it ever ran (\<open>Commands\<close>).

  \<^bold>\<open>Loops and fuel.\<close> Loops over lists are structural recursion. The loop over PEM blocks of \<open>ParseLeafCertificate\<close> has the length
  of the input as fuel, which is enough because every block the decoder returns leaves a shorter rest. Server loops (cleanup ticks,
  requests, reloads, sessions) are step relations.

  \<^bold>\<open>Assumed of libraries.\<close> JSON, ZIP, regular expressions, X.509, HMAC, the clock, random identifiers and the network are parameters; a
  theorem that needs something of them says so (decoding gives back what was encoded; the rest after a PEM block is shorter).

  \<^bold>\<open>Not modelled.\<close> The net/http servers with their TLS settings and timeouts, the bytes of \<open>httputil.ReverseProxy\<close>, the schedule of
  health checks and cleanup ticks, the opening of log files (whether they open is a parameter), the JSON text of answers and the
  embedded web assets (\<open>control/assets.go\<close>): input and output around the operations above. The peer credentials of the daemon's
  socket, the interfaces of the host, the account database, the environment and the errors of listening and shutting down are
  arguments of the definitions that use them.
\<close>

end
